(* ===== verification/Prelude.thy ===== *)
theory Prelude
  imports Complex_Main "HOL-Library.AList" "HOL-Library.FSet" "HOL-Library.Char_ord"
    "HOL-Library.List_Lexorder"
begin

text \<open>
  Shared vocabulary of the development: the numbers and identifiers of the Python code, its
  exceptions as values, its insertion-ordered dictionaries as association lists, and its loops
  that mutate the elements of a collection while they thread further state.

  Python numbers (\<open>int\<close> and \<open>float\<close>, which the code mixes freely in coordinates,
  speeds and clock readings) are exact rationals: rounding, infinities and NaN are not modelled.
\<close>

type_synonym flt = rat
type_synonym ident = string

named_theorems wf_intros \<open>rules that establish the well-formedness invariants\<close>
named_theorems frame_simps \<open>fields an operation leaves unchanged\<close>

subsection \<open>Exceptions as values\<close>

text \<open>
  One constructor per exception class the code raises or lets escape from a dictionary.
  \<open>IllTyped\<close> is not an exception of the code: it marks the places where Python goes on with
  an object whose attribute has another type than the one declared, which the typed records of
  the model cannot hold.
\<close>

datatype py_error =
    ValueError string
  | KeyError string
  | TypeError string
  | EnemyNotFoundError string
  | RosterValidationError string
  | MessageValidationError string
  | DeserializationError string
  | AttributeError string
  | TimeoutError string
  | AssertionError string
  | OSError string
  | RuntimeError string
  | IllTyped string

type_synonym 'a result = "py_error + 'a"

definition rbind :: "'a result \<Rightarrow> ('a \<Rightarrow> 'b result) \<Rightarrow> 'b result" where
  "rbind m f = (case m of Inl e \<Rightarrow> Inl e | Inr a \<Rightarrow> f a)"

lemma rbind_simps [simp]:
  "rbind (Inl e) f = Inl e"
  "rbind (Inr a) f = f a"
  by (simp_all add: rbind_def)

lemma rbind_Inr_iff: "rbind m f = Inr b \<longleftrightarrow> (\<exists>a. m = Inr a \<and> f a = Inr b)"
  by (cases m) auto

lemma rbind_cong [fundef_cong]:
  "m = m' \<Longrightarrow> (\<And>a. m' = Inr a \<Longrightarrow> f a = g a) \<Longrightarrow> rbind m f = rbind m' g"
  by (cases m') auto

text \<open>A \<^verbatim>\<open>for\<close> loop whose body may raise: the state is threaded through the items.\<close>

fun fold_res :: "('a \<Rightarrow> 's \<Rightarrow> 's result) \<Rightarrow> 'a list \<Rightarrow> 's \<Rightarrow> 's result" where
  "fold_res f [] s = Inr s"
| "fold_res f (a # as) s = rbind (f a s) (fold_res f as)"

lemma fold_res_inv:
  assumes "fold_res f as s = Inr s'" and "P s"
    and "\<And>a t t'. a \<in> set as \<Longrightarrow> P t \<Longrightarrow> f a t = Inr t' \<Longrightarrow> P t'"
  shows "P s'"
  using assms by (induction as arbitrary: s) (auto simp: rbind_Inr_iff)

lemma fold_res_map: "fold_res f (map g as) s = fold_res (\<lambda>a. f (g a)) as s"
proof (induction as arbitrary: s)
  case Nil
  then show ?case by simp
next
  case (Cons a as)
  then show ?case by (cases "f (g a) s") simp_all
qed

text \<open>Total correctness of such a loop: every step succeeds and keeps a relation to the start.\<close>

lemma fold_res_total:
  assumes "P s"
    and "\<And>a t. a \<in> set as \<Longrightarrow> P t \<Longrightarrow> \<exists>t'. f a t = Inr t' \<and> P t'"
  shows "\<exists>s'. fold_res f as s = Inr s' \<and> P s'"
  using assms
proof (induction as arbitrary: s)
  case Nil
  then show ?case by simp
next
  case (Cons a as)
  obtain t where "f a s = Inr t" "P t"
    using Cons.prems by (meson list.set_intros(1))
  moreover have "\<exists>s'. fold_res f as t = Inr s' \<and> P s'"
    using Cons.IH [OF \<open>P t\<close>] Cons.prems(2) by (meson list.set_intros(2))
  ultimately show ?case by simp
qed

text \<open>
  A loop that mutates every element of a collection in place while it threads state: it
  returns the collection, with each element replaced where it stood, and the final state.
\<close>

fun map_accum :: "('a \<Rightarrow> 's \<Rightarrow> ('a \<times> 's) result) \<Rightarrow> 'a list \<Rightarrow> 's \<Rightarrow> ('a list \<times> 's) result" where
  "map_accum f [] s = Inr ([], s)"
| "map_accum f (a # as) s =
     rbind (f a s) (\<lambda>(a', s1). rbind (map_accum f as s1) (\<lambda>(as', s2). Inr (a' # as', s2)))"

text \<open>
  The rule every such loop is proved by: a state invariant \<open>P\<close>, a relation \<open>R\<close> between an
  element before and after, and progress of the body give all three for the loop.
\<close>

lemma map_accum_total:
  assumes "P s"
    and "\<And>a t. a \<in> set as \<Longrightarrow> P t \<Longrightarrow> \<exists>a' t'. f a t = Inr (a', t') \<and> R a a' \<and> P t'"
  shows "\<exists>as' s'. map_accum f as s = Inr (as', s') \<and> list_all2 R as as' \<and> P s'"
  using assms
proof (induction as arbitrary: s)
  case Nil
  then show ?case by simp
next
  case (Cons a as)
  obtain a' t where *: "f a s = Inr (a', t)" "R a a'" "P t"
    using Cons.prems by (meson list.set_intros(1))
  moreover obtain as' s' where "map_accum f as t = Inr (as', s')" "list_all2 R as as'" "P s'"
    using Cons.IH [OF *(3)] Cons.prems(2) by (meson list.set_intros(2))
  ultimately show ?case by simp
qed

text \<open>A comprehension whose element expression may raise.\<close>

fun map_res :: "('a \<Rightarrow> 'b result) \<Rightarrow> 'a list \<Rightarrow> 'b list result" where
  "map_res f [] = Inr []"
| "map_res f (a # as) = rbind (f a) (\<lambda>b. rbind (map_res f as) (\<lambda>bs. Inr (b # bs)))"

lemma map_res_Inr_iff: "map_res f as = Inr bs \<longleftrightarrow> list_all2 (\<lambda>a b. f a = Inr b) as bs"
  by (induction as arbitrary: bs) (auto simp: rbind_Inr_iff list_all2_Cons1)

lemma map_res_total:
  assumes "\<And>a. a \<in> set as \<Longrightarrow> \<exists>b. f a = Inr b \<and> R a b"
  shows "\<exists>bs. map_res f as = Inr bs \<and> list_all2 R as bs"
  using assms by (induction as) fastforce+

lemma map_res_map_id: "(\<And>a. a \<in> set as \<Longrightarrow> f (g a) = Inr a) \<Longrightarrow> map_res f (map g as) = Inr as"
  by (induction as) auto

text \<open>A mutation of the first element that satisfies a test.\<close>

fun update_first :: "('a \<Rightarrow> bool) \<Rightarrow> ('a \<Rightarrow> 'a) \<Rightarrow> 'a list \<Rightarrow> 'a list" where
  "update_first P f [] = []"
| "update_first P f (x # xs) = (if P x then f x # xs else x # update_first P f xs)"

lemma map_update_first: "(\<And>x. g (f x) = g x) \<Longrightarrow> map g (update_first P f xs) = map g xs"
  by (induction xs) auto

lemma set_update_first: "set (update_first P f xs) \<subseteq> set xs \<union> f ` set xs"
  by (induction xs) auto

subsection \<open>Dictionaries\<close>

text \<open>
  A Python \<^verbatim>\<open>dict\<close> iterates in insertion order, and the engine's tie-breaks depend on it,
  so a dictionary is an association list: \<^const>\<open>map_of\<close> looks a key up,
  \<^const>\<open>AList.update\<close> stores in place or appends, \<^const>\<open>AList.delete\<close> removes.
\<close>

type_synonym 'a dict = "(ident \<times> 'a) list"

abbreviation dict_keys :: "('k \<times> 'a) list \<Rightarrow> 'k list" where
  "dict_keys d \<equiv> map fst d"

abbreviation dict_values :: "('k \<times> 'a) list \<Rightarrow> 'a list" where
  "dict_values d \<equiv> map snd d"

lemma update_fresh: "c \<notin> fst ` set xs \<Longrightarrow> AList.update c v xs = xs @ [(c, v)]"
  by (induction xs) auto

text \<open>A dictionary comprehension \<^verbatim>\<open>{key(v): v for v in vs}\<close>: a later value wins, in the
  place of the first.\<close>

definition dict_by :: "('a \<Rightarrow> 'k) \<Rightarrow> 'a list \<Rightarrow> ('k \<times> 'a) list" where
  "dict_by key vs = fold (\<lambda>v. AList.update (key v) v) vs []"

text \<open>A loop over \<^verbatim>\<open>d.values()\<close> that mutates each value on its own.\<close>

definition map_vals :: "('a \<Rightarrow> 'b) \<Rightarrow> ('k \<times> 'a) list \<Rightarrow> ('k \<times> 'b) list" where
  "map_vals f d = map (\<lambda>(k, v). (k, f v)) d"

lemma map_vals_simps [simp]:
  "map_vals f [] = []"
  "map_vals f ((k, v) # d) = (k, f v) # map_vals f d"
  by (simp_all add: map_vals_def)

lemma dict_keys_map_vals [simp]: "dict_keys (map_vals f d) = dict_keys d"
  by (induction d) auto

lemma fst_set_map_vals [simp]: "fst ` set (map_vals f d) = fst ` set d"
  by (force simp: map_vals_def)

lemma length_map_vals [simp]: "length (map_vals f d) = length d"
  by (simp add: map_vals_def)

lemma map_of_map_vals [simp]: "map_of (map_vals f d) k = map_option f (map_of d k)"
  by (induction d) auto

lemma set_map_vals: "set (map_vals f d) = (\<lambda>(k, v). (k, f v)) ` set d"
  by (simp add: map_vals_def)

lemma map_vals_ident [simp]: "map_vals (\<lambda>v. v) d = d"
  by (induction d) auto

lemma map_vals_id_on: "(\<And>v. v \<in> snd ` set d \<Longrightarrow> f v = v) \<Longrightarrow> map_vals f d = d"
  by (induction d) auto

lemma set_AList_update:
  "set (AList.update k v d) \<subseteq> insert (k, v) (set d)"
  by (induction d) auto

lemma set_AList_delete: "set (AList.delete k d) = {(k', v) \<in> set d. k' \<noteq> k}"
  by (auto simp: AList.delete_eq)

text \<open>Every value sits under its own identifier, and no identifier occurs twice.\<close>

definition keyed :: "('a \<Rightarrow> 'k) \<Rightarrow> ('k \<times> 'a) list \<Rightarrow> bool" where
  "keyed f d \<longleftrightarrow> distinct (dict_keys d) \<and> (\<forall>(k, v) \<in> set d. f v = k)"

lemma keyed_distinct: "keyed f d \<Longrightarrow> distinct (dict_keys d)"
  by (simp add: keyed_def)

lemma keyedD: "keyed f d \<Longrightarrow> (k, v) \<in> set d \<Longrightarrow> f v = k"
  by (auto simp: keyed_def)

lemma keyed_Nil [simp, wf_intros]: "keyed f []"
  by (simp add: keyed_def)

lemma keyed_Cons [simp]:
  "keyed f ((k, v) # d) \<longleftrightarrow> f v = k \<and> k \<notin> fst ` set d \<and> keyed f d"
  by (auto simp: keyed_def)

lemma fst_set_AList_delete [simp]: "fst ` set (AList.delete k d) = fst ` set d - {k}"
  by (force simp: set_AList_delete)

lemma keyed_update [wf_intros]: "keyed f d \<Longrightarrow> f v = k \<Longrightarrow> keyed f (AList.update k v d)"
  using set_AList_update [of k v d] by (fastforce simp: keyed_def AList.distinct_update)

lemma keyed_delete [wf_intros]: "keyed f d \<Longrightarrow> keyed f (AList.delete k d)"
  by (auto simp: keyed_def AList.distinct_delete set_AList_delete)

lemma keyed_map_vals [wf_intros]:
  "keyed f d \<Longrightarrow> (\<And>v. f (g v) = f v) \<Longrightarrow> keyed f (map_vals g d)"
  by (auto simp: keyed_def set_map_vals)

lemma keyed_map_of: "keyed f d \<Longrightarrow> map_of d k = Some v \<Longrightarrow> f v = k"
  by (auto dest: map_of_SomeD keyedD)

lemma keyed_map_of_in: "keyed f d \<Longrightarrow> (k, v) \<in> set d \<Longrightarrow> map_of d k = Some v"
  by (simp add: keyed_def)

text \<open>The values of a keyed dictionary list its keys.\<close>

lemma keyed_values: "keyed f d \<Longrightarrow> map f (dict_values d) = dict_keys d"
  by (auto simp: keyed_def)

lemma keyed_values_distinct: "keyed f d \<Longrightarrow> distinct (map f (dict_values d))"
  by (simp only: keyed_values keyed_distinct)

lemma keyed_values_set: "keyed f d \<Longrightarrow> f ` set (dict_values d) = fst ` set d"
  by (metis keyed_values list.set_map)

lemma keyed_dict_by [wf_intros]: "keyed f (dict_by f vs)"
proof -
  have "keyed f d \<Longrightarrow> keyed f (fold (\<lambda>v. AList.update (f v) v) vs d)" for d
    by (induction vs arbitrary: d) (auto intro: keyed_update)
  then show ?thesis by (simp add: dict_by_def)
qed

text \<open>A loop over the entries keeps the keys when its body does.\<close>

lemma list_all2_fst_keys:
  "list_all2 (\<lambda>a a'. fst a' = fst a) as as' \<Longrightarrow> map fst as' = map fst as"
  by (induction as as' rule: list_all2_induct) auto

lemma keyed_list_all2:
  assumes "keyed f d" and "list_all2 (\<lambda>a a'. fst a' = fst a \<and> f (snd a') = f (snd a)) d d'"
  shows "keyed f d'"
proof -
  have "map fst d' = map fst d"
    using assms(2) by (auto intro: list_all2_fst_keys elim: list_all2_mono)
  moreover have "f v' = k" if kv: "(k, v') \<in> set d'" for k v'
  proof -
    obtain i where "i < length d'" "d' ! i = (k, v')"
      using kv by (meson in_set_conv_nth)
    then have "d ! i \<in> set d" "fst (d ! i) = k" "f (snd (d ! i)) = f v'"
      using assms(2) by (auto simp: list_all2_conv_all_nth)
    then show ?thesis
      using assms(1) by (metis keyedD prod.collapse)
  qed
  ultimately show ?thesis
    using assms(1) by (auto simp: keyed_def)
qed

subsection \<open>Numbers\<close>

text \<open>\<^verbatim>\<open>max(lo, min(x, hi))\<close>\<close>

definition clamp :: "flt \<Rightarrow> flt \<Rightarrow> flt \<Rightarrow> flt" where
  "clamp lo x hi = max lo (min x hi)"

lemma clamp_bounds: "lo \<le> hi \<Longrightarrow> lo \<le> clamp lo x hi \<and> clamp lo x hi \<le> hi"
  by (simp add: clamp_def)

lemma clamp_id: "lo \<le> x \<Longrightarrow> x \<le> hi \<Longrightarrow> clamp lo x hi = x"
  by (simp add: clamp_def)

subsection \<open>Decimal numerals\<close>

text \<open>\<^verbatim>\<open>str(n)\<close> of an integer, which the code uses through f-strings.\<close>

definition digit_char :: "nat \<Rightarrow> char" where
  "digit_char d = char_of (48 + d)"

definition char_digit :: "char \<Rightarrow> nat" where
  "char_digit c = of_char c - 48"

fun str_nat :: "nat \<Rightarrow> string" where
  "str_nat n = (if n < 10 then [digit_char n] else str_nat (n div 10) @ [digit_char (n mod 10)])"

declare str_nat.simps [simp del]

definition str_int :: "int \<Rightarrow> string" where
  "str_int i = (if i < 0 then CHR ''-'' # str_nat (nat (- i)) else str_nat (nat i))"

definition parse_nat :: "string \<Rightarrow> nat" where
  "parse_nat s = foldl (\<lambda>a c. 10 * a + char_digit c) 0 s"

lemma char_digit_digit_char [simp]: "d < 10 \<Longrightarrow> char_digit (digit_char d) = d"
  by (simp add: char_digit_def digit_char_def)

lemma parse_str_nat [simp]: "parse_nat (str_nat n) = n"
proof (induction n rule: str_nat.induct)
  case (1 n)
  then show ?case
    by (subst str_nat.simps) (simp add: parse_nat_def)
qed

lemma str_nat_inj [simp]: "str_nat m = str_nat n \<longleftrightarrow> m = n"
  by (metis parse_str_nat)

lemma digit_char_not_minus: "d < 10 \<Longrightarrow> digit_char d \<noteq> CHR ''-''"
proof
  assume "d < 10" "digit_char d = CHR ''-''"
  then have "of_char (digit_char d) = (of_char (CHR ''-'') :: nat)" by simp
  with \<open>d < 10\<close> show False by (simp add: digit_char_def)
qed

lemma str_nat_not_Nil [simp]: "str_nat n \<noteq> []"
  by (subst str_nat.simps) simp

lemma hd_str_nat: "hd (str_nat n) \<noteq> CHR ''-''"
proof (induction n rule: str_nat.induct)
  case (1 n)
  then show ?case
    by (subst str_nat.simps) (auto simp: digit_char_not_minus)
qed

lemma str_int_inj [simp]: "str_int i = str_int j \<longleftrightarrow> i = j"
proof -
  have "CHR ''-'' # s \<noteq> str_nat n" for s n
    by (metis hd_str_nat list.sel(1))
  then show ?thesis
    by (auto simp: str_int_def dest: sym)
qed

end
