(* ===== verification/Config.thy ===== *)
theory Config
  imports Prelude
begin

text \<open>
  The constants and enumerations of \<^verbatim>\<open>shared/config.py\<close>, \<^verbatim>\<open>shared/enums.py\<close> and
  \<^verbatim>\<open>shared/input.py\<close>, and the canonical player identifiers.
\<close>

subsection \<open>shared/config.py\<close>

definition DEFAULT_HOST :: ident where "DEFAULT_HOST = ''127.0.0.1''"
definition UDP_MAX_PACKET_SIZE :: int where "UDP_MAX_PACKET_SIZE = 65535"
definition DEFAULT_PACKET_DROP_RATE :: flt where "DEFAULT_PACKET_DROP_RATE = 0"
definition HOST_UDP_PORT :: int where "HOST_UDP_PORT = 50010"
definition HOST_PLAYER_ID :: ident where "HOST_PLAYER_ID = ''player1''"

definition player_id_for :: "int \<Rightarrow> ident" where
  "player_id_for join_index = ''player'' @ str_int (join_index + 1)"

definition LOBBY_WS_PORT :: int where "LOBBY_WS_PORT = 50002"
definition GAME_EVENT_WS_PORT :: int where "GAME_EVENT_WS_PORT = 50003"
definition GAME_EVENT_WS_PATH :: string where "GAME_EVENT_WS_PATH = ''/game-events''"
definition UDP_INPUT_TIMEOUT :: flt where "UDP_INPUT_TIMEOUT = 10"

definition TICK_RATE :: flt where "TICK_RATE = 60"
definition TICK_INTERVAL :: flt where "TICK_INTERVAL = 1 / TICK_RATE"
definition SNAPSHOT_TIMEOUT :: flt where "SNAPSHOT_TIMEOUT = 15 / 100"
definition MAX_EXTRAPOLATION_TIME :: flt where "MAX_EXTRAPOLATION_TIME = 35 / 100"

definition WORLD_SCALE :: flt where "WORLD_SCALE = 15 / 10"

text \<open>Python's \<^verbatim>\<open>int(f)\<close> truncates towards zero.\<close>

definition py_int :: "flt \<Rightarrow> int" where
  "py_int f = (if f < 0 then \<lceil>f\<rceil> else \<lfloor>f\<rfloor>)"

definition HOST_TIMEOUT_S :: flt where "HOST_TIMEOUT_S = 5"
definition T_ELECTION_BASE_S :: flt where "T_ELECTION_BASE_S = 5 / 10"
definition T_ELECTION_DELTA_S :: flt where "T_ELECTION_DELTA_S = 3 / 10"
definition ELECTION_CLAIM_TIMEOUT_S :: flt where "ELECTION_CLAIM_TIMEOUT_S = 2"
definition HOST_VERIFY_TIMEOUT_S :: flt where "HOST_VERIFY_TIMEOUT_S = 10"
definition HOST_VERIFY_RESEND_INTERVAL_S :: flt where "HOST_VERIFY_RESEND_INTERVAL_S = 5 / 10"
definition RECONNECTION_FALLBACK_TIMEOUT_S :: flt where "RECONNECTION_FALLBACK_TIMEOUT_S = 4"

definition PLAYER_WIDTH :: flt where "PLAYER_WIDTH = of_int (py_int (50 * WORLD_SCALE))"
definition PLAYER_HEIGHT :: flt where "PLAYER_HEIGHT = of_int (py_int (50 * WORLD_SCALE))"
definition ENEMY_HEIGHT :: flt where "ENEMY_HEIGHT = of_int (py_int (34 * WORLD_SCALE))"
definition ENEMY_WIDTH :: flt where "ENEMY_WIDTH = of_int (py_int (34 * WORLD_SCALE))"

definition MAX_PLAYERS :: int where "MAX_PLAYERS = 4"
definition RESPAWN_DELAY_S :: flt where "RESPAWN_DELAY_S = 3"

definition INPUT_HISTORY_SIZE :: nat where "INPUT_HISTORY_SIZE = 60"
definition PREDICTION_LEAD_EWMA_ALPHA :: flt where "PREDICTION_LEAD_EWMA_ALPHA = 1 / 100"
definition PREDICTION_LEAD_CALIBRATION_FRAMES :: int where "PREDICTION_LEAD_CALIBRATION_FRAMES = 120"
definition PREDICTION_LEAD_DRIFT_TOLERANCE :: flt where "PREDICTION_LEAD_DRIFT_TOLERANCE = 3"
definition RECONCILE_GLIDE_RATE :: flt where "RECONCILE_GLIDE_RATE = 3 / 10"
definition RECONCILE_MAX_GLIDE_PX :: flt where "RECONCILE_MAX_GLIDE_PX = 8"

lemma player_id_for_inj [simp]: "player_id_for i = player_id_for j \<longleftrightarrow> i = j"
  by (simp add: player_id_for_def)

lemma player_id_for_not_Nil [simp]: "player_id_for i \<noteq> []"
  by (simp add: player_id_for_def)

lemma player_ids: "player_id_for 0 = ''player1''" "player_id_for 1 = ''player2''"
    "player_id_for 2 = ''player3''" "player_id_for 3 = ''player4''"
  by code_simp+

lemma world_sizes:
  "PLAYER_WIDTH = 75" "PLAYER_HEIGHT = 75" "ENEMY_WIDTH = 51" "ENEMY_HEIGHT = 51"
  by (simp_all add: PLAYER_WIDTH_def PLAYER_HEIGHT_def ENEMY_WIDTH_def ENEMY_HEIGHT_def
      WORLD_SCALE_def py_int_def)

subsection \<open>shared/enums.py\<close>

datatype player_role = HOST | CLIENT

datatype node_state = IDLE | IN_LOBBY | IN_GAME | RECOVERING

datatype connection_status = CONNECTED | DISCONNECTED

fun connection_status_value :: "connection_status \<Rightarrow> string" where
  "connection_status_value CONNECTED = ''connected''"
| "connection_status_value DISCONNECTED = ''disconnected''"

text \<open>\<^verbatim>\<open>ConnectionStatus(s)\<close>: the member with this value, or \<^verbatim>\<open>ValueError\<close>.\<close>

definition connection_status_of :: "string \<Rightarrow> connection_status result" where
  "connection_status_of s =
     (if s = ''connected'' then Inr CONNECTED
      else if s = ''disconnected'' then Inr DISCONNECTED
      else Inl (ValueError s))"

lemma connection_status_of_value [simp]: "connection_status_of (connection_status_value c) = Inr c"
  by (cases c) (simp_all add: connection_status_of_def)

subsection \<open>shared/input.py\<close>

record input_state =
  left :: bool
  right :: bool
  jump :: bool
  down :: bool

definition no_input :: input_state where
  "no_input = \<lparr>left = False, right = False, jump = False, down = False\<rparr>"

end
