(* ===== verification/Entities.thy ===== *)
theory Entities
  imports Config
begin

text \<open>
  The entities of \<^verbatim>\<open>domain/entity.py\<close>, the domain events of \<^verbatim>\<open>domain/events.py\<close>, the
  level containers of \<^verbatim>\<open>domain/level.py\<close> and the node life cycle of
  \<^verbatim>\<open>domain/lifecycle.py\<close>.

  The collision code is duck-typed: it reads the four attributes \<^verbatim>\<open>x\<close>, \<^verbatim>\<open>y\<close>,
  \<^verbatim>\<open>width\<close>, \<^verbatim>\<open>height\<close> of whatever it is given.  Here these four form the record
  \<open>body\<close>, which every entity extends, so that the same functions apply to all of them.
\<close>

subsection \<open>Domain events\<close>

datatype event =
    BlockDestroyedEvent "flt \<times> flt"
  | PowerUpCollectedEvent ident ident
  | GateStateChangedEvent ident string
  | PlayerDeathEvent ident ident
  | LevelResetEvent

subsection \<open>Entities\<close>

record body =
  pos_x :: flt
  pos_y :: flt
  width :: flt
  height :: flt

type_synonym platform = body

record block = body +
  destroyed :: bool

record powerup = body +
  powerup_id :: ident
  collected :: bool
  owner :: "ident option"

record gate = body +
  gate_id :: ident
  gate_state :: string
  contributions :: "ident fset"
  coins_required :: int
  blocks_required :: int
  enemies_required :: int
  is_final :: bool

datatype enemy_type = KOOPA | GOOMBA

record enemy = body +
  enemy_id :: ident
  enemy_vx :: flt
  left_bound :: flt
  right_bound :: flt
  movement_speed :: "flt option"
  enemy_type :: enemy_type

record player = body +
  player_id :: ident
  vx :: flt
  vy :: flt
  on_ground :: bool
  is_crouching :: bool
  prev_x :: flt
  prev_y :: flt
  join_index :: int
  powerup_effect_expires_at :: "flt option"

text \<open>A freshly constructed player: every attribute not passed has its default.\<close>

definition new_player :: "ident \<Rightarrow> flt \<Rightarrow> flt \<Rightarrow> int \<Rightarrow> player" where
  "new_player pid x y ji =
     \<lparr>pos_x = x, pos_y = y, width = PLAYER_WIDTH, height = PLAYER_HEIGHT,
      player_id = pid, vx = 0, vy = 0, on_ground = False, is_crouching = False,
      prev_x = 0, prev_y = 0, join_index = ji, powerup_effect_expires_at = None\<rparr>"

fun enemy_type_value :: "enemy_type \<Rightarrow> string" where
  "enemy_type_value KOOPA = ''koopa''"
| "enemy_type_value GOOMBA = ''goomba''"

definition enemy_type_of :: "string \<Rightarrow> enemy_type result" where
  "enemy_type_of s =
     (if s = ''koopa'' then Inr KOOPA else if s = ''goomba'' then Inr GOOMBA
      else Inl (ValueError s))"

lemma enemy_type_of_value [simp]: "enemy_type_of (enemy_type_value t) = Inr t"
  by (cases t) (simp_all add: enemy_type_of_def)

text \<open>The constructor of an enemy with its \<^verbatim>\<open>__post_init__\<close>.\<close>

definition mk_enemy ::
  "ident \<Rightarrow> flt \<Rightarrow> flt \<Rightarrow> flt \<Rightarrow> flt \<Rightarrow> flt \<Rightarrow> flt \<Rightarrow> flt \<Rightarrow> flt option \<Rightarrow> string \<Rightarrow> enemy result" where
  "mk_enemy eid x y w h v lb rb speed ty =
     rbind (enemy_type_of ty) (\<lambda>t.
       Inr \<lparr>pos_x = x, pos_y = y, width = w, height = h, enemy_id = eid, enemy_vx = v,
            left_bound = lb, right_bound = rb,
            movement_speed = (case speed of None \<Rightarrow> Some \<bar>v\<bar> | Some s \<Rightarrow> Some s),
            enemy_type = t\<rparr>)"

subsection \<open>Entity methods\<close>

definition block_destroy :: "block \<Rightarrow> (event \<times> block) result" where
  "block_destroy b =
     (if destroyed b then Inl (ValueError ''block is already destroyed'')
      else Inr (BlockDestroyedEvent (pos_x b, pos_y b), b\<lparr>destroyed := True\<rparr>))"

definition powerup_collect :: "ident \<Rightarrow> powerup \<Rightarrow> (event \<times> powerup) result" where
  "powerup_collect pid u =
     (if collected u then Inl (ValueError ''power-up is already collected'')
      else Inr (PowerUpCollectedEvent (powerup_id u) pid,
                u\<lparr>collected := True, owner := Some pid\<rparr>))"

definition gate_update_state :: "bool \<Rightarrow> gate \<Rightarrow> event option \<times> gate" where
  "gate_update_state should_be_open g =
     (let new_state = (if should_be_open then ''open'' else ''closed'') in
      if new_state = gate_state g then (None, g)
      else (Some (GateStateChangedEvent (gate_id g) new_state), g\<lparr>gate_state := new_state\<rparr>))"

lemma block_destroy_fresh [simp]:
  "\<not> destroyed b \<Longrightarrow>
     block_destroy b = Inr (BlockDestroyedEvent (pos_x b, pos_y b), b\<lparr>destroyed := True\<rparr>)"
  by (simp add: block_destroy_def)

lemma powerup_collect_fresh [simp]:
  "\<not> collected u \<Longrightarrow>
     powerup_collect pid u = Inr (PowerUpCollectedEvent (powerup_id u) pid,
                                  u\<lparr>collected := True, owner := Some pid\<rparr>)"
  by (simp add: powerup_collect_def)

lemma gate_update_state_gate:
  "snd (gate_update_state b g) = g\<lparr>gate_state := (if b then ''open'' else ''closed'')\<rparr>"
  by (auto simp: gate_update_state_def Let_def)

subsection \<open>Levels\<close>

record spawn_point =
  spawn_x :: int
  spawn_y :: int

record decoration = body +
  decoration_kind :: string

record level =
  level_platforms :: "platform list"
  level_blocks :: "block list"
  level_powerups :: "powerup list"
  level_enemies :: "enemy list"
  level_gates :: "gate list"
  level_spawn_points :: "spawn_point list"
  level_decorations :: "decoration list"
  level_coins_to_win :: int
  level_blocks_to_win :: int
  level_enemies_to_win :: int
  level_width :: int
  level_height :: int

subsection \<open>Node life cycle\<close>

record node_lifecycle =
  lifecycle_state :: node_state

definition move_to_idle :: "node_lifecycle \<Rightarrow> node_lifecycle" where
  "move_to_idle l = l\<lparr>lifecycle_state := IDLE\<rparr>"

definition move_to_lobby :: "node_lifecycle \<Rightarrow> node_lifecycle" where
  "move_to_lobby l = l\<lparr>lifecycle_state := IN_LOBBY\<rparr>"

definition move_to_game :: "node_lifecycle \<Rightarrow> node_lifecycle" where
  "move_to_game l = l\<lparr>lifecycle_state := IN_GAME\<rparr>"

definition move_to_recovering :: "node_lifecycle \<Rightarrow> node_lifecycle" where
  "move_to_recovering l = l\<lparr>lifecycle_state := RECOVERING\<rparr>"

definition is_started :: "node_lifecycle \<Rightarrow> bool" where
  "is_started l \<longleftrightarrow> lifecycle_state l = IN_GAME"

end
