(* ===== verification/Physics.thy ===== *)
theory Physics
  imports Entities
begin

text \<open>
  Integration of motion (\<^verbatim>\<open>domain/physics.py\<close>) and axis-aligned collisions
  (\<^verbatim>\<open>domain/collisions.py\<close>).  The lemmas show that resolving a collision either leaves the
  player as it is or separates it from the obstacle, and never touches the player's identity.
\<close>

definition GRAVITY :: flt where "GRAVITY = of_int (py_int (1000 * WORLD_SCALE))"
definition MOVE_SPEED :: flt where "MOVE_SPEED = of_int (py_int (200 * WORLD_SCALE))"
definition JUMP_FORCE :: flt where "JUMP_FORCE = of_int (py_int (- 450 * WORLD_SCALE))"

lemma physics_constants: "GRAVITY = 1500" "MOVE_SPEED = 300" "JUMP_FORCE = - 675"
  by (simp_all add: GRAVITY_def MOVE_SPEED_def JUMP_FORCE_def WORLD_SCALE_def py_int_def)

definition apply_physics :: "flt \<Rightarrow> player \<Rightarrow> player" where
  "apply_physics dt p =
     (let p1 = p\<lparr>vy := vy p + GRAVITY * dt\<rparr>;
          p2 = p1\<lparr>pos_x := pos_x p1 + vx p1 * dt\<rparr>
      in p2\<lparr>pos_y := pos_y p2 + vy p2 * dt\<rparr>)"

subsection \<open>Detection\<close>

definition check_collision :: "'a body_scheme \<Rightarrow> 'b body_scheme \<Rightarrow> bool" where
  "check_collision p r \<longleftrightarrow>
     pos_x p < pos_x r + width r \<and> pos_x p + width p > pos_x r \<and>
     pos_y p < pos_y r + height r \<and> pos_y p + height p > pos_y r"

lemma check_collision_sym: "check_collision p r \<longleftrightarrow> check_collision r p"
  by (auto simp: check_collision_def)

subsection \<open>Resolution\<close>

datatype side = Top | Bottom | Left | Right

fun overlap :: "'a body_scheme \<Rightarrow> 'b body_scheme \<Rightarrow> side \<Rightarrow> flt" where
  "overlap p r Left = (pos_x p + width p) - pos_x r"
| "overlap p r Right = (pos_x r + width r) - pos_x p"
| "overlap p r Top = (pos_y p + height p) - pos_y r"
| "overlap p r Bottom = (pos_y r + height r) - pos_y p"

definition resolve_top :: "'b body_scheme \<Rightarrow> player \<Rightarrow> player" where
  "resolve_top r p =
     (if vy p > 0 \<and> prev_y p + height p \<le> pos_y r
      then p\<lparr>pos_y := pos_y r - height p, vy := 0, on_ground := True\<rparr> else p)"

definition resolve_bottom :: "'b body_scheme \<Rightarrow> player \<Rightarrow> player" where
  "resolve_bottom r p =
     (if vy p < 0 then p\<lparr>pos_y := pos_y r + height r, vy := 0\<rparr> else p)"

definition resolve_left :: "'b body_scheme \<Rightarrow> player \<Rightarrow> player" where
  "resolve_left r p =
     (if vx p > 0 then p\<lparr>pos_x := pos_x r - width p, vx := 0\<rparr> else p)"

definition resolve_right :: "'b body_scheme \<Rightarrow> player \<Rightarrow> player" where
  "resolve_right r p =
     (if vx p < 0 then p\<lparr>pos_x := pos_x r + width r, vx := 0\<rparr> else p)"

text \<open>
  \<^verbatim>\<open>min(sides, key=...)\<close> returns the first side of minimal overlap, as
  \<^const>\<open>arg_min_list\<close> does.
\<close>

definition collision_side :: "'a body_scheme \<Rightarrow> 'b body_scheme \<Rightarrow> side" where
  "collision_side p r = arg_min_list (overlap p r) [Top, Bottom, Left, Right]"

definition resolve_collision :: "player \<Rightarrow> 'b body_scheme \<Rightarrow> player" where
  "resolve_collision p r =
     (case collision_side p r of
        Top \<Rightarrow> resolve_top r p
      | Bottom \<Rightarrow> resolve_bottom r p
      | Left \<Rightarrow> resolve_left r p
      | Right \<Rightarrow> resolve_right r p)"

lemmas resolve_defs =
  resolve_collision_def resolve_top_def resolve_bottom_def resolve_left_def resolve_right_def

lemma collision_side_minimal: "overlap p r (collision_side p r) \<le> overlap p r s"
proof -
  have "overlap p r (collision_side p r) = Min (overlap p r ` set [Top, Bottom, Left, Right])"
    unfolding collision_side_def by (rule f_arg_min_list_f) simp
  also have "\<dots> \<le> overlap p r s"
    by (rule Min_le) (cases s; simp)+
  finally show ?thesis .
qed

lemma resolve_collision_frame [simp, frame_simps]:
  "width (resolve_collision p r) = width p"
  "height (resolve_collision p r) = height p"
  "player_id (resolve_collision p r) = player_id p"
  "join_index (resolve_collision p r) = join_index p"
  "prev_x (resolve_collision p r) = prev_x p"
  "prev_y (resolve_collision p r) = prev_y p"
  "is_crouching (resolve_collision p r) = is_crouching p"
  "powerup_effect_expires_at (resolve_collision p r) = powerup_effect_expires_at p"
  by (auto simp: resolve_defs split: side.splits)

lemma resolve_collision_separates:
  "resolve_collision p r = p \<or> \<not> check_collision (resolve_collision p r) r"
  by (auto simp: resolve_defs check_collision_def split: side.splits)

text \<open>Only a fall from above puts a player on the ground.\<close>

lemma resolve_collision_lands:
  assumes "on_ground (resolve_collision p r)" and "\<not> on_ground p"
  shows "vy p > 0 \<and> prev_y p + height p \<le> pos_y r
    \<and> pos_y (resolve_collision p r) + height p = pos_y r"
  using assms by (auto simp: resolve_defs split: side.splits if_splits)

text \<open>Resolution only ever stops a component of the velocity.\<close>

lemma resolve_collision_velocity:
  "vx (resolve_collision p r) \<in> {0, vx p}" "vy (resolve_collision p r) \<in> {0, vy p}"
  by (auto simp: resolve_defs split: side.splits)

end
