(* ===== verification/World.thy ===== *)
theory World
  imports Physics
begin

text \<open>
  The world snapshot of \<^verbatim>\<open>domain/world.py\<close>: its containers and their operations.
  \<open>world_wf\<close> says that every dictionary stores each entity under its own identifier and that
  no player is at the same time alive and waiting to respawn.
\<close>

record environment =
  destructible_blocks :: "block list"
  power_ups :: "powerup dict"
  enemies :: "enemy dict"
  cooperative_gates :: "gate dict"

record world_state =
  sequence_number :: int
  characters :: "player dict"
  environment :: environment
  coins_collected :: int
  coins_to_win :: int
  blocks_destroyed :: int
  blocks_to_win :: int
  enemies_defeated :: int
  enemies_to_win :: int
  initial_enemy_count :: int
  victory :: bool
  victory_player_id :: "ident option"
  respawn_timers :: "flt dict"

definition new_world :: world_state where
  "new_world =
     \<lparr>sequence_number = 0, characters = [],
      environment = \<lparr>destructible_blocks = [], power_ups = [], enemies = [], cooperative_gates = []\<rparr>,
      coins_collected = 0, coins_to_win = 5, blocks_destroyed = 0, blocks_to_win = 0,
      enemies_defeated = 0, enemies_to_win = 0, initial_enemy_count = 0,
      victory = False, victory_player_id = None, respawn_timers = []\<rparr>"

subsection \<open>Operations\<close>

definition load_level :: "level \<Rightarrow> world_state \<Rightarrow> world_state" where
  "load_level l w =
     w\<lparr>environment := (environment w)\<lparr>
          destructible_blocks := level_blocks l,
          power_ups := dict_by powerup_id (level_powerups l),
          enemies := dict_by enemy_id (level_enemies l),
          cooperative_gates := dict_by gate_id (level_gates l)\<rparr>,
       coins_collected := 0,
       coins_to_win := level_coins_to_win l,
       blocks_destroyed := 0,
       blocks_to_win := level_blocks_to_win l,
       enemies_defeated := 0,
       enemies_to_win := level_enemies_to_win l,
       initial_enemy_count := int (length (level_enemies l)),
       victory := False,
       victory_player_id := None\<rparr>"

definition add_player :: "player \<Rightarrow> world_state \<Rightarrow> world_state" where
  "add_player p w = w\<lparr>characters := AList.update (player_id p) p (characters w)\<rparr>"

definition remove_player :: "ident \<Rightarrow> world_state \<Rightarrow> world_state" where
  "remove_player pid w =
     (if pid \<in> fst ` set (characters w) then w\<lparr>characters := AList.delete pid (characters w)\<rparr>
      else w)"

definition get_player :: "ident \<Rightarrow> world_state \<Rightarrow> player option" where
  "get_player pid w = map_of (characters w) pid"

definition get_all_players :: "world_state \<Rightarrow> player list" where
  "get_all_players w = dict_values (characters w)"

definition add_block :: "block \<Rightarrow> world_state \<Rightarrow> world_state" where
  "add_block b w = environment_update (destructible_blocks_update (\<lambda>bs. bs @ [b])) w"

definition get_block :: "flt \<times> flt \<Rightarrow> world_state \<Rightarrow> block option" where
  "get_block pos w = find (\<lambda>b. (pos_x b, pos_y b) = pos) (destructible_blocks (environment w))"

definition add_power_up :: "powerup \<Rightarrow> world_state \<Rightarrow> world_state" where
  "add_power_up u w = environment_update (power_ups_update (AList.update (powerup_id u) u)) w"

definition get_power_up :: "ident \<Rightarrow> world_state \<Rightarrow> powerup option" where
  "get_power_up pid w = map_of (power_ups (environment w)) pid"

definition add_gate :: "gate \<Rightarrow> world_state \<Rightarrow> world_state" where
  "add_gate g w = environment_update (cooperative_gates_update (AList.update (gate_id g) g)) w"

definition get_gate :: "ident \<Rightarrow> world_state \<Rightarrow> gate option" where
  "get_gate gid w = map_of (cooperative_gates (environment w)) gid"

lemma remove_player_eq:
  "remove_player pid w = w\<lparr>characters := AList.delete pid (characters w)\<rparr>"
  by (cases w) (simp add: remove_player_def)

subsection \<open>Well-formed worlds\<close>

definition world_wf :: "world_state \<Rightarrow> bool" where
  "world_wf w \<longleftrightarrow>
     keyed player_id (characters w) \<and>
     keyed powerup_id (power_ups (environment w)) \<and>
     keyed enemy_id (enemies (environment w)) \<and>
     keyed gate_id (cooperative_gates (environment w)) \<and>
     distinct (dict_keys (respawn_timers w)) \<and>
     fst ` set (characters w) \<inter> fst ` set (respawn_timers w) = {}"

lemma world_wfD:
  assumes "world_wf w"
  shows "keyed player_id (characters w)"
    and "keyed powerup_id (power_ups (environment w))"
    and "keyed enemy_id (enemies (environment w))"
    and "keyed gate_id (cooperative_gates (environment w))"
    and "distinct (dict_keys (respawn_timers w))"
    and "fst ` set (characters w) \<inter> fst ` set (respawn_timers w) = {}"
  using assms by (simp_all add: world_wf_def)

lemma new_world_wf [wf_intros]: "world_wf new_world"
  by (simp add: world_wf_def new_world_def)

lemma load_level_wf [wf_intros]: "world_wf w \<Longrightarrow> world_wf (load_level l w)"
  by (auto simp: world_wf_def load_level_def intro: wf_intros)

lemma add_player_wf [wf_intros]:
  "world_wf w \<Longrightarrow> player_id p \<notin> fst ` set (respawn_timers w) \<Longrightarrow> world_wf (add_player p w)"
  by (auto simp: world_wf_def add_player_def AList.dom_update intro: wf_intros)

lemma remove_player_wf [wf_intros]: "world_wf w \<Longrightarrow> world_wf (remove_player pid w)"
  by (auto simp: world_wf_def remove_player_eq set_AList_delete intro: wf_intros)

lemma add_block_wf [wf_intros]: "world_wf w \<Longrightarrow> world_wf (add_block b w)"
  by (simp add: world_wf_def add_block_def)

lemma add_power_up_wf [wf_intros]: "world_wf w \<Longrightarrow> world_wf (add_power_up u w)"
  by (simp add: world_wf_def add_power_up_def keyed_update)

lemma add_gate_wf [wf_intros]: "world_wf w \<Longrightarrow> world_wf (add_gate g w)"
  by (simp add: world_wf_def add_gate_def keyed_update)

text \<open>What a lookup returns after each operation.\<close>

lemma get_player_add: "get_player pid (add_player p w) =
    (if pid = player_id p then Some p else get_player pid w)"
  by (simp add: get_player_def add_player_def AList.update_conv')

lemma get_player_remove: "get_player pid (remove_player pid' w) =
    (if pid = pid' then None else get_player pid w)"
  by (auto simp: get_player_def remove_player_eq AList.delete_conv')

end
