(* ===== verification/Engine.thy ===== *)
theory Engine
  imports World
begin

text \<open>
  The authoritative simulation of \<^verbatim>\<open>domain/game_engine.py\<close>: the engine's state and one
  definition per method, composed by \<open>tick\<close> in the order of the source.

  The methods read \<^verbatim>\<open>time.time()\<close> where they need it.  A tick takes one clock reading for
  each phase that reads the clock (\<open>tick_clock\<close>), so the readings of different phases may
  differ, while the iterations of one loop share their phase's reading.
\<close>

subsection \<open>Commands and state\<close>

text \<open>
  \<^verbatim>\<open>EnemyMovementCommand\<close> is an \<^verbatim>\<open>IntEnum\<close>.  The dictionary of commands may hold other
  objects, which the enemy update rejects.
\<close>

datatype enemy_movement_command = CMD_MOVE_LEFT | CMD_STOP | CMD_MOVE_RIGHT

fun command_value :: "enemy_movement_command \<Rightarrow> int" where
  "command_value CMD_MOVE_LEFT = - 1"
| "command_value CMD_STOP = 0"
| "command_value CMD_MOVE_RIGHT = 1"

lemma command_value_inj: "command_value a = command_value b \<longleftrightarrow> a = b"
  by (cases a; cases b) simp_all

text \<open>An \<^verbatim>\<open>IntEnum\<close> is ordered by its values.\<close>

instantiation enemy_movement_command :: linorder
begin

definition less_eq_enemy_movement_command ::
  "enemy_movement_command \<Rightarrow> enemy_movement_command \<Rightarrow> bool" where
  "less_eq_enemy_movement_command a b \<longleftrightarrow> command_value a \<le> command_value b"

definition less_enemy_movement_command ::
  "enemy_movement_command \<Rightarrow> enemy_movement_command \<Rightarrow> bool" where
  "less_enemy_movement_command a b \<longleftrightarrow> command_value a < command_value b"

instance
  by standard
    (auto simp: less_eq_enemy_movement_command_def less_enemy_movement_command_def command_value_inj)

end

datatype command_object = Command enemy_movement_command | Other_Object

type_synonym enemy_commands = "(ident \<times> command_object) list option"

record game_engine =
  world_state :: world_state
  platforms :: "platform list"
  events :: "event list"
  is_authoritative :: bool
  world_width :: int
  world_height :: int
  spawn_points :: "spawn_point list"
  decorations :: "decoration list"
  respawn_join_index :: "int dict"
  level_template :: level

record tick_clock =
  clock_expire :: flt
  clock_powerups :: flt
  clock_enemies :: flt
  clock_void :: flt
  clock_respawns :: flt

definition tick_clock_at :: "flt \<Rightarrow> tick_clock" where
  "tick_clock_at t = \<lparr>clock_expire = t, clock_powerups = t, clock_enemies = t,
     clock_void = t, clock_respawns = t\<rparr>"

definition VOID_DEATH_CAUSE :: ident where "VOID_DEATH_CAUSE = ''void''"

text \<open>\<^verbatim>\<open>__post_init__\<close> on the level the TMX loader returned.\<close>

definition new_engine :: "level \<Rightarrow> bool \<Rightarrow> game_engine" where
  "new_engine l authoritative =
     \<lparr>world_state = load_level l new_world, platforms = level_platforms l, events = [],
      is_authoritative = authoritative, world_width = level_width l, world_height = level_height l,
      spawn_points = level_spawn_points l, decorations = level_decorations l,
      respawn_join_index = [], level_template = l\<rparr>"

text \<open>A mutation of every player, or of one stored player.\<close>

definition each_player :: "(player \<Rightarrow> player) \<Rightarrow> game_engine \<Rightarrow> game_engine" where
  "each_player f e = world_state_update (characters_update (map_vals f)) e"

definition set_player :: "ident \<Rightarrow> player \<Rightarrow> game_engine \<Rightarrow> game_engine" where
  "set_player k p e = world_state_update (characters_update (AList.update k p)) e"

subsection \<open>Inputs and motion\<close>

definition apply_input :: "input_state \<Rightarrow> player \<Rightarrow> player" where
  "apply_input inp p =
     (let p1 = p\<lparr>vx := (if left inp then - MOVE_SPEED else if right inp then MOVE_SPEED else 0)\<rparr>;
          p2 = (if jump inp \<and> on_ground p1 then p1\<lparr>vy := JUMP_FORCE, on_ground := False\<rparr> else p1)
      in p2\<lparr>is_crouching := down inp \<and> on_ground p2\<rparr>)"

definition apply_inputs :: "input_state dict \<Rightarrow> game_engine \<Rightarrow> game_engine" where
  "apply_inputs inputs e =
     fold (\<lambda>(pid, inp) e.
             case get_player pid (world_state e) of
               None \<Rightarrow> e
             | Some p \<Rightarrow> set_player pid (apply_input inp p) e)
       inputs e"

definition save_previous_positions :: "game_engine \<Rightarrow> game_engine" where
  "save_previous_positions e = each_player (\<lambda>p. p\<lparr>prev_x := pos_x p, prev_y := pos_y p\<rparr>) e"

definition expire_effect :: "flt \<Rightarrow> player \<Rightarrow> player" where
  "expire_effect now p =
     (case powerup_effect_expires_at p of
        None \<Rightarrow> p
      | Some t \<Rightarrow> if t \<le> now then p\<lparr>powerup_effect_expires_at := None\<rparr> else p)"

definition expire_powerup_effects :: "flt \<Rightarrow> game_engine \<Rightarrow> game_engine" where
  "expire_powerup_effects now e = each_player (expire_effect now) e"

definition collide_platforms :: "platform list \<Rightarrow> player \<Rightarrow> player" where
  "collide_platforms pls p =
     fold (\<lambda>pl p. if check_collision p pl then resolve_collision p pl else p) pls
       (p\<lparr>on_ground := False\<rparr>)"

definition handle_collisions :: "game_engine \<Rightarrow> game_engine" where
  "handle_collisions e = each_player (collide_platforms (platforms e)) e"

definition clamp_character_to_world :: "game_engine \<Rightarrow> bool \<Rightarrow> player \<Rightarrow> player" where
  "clamp_character_to_world e clamp_bottom p =
     (let max_x = max 0 (of_int (world_width e) - width p);
          p1 = p\<lparr>pos_x := max 0 (min (pos_x p) max_x)\<rparr>
      in if clamp_bottom
         then let max_y = max 0 (of_int (world_height e) - height p1)
              in p1\<lparr>pos_y := max 0 (min (pos_y p1) max_y)\<rparr>
         else p1\<lparr>pos_y := max 0 (pos_y p1)\<rparr>)"

definition clamp_players_to_world :: "game_engine \<Rightarrow> game_engine" where
  "clamp_players_to_world e = each_player (clamp_character_to_world e False) e"

definition spawn_player :: "ident \<Rightarrow> flt \<Rightarrow> flt \<Rightarrow> int \<Rightarrow> game_engine \<Rightarrow> game_engine" where
  "spawn_player pid x y ji e =
     world_state_update (add_player (clamp_character_to_world e True (new_player pid x y ji))) e"

subsection \<open>Blocks and power-ups\<close>

definition is_head_bump :: "player \<Rightarrow> block \<Rightarrow> bool" where
  "is_head_bump p b \<longleftrightarrow>
     (let block_bottom = pos_y b + height b;
          horizontally_overlapping = pos_x p < pos_x b + width b \<and> pos_x p + width p > pos_x b
      in horizontally_overlapping \<and> prev_y p \<ge> block_bottom - 4 \<and> pos_y p \<le> block_bottom
         \<and> pos_y p + height p > pos_y b)"

text \<open>One block against one player; the loops carry the player and the event queue.\<close>

definition collide_block ::
  "block \<Rightarrow> player \<times> event list \<Rightarrow> (block \<times> (player \<times> event list)) result" where
  "collide_block b = (\<lambda>(p, evs).
     if \<not> destroyed b \<and> check_collision p b then
       (if is_head_bump p b
        then rbind (block_destroy b) (\<lambda>(ev, b').
               Inr (b', (resolve_collision p b', evs @ [ev])))
        else Inr (b, (resolve_collision p b, evs)))
     else Inr (b, (p, evs)))"

definition collide_blocks ::
  "ident \<times> player \<Rightarrow> block list \<times> event list
     \<Rightarrow> ((ident \<times> player) \<times> (block list \<times> event list)) result" where
  "collide_blocks = (\<lambda>(k, p) (bs, evs).
     rbind (map_accum collide_block bs (p, evs)) (\<lambda>(bs', (p', evs')). Inr ((k, p'), (bs', evs'))))"

definition handle_block_collisions :: "game_engine \<Rightarrow> game_engine result" where
  "handle_block_collisions e =
     rbind (map_accum collide_blocks (characters (world_state e))
              (destructible_blocks (environment (world_state e)), events e))
       (\<lambda>(cs, (bs, evs)).
          Inr (e\<lparr>world_state := (world_state e)
                   \<lparr>characters := cs,
                    environment := (environment (world_state e))\<lparr>destructible_blocks := bs\<rparr>\<rparr>,
                 events := evs\<rparr>))"

definition startswith :: "string \<Rightarrow> string \<Rightarrow> bool" where
  "startswith s p \<longleftrightarrow> take (length p) s = p"

definition is_star_powerup :: "powerup \<Rightarrow> bool" where
  "is_star_powerup u \<longleftrightarrow> startswith (powerup_id u) ''star'' \<or> powerup_id u = ''star''"

definition has_active_powerup_effect :: "flt \<Rightarrow> player \<Rightarrow> bool \<times> player" where
  "has_active_powerup_effect now p =
     (case powerup_effect_expires_at p of
        None \<Rightarrow> (False, p)
      | Some t \<Rightarrow> if t \<le> now then (False, p\<lparr>powerup_effect_expires_at := None\<rparr>) else (True, p))"

text \<open>
  \<^verbatim>\<open>min(colliding_players, key=join_index)\<close>: the first colliding player of least join index.
\<close>

definition collect_powerup ::
  "flt \<Rightarrow> ident \<times> powerup \<Rightarrow> player dict \<times> event list
     \<Rightarrow> ((ident \<times> powerup) \<times> (player dict \<times> event list)) result" where
  "collect_powerup now = (\<lambda>(k, u) (cs, evs).
     if collected u then Inr ((k, u), (cs, evs))
     else let colliding_players = filter (\<lambda>(_, p). check_collision p u) cs in
       if colliding_players = [] then Inr ((k, u), (cs, evs))
       else let (wid, winner) = arg_min_list (\<lambda>(_, p). join_index p) colliding_players in
         rbind (powerup_collect (player_id winner) u) (\<lambda>(ev, u').
           Inr ((k, u'),
                ((if is_star_powerup u'
                  then AList.update wid (winner\<lparr>powerup_effect_expires_at := Some (now + 10)\<rparr>) cs
                  else cs),
                 evs @ [ev]))))"

definition handle_powerup_collisions :: "flt \<Rightarrow> game_engine \<Rightarrow> game_engine result" where
  "handle_powerup_collisions now e =
     (if \<not> is_authoritative e then Inr e
      else rbind (map_accum (collect_powerup now) (power_ups (environment (world_state e)))
                    (characters (world_state e), events e))
             (\<lambda>(us, (cs, evs)).
                Inr (e\<lparr>world_state := (world_state e)
                         \<lparr>characters := cs,
                          environment := (environment (world_state e))\<lparr>power_ups := us\<rparr>\<rparr>,
                       events := evs\<rparr>)))"

definition handle_environment_collisions :: "flt \<Rightarrow> game_engine \<Rightarrow> game_engine result" where
  "handle_environment_collisions now e =
     rbind (handle_block_collisions e) (handle_powerup_collisions now)"

subsection \<open>Enemies\<close>

text \<open>The motion of one enemy: integrate, then bounce off its patrol bounds.\<close>

definition patrol_enemy :: "flt \<Rightarrow> enemy \<Rightarrow> enemy" where
  "patrol_enemy dt en =
     (let en1 = en\<lparr>pos_x := pos_x en + enemy_vx en * dt\<rparr> in
      if pos_x en1 < left_bound en1
      then en1\<lparr>pos_x := left_bound en1, enemy_vx := - enemy_vx en1\<rparr>
      else if pos_x en1 + width en1 > right_bound en1
      then en1\<lparr>pos_x := right_bound en1 - width en1, enemy_vx := - enemy_vx en1\<rparr>
      else en1)"

definition enemy_speed :: "enemy \<Rightarrow> flt" where
  "enemy_speed en = (case movement_speed en of Some s \<Rightarrow> s | None \<Rightarrow> \<bar>enemy_vx en\<bar>)"

definition update_enemy :: "flt \<Rightarrow> enemy_commands \<Rightarrow> ident \<times> enemy \<Rightarrow> (ident \<times> enemy) result" where
  "update_enemy dt commands = (\<lambda>(k, en).
     case (case commands of None \<Rightarrow> None | Some cmds \<Rightarrow> map_of cmds k) of
       None \<Rightarrow> Inr (k, patrol_enemy dt en)
     | Some Other_Object \<Rightarrow> Inl (ValueError ''Invalid enemy movement command'')
     | Some (Command CMD_STOP) \<Rightarrow> Inr (k, en)
     | Some (Command c) \<Rightarrow>
         Inr (k, patrol_enemy dt (en\<lparr>enemy_vx := of_int (command_value c) * enemy_speed en\<rparr>)))"

definition update_enemies :: "flt \<Rightarrow> enemy_commands \<Rightarrow> game_engine \<Rightarrow> game_engine result" where
  "update_enemies dt commands e =
     rbind (map_res (update_enemy dt commands) (enemies (environment (world_state e))))
       (\<lambda>ens. Inr (world_state_update (environment_update (enemies_update (\<lambda>_. ens))) e))"

definition is_stomp :: "player \<Rightarrow> enemy \<Rightarrow> bool" where
  "is_stomp p en \<longleftrightarrow>
     (let previous_bottom = prev_y p + height p;
          horizontally_overlapping = pos_x p < pos_x en + width en \<and> pos_x p + width p > pos_x en
      in horizontally_overlapping \<and> vy p > 0 \<and> previous_bottom \<le> pos_y en + 4)"

definition queue_player_death :: "flt \<Rightarrow> player \<Rightarrow> ident \<Rightarrow> game_engine \<Rightarrow> game_engine" where
  "queue_player_death now p cause e =
     (let e1 = events_update (\<lambda>evs. evs @ [PlayerDeathEvent (player_id p) cause]) e;
          e2 = respawn_join_index_update (AList.update (player_id p) (join_index p)) e1;
          e3 = world_state_update (remove_player (player_id p)) e2
      in world_state_update
           (respawn_timers_update (AList.update (player_id p) (now + RESPAWN_DELAY_S))) e3)"

text \<open>\<^verbatim>\<open>del enemies[enemy_id]\<close>\<close>

definition delete_enemy :: "ident \<Rightarrow> game_engine \<Rightarrow> game_engine result" where
  "delete_enemy eid e =
     (if eid \<in> fst ` set (enemies (environment (world_state e)))
      then Inr (world_state_update (environment_update (enemies_update (AList.delete eid))) e)
      else Inl (KeyError eid))"

text \<open>
  The inner loop, over the players alive when the enemy's turn starts: a defeated enemy ends
  it, a killed player is removed and the loop goes on.
\<close>

fun enemy_against_players ::
  "flt \<Rightarrow> enemy \<Rightarrow> (ident \<times> player) list \<Rightarrow> game_engine \<Rightarrow> game_engine result" where
  "enemy_against_players now en [] e = Inr e"
| "enemy_against_players now en ((pk, p) # ps) e =
     (if \<not> check_collision p en then enemy_against_players now en ps e
      else
        let (active, p1) = has_active_powerup_effect now p;
            e1 = set_player pk p1 e
        in if active then
             rbind (delete_enemy (enemy_id en) e1)
               (\<lambda>e2. Inr (set_player pk (p1\<lparr>vy := JUMP_FORCE * (6 / 10)\<rparr>) e2))
           else if is_stomp p1 en then
             rbind (delete_enemy (enemy_id en) e1)
               (\<lambda>e2. Inr (set_player pk (p1\<lparr>vy := JUMP_FORCE * (6 / 10)\<rparr>) e2))
           else enemy_against_players now en ps (queue_player_death now p1 (enemy_id en) e1))"

definition handle_enemy_collisions :: "flt \<Rightarrow> game_engine \<Rightarrow> game_engine result" where
  "handle_enemy_collisions now e =
     (if \<not> is_authoritative e then Inr e
      else fold_res (\<lambda>en e. enemy_against_players now en (characters (world_state e)) e)
             (dict_values (enemies (environment (world_state e)))) e)"

definition handle_void_deaths :: "flt \<Rightarrow> game_engine \<Rightarrow> game_engine" where
  "handle_void_deaths now e =
     (if \<not> is_authoritative e then e
      else fold (\<lambda>p e. if pos_y p + height p \<le> of_int (world_height e) then e
                       else queue_player_death now p VOID_DEATH_CAUSE e)
             (dict_values (characters (world_state e))) e)"

subsection \<open>Objectives, gates and victory\<close>

definition count_coins :: "environment \<Rightarrow> int" where
  "count_coins env =
     int (length (filter (\<lambda>u. collected u \<and> startswith (powerup_id u) ''coin-'')
                    (dict_values (power_ups env))))"

definition count_destroyed :: "environment \<Rightarrow> int" where
  "count_destroyed env = int (length (filter destroyed (destructible_blocks env)))"

definition sync_objective_progress :: "game_engine \<Rightarrow> game_engine" where
  "sync_objective_progress e =
     world_state_update (\<lambda>w. w\<lparr>
       coins_collected := count_coins (environment w),
       blocks_destroyed := count_destroyed (environment w),
       enemies_defeated := max 0 (initial_enemy_count w - int (length (enemies (environment w))))\<rparr>) e"

definition gate_should_be_open :: "world_state \<Rightarrow> gate \<Rightarrow> bool" where
  "gate_should_be_open w g \<longleftrightarrow>
     coins_collected w \<ge> coins_required g \<and> blocks_destroyed w \<ge> blocks_required g \<and>
     enemies_defeated w \<ge> enemies_required g"

definition update_gate ::
  "world_state \<Rightarrow> ident \<times> gate \<Rightarrow> player dict \<times> event list
     \<Rightarrow> ((ident \<times> gate) \<times> (player dict \<times> event list)) result" where
  "update_gate w = (\<lambda>(k, g) (cs, evs).
     let (ev, g') = gate_update_state (gate_should_be_open w g) g;
         evs' = (case ev of None \<Rightarrow> evs | Some x \<Rightarrow> evs @ [x]);
         cs' = (if gate_state g' = ''closed''
                then map_vals (\<lambda>p. if check_collision p g then resolve_collision p g' else p) cs
                else cs)
     in Inr ((k, g'), (cs', evs')))"

definition handle_gate_collisions :: "game_engine \<Rightarrow> game_engine result" where
  "handle_gate_collisions e =
     rbind (map_accum (update_gate (world_state e)) (cooperative_gates (environment (world_state e)))
              (characters (world_state e), events e))
       (\<lambda>(gs, (cs, evs)).
          Inr (e\<lparr>world_state := (world_state e)
                   \<lparr>characters := cs,
                    environment := (environment (world_state e))\<lparr>cooperative_gates := gs\<rparr>\<rparr>,
                 events := evs\<rparr>))"

text \<open>
  The players who touch an open final gate, in the order of the nested loops; the first of them
  ends the run.
\<close>

definition victory_contacts :: "world_state \<Rightarrow> player list" where
  "victory_contacts w =
     [p. g \<leftarrow> dict_values (cooperative_gates (environment w)),
         \<not> (gate_state g \<noteq> ''open'' \<or> \<not> is_final g),
         p \<leftarrow> dict_values (characters w), check_collision p g]"

definition victory_contact :: "world_state \<Rightarrow> player option" where
  "victory_contact w = (case victory_contacts w of [] \<Rightarrow> None | p # _ \<Rightarrow> Some p)"

definition handle_victory_condition :: "game_engine \<Rightarrow> game_engine" where
  "handle_victory_condition e =
     (if \<not> is_authoritative e then e
      else if victory (world_state e) then e
      else case victory_contact (world_state e) of
        None \<Rightarrow> e
      | Some p \<Rightarrow> world_state_update
                    (\<lambda>w. w\<lparr>victory := True, victory_player_id := Some (player_id p)\<rparr>) e)"

subsection \<open>Spawning, respawning and new runs\<close>

definition spawn_position_for :: "game_engine \<Rightarrow> int \<Rightarrow> flt \<times> flt" where
  "spawn_position_for e ji =
     (if spawn_points e = [] then (100, 100)
      else let point = spawn_points e ! nat (ji mod int (length (spawn_points e)))
           in (of_int (spawn_x point), of_int (spawn_y point)))"

definition respawn :: "flt \<Rightarrow> ident \<times> flt \<Rightarrow> game_engine \<Rightarrow> game_engine" where
  "respawn now = (\<lambda>(pid, due) e.
     if now \<ge> due then
       let ji = (case map_of (respawn_join_index e) pid of None \<Rightarrow> 0 | Some j \<Rightarrow> j);
           e1 = respawn_join_index_update (AList.delete pid) e;
           (x, y) = spawn_position_for e1 ji;
           e2 = spawn_player pid x y ji e1
       in world_state_update (respawn_timers_update (AList.delete pid)) e2
     else e)"

definition process_respawns :: "flt \<Rightarrow> game_engine \<Rightarrow> game_engine" where
  "process_respawns now e =
     (if \<not> is_authoritative e then e
      else fold (respawn now) (respawn_timers (world_state e)) e)"

definition reset_player_for_run :: "game_engine \<Rightarrow> player \<Rightarrow> player" where
  "reset_player_for_run e p =
     (let (x, y) = spawn_position_for e (join_index p)
      in p\<lparr>pos_x := x, pos_y := y, vx := 0, vy := 0, on_ground := False, is_crouching := False,
           powerup_effect_expires_at := None\<rparr>)"

definition reset_for_new_run :: "game_engine \<Rightarrow> game_engine" where
  "reset_for_new_run e =
     (let e1 = world_state_update (load_level (level_template e)) e;
          e2 = e1\<lparr>respawn_join_index := []\<rparr>;
          e3 = world_state_update (respawn_timers_update (\<lambda>_. [])) e2;
          e4 = each_player (reset_player_for_run e3) e3
      in events_update (\<lambda>evs. evs @ [LevelResetEvent]) e4)"

subsection \<open>One tick\<close>

definition next_sequence_number :: "game_engine \<Rightarrow> game_engine" where
  "next_sequence_number e = world_state_update (sequence_number_update (\<lambda>n. n + 1)) e"

definition tick ::
  "tick_clock \<Rightarrow> flt \<Rightarrow> input_state dict \<Rightarrow> enemy_commands \<Rightarrow> game_engine \<Rightarrow> game_engine result" where
  "tick clk dt inputs commands e =
     (if victory (world_state e) then Inr (next_sequence_number e)
      else
        let e1 = save_previous_positions e;
            e2 = expire_powerup_effects (clock_expire clk) e1;
            e3 = apply_inputs inputs e2;
            e4 = each_player (apply_physics dt) e3;
            e5 = handle_collisions e4
        in rbind (handle_environment_collisions (clock_powerups clk) e5) (\<lambda>e6.
           rbind (update_enemies dt commands e6) (\<lambda>e7.
           rbind (handle_enemy_collisions (clock_enemies clk) e7) (\<lambda>e8.
           let e9 = handle_void_deaths (clock_void clk) e8;
               e10 = sync_objective_progress e9
           in rbind (handle_gate_collisions e10) (\<lambda>e11.
              let e12 = clamp_players_to_world e11;
                  e13 = handle_victory_condition e12;
                  e14 = process_respawns (clock_respawns clk) e13
              in Inr (next_sequence_number e14))))))"

end
