(* ===== verification/Engine_Inv.thy ===== *)
theory Engine_Inv
  imports Engine
begin

text \<open>
  What a tick may do to the engine.  \<open>evolves e e'\<close> is a preorder that collects the frame of
  the simulation: static fields stay, blocks are only ever destroyed, a collected power-up keeps
  its owner, gates keep their requirements, enemies only disappear, nobody is lost between the
  living and the respawn queue, and a replica that is not authoritative decides none of these.
  Every phase of \<^const>\<open>tick\<close> is shown to succeed on a well-formed engine, to keep it
  well-formed and to evolve it; the tick follows by transitivity.
\<close>

abbreviation engine_wf :: "game_engine \<Rightarrow> bool" where
  "engine_wf e \<equiv> world_wf (world_state e)"

definition block_evolves :: "block \<Rightarrow> block \<Rightarrow> bool" where
  "block_evolves b b' \<longleftrightarrow> b' = b \<or> b' = b\<lparr>destroyed := True\<rparr>"

definition powerup_evolves :: "ident \<times> powerup \<Rightarrow> ident \<times> powerup \<Rightarrow> bool" where
  "powerup_evolves a b \<longleftrightarrow>
     b = a \<or> (\<not> collected (snd a) \<and>
              (\<exists>pid. b = (fst a, (snd a)\<lparr>collected := True, owner := Some pid\<rparr>)))"

definition gate_evolves :: "ident \<times> gate \<Rightarrow> ident \<times> gate \<Rightarrow> bool" where
  "gate_evolves a b \<longleftrightarrow> (\<exists>s. b = (fst a, (snd a)\<lparr>gate_state := s\<rparr>))"

text \<open>
  An enemy keeps its nature; once inside its patrol bounds it stays inside, and once it moves at
  its own speed it keeps it.
\<close>

definition in_patrol :: "enemy \<Rightarrow> bool" where
  "in_patrol en \<longleftrightarrow> left_bound en \<le> pos_x en \<and> pos_x en + width en \<le> right_bound en"

definition enemy_evolves :: "enemy \<Rightarrow> enemy \<Rightarrow> bool" where
  "enemy_evolves en en' \<longleftrightarrow>
     enemy_id en' = enemy_id en \<and> enemy_type en' = enemy_type en \<and>
     movement_speed en' = movement_speed en \<and> pos_y en' = pos_y en \<and>
     width en' = width en \<and> height en' = height en \<and>
     left_bound en' = left_bound en \<and> right_bound en' = right_bound en \<and>
     (in_patrol en \<longrightarrow> in_patrol en') \<and>
     (\<bar>enemy_vx en\<bar> = enemy_speed en \<longrightarrow> \<bar>enemy_vx en'\<bar> = enemy_speed en')"

definition enemies_evolve :: "enemy dict \<Rightarrow> enemy dict \<Rightarrow> bool" where
  "enemies_evolve d d' \<longleftrightarrow>
     (\<forall>a' \<in> set d'. \<exists>a \<in> set d. fst a' = fst a \<and> enemy_evolves (snd a) (snd a'))"

text \<open>The events only the authority may emit.\<close>

fun authoritative_event :: "event \<Rightarrow> bool" where
  "authoritative_event (PowerUpCollectedEvent _ _) = True"
| "authoritative_event (PlayerDeathEvent _ _) = True"
| "authoritative_event _ = False"

definition present :: "game_engine \<Rightarrow> ident set" where
  "present e = fst ` set (characters (world_state e)) \<union> fst ` set (respawn_timers (world_state e))"

definition same_setting :: "game_engine \<Rightarrow> game_engine \<Rightarrow> bool" where
  "same_setting e e' \<longleftrightarrow>
     platforms e' = platforms e \<and> is_authoritative e' = is_authoritative e \<and>
     world_width e' = world_width e \<and> world_height e' = world_height e \<and>
     spawn_points e' = spawn_points e \<and> decorations e' = decorations e \<and>
     level_template e' = level_template e \<and>
     coins_to_win (world_state e') = coins_to_win (world_state e) \<and>
     blocks_to_win (world_state e') = blocks_to_win (world_state e) \<and>
     enemies_to_win (world_state e') = enemies_to_win (world_state e) \<and>
     initial_enemy_count (world_state e') = initial_enemy_count (world_state e)"

text \<open>What a replica must leave to the authority.\<close>

definition replica_frame :: "game_engine \<Rightarrow> game_engine \<Rightarrow> bool" where
  "replica_frame e e' \<longleftrightarrow>
     power_ups (environment (world_state e')) = power_ups (environment (world_state e)) \<and>
     dict_keys (enemies (environment (world_state e'))) = dict_keys (enemies (environment (world_state e))) \<and>
     dict_keys (characters (world_state e')) = dict_keys (characters (world_state e)) \<and>
     respawn_timers (world_state e') = respawn_timers (world_state e) \<and>
     victory (world_state e') = victory (world_state e) \<and>
     victory_player_id (world_state e') = victory_player_id (world_state e)"

definition evolves :: "game_engine \<Rightarrow> game_engine \<Rightarrow> bool" where
  "evolves e e' \<longleftrightarrow>
     same_setting e e' \<and>
     list_all2 block_evolves (destructible_blocks (environment (world_state e)))
       (destructible_blocks (environment (world_state e'))) \<and>
     list_all2 powerup_evolves (power_ups (environment (world_state e)))
       (power_ups (environment (world_state e'))) \<and>
     list_all2 gate_evolves (cooperative_gates (environment (world_state e)))
       (cooperative_gates (environment (world_state e'))) \<and>
     enemies_evolve (enemies (environment (world_state e)))
       (enemies (environment (world_state e'))) \<and>
     length (enemies (environment (world_state e'))) \<le> length (enemies (environment (world_state e))) \<and>
     present e' = present e \<and>
     (\<exists>new. events e' = events e @ new
        \<and> (\<not> is_authoritative e \<longrightarrow> (\<forall>ev \<in> set new. \<not> authoritative_event ev))) \<and>
     (\<not> is_authoritative e \<longrightarrow> replica_frame e e')"

subsection \<open>The preorder\<close>

lemma block_evolves_refl [simp]: "block_evolves b b"
  by (simp add: block_evolves_def)

lemma block_evolves_trans: "block_evolves a b \<Longrightarrow> block_evolves b c \<Longrightarrow> block_evolves a c"
  by (auto simp: block_evolves_def)

lemma powerup_evolves_refl [simp]: "powerup_evolves a a"
  by (simp add: powerup_evolves_def)

lemma powerup_evolves_trans: "powerup_evolves a b \<Longrightarrow> powerup_evolves b c \<Longrightarrow> powerup_evolves a c"
  by (auto simp: powerup_evolves_def)

lemma gate_evolves_refl [simp]: "gate_evolves a a"
  unfolding gate_evolves_def by (rule exI [of _ "gate_state (snd a)"]) simp

lemma gate_evolves_trans: "gate_evolves a b \<Longrightarrow> gate_evolves b c \<Longrightarrow> gate_evolves a c"
  by (auto simp: gate_evolves_def)

lemma enemy_evolves_refl [simp]: "enemy_evolves en en"
  by (simp add: enemy_evolves_def)

lemma enemy_evolves_trans: "enemy_evolves a b \<Longrightarrow> enemy_evolves b c \<Longrightarrow> enemy_evolves a c"
  by (simp add: enemy_evolves_def)

lemma enemies_evolve_subset: "set d' \<subseteq> set d \<Longrightarrow> enemies_evolve d d'"
  unfolding enemies_evolve_def using enemy_evolves_refl by blast

lemma enemies_evolve_refl [simp]: "enemies_evolve d d"
  by (rule enemies_evolve_subset) simp

lemma enemies_evolve_delete [simp]: "enemies_evolve d (AList.delete k d)"
  by (rule enemies_evolve_subset) (auto simp: set_AList_delete)

lemma enemies_evolve_trans:
  assumes "enemies_evolve a b" and "enemies_evolve b c"
  shows "enemies_evolve a c"
  unfolding enemies_evolve_def
proof
  fix z
  assume "z \<in> set c"
  then obtain y where y: "y \<in> set b" "fst z = fst y" "enemy_evolves (snd y) (snd z)"
    using assms(2) by (auto simp: enemies_evolve_def)
  then obtain x where "x \<in> set a" "fst y = fst x" "enemy_evolves (snd x) (snd y)"
    using assms(1) by (auto simp: enemies_evolve_def)
  with y show "\<exists>x \<in> set a. fst z = fst x \<and> enemy_evolves (snd x) (snd z)"
    using enemy_evolves_trans by metis
qed

lemma enemies_evolve_all2:
  "list_all2 (\<lambda>a a'. fst a' = fst a \<and> enemy_evolves (snd a) (snd a')) d d' \<Longrightarrow> enemies_evolve d d'"
  unfolding enemies_evolve_def by (induction rule: list_all2_induct) auto

lemma list_all2_refl_on: "(\<And>x. P x x) \<Longrightarrow> list_all2 P xs xs"
  by (simp add: list_all2_same)

lemma replica_frame_refl [simp]: "replica_frame e e"
  by (simp add: replica_frame_def)

lemma replica_frame_trans: "replica_frame a b \<Longrightarrow> replica_frame b c \<Longrightarrow> replica_frame a c"
  by (simp add: replica_frame_def)

lemma same_setting_refl [simp]: "same_setting e e"
  by (simp add: same_setting_def)

lemma same_setting_trans: "same_setting a b \<Longrightarrow> same_setting b c \<Longrightarrow> same_setting a c"
  by (simp add: same_setting_def)

lemma evolves_refl [simp]: "evolves e e"
  by (auto simp: evolves_def list_all2_refl_on)

lemma evolves_authority: "evolves e e' \<Longrightarrow> is_authoritative e' = is_authoritative e"
  by (simp add: evolves_def same_setting_def)

lemma evolvesD:
  assumes "evolves e e'"
  shows "same_setting e e'"
    and "list_all2 block_evolves (destructible_blocks (environment (world_state e)))
           (destructible_blocks (environment (world_state e')))"
    and "list_all2 powerup_evolves (power_ups (environment (world_state e)))
           (power_ups (environment (world_state e')))"
    and "list_all2 gate_evolves (cooperative_gates (environment (world_state e)))
           (cooperative_gates (environment (world_state e')))"
    and "enemies_evolve (enemies (environment (world_state e)))
           (enemies (environment (world_state e')))"
    and "length (enemies (environment (world_state e')))
           \<le> length (enemies (environment (world_state e)))"
    and "present e' = present e"
    and "\<exists>new. events e' = events e @ new
           \<and> (\<not> is_authoritative e \<longrightarrow> (\<forall>ev \<in> set new. \<not> authoritative_event ev))"
    and "\<not> is_authoritative e \<Longrightarrow> replica_frame e e'"
  using assms by (simp_all add: evolves_def)

lemma evolves_trans [trans]:
  assumes ab: "evolves a b" and bc: "evolves b c"
  shows "evolves a c"
proof -
  have auth: "is_authoritative b = is_authoritative a"
    using ab by (rule evolves_authority)
  obtain n1 where n1: "events b = events a @ n1"
      "\<not> is_authoritative a \<longrightarrow> (\<forall>ev \<in> set n1. \<not> authoritative_event ev)"
    using evolvesD(8) [OF ab] by blast
  obtain n2 where n2: "events c = events b @ n2"
      "\<not> is_authoritative b \<longrightarrow> (\<forall>ev \<in> set n2. \<not> authoritative_event ev)"
    using evolvesD(8) [OF bc] by blast
  have ev: "\<exists>new. events c = events a @ new
      \<and> (\<not> is_authoritative a \<longrightarrow> (\<forall>ev \<in> set new. \<not> authoritative_event ev))"
    by (rule exI [of _ "n1 @ n2"]) (use n1 n2 auth in auto)
  have rf: "\<not> is_authoritative a \<longrightarrow> replica_frame a c"
    using evolvesD(9) [OF ab] evolvesD(9) [OF bc] auth replica_frame_trans by blast
  show ?thesis
    unfolding evolves_def
    using same_setting_trans [OF evolvesD(1) [OF ab] evolvesD(1) [OF bc]]
      list_all2_trans [OF block_evolves_trans evolvesD(2) [OF ab] evolvesD(2) [OF bc]]
      list_all2_trans [OF powerup_evolves_trans evolvesD(3) [OF ab] evolvesD(3) [OF bc]]
      list_all2_trans [OF gate_evolves_trans evolvesD(4) [OF ab] evolvesD(4) [OF bc]]
      enemies_evolve_trans [OF evolvesD(5) [OF ab] evolvesD(5) [OF bc]]
      order_trans [OF evolvesD(6) [OF bc] evolvesD(6) [OF ab]]
      trans [OF evolvesD(7) [OF bc] evolvesD(7) [OF ab]] ev rf
    by (intro conjI) assumption+
qed

text \<open>One phase that cannot fail, and one that can: both keep the engine well-formed.\<close>

definition good_step :: "game_engine \<Rightarrow> game_engine \<Rightarrow> bool" where
  "good_step e e' \<longleftrightarrow> evolves e e' \<and> engine_wf e' \<and>
     sequence_number (world_state e') = sequence_number (world_state e)"

definition good_result :: "game_engine \<Rightarrow> game_engine result \<Rightarrow> bool" where
  "good_result e r \<longleftrightarrow> (\<exists>e'. r = Inr e' \<and> good_step e e')"

lemma good_step_refl: "engine_wf e \<Longrightarrow> good_step e e"
  by (simp add: good_step_def)

lemma good_step_trans: "good_step a b \<Longrightarrow> good_step b c \<Longrightarrow> good_step a c"
  by (auto simp: good_step_def intro: evolves_trans)

lemma good_step_wf: "good_step e e' \<Longrightarrow> engine_wf e'"
  by (simp add: good_step_def)

lemma good_result_Inr [simp]: "good_result e (Inr e') \<longleftrightarrow> good_step e e'"
  by (simp add: good_result_def)

lemma good_result_step: "good_step a b \<Longrightarrow> good_result b r \<Longrightarrow> good_result a r"
  by (auto simp: good_result_def intro: good_step_trans)

lemma good_result_bind:
  assumes "good_result a r" and "\<And>b. good_step a b \<Longrightarrow> good_result b (f b)"
  shows "good_result a (rbind r f)"
  using assms by (auto simp: good_result_def) (meson good_step_trans)+

lemmas frame_defs = evolves_def same_setting_def replica_frame_def present_def

subsection \<open>Phases that only mutate players\<close>

lemma good_step_characters:
  assumes "engine_wf e" and "dict_keys cs = dict_keys (characters (world_state e))"
    and "keyed player_id cs"
  shows "good_step e (world_state_update (characters_update (\<lambda>_. cs)) e)"
proof -
  have "fst ` set cs = fst ` set (characters (world_state e))"
    using assms(2) by (metis list.set_map)
  then show ?thesis
    using assms by (simp add: good_step_def frame_defs world_wf_def list_all2_refl_on)
qed

lemma each_player_good:
  assumes "engine_wf e" and "\<And>p. player_id (f p) = player_id p"
  shows "good_step e (each_player f e)"
proof -
  have "each_player f e = world_state_update (characters_update (\<lambda>_.
      map_vals f (characters (world_state e)))) e"
    by (cases e) (simp add: each_player_def)
  then show ?thesis
    using assms by (auto intro!: good_step_characters keyed_map_vals dest: world_wfD)
qed

lemma set_player_good:
  assumes "engine_wf e" and "k \<in> fst ` set (characters (world_state e))" and "player_id p = k"
  shows "good_step e (set_player k p e)"
proof -
  have "set_player k p e = world_state_update (characters_update (\<lambda>_.
      AList.update k p (characters (world_state e)))) e"
    by (cases e) (simp add: set_player_def)
  moreover have "dict_keys (AList.update k p (characters (world_state e)))
      = dict_keys (characters (world_state e))"
    using assms(2) by (simp add: AList.update_keys)
  ultimately show ?thesis
    using assms by (auto intro!: good_step_characters keyed_update dest: world_wfD)
qed

lemma get_player_in: "get_player pid w = Some p \<Longrightarrow> pid \<in> fst ` set (characters w)"
  by (force simp: get_player_def dest: map_of_SomeD)

lemma apply_input_player_id [simp]: "player_id (apply_input inp p) = player_id p"
  by (simp add: apply_input_def Let_def)

lemma get_player_id: "engine_wf e \<Longrightarrow> get_player pid (world_state e) = Some p \<Longrightarrow> player_id p = pid"
  unfolding get_player_def by (rule keyed_map_of [OF world_wfD(1)])

lemma apply_inputs_good: "engine_wf e \<Longrightarrow> good_step e (apply_inputs inputs e)"
proof (induction inputs arbitrary: e)
  case Nil
  then show ?case by (simp add: apply_inputs_def good_step_refl)
next
  case (Cons a inputs)
  obtain pid inp where a: "a = (pid, inp)" by force
  define e1 where "e1 = (case get_player pid (world_state e) of None \<Rightarrow> e
      | Some p \<Rightarrow> set_player pid (apply_input inp p) e)"
  have "good_step e e1"
    using Cons.prems
    by (auto simp: e1_def good_step_refl get_player_in get_player_id
        intro!: set_player_good split: option.split)
  moreover have "good_step e1 (apply_inputs inputs e1)"
    using Cons.IH [OF good_step_wf [OF \<open>good_step e e1\<close>]] .
  moreover have "apply_inputs (a # inputs) e = apply_inputs inputs e1"
    by (simp add: apply_inputs_def a e1_def)
  ultimately show ?case by (metis good_step_trans)
qed

lemma save_previous_positions_good: "engine_wf e \<Longrightarrow> good_step e (save_previous_positions e)"
  unfolding save_previous_positions_def by (rule each_player_good) auto

lemma expire_effect_player_id [simp]: "player_id (expire_effect now p) = player_id p"
  by (simp add: expire_effect_def split: option.split)

lemma expire_powerup_effects_good: "engine_wf e \<Longrightarrow> good_step e (expire_powerup_effects now e)"
  unfolding expire_powerup_effects_def by (rule each_player_good) auto

lemma apply_physics_player_id [simp]: "player_id (apply_physics dt p) = player_id p"
  by (simp add: apply_physics_def Let_def)

lemma collide_platforms_player_id [simp]: "player_id (collide_platforms pls p) = player_id p"
proof -
  have "player_id (fold (\<lambda>pl p. if check_collision p pl then resolve_collision p pl else p) pls q)
      = player_id q" for q
    by (induction pls arbitrary: q) auto
  then show ?thesis by (simp add: collide_platforms_def)
qed

lemma handle_collisions_good: "engine_wf e \<Longrightarrow> good_step e (handle_collisions e)"
  unfolding handle_collisions_def by (rule each_player_good) auto

lemma clamp_character_frame [simp]:
  "player_id (clamp_character_to_world e b p) = player_id p"
  "width (clamp_character_to_world e b p) = width p"
  "height (clamp_character_to_world e b p) = height p"
  "join_index (clamp_character_to_world e b p) = join_index p"
  by (simp_all add: clamp_character_to_world_def Let_def)

lemma clamp_players_good: "engine_wf e \<Longrightarrow> good_step e (clamp_players_to_world e)"
  unfolding clamp_players_to_world_def by (rule each_player_good) auto

subsection \<open>Blocks\<close>

lemma collide_block_total:
  "\<exists>b' s'. collide_block b s = Inr (b', s') \<and> block_evolves b b' \<and>
     player_id (fst s') = player_id (fst s) \<and>
     (\<exists>new. snd s' = snd s @ new \<and> (\<forall>ev \<in> set new. \<not> authoritative_event ev))"
  by (cases s) (auto simp: collide_block_def block_evolves_def)

lemma collide_blocks_total:
  "\<exists>a' s'. collide_blocks a s = Inr (a', s') \<and> fst a' = fst a \<and> player_id (snd a') = player_id (snd a)
     \<and> list_all2 block_evolves (fst s) (fst s') \<and>
     (\<exists>new. snd s' = snd s @ new \<and> (\<forall>ev \<in> set new. \<not> authoritative_event ev))"
proof -
  obtain k p bs evs where as: "a = (k, p)" "s = (bs, evs)" by (metis surj_pair)
  let ?P = "\<lambda>t::player \<times> event list. player_id (fst t) = player_id p \<and>
    (\<exists>new. snd t = evs @ new \<and> (\<forall>ev \<in> set new. \<not> authoritative_event ev))"
  have "\<exists>bs' t. map_accum collide_block bs (p, evs) = Inr (bs', t) \<and>
      list_all2 block_evolves bs bs' \<and> ?P t"
  proof (rule map_accum_total)
    show "?P (p, evs)" by simp
  next
    fix b t
    assume "?P t"
    then show "\<exists>b' t'. collide_block b t = Inr (b', t') \<and> block_evolves b b' \<and> ?P t'"
      using collide_block_total [of b t] by (fastforce)
  qed
  then show ?thesis
    by (fastforce simp: collide_blocks_def as)
qed

lemma handle_block_collisions_good:
  assumes "engine_wf e"
  shows "good_result e (handle_block_collisions e)"
proof -
  let ?w = "world_state e"
  let ?P = "\<lambda>s. list_all2 block_evolves (destructible_blocks (environment ?w)) (fst s) \<and>
    (\<exists>new. snd s = events e @ new \<and> (\<forall>ev \<in> set new. \<not> authoritative_event ev))"
  let ?R = "\<lambda>a a'. fst a' = fst a \<and> player_id (snd a') = player_id (snd a)"
  have "\<exists>cs s. map_accum collide_blocks (characters ?w)
      (destructible_blocks (environment ?w), events e) = Inr (cs, s)
      \<and> list_all2 ?R (characters ?w) cs \<and> ?P s"
  proof (rule map_accum_total)
    show "?P (destructible_blocks (environment ?w), events e)"
      by (simp add: list_all2_refl_on)
  next
    fix a s
    assume P: "?P s"
    obtain a' s' where "collide_blocks a s = Inr (a', s')" "?R a a'"
        "list_all2 block_evolves (fst s) (fst s')"
        "\<exists>new. snd s' = snd s @ new \<and> (\<forall>ev \<in> set new. \<not> authoritative_event ev)"
      using collide_blocks_total [of a s] by auto
    moreover from this P have "?P s'"
      by (auto intro: list_all2_trans [OF block_evolves_trans])
    ultimately show "\<exists>a' s'. collide_blocks a s = Inr (a', s') \<and> ?R a a' \<and> ?P s'"
      by blast
  qed
  then obtain cs bs evs where m: "map_accum collide_blocks (characters ?w)
      (destructible_blocks (environment ?w), events e) = Inr (cs, (bs, evs))"
    and R: "list_all2 ?R (characters ?w) cs"
    and P: "list_all2 block_evolves (destructible_blocks (environment ?w)) bs"
      "\<exists>new. evs = events e @ new \<and> (\<forall>ev \<in> set new. \<not> authoritative_event ev)"
    by auto
  have keys: "dict_keys cs = dict_keys (characters ?w)"
    using R by (auto intro: list_all2_fst_keys elim: list_all2_mono)
  then have fst: "fst ` set cs = fst ` set (characters ?w)"
    by (metis list.set_map)
  have "keyed player_id cs"
    using assms R by (auto intro: keyed_list_all2 dest: world_wfD)
  then show ?thesis
    using assms P keys fst
    by (auto simp: handle_block_collisions_def m good_step_def frame_defs world_wf_def
        list_all2_refl_on)
qed

subsection \<open>Power-ups\<close>

lemma powerup_evolves_id: "powerup_evolves a b \<Longrightarrow> fst b = fst a \<and> powerup_id (snd b) = powerup_id (snd a)"
  by (auto simp: powerup_evolves_def)

text \<open>\<^verbatim>\<open>min\<close> over a non-empty collection returns one of its elements.\<close>

lemma arg_min_list_mem: "xs \<noteq> [] \<Longrightarrow> arg_min_list f xs \<in> set xs"
  by (rule arg_min_list_in)

lemma collect_powerup_total:
  assumes cs: "keyed player_id (fst s)"
  shows "\<exists>a' s'. collect_powerup now a s = Inr (a', s') \<and> powerup_evolves a a' \<and>
    keyed player_id (fst s') \<and> dict_keys (fst s') = dict_keys (fst s) \<and>
    (\<exists>new. snd s' = snd s @ new)"
proof -
  obtain k u cs evs where as: "a = (k, u)" "s = (cs, evs)" by (metis surj_pair)
  let ?hit = "filter (\<lambda>(_, p). check_collision p u) cs"
  show ?thesis
  proof (cases "collected u \<or> ?hit = []")
    case True
    then show ?thesis
      using cs by (auto simp: collect_powerup_def as)
  next
    case False
    obtain wid winner where w: "arg_min_list (\<lambda>(_, p). join_index p) ?hit = (wid, winner)"
      by force
    then have "(wid, winner) \<in> set cs"
      using False arg_min_list_mem [of ?hit "\<lambda>(_, p). join_index p"] by auto
    then have "player_id winner = wid" "wid \<in> fst ` set cs"
      using cs as by (auto dest: keyedD intro: rev_image_eqI)
    then show ?thesis
      using False cs as
      by (auto simp: collect_powerup_def as w powerup_evolves_def AList.update_keys
          intro!: keyed_update)
  qed
qed

lemma handle_powerup_collisions_good:
  assumes "engine_wf e"
  shows "good_result e (handle_powerup_collisions now e)"
proof (cases "is_authoritative e")
  case False
  then show ?thesis
    using assms by (simp add: handle_powerup_collisions_def good_step_refl)
next
  case True
  let ?w = "world_state e"
  let ?P = "\<lambda>s :: player dict \<times> event list. keyed player_id (fst s) \<and>
    dict_keys (fst s) = dict_keys (characters ?w) \<and> (\<exists>new. snd s = events e @ new)"
  have "\<exists>us s. map_accum (collect_powerup now) (power_ups (environment ?w))
      (characters ?w, events e) = Inr (us, s)
      \<and> list_all2 powerup_evolves (power_ups (environment ?w)) us \<and> ?P s"
  proof (rule map_accum_total)
    show "?P (characters ?w, events e)"
      using assms by (simp add: world_wfD)
  next
    fix a s
    assume "?P s"
    then show "\<exists>a' s'. collect_powerup now a s = Inr (a', s') \<and> powerup_evolves a a' \<and> ?P s'"
      using collect_powerup_total [of s now a] by fastforce
  qed
  then obtain us cs evs where m: "map_accum (collect_powerup now) (power_ups (environment ?w))
      (characters ?w, events e) = Inr (us, (cs, evs))"
    and R: "list_all2 powerup_evolves (power_ups (environment ?w)) us"
    and P: "keyed player_id cs" "dict_keys cs = dict_keys (characters ?w)"
      "\<exists>new. evs = events e @ new"
    by auto
  have fst: "fst ` set cs = fst ` set (characters ?w)"
    using P(2) by (metis list.set_map)
  have "keyed powerup_id us"
    using world_wfD(2) [OF assms] R
    by (rule keyed_list_all2 [OF _ list_all2_mono]) (use powerup_evolves_id in blast)
  then show ?thesis
    using assms P R fst True
    by (auto simp: handle_powerup_collisions_def m good_step_def frame_defs world_wf_def
        list_all2_refl_on)
qed

lemma handle_environment_collisions_good:
  "engine_wf e \<Longrightarrow> good_result e (handle_environment_collisions now e)"
  unfolding handle_environment_collisions_def
  by (intro good_result_bind handle_block_collisions_good handle_powerup_collisions_good)
    (auto dest: good_step_wf)

subsection \<open>Enemies\<close>

text \<open>The commands a caller may pass: every value is an \<^typ>\<open>enemy_movement_command\<close>.\<close>

definition valid_commands :: "enemy_commands \<Rightarrow> bool" where
  "valid_commands commands \<longleftrightarrow>
     (case commands of None \<Rightarrow> True | Some cmds \<Rightarrow> Other_Object \<notin> snd ` set cmds)"

text \<open>The motion keeps an enemy inside its bounds, at the speed it moved with.\<close>

lemma patrol_enemy_evolves: "enemy_evolves en (patrol_enemy dt en)"
  by (auto simp: enemy_evolves_def patrol_enemy_def Let_def in_patrol_def enemy_speed_def
      split: option.split)

lemma commanded_enemy_evolves:
  "c \<noteq> CMD_STOP \<Longrightarrow> enemy_evolves en (en\<lparr>enemy_vx := of_int (command_value c) * enemy_speed en\<rparr>)"
  by (cases c)
    (auto simp: enemy_evolves_def in_patrol_def enemy_speed_def split: option.split)

lemma update_enemy_total:
  assumes "valid_commands commands"
  shows "\<exists>a'. update_enemy dt commands a = Inr a' \<and> fst a' = fst a
    \<and> enemy_evolves (snd a) (snd a')"
proof -
  obtain k en where a: "a = (k, en)" by force
  have no: "map_of cmds k \<noteq> Some Other_Object" if "commands = Some cmds" for cmds
    using assms that by (force simp: valid_commands_def dest: map_of_SomeD)
  have "enemy_evolves en (patrol_enemy dt (en\<lparr>enemy_vx := of_int (command_value c) * enemy_speed en\<rparr>))"
    if "c \<noteq> CMD_STOP" for c
    using that by (rule enemy_evolves_trans [OF commanded_enemy_evolves patrol_enemy_evolves])
  then show ?thesis
    by (auto simp: update_enemy_def a patrol_enemy_evolves simp del: command_value.simps
        dest: no split: option.split command_object.split enemy_movement_command.split)
qed

lemma enemy_evolves_id: "enemy_evolves a b \<Longrightarrow> enemy_id b = enemy_id a"
  by (simp add: enemy_evolves_def)

lemma update_enemies_good:
  assumes "engine_wf e" and "valid_commands commands"
  shows "good_result e (update_enemies dt commands e)"
proof -
  let ?d = "enemies (environment (world_state e))"
  let ?R = "\<lambda>a a'. fst a' = fst a \<and> enemy_evolves (snd a) (snd a')"
  obtain ens where m: "map_res (update_enemy dt commands) ?d = Inr ens"
    and R: "list_all2 ?R ?d ens"
    using map_res_total [of ?d "update_enemy dt commands" ?R] update_enemy_total [OF assms(2)]
    by blast
  have keys: "dict_keys ens = dict_keys ?d"
    using R by (auto intro: list_all2_fst_keys elim: list_all2_mono)
  then have len: "length ens = length ?d"
    by (metis length_map)
  have "keyed enemy_id ens"
    using world_wfD(3) [OF assms(1)] R
    by (rule keyed_list_all2 [OF _ list_all2_mono]) (use enemy_evolves_id in blast)
  then show ?thesis
    using assms keys len enemies_evolve_all2 [OF R]
    by (simp add: update_enemies_def m good_step_def frame_defs world_wf_def list_all2_refl_on)
qed

subsection \<open>Deaths\<close>

lemma queue_player_death_good:
  assumes "engine_wf e" and "is_authoritative e"
    and "player_id p \<in> fst ` set (characters (world_state e))"
  shows "good_step e (queue_player_death now p cause e)"
  using assms
  by (auto simp: queue_player_death_def Let_def good_step_def frame_defs world_wf_def
      list_all2_refl_on remove_player_eq set_AList_delete AList.dom_update AList.distinct_update
      keyed_delete)

lemma queue_player_death_simps [simp]:
  "enemies (environment (world_state (queue_player_death now p cause e)))
     = enemies (environment (world_state e))"
  "characters (world_state (queue_player_death now p cause e))
     = AList.delete (player_id p) (characters (world_state e))"
  by (simp_all add: queue_player_death_def Let_def remove_player_eq)

lemma set_player_simps [simp]:
  "enemies (environment (world_state (set_player k p e))) = enemies (environment (world_state e))"
  "characters (world_state (set_player k p e)) = AList.update k p (characters (world_state e))"
  "is_authoritative (set_player k p e) = is_authoritative e"
  by (simp_all add: set_player_def)

lemma delete_enemy_good:
  assumes "engine_wf e" and "is_authoritative e"
    and "eid \<in> fst ` set (enemies (environment (world_state e)))"
  shows "\<exists>e'. delete_enemy eid e = Inr e' \<and> good_step e e' \<and>
    characters (world_state e') = characters (world_state e) \<and>
    fst ` set (enemies (environment (world_state e')))
      = fst ` set (enemies (environment (world_state e))) - {eid}"
  using assms
  by (auto simp: delete_enemy_def good_step_def frame_defs world_wf_def list_all2_refl_on
      set_AList_delete keyed_delete AList.length_delete_le)

lemma has_active_player_id [simp]:
  "player_id (snd (has_active_powerup_effect now p)) = player_id p"
  by (auto simp: has_active_powerup_effect_def split: option.split)

text \<open>What is left of a set of keys once the current one may be gone.\<close>

lemma rest_subset: "x \<notin> A \<Longrightarrow> insert x A \<subseteq> B \<Longrightarrow> B - {x} \<subseteq> C \<Longrightarrow> A \<subseteq> C"
  by blast

text \<open>One enemy's turn: afterwards every other enemy is still there.\<close>

lemma enemy_against_players_good:
  assumes "engine_wf e" and "is_authoritative e"
    and "enemy_id en \<in> fst ` set (enemies (environment (world_state e)))"
    and "keyed player_id ps"
    and "fst ` set ps \<subseteq> fst ` set (characters (world_state e))"
  shows "\<exists>e'. enemy_against_players now en ps e = Inr e' \<and> good_step e e' \<and>
    fst ` set (enemies (environment (world_state e))) - {enemy_id en}
      \<subseteq> fst ` set (enemies (environment (world_state e')))"
  using assms
proof (induction ps arbitrary: e)
  case Nil
  then show ?case by (auto simp: good_step_refl)
next
  case (Cons a ps)
  obtain pk p where a: "a = (pk, p)" by force
  have pk: "player_id p = pk" "pk \<in> fst ` set (characters (world_state e))"
    using Cons.prems(4,5) by (simp_all add: a)
  show ?case
  proof (cases "check_collision p en")
    case False
    then show ?thesis
      using Cons.IH [OF Cons.prems(1-3)] Cons.prems(4,5) by (simp add: a)
  next
    case True
    obtain active p1 where act: "has_active_powerup_effect now p = (active, p1)" by force
    then have p1: "player_id p1 = pk"
      using has_active_player_id [of now p] pk by simp
    let ?e1 = "set_player pk p1 e"
    have g1: "good_step e ?e1"
      using Cons.prems(1) pk p1 by (intro set_player_good)
    show ?thesis
    proof (cases "active \<or> is_stomp p1 en")
      case stomp: True
      let ?p2 = "p1\<lparr>vy := JUMP_FORCE * (6 / 10)\<rparr>"
      obtain e2 where e2: "delete_enemy (enemy_id en) ?e1 = Inr e2" "good_step ?e1 e2"
          "characters (world_state e2) = characters (world_state ?e1)"
          "fst ` set (enemies (environment (world_state e2)))
             = fst ` set (enemies (environment (world_state ?e1))) - {enemy_id en}"
        using delete_enemy_good [OF good_step_wf [OF g1], of "enemy_id en"] Cons.prems(2,3) by auto
      have "good_step e2 (set_player pk ?p2 e2)"
        using e2 pk p1 by (intro set_player_good) (auto intro: good_step_wf simp: AList.dom_update)
      then have "good_step e (set_player pk ?p2 e2)"
        using g1 e2(2) by (metis good_step_trans)
      then show ?thesis
        using stomp True act e2 by (auto simp: a Let_def)
    next
      case fatal: False
      let ?e2 = "queue_player_death now p1 (enemy_id en) ?e1"
      have g2: "good_step ?e1 ?e2"
        using g1 Cons.prems(2) p1
        by (intro queue_player_death_good) (auto intro: good_step_wf simp: AList.dom_update)
      have auth2: "is_authoritative ?e2"
        using g2 Cons.prems(2) by (auto simp: good_step_def dest: evolves_authority)
      have "fst ` set ps \<subseteq> fst ` set (characters (world_state ?e2))"
        using Cons.prems(4,5) by (simp add: a p1 AList.dom_update) blast
      with Cons.IH [OF good_step_wf [OF g2] auth2] Cons.prems(3,4)
      obtain e' where "enemy_against_players now en ps ?e2 = Inr e'" "good_step ?e2 e'"
          "fst ` set (enemies (environment (world_state ?e2))) - {enemy_id en}
            \<subseteq> fst ` set (enemies (environment (world_state e')))"
        by (auto simp: a)
      then show ?thesis
        using True fatal act good_step_trans [OF g1 good_step_trans [OF g2]] by (auto simp: a Let_def)
    qed
  qed
qed

lemma handle_enemy_collisions_good:
  assumes "engine_wf e"
  shows "good_result e (handle_enemy_collisions now e)"
proof (cases "is_authoritative e")
  case False
  then show ?thesis
    using assms by (simp add: handle_enemy_collisions_def good_step_refl)
next
  case True
  let ?ids = "\<lambda>e. fst ` set (enemies (environment (world_state e)))"
  let ?turn = "\<lambda>en e. enemy_against_players now en (characters (world_state e)) e"
  have *: "\<exists>e'. fold_res ?turn ens t = Inr e' \<and> good_step t e'"
    if "engine_wf t" "is_authoritative t" "distinct (map enemy_id ens)" "enemy_id ` set ens \<subseteq> ?ids t"
    for ens t
    using that
  proof (induction ens arbitrary: t)
    case Nil
    then show ?case by (auto simp: good_step_refl)
  next
    case (Cons en ens)
    have en: "enemy_id en \<in> ?ids t"
      using Cons.prems(4) by simp
    obtain t' where t': "?turn en t = Inr t'" "good_step t t'" "?ids t - {enemy_id en} \<subseteq> ?ids t'"
      using enemy_against_players_good [OF Cons.prems(1,2) en world_wfD(1) [OF Cons.prems(1)] order_refl]
      by blast
    have "is_authoritative t'"
      using t'(2) Cons.prems(2) by (auto simp: good_step_def dest: evolves_authority)
    moreover have "enemy_id ` set ens \<subseteq> ?ids t'"
      by (rule rest_subset [of "enemy_id en", OF _ _ t'(3)]) (use Cons.prems(3,4) in simp_all)
    ultimately show ?case
      using Cons.IH [OF good_step_wf [OF t'(2)]] Cons.prems(3) t'(1) good_step_trans [OF t'(2)]
      by auto
  qed
  have "enemy_id ` set (dict_values (enemies (environment (world_state e)))) \<subseteq> ?ids e"
    using keyed_values_set [OF world_wfD(3) [OF assms]] by blast
  from * [OF assms True keyed_values_distinct [OF world_wfD(3) [OF assms]] this]
  show ?thesis
    using True by (simp add: handle_enemy_collisions_def good_result_def)
qed

lemma handle_void_deaths_good:
  assumes "engine_wf e"
  shows "good_step e (handle_void_deaths now e)"
proof (cases "is_authoritative e")
  case False
  then show ?thesis
    using assms by (simp add: handle_void_deaths_def good_step_refl)
next
  case True
  let ?step = "\<lambda>p e. if pos_y p + height p \<le> of_int (world_height e) then e
                     else queue_player_death now p VOID_DEATH_CAUSE e"
  have *: "good_step t (fold ?step ps t)"
    if "engine_wf t" "is_authoritative t" "distinct (map player_id ps)"
      "player_id ` set ps \<subseteq> fst ` set (characters (world_state t))" for ps t
    using that
  proof (induction ps arbitrary: t)
    case Nil
    then show ?case by (simp add: good_step_refl)
  next
    case (Cons p ps)
    have g: "good_step t (?step p t)"
      using Cons.prems by (auto simp: good_step_refl intro: queue_player_death_good)
    have "is_authoritative (?step p t)"
      using g Cons.prems(2) by (auto simp: good_step_def dest: evolves_authority)
    moreover have "player_id ` set ps \<subseteq> fst ` set (characters (world_state (?step p t)))"
      using Cons.prems(3,4) by simp blast
    ultimately have "good_step (?step p t) (fold ?step ps (?step p t))"
      using Cons.IH [OF good_step_wf [OF g]] Cons.prems(3) by simp
    with g show ?case by (simp only: fold.simps comp_apply good_step_trans)
  qed
  have "player_id ` set (dict_values (characters (world_state e))) \<subseteq> fst ` set (characters (world_state e))"
    using keyed_values_set [OF world_wfD(1) [OF assms]] by blast
  from * [OF assms True keyed_values_distinct [OF world_wfD(1) [OF assms]] this]
  show ?thesis
    using True by (simp only: handle_void_deaths_def not_True_eq_False if_False)
qed

subsection \<open>Objectives, gates, victory and respawns\<close>

lemma sync_objective_progress_good: "engine_wf e \<Longrightarrow> good_step e (sync_objective_progress e)"
  by (simp add: sync_objective_progress_def good_step_def frame_defs world_wf_def list_all2_refl_on)

text \<open>The progress counters agree with the environment they count.\<close>

definition objectives_synced :: "world_state \<Rightarrow> bool" where
  "objectives_synced w \<longleftrightarrow>
     coins_collected w = count_coins (environment w) \<and>
     blocks_destroyed w = count_destroyed (environment w) \<and>
     enemies_defeated w = max 0 (initial_enemy_count w - int (length (enemies (environment w))))"

lemma sync_objective_progress_synced: "objectives_synced (world_state (sync_objective_progress e))"
  by (simp add: objectives_synced_def sync_objective_progress_def)

lemma gate_evolves_id: "gate_evolves a b \<Longrightarrow> fst b = fst a \<and> gate_id (snd b) = gate_id (snd a)"
  by (auto simp: gate_evolves_def)

lemma update_gate_total:
  assumes "keyed player_id (fst s)"
  shows "\<exists>a' s'. update_gate w a s = Inr (a', s') \<and>
    (gate_evolves a a' \<and>
     gate_state (snd a') = (if gate_should_be_open w (snd a) then ''open'' else ''closed'')) \<and>
    keyed player_id (fst s') \<and> dict_keys (fst s') = dict_keys (fst s) \<and>
    (\<exists>new. snd s' = snd s @ new \<and> (\<forall>ev \<in> set new. \<not> authoritative_event ev))"
proof -
  obtain k g cs evs where as: "a = (k, g)" "s = (cs, evs)" by (metis surj_pair)
  show ?thesis
    using assms
    by (auto simp: update_gate_def as Let_def gate_update_state_def gate_evolves_def
        intro!: keyed_map_vals intro: exI [of _ "gate_state g"])
qed

text \<open>After its update every gate is open exactly when its requirements are met.\<close>

definition gates_settled :: "world_state \<Rightarrow> bool" where
  "gates_settled w \<longleftrightarrow> (\<forall>g \<in> snd ` set (cooperative_gates (environment w)).
     gate_state g = (if gate_should_be_open w g then ''open'' else ''closed''))"

lemma handle_gate_collisions_good:
  assumes "engine_wf e"
  shows "\<exists>e'. handle_gate_collisions e = Inr e' \<and> good_step e e' \<and> gates_settled (world_state e') \<and>
    (objectives_synced (world_state e) \<longrightarrow> objectives_synced (world_state e'))"
proof -
  let ?w = "world_state e"
  let ?gs = "cooperative_gates (environment ?w)"
  let ?P = "\<lambda>s :: player dict \<times> event list. keyed player_id (fst s) \<and>
    dict_keys (fst s) = dict_keys (characters ?w) \<and>
    (\<exists>new. snd s = events e @ new \<and> (\<forall>ev \<in> set new. \<not> authoritative_event ev))"
  let ?R = "\<lambda>a a'. gate_evolves a a' \<and>
    gate_state (snd a') = (if gate_should_be_open ?w (snd a) then ''open'' else ''closed'')"
  have "\<exists>gs s. map_accum (update_gate ?w) ?gs (characters ?w, events e) = Inr (gs, s)
      \<and> list_all2 ?R ?gs gs \<and> ?P s"
  proof (rule map_accum_total)
    show "?P (characters ?w, events e)"
      using assms by (simp add: world_wfD)
  next
    fix a and s :: "player dict \<times> event list"
    assume P: "?P s"
    obtain a' s' where "update_gate ?w a s = Inr (a', s')" "?R a a'" "keyed player_id (fst s')"
        "dict_keys (fst s') = dict_keys (fst s)"
        "\<exists>new. snd s' = snd s @ new \<and> (\<forall>ev \<in> set new. \<not> authoritative_event ev)"
      using update_gate_total [of s ?w a] P by blast
    with P show "\<exists>a' s'. update_gate ?w a s = Inr (a', s') \<and> ?R a a' \<and> ?P s'"
      by auto
  qed
  then obtain gs cs evs where m: "map_accum (update_gate ?w) ?gs (characters ?w, events e)
      = Inr (gs, (cs, evs))"
    and R: "list_all2 ?R ?gs gs"
    and P: "keyed player_id cs" "dict_keys cs = dict_keys (characters ?w)"
      "\<exists>new. evs = events e @ new \<and> (\<forall>ev \<in> set new. \<not> authoritative_event ev)"
    by auto
  have fst: "fst ` set cs = fst ` set (characters ?w)"
    using P(2) by (metis list.set_map)
  have gs: "list_all2 gate_evolves ?gs gs"
    using R by (rule list_all2_mono) blast
  have "keyed gate_id gs"
    using world_wfD(4) [OF assms] gs
    by (rule keyed_list_all2 [OF _ list_all2_mono]) (use gate_evolves_id in blast)
  moreover have "gates_settled (?w\<lparr>characters := cs,
      environment := (environment ?w)\<lparr>cooperative_gates := gs\<rparr>\<rparr>)"
    using R by (fastforce simp: gates_settled_def gate_should_be_open_def list_all2_conv_all_nth
        in_set_conv_nth gate_evolves_def)
  ultimately show ?thesis
    using assms P gs fst
    by (auto simp: handle_gate_collisions_def m good_step_def frame_defs world_wf_def
        list_all2_refl_on objectives_synced_def count_coins_def count_destroyed_def)
qed

lemma handle_victory_condition_good:
  "engine_wf e \<Longrightarrow> good_step e (handle_victory_condition e)"
  by (auto simp: handle_victory_condition_def good_step_refl split: option.split)
    (simp add: good_step_def frame_defs world_wf_def list_all2_refl_on)

lemma new_player_id [simp]: "player_id (new_player pid x y ji) = pid"
  "join_index (new_player pid x y ji) = ji"
  by (simp_all add: new_player_def)

text \<open>The player a due respawn brings back.\<close>

definition respawned :: "ident \<Rightarrow> game_engine \<Rightarrow> player" where
  "respawned pid e =
     (let ji = (case map_of (respawn_join_index e) pid of None \<Rightarrow> 0 | Some j \<Rightarrow> j);
          (x, y) = spawn_position_for e ji
      in clamp_character_to_world e True (new_player pid x y ji))"

lemma respawned_id [simp]: "player_id (respawned pid e) = pid"
  by (simp add: respawned_def Let_def split: prod.split)

lemma respawn_due:
  assumes "now \<ge> due"
  shows "respawn now (pid, due) e =
     e\<lparr>respawn_join_index := AList.delete pid (respawn_join_index e),
       world_state := (world_state e)
         \<lparr>characters := AList.update pid (respawned pid e) (characters (world_state e)),
          respawn_timers := AList.delete pid (respawn_timers (world_state e))\<rparr>\<rparr>"
proof -
  have "spawn_position_for (respawn_join_index_update f e) ji = spawn_position_for e ji"
    "clamp_character_to_world (respawn_join_index_update f e) b p = clamp_character_to_world e b p"
    for f ji b p
    by (simp_all add: spawn_position_for_def clamp_character_to_world_def Let_def)
  then show ?thesis
    using assms
    by (cases e; cases "world_state e")
      (simp add: respawn_def respawned_def Let_def spawn_player_def add_player_def split: prod.split)
qed

lemma respawn_good:
  assumes "engine_wf e" and "is_authoritative e"
    and "fst t \<in> fst ` set (respawn_timers (world_state e))"
  shows "good_step e (respawn now t e)"
    and "fst ` set (respawn_timers (world_state e)) - {fst t}
      \<subseteq> fst ` set (respawn_timers (world_state (respawn now t e)))"
proof -
  obtain pid due where t: "t = (pid, due)" by force
  have "good_step e (respawn now t e) \<and> fst ` set (respawn_timers (world_state e)) - {fst t}
      \<subseteq> fst ` set (respawn_timers (world_state (respawn now t e)))"
  proof (cases "now \<ge> due")
    case True
    then have r: "respawn now t e =
        e\<lparr>respawn_join_index := AList.delete pid (respawn_join_index e),
          world_state := (world_state e)
            \<lparr>characters := AList.update pid (respawned pid e) (characters (world_state e)),
             respawn_timers := AList.delete pid (respawn_timers (world_state e))\<rparr>\<rparr>"
      unfolding t by (rule respawn_due)
    have "present (respawn now t e) = present e"
      using assms(3) unfolding r by (auto simp: present_def t AList.dom_update)
    then show ?thesis
      using assms world_wfD [OF assms(1)] unfolding r
      by (auto simp: t good_step_def evolves_def same_setting_def world_wf_def list_all2_refl_on
          AList.dom_update keyed_update AList.distinct_delete)
  next
    case False
    then show ?thesis using assms(1) by (simp add: respawn_def t good_step_refl)
  qed
  then show "good_step e (respawn now t e)"
    and "fst ` set (respawn_timers (world_state e)) - {fst t}
      \<subseteq> fst ` set (respawn_timers (world_state (respawn now t e)))"
    by simp_all
qed

lemma process_respawns_good:
  assumes "engine_wf e"
  shows "good_step e (process_respawns now e)"
proof (cases "is_authoritative e")
  case False
  then show ?thesis
    using assms by (simp add: process_respawns_def good_step_refl)
next
  case True
  have *: "good_step e' (fold (respawn now) ts e')"
    if "engine_wf e'" "is_authoritative e'" "distinct (dict_keys ts)"
      "fst ` set ts \<subseteq> fst ` set (respawn_timers (world_state e'))" for ts e'
    using that
  proof (induction ts arbitrary: e')
    case Nil
    then show ?case by (simp add: good_step_refl)
  next
    case (Cons t ts)
    have "fst t \<in> fst ` set (respawn_timers (world_state e'))"
      using Cons.prems(4) by simp
    note g = respawn_good [OF Cons.prems(1,2) this, of now]
    have "is_authoritative (respawn now t e')"
      using g Cons.prems(2) by (auto simp: good_step_def dest: evolves_authority)
    moreover have "fst ` set ts \<subseteq> fst ` set (respawn_timers (world_state (respawn now t e')))"
      by (rule rest_subset [of "fst t", OF _ _ g(2)]) (use Cons.prems(3,4) in simp_all)
    ultimately have "good_step (respawn now t e') (fold (respawn now) ts (respawn now t e'))"
      using Cons.IH [OF good_step_wf [OF g(1)]] Cons.prems(3) by simp
    with g(1) show ?case by (simp only: fold.simps comp_apply) (rule good_step_trans)
  qed
  show ?thesis
    using * [OF assms True world_wfD(5) [OF assms] order_refl] True
    by (simp add: process_respawns_def)
qed

subsection \<open>The whole tick\<close>

text \<open>The phases before the world clamp, on a run that is not won.\<close>

lemma next_sequence_number_evolves:
  assumes "good_step a b"
  shows "evolves a (next_sequence_number b)" and "engine_wf (next_sequence_number b)"
    and "sequence_number (world_state (next_sequence_number b)) = sequence_number (world_state a) + 1"
proof -
  have "evolves b (next_sequence_number b)"
    by (simp add: next_sequence_number_def frame_defs list_all2_refl_on)
  with assms show "evolves a (next_sequence_number b)"
    by (auto simp: good_step_def intro: evolves_trans)
qed (use assms in \<open>simp_all add: next_sequence_number_def good_step_def world_wf_def\<close>)

text \<open>No phase before the victory check touches the outcome.\<close>

definition outcome :: "game_engine \<Rightarrow> bool \<times> ident option" where
  "outcome e = (victory (world_state e), victory_player_id (world_state e))"

lemma outcome_each_player [simp]: "outcome (each_player f e) = outcome e"
  by (simp add: outcome_def each_player_def)

lemma outcome_set_player [simp]: "outcome (set_player k p e) = outcome e"
  by (simp add: outcome_def set_player_def)

lemma outcome_players [simp]:
  "outcome (save_previous_positions e) = outcome e"
  "outcome (expire_powerup_effects now e) = outcome e"
  "outcome (handle_collisions e) = outcome e"
  "outcome (clamp_players_to_world e) = outcome e"
  by (simp_all add: save_previous_positions_def expire_powerup_effects_def handle_collisions_def
      clamp_players_to_world_def)

lemma outcome_apply_inputs [simp]: "outcome (apply_inputs inputs e) = outcome e"
proof (induction inputs arbitrary: e)
  case Nil
  then show ?case by (simp add: apply_inputs_def)
next
  case (Cons a inputs)
  then show ?case by (cases a) (simp add: apply_inputs_def split: option.split)
qed

lemma outcome_environment_collisions:
  "handle_environment_collisions now e = Inr e' \<Longrightarrow> outcome e' = outcome e"
  by (auto simp: handle_environment_collisions_def handle_block_collisions_def
      handle_powerup_collisions_def rbind_Inr_iff outcome_def split: if_splits)

lemma outcome_update_enemies: "update_enemies dt commands e = Inr e' \<Longrightarrow> outcome e' = outcome e"
  by (auto simp: update_enemies_def rbind_Inr_iff outcome_def)

lemma outcome_queue_player_death [simp]: "outcome (queue_player_death now p cause e) = outcome e"
  by (simp add: queue_player_death_def Let_def outcome_def remove_player_eq)

lemma outcome_delete_enemy: "delete_enemy eid e = Inr e' \<Longrightarrow> outcome e' = outcome e"
  by (auto simp: delete_enemy_def outcome_def split: if_splits)

lemma outcome_enemy_against_players:
  "enemy_against_players now en ps e = Inr e' \<Longrightarrow> outcome e' = outcome e"
proof (induction ps arbitrary: e)
  case Nil
  then show ?case by simp
next
  case (Cons a ps)
  obtain pk p where a: "a = (pk, p)" by force
  obtain active p1 where act: "has_active_powerup_effect now p = (active, p1)" by force
  show ?case
    using Cons by (auto simp: a act Let_def rbind_Inr_iff dest!: outcome_delete_enemy split: if_splits)
qed

lemma outcome_enemy_collisions: "handle_enemy_collisions now e = Inr e' \<Longrightarrow> outcome e' = outcome e"
  using fold_res_inv [of "\<lambda>en e. enemy_against_players now en (characters (world_state e)) e"
      "dict_values (enemies (environment (world_state e)))" e e' "\<lambda>t. outcome t = outcome e"]
    outcome_enemy_against_players
  by (auto simp: handle_enemy_collisions_def split: if_splits)

lemma outcome_void_deaths [simp]: "outcome (handle_void_deaths now e) = outcome e"
proof -
  have "outcome (fold (\<lambda>p e. if pos_y p + height p \<le> of_int (world_height e) then e
      else queue_player_death now p VOID_DEATH_CAUSE e) ps t) = outcome t" for ps t
    by (induction ps arbitrary: t) simp_all
  then show ?thesis by (simp add: handle_void_deaths_def)
qed

lemma outcome_sync [simp]: "outcome (sync_objective_progress e) = outcome e"
  by (simp add: outcome_def sync_objective_progress_def)

lemma outcome_gates: "handle_gate_collisions e = Inr e' \<Longrightarrow> outcome e' = outcome e"
  by (auto simp: handle_gate_collisions_def rbind_Inr_iff outcome_def)

lemmas outcome_phases = outcome_environment_collisions outcome_update_enemies
  outcome_enemy_collisions outcome_gates

lemma good_chain: "good_step a b \<Longrightarrow> (engine_wf b \<Longrightarrow> good_step b c) \<Longrightarrow> good_step a c"
  by (meson good_step_trans good_step_wf)

lemma each_player_physics_good: "engine_wf e \<Longrightarrow> good_step e (each_player (apply_physics dt) e)"
  by (rule each_player_good) simp_all

text \<open>Each phase as a rule that extends a run of good phases by one.\<close>

lemmas good_phases =
  good_chain [OF _ save_previous_positions_good]
  good_chain [OF _ expire_powerup_effects_good]
  good_chain [OF _ apply_inputs_good]
  good_chain [OF _ each_player_physics_good]
  good_chain [OF _ handle_collisions_good]
  good_chain [OF _ handle_void_deaths_good]
  good_chain [OF _ sync_objective_progress_good]
  good_chain [OF _ clamp_players_good]
  good_chain [OF _ handle_victory_condition_good]
  good_chain [OF _ process_respawns_good]

text \<open>
  The decomposition every property of a tick starts from: the engine before the phases that
  only read the world, and what those phases make of it.
\<close>

lemma tick_phases:
  assumes "engine_wf e" and "valid_commands commands" and "\<not> victory (world_state e)"
  obtains e11 where "good_step e e11" and "gates_settled (world_state e11)"
    and "objectives_synced (world_state e11)" and "outcome e11 = outcome e"
    and "tick clk dt inputs commands e = Inr (next_sequence_number
           (process_respawns (clock_respawns clk)
             (handle_victory_condition (clamp_players_to_world e11))))"
proof -
  define e5 where "e5 = handle_collisions (each_player (apply_physics dt)
    (apply_inputs inputs (expire_powerup_effects (clock_expire clk) (save_previous_positions e))))"
  have g5: "good_step e e5"
    unfolding e5_def by (intro good_phases good_step_refl assms(1))
  obtain e6 where e6: "handle_environment_collisions (clock_powerups clk) e5 = Inr e6" "good_step e5 e6"
    using handle_environment_collisions_good [OF good_step_wf [OF g5]] by (auto simp: good_result_def)
  obtain e7 where e7: "update_enemies dt commands e6 = Inr e7" "good_step e6 e7"
    using update_enemies_good [OF good_step_wf [OF e6(2)] assms(2)] by (auto simp: good_result_def)
  obtain e8 where e8: "handle_enemy_collisions (clock_enemies clk) e7 = Inr e8" "good_step e7 e8"
    using handle_enemy_collisions_good [OF good_step_wf [OF e7(2)]] by (auto simp: good_result_def)
  define e10 where "e10 = sync_objective_progress (handle_void_deaths (clock_void clk) e8)"
  have g10: "good_step e8 e10"
    unfolding e10_def by (intro good_phases good_step_refl good_step_wf [OF e8(2)])
  obtain e11 where e11: "handle_gate_collisions e10 = Inr e11" "good_step e10 e11"
      "gates_settled (world_state e11)" "objectives_synced (world_state e11)"
    using handle_gate_collisions_good [OF good_step_wf [OF g10]] sync_objective_progress_synced
    unfolding e10_def by blast
  have "good_step e e11"
    by (rule good_step_trans [OF good_step_trans [OF good_step_trans [OF good_step_trans
      [OF good_step_trans [OF g5 e6(2)] e7(2)] e8(2)] g10] e11(2)])
  moreover have "outcome e11 = outcome e"
    using e6(1) e7(1) e8(1) e11(1) by (auto dest!: outcome_phases simp: e5_def e10_def)
  moreover have "tick clk dt inputs commands e = Inr (next_sequence_number
           (process_respawns (clock_respawns clk)
             (handle_victory_condition (clamp_players_to_world e11))))"
    using assms(3) e6(1) e7(1) e8(1) e11(1)
    by (simp add: tick_def Let_def flip: e5_def e10_def)
  ultimately show thesis using e11(3,4) that by blast
qed

lemma tick_good:
  assumes "engine_wf e" and "valid_commands commands"
  shows "\<exists>e'. tick clk dt inputs commands e = Inr e' \<and> evolves e e' \<and> engine_wf e' \<and>
    sequence_number (world_state e') = sequence_number (world_state e) + 1"
proof (cases "victory (world_state e)")
  case True
  then show ?thesis
    using next_sequence_number_evolves [OF good_step_refl [OF assms(1)]] by (simp add: tick_def)
next
  case False
  obtain e11 where e11: "good_step e e11"
    "tick clk dt inputs commands e = Inr (next_sequence_number
       (process_respawns (clock_respawns clk)
         (handle_victory_condition (clamp_players_to_world e11))))"
    using tick_phases [OF assms False] by metis
  have "good_step e (process_respawns (clock_respawns clk)
      (handle_victory_condition (clamp_players_to_world e11)))"
    by (intro good_phases e11(1))
  then show ?thesis
    using e11(2) next_sequence_number_evolves by auto
qed

lemma tick_result:
  assumes "engine_wf e" and "valid_commands commands" and "tick clk dt inputs commands e = Inr e'"
  shows "evolves e e'" and "engine_wf e'"
    and "sequence_number (world_state e') = sequence_number (world_state e) + 1"
  using tick_good [OF assms(1,2), of clk dt inputs] assms(3) by auto

lemma new_engine_wf [wf_intros]: "engine_wf (new_engine l a)"
  by (simp add: new_engine_def wf_intros)

lemma spawn_player_wf [wf_intros]:
  "engine_wf e \<Longrightarrow> pid \<notin> fst ` set (respawn_timers (world_state e)) \<Longrightarrow>
     engine_wf (spawn_player pid x y ji e)"
  by (simp add: spawn_player_def wf_intros)

lemma reset_player_for_run_id [simp]: "player_id (reset_player_for_run e p) = player_id p"
  by (simp add: reset_player_for_run_def split: prod.split)

lemma reset_for_new_run_wf [wf_intros]: "engine_wf e \<Longrightarrow> engine_wf (reset_for_new_run e)"
  using load_level_wf [of "world_state e" "level_template e"]
  by (auto simp: reset_for_new_run_def Let_def each_player_def world_wf_def intro!: keyed_map_vals)

end
