(* ===== verification/Engine_Props.thy ===== *)
theory Engine_Props
  imports Engine_Inv
begin

text \<open>
  The correctness properties of the simulation.  The first part gives the exact effect of the
  phases that decide who lives and who wins; the second states the properties of a whole
  \<^const>\<open>tick\<close>, each by the decomposition of \<open>tick_phases\<close> and the frame \<^const>\<open>evolves\<close>.
  The locale \<open>stepper\<close> is the interface a client of the simulation relies on: a step never
  fails on a well-formed state and advances the sequence number by one.
\<close>

subsection \<open>Runs of a sequenced step function\<close>

locale stepper =
  fixes step :: "'c \<Rightarrow> 's \<Rightarrow> 's result"
    and inv :: "'s \<Rightarrow> bool"
    and ok :: "'c \<Rightarrow> bool"
    and rel :: "'s \<Rightarrow> 's \<Rightarrow> bool"
    and seq :: "'s \<Rightarrow> int"
  assumes step_ok: "inv s \<Longrightarrow> ok c \<Longrightarrow>
      \<exists>s'. step c s = Inr s' \<and> inv s' \<and> rel s s' \<and> seq s' = seq s + 1"
    and rel_refl: "rel s s"
    and rel_trans: "rel s t \<Longrightarrow> rel t u \<Longrightarrow> rel s u"
begin

lemma run_ok:
  "inv s \<Longrightarrow> \<forall>c \<in> set cs. ok c \<Longrightarrow>
     \<exists>s'. fold_res step cs s = Inr s' \<and> inv s' \<and> rel s s' \<and> seq s' = seq s + int (length cs)"
proof (induction cs arbitrary: s)
  case Nil
  then show ?case by (simp add: rel_refl)
next
  case (Cons c cs)
  obtain t where t: "step c s = Inr t" "inv t" "rel s t" "seq t = seq s + 1"
    using step_ok [OF Cons.prems(1), of c] Cons.prems(2) by auto
  obtain u where "fold_res step cs t = Inr u" "inv u" "rel t u" "seq u = seq t + int (length cs)"
    using Cons.IH [OF t(2)] Cons.prems(2) by auto
  with t show ?case by (auto intro: rel_trans)
qed

lemma run_result:
  "inv s \<Longrightarrow> \<forall>c \<in> set cs. ok c \<Longrightarrow> fold_res step cs s = Inr s' \<Longrightarrow>
     inv s' \<and> rel s s' \<and> seq s' = seq s + int (length cs)"
  using run_ok by fastforce

end

text \<open>The arguments of one tick, and a run of ticks.\<close>

record tick_args =
  args_clock :: tick_clock
  args_dt :: flt
  args_inputs :: "input_state dict"
  args_commands :: enemy_commands

definition tick_with :: "tick_args \<Rightarrow> game_engine \<Rightarrow> game_engine result" where
  "tick_with a = tick (args_clock a) (args_dt a) (args_inputs a) (args_commands a)"

definition valid_args :: "tick_args \<Rightarrow> bool" where
  "valid_args a \<longleftrightarrow> valid_commands (args_commands a)"

interpretation simulation: stepper tick_with engine_wf valid_args evolves
  "\<lambda>e. sequence_number (world_state e)"
proof unfold_locales
  fix e a
  assume "engine_wf e" and "valid_args a"
  then show "\<exists>e'. tick_with a e = Inr e' \<and> engine_wf e' \<and> evolves e e' \<and>
      sequence_number (world_state e') = sequence_number (world_state e) + 1"
    unfolding tick_with_def valid_args_def using tick_good by blast
qed (auto intro: evolves_trans)

subsection \<open>Respawns\<close>

lemma respawned_cong:
  assumes "world_width e' = world_width e" and "world_height e' = world_height e"
    and "spawn_points e' = spawn_points e"
    and "map_of (respawn_join_index e') pid = map_of (respawn_join_index e) pid"
  shows "respawned pid e' = respawned pid e"
proof -
  have "spawn_position_for e' ji = spawn_position_for e ji"
    "clamp_character_to_world e' b p = clamp_character_to_world e b p" for ji b p
    by (simp_all add: spawn_position_for_def clamp_character_to_world_def Let_def assms)
  then show ?thesis by (simp add: respawned_def assms)
qed

text \<open>What the respawn phase makes of the living and of the queue.\<close>

definition due :: "flt \<Rightarrow> flt option \<Rightarrow> bool" where
  "due now t = (case t of None \<Rightarrow> False | Some d \<Rightarrow> d \<le> now)"

lemma fold_respawn:
  assumes "distinct (dict_keys ts)" and "\<And>pid d. (pid, d) \<in> set ts \<Longrightarrow> map_of (respawn_timers (world_state e)) pid = Some d"
  shows "map_of (characters (world_state (fold (respawn now) ts e))) pid =
      (if due now (map_of ts pid) then Some (respawned pid e)
       else map_of (characters (world_state e)) pid) \<and>
    map_of (respawn_timers (world_state (fold (respawn now) ts e))) pid =
      (if due now (map_of ts pid) then None else map_of (respawn_timers (world_state e)) pid) \<and>
    (\<not> due now (map_of ts pid) \<longrightarrow> respawned pid (fold (respawn now) ts e) = respawned pid e)"
  using assms
proof (induction ts arbitrary: e)
  case Nil
  then show ?case by (simp add: due_def)
next
  case (Cons t ts)
  obtain k d where t: "t = (k, d)" by force
  show ?case
  proof (cases "d \<le> now")
    case False
    then have "respawn now t e = e" by (simp add: t respawn_def)
    moreover have "map_of ts k = None"
      using Cons.prems(1) by (simp add: t map_of_eq_None_iff)
    ultimately show ?thesis
      using Cons.IH [of e] Cons.prems False by (auto simp: t due_def)
  next
    case True
    note r = respawn_due [OF True, of k e]
    have k: "k \<notin> fst ` set ts" "map_of ts k = None"
      using Cons.prems(1) by (simp_all add: t map_of_eq_None_iff)
    have IH: "map_of (characters (world_state (fold (respawn now) ts (respawn now t e)))) pid =
        (if due now (map_of ts pid) then Some (respawned pid (respawn now t e))
         else map_of (characters (world_state (respawn now t e))) pid) \<and>
      map_of (respawn_timers (world_state (fold (respawn now) ts (respawn now t e)))) pid =
        (if due now (map_of ts pid) then None else map_of (respawn_timers (world_state (respawn now t e))) pid) \<and>
      (\<not> due now (map_of ts pid) \<longrightarrow>
         respawned pid (fold (respawn now) ts (respawn now t e)) = respawned pid (respawn now t e))"
    proof (rule Cons.IH)
      show "distinct (dict_keys ts)" using Cons.prems(1) by simp
      fix q dq
      assume q: "(q, dq) \<in> set ts"
      then have "q \<noteq> k" using k(1) by force
      then show "map_of (respawn_timers (world_state (respawn now t e))) q = Some dq"
        using Cons.prems(2) q by (simp add: t r AList.delete_conv')
    qed
    have "pid \<noteq> k \<Longrightarrow> respawned pid (respawn now t e) = respawned pid e"
      by (rule respawned_cong) (simp_all add: t r AList.delete_conv')
    with IH show ?thesis
      using True k by (auto simp: t r due_def AList.update_conv' AList.delete_conv')
  qed
qed

text \<open>The rest of the world is not touched.\<close>

lemma respawn_frame:
  "environment (world_state (respawn now t e)) = environment (world_state e) \<and>
   victory (world_state (respawn now t e)) = victory (world_state e) \<and>
   victory_player_id (world_state (respawn now t e)) = victory_player_id (world_state e) \<and>
   coins_collected (world_state (respawn now t e)) = coins_collected (world_state e) \<and>
   blocks_destroyed (world_state (respawn now t e)) = blocks_destroyed (world_state e) \<and>
   enemies_defeated (world_state (respawn now t e)) = enemies_defeated (world_state e) \<and>
   initial_enemy_count (world_state (respawn now t e)) = initial_enemy_count (world_state e) \<and>
   world_width (respawn now t e) = world_width e \<and> world_height (respawn now t e) = world_height e"
  by (cases t) (simp add: respawn_def Let_def spawn_player_def add_player_def split: prod.split)

lemma process_respawns_frame [simp]:
  "environment (world_state (process_respawns now e)) = environment (world_state e)"
  "victory (world_state (process_respawns now e)) = victory (world_state e)"
  "victory_player_id (world_state (process_respawns now e)) = victory_player_id (world_state e)"
  "coins_collected (world_state (process_respawns now e)) = coins_collected (world_state e)"
  "blocks_destroyed (world_state (process_respawns now e)) = blocks_destroyed (world_state e)"
  "enemies_defeated (world_state (process_respawns now e)) = enemies_defeated (world_state e)"
  "initial_enemy_count (world_state (process_respawns now e)) = initial_enemy_count (world_state e)"
  "world_width (process_respawns now e) = world_width e"
  "world_height (process_respawns now e) = world_height e"
proof -
  let ?f = "\<lambda>e. (environment (world_state e), victory (world_state e), victory_player_id (world_state e),
     coins_collected (world_state e), blocks_destroyed (world_state e), enemies_defeated (world_state e),
     initial_enemy_count (world_state e), world_width e, world_height e)"
  have "?f (fold (respawn now) ts e) = ?f e" for ts
    by (induction ts arbitrary: e) (simp_all add: respawn_frame)
  then have "?f (process_respawns now e) = ?f e"
    by (simp add: process_respawns_def)
  then show "environment (world_state (process_respawns now e)) = environment (world_state e)"
    "victory (world_state (process_respawns now e)) = victory (world_state e)"
    "victory_player_id (world_state (process_respawns now e)) = victory_player_id (world_state e)"
    "coins_collected (world_state (process_respawns now e)) = coins_collected (world_state e)"
    "blocks_destroyed (world_state (process_respawns now e)) = blocks_destroyed (world_state e)"
    "enemies_defeated (world_state (process_respawns now e)) = enemies_defeated (world_state e)"
    "initial_enemy_count (world_state (process_respawns now e)) = initial_enemy_count (world_state e)"
    "world_width (process_respawns now e) = world_width e"
    "world_height (process_respawns now e) = world_height e"
    by simp_all
qed

lemma process_respawns_lookup:
  assumes "engine_wf e" and "is_authoritative e"
  shows "map_of (characters (world_state (process_respawns now e))) pid =
      (if due now (map_of (respawn_timers (world_state e)) pid) then Some (respawned pid e)
       else map_of (characters (world_state e)) pid)"
    and "map_of (respawn_timers (world_state (process_respawns now e))) pid =
      (if due now (map_of (respawn_timers (world_state e)) pid) then None
       else map_of (respawn_timers (world_state e)) pid)"
  using fold_respawn [of "respawn_timers (world_state e)" e now pid] world_wfD(5) [OF assms(1)] assms(2)
  by (simp_all add: process_respawns_def)

text \<open>Nobody alive is touched by the respawns.\<close>

lemma process_respawns_keeps:
  assumes "engine_wf e" and "map_of (characters (world_state e)) pid = Some p"
  shows "map_of (characters (world_state (process_respawns now e))) pid = Some p"
proof (cases "is_authoritative e")
  case True
  have "pid \<in> fst ` set (characters (world_state e))"
    using assms(2) by (force dest: map_of_SomeD)
  then have "map_of (respawn_timers (world_state e)) pid = None"
    using world_wfD(6) [OF assms(1)] by (auto simp: map_of_eq_None_iff)
  then show ?thesis
    using process_respawns_lookup(1) [OF assms(1) True] assms(2) by (simp add: due_def)
next
  case False
  then show ?thesis using assms(2) by (simp add: process_respawns_def)
qed

subsection \<open>Victory\<close>

definition final_contact :: "world_state \<Rightarrow> player \<Rightarrow> bool" where
  "final_contact w p \<longleftrightarrow>
     (\<exists>g \<in> snd ` set (cooperative_gates (environment w)).
        gate_state g = ''open'' \<and> is_final g \<and> check_collision p g)"

lemma set_victory_contacts:
  "set (victory_contacts w) = {p \<in> snd ` set (characters w). final_contact w p}"
  unfolding final_contact_def victory_contacts_def by auto

lemma victory_contact_Some:
  assumes "victory_contact w = Some p"
  shows "p \<in> snd ` set (characters w) \<and> final_contact w p"
proof -
  have "p \<in> set (victory_contacts w)"
    using assms by (cases "victory_contacts w") (simp_all add: victory_contact_def)
  then show ?thesis unfolding set_victory_contacts by simp
qed

lemma victory_contact_None:
  "victory_contact w = None \<longleftrightarrow> (\<forall>p \<in> snd ` set (characters w). \<not> final_contact w p)"
proof -
  have "victory_contact w = None \<longleftrightarrow> set (victory_contacts w) = {}"
    by (cases "victory_contacts w") (simp_all add: victory_contact_def)
  then show ?thesis unfolding set_victory_contacts by blast
qed

lemma handle_victory_condition_frame [simp]:
  "environment (world_state (handle_victory_condition e)) = environment (world_state e)"
  "characters (world_state (handle_victory_condition e)) = characters (world_state e)"
  "respawn_timers (world_state (handle_victory_condition e)) = respawn_timers (world_state e)"
  "coins_collected (world_state (handle_victory_condition e)) = coins_collected (world_state e)"
  "blocks_destroyed (world_state (handle_victory_condition e)) = blocks_destroyed (world_state e)"
  "enemies_defeated (world_state (handle_victory_condition e)) = enemies_defeated (world_state e)"
  "initial_enemy_count (world_state (handle_victory_condition e)) = initial_enemy_count (world_state e)"
  "world_width (handle_victory_condition e) = world_width e"
  "world_height (handle_victory_condition e) = world_height e"
  by (auto simp: handle_victory_condition_def split: option.split)

lemma handle_victory_condition_iff:
  assumes "\<not> victory (world_state e)"
  shows "victory (world_state (handle_victory_condition e)) \<longleftrightarrow>
    is_authoritative e \<and> (\<exists>p \<in> snd ` set (characters (world_state e)). final_contact (world_state e) p)"
  using assms victory_contact_None [of "world_state e"]
  by (auto simp: handle_victory_condition_def split: option.split)

lemma handle_victory_condition_winner:
  assumes "\<not> victory (world_state e)" and "victory (world_state (handle_victory_condition e))"
  shows "\<exists>p \<in> snd ` set (characters (world_state e)). final_contact (world_state e) p \<and>
    victory_player_id (world_state (handle_victory_condition e)) = Some (player_id p)"
  using assms victory_contact_Some [of "world_state e"]
  by (auto simp: handle_victory_condition_def split: option.splits if_splits)

lemma clamp_players_frame [simp]:
  "environment (world_state (clamp_players_to_world e)) = environment (world_state e)"
  "victory (world_state (clamp_players_to_world e)) = victory (world_state e)"
  "coins_collected (world_state (clamp_players_to_world e)) = coins_collected (world_state e)"
  "blocks_destroyed (world_state (clamp_players_to_world e)) = blocks_destroyed (world_state e)"
  "enemies_defeated (world_state (clamp_players_to_world e)) = enemies_defeated (world_state e)"
  "initial_enemy_count (world_state (clamp_players_to_world e)) = initial_enemy_count (world_state e)"
  "world_width (clamp_players_to_world e) = world_width e"
  "world_height (clamp_players_to_world e) = world_height e"
  by (simp_all add: clamp_players_to_world_def each_player_def)

lemma next_sequence_number_frame [simp]:
  "environment (world_state (next_sequence_number e)) = environment (world_state e)"
  "characters (world_state (next_sequence_number e)) = characters (world_state e)"
  "respawn_timers (world_state (next_sequence_number e)) = respawn_timers (world_state e)"
  "victory (world_state (next_sequence_number e)) = victory (world_state e)"
  "victory_player_id (world_state (next_sequence_number e)) = victory_player_id (world_state e)"
  "coins_collected (world_state (next_sequence_number e)) = coins_collected (world_state e)"
  "blocks_destroyed (world_state (next_sequence_number e)) = blocks_destroyed (world_state e)"
  "enemies_defeated (world_state (next_sequence_number e)) = enemies_defeated (world_state e)"
  "initial_enemy_count (world_state (next_sequence_number e)) = initial_enemy_count (world_state e)"
  "world_width (next_sequence_number e) = world_width e"
  "world_height (next_sequence_number e) = world_height e"
  by (simp_all add: next_sequence_number_def)

subsection \<open>Contacts between players and enemies\<close>

definition same_box :: "player \<Rightarrow> player \<Rightarrow> bool" where
  "same_box p q \<longleftrightarrow> pos_x q = pos_x p \<and> pos_y q = pos_y p \<and> width q = width p \<and> height q = height p"

lemma same_box_refl [simp]: "same_box p p"
  by (simp add: same_box_def)

lemma same_box_trans: "same_box p q \<Longrightarrow> same_box q r \<Longrightarrow> same_box p r"
  by (simp add: same_box_def)

lemma same_box_collision: "same_box p q \<Longrightarrow> check_collision q r = check_collision p r"
  by (simp add: same_box_def check_collision_def)

lemma has_active_same_box [simp]: "same_box p (snd (has_active_powerup_effect now p))"
  by (auto simp: has_active_powerup_effect_def same_box_def split: option.split)

text \<open>The survivors of a phase that moves nobody: each stands where it stood.\<close>

definition survivors :: "game_engine \<Rightarrow> game_engine \<Rightarrow> bool" where
  "survivors e e' \<longleftrightarrow>
     (\<forall>k p'. map_of (characters (world_state e')) k = Some p' \<longrightarrow>
        (\<exists>p. map_of (characters (world_state e)) k = Some p \<and> same_box p p')) \<and>
     (\<forall>k en. map_of (enemies (environment (world_state e'))) k = Some en \<longrightarrow>
        map_of (enemies (environment (world_state e))) k = Some en)"

lemma survivors_refl [simp]: "survivors e e"
  by (auto simp: survivors_def)

lemma survivors_player:
  assumes "survivors e e'" and "map_of (characters (world_state e')) k = Some p'"
  obtains p where "map_of (characters (world_state e)) k = Some p" and "same_box p p'"
  using assms unfolding survivors_def by blast

lemma survivors_enemy:
  "survivors e e' \<Longrightarrow> map_of (enemies (environment (world_state e'))) k = Some en \<Longrightarrow>
     map_of (enemies (environment (world_state e))) k = Some en"
  by (simp add: survivors_def)

lemma survivors_trans: "survivors a b \<Longrightarrow> survivors b c \<Longrightarrow> survivors a c"
  unfolding survivors_def by (meson same_box_trans)

lemma set_player_survivors:
  "map_of (characters (world_state e)) k = Some p \<Longrightarrow> same_box p q \<Longrightarrow> survivors e (set_player k q e)"
  by (simp add: survivors_def AList.update_conv')

lemma delete_enemy_survivors:
  "delete_enemy eid e = Inr e' \<Longrightarrow> survivors e e' \<and>
     characters (world_state e') = characters (world_state e) \<and>
     eid \<notin> fst ` set (enemies (environment (world_state e')))"
  by (auto simp: delete_enemy_def survivors_def AList.delete_conv' set_AList_delete split: if_splits)

lemma queue_player_death_survivors: "survivors e (queue_player_death now p cause e)"
  by (auto simp: survivors_def AList.delete_conv')

lemma survivors_gone:
  "survivors e e' \<Longrightarrow> map_of (enemies (environment (world_state e))) k = None \<Longrightarrow>
     map_of (enemies (environment (world_state e'))) k = None"
  "survivors e e' \<Longrightarrow> map_of (characters (world_state e)) k = None \<Longrightarrow>
     map_of (characters (world_state e')) k = None"
  unfolding survivors_def by (metis not_None_eq)+

text \<open>An enemy that survives its turn has killed every player it touched.\<close>

lemma enemy_against_players_kills:
  assumes "enemy_against_players now en ps e = Inr e'"
    and "\<And>k p. (k, p) \<in> set ps \<Longrightarrow> map_of (characters (world_state e)) k = Some p \<and> player_id p = k"
    and "distinct (dict_keys ps)"
  shows "survivors e e' \<and>
    (map_of (enemies (environment (world_state e'))) (enemy_id en) = None \<or>
     (\<forall>(k, p) \<in> set ps. check_collision p en \<longrightarrow> map_of (characters (world_state e')) k = None))"
  using assms
proof (induction ps arbitrary: e)
  case Nil
  then show ?case by simp
next
  case (Cons a ps)
  obtain pk p where a: "a = (pk, p)" by force
  have pk: "map_of (characters (world_state e)) pk = Some p" "player_id p = pk"
    using Cons.prems(2) by (simp_all add: a)
  show ?case
  proof (cases "check_collision p en")
    case False
    then show ?thesis
      using Cons.IH [of e] Cons.prems by (auto simp: a)
  next
    case True
    obtain active p1 where act: "has_active_powerup_effect now p = (active, p1)" by force
    then have p1: "player_id p1 = pk" "same_box p p1"
      using has_active_player_id [of now p] has_active_same_box [of p now] pk(2) by simp_all
    let ?e1 = "set_player pk p1 e"
    have s1: "survivors e ?e1"
      by (rule set_player_survivors [OF pk(1) p1(2)])
    show ?thesis
    proof (cases "active \<or> is_stomp p1 en")
      case stomp: True
      let ?p2 = "p1\<lparr>vy := JUMP_FORCE * (6 / 10)\<rparr>"
      obtain e2 where e2: "delete_enemy (enemy_id en) ?e1 = Inr e2" "e' = set_player pk ?p2 e2"
        using stomp True act Cons.prems(1) by (auto simp: a Let_def rbind_Inr_iff split: if_splits)
      note d = delete_enemy_survivors [OF e2(1)]
      have "survivors e2 e'"
        unfolding e2(2) by (rule set_player_survivors [of _ _ p1]) (use d in \<open>simp_all add: same_box_def AList.update_conv'\<close>)
      then have "survivors e e'"
        using d s1 by (meson survivors_trans)
      moreover have "map_of (enemies (environment (world_state e'))) (enemy_id en) = None"
        using d by (simp add: e2(2) map_of_eq_None_iff)
      ultimately show ?thesis by simp
    next
      case fatal: False
      let ?e2 = "queue_player_death now p1 (enemy_id en) ?e1"
      have s2: "survivors e ?e2"
        by (rule survivors_trans [OF s1 queue_player_death_survivors])
      have run: "enemy_against_players now en ps ?e2 = Inr e'"
        using True fatal act Cons.prems(1) by (simp add: a Let_def)
      have "map_of (characters (world_state ?e2)) k = Some q \<and> player_id q = k"
        if "(k, q) \<in> set ps" for k q
      proof -
        have "k \<noteq> pk" using Cons.prems(3) that by (force simp: a)
        then show ?thesis
          using Cons.prems(2) [of k q] that by (simp add: p1 AList.delete_conv' AList.update_conv')
      qed
      then have IH: "survivors ?e2 e' \<and>
        (map_of (enemies (environment (world_state e'))) (enemy_id en) = None \<or>
         (\<forall>(k, p) \<in> set ps. check_collision p en \<longrightarrow> map_of (characters (world_state e')) k = None))"
        using Cons.IH [OF run] Cons.prems(3) by (simp add: a)
      moreover have "map_of (characters (world_state e')) pk = None"
        using survivors_gone(2) [of ?e2 e' pk] IH by (simp add: p1 AList.delete_conv')
      ultimately show ?thesis
        using survivors_trans [OF s2] by (auto simp: a)
    qed
  qed
qed

definition no_contact :: "game_engine \<Rightarrow> ident set \<Rightarrow> bool" where
  "no_contact e ids \<longleftrightarrow>
     (\<forall>k p i en. map_of (characters (world_state e)) k = Some p \<and> i \<in> ids \<and>
        map_of (enemies (environment (world_state e))) i = Some en \<longrightarrow> \<not> check_collision p en)"

lemma no_contact_all:
  assumes "no_contact e ids"
    and "\<And>i en. map_of (enemies (environment (world_state e))) i = Some en \<Longrightarrow> i \<in> ids"
  shows "no_contact e UNIV"
  using assms unfolding no_contact_def by blast

lemma no_contact_survivors:
  assumes "survivors e e'" and "no_contact e ids"
  shows "no_contact e' ids"
  unfolding no_contact_def
proof (intro allI impI)
  fix k p i en
  assume asm: "map_of (characters (world_state e')) k = Some p \<and> i \<in> ids \<and>
    map_of (enemies (environment (world_state e'))) i = Some en"
  obtain q where "map_of (characters (world_state e)) k = Some q" "same_box q p"
    using survivors_player [OF assms(1)] asm by blast
  then show "\<not> check_collision p en"
    using assms(2) survivors_enemy [OF assms(1)] asm same_box_collision [of q p en]
    unfolding no_contact_def by blast
qed

text \<open>One enemy's turn settles its contacts, and keeps those settled before.\<close>

lemma enemy_turn_no_contact:
  assumes wf: "engine_wf t" and run: "enemy_against_players now en (characters (world_state t)) t = Inr u"
    and nc: "no_contact t ids"
    and own: "\<And>x. map_of (enemies (environment (world_state t))) (enemy_id en) = Some x \<Longrightarrow> x = en"
  shows "survivors t u" and "no_contact u (insert (enemy_id en) ids)"
proof -
  note ps = world_wfD(1) [OF wf]
  have "map_of (characters (world_state t)) k = Some p \<and> player_id p = k"
    if "(k, p) \<in> set (characters (world_state t))" for k p
    using that ps by (auto dest: keyedD keyed_map_of_in)
  note kills = enemy_against_players_kills [OF run this keyed_distinct [OF ps]]
  then show s: "survivors t u" by blast
  show "no_contact u (insert (enemy_id en) ids)"
    unfolding no_contact_def
  proof (intro allI impI)
    fix k p i x
    assume asm: "map_of (characters (world_state u)) k = Some p \<and> i \<in> insert (enemy_id en) ids \<and>
      map_of (enemies (environment (world_state u))) i = Some x"
    show "\<not> check_collision p x"
    proof (cases "i \<in> ids")
      case True
      then show ?thesis
        using asm no_contact_survivors [OF s nc] unfolding no_contact_def by blast
    next
      case False
      then have i: "i = enemy_id en" using asm by simp
      then have x: "x = en" using asm own survivors_enemy [OF s] by blast
      obtain q where q: "map_of (characters (world_state t)) k = Some q" "same_box q p"
        using survivors_player [OF s] asm by blast
      have "\<forall>(k, p) \<in> set (characters (world_state t)). check_collision p en \<longrightarrow>
          map_of (characters (world_state u)) k = None"
        using kills asm i by auto
      then have "\<not> check_collision q en"
        using map_of_SomeD [OF q(1)] asm by fastforce
      then show ?thesis using same_box_collision [OF q(2), of en] x by simp
    qed
  qed
qed

lemma enemy_turns_no_contact:
  assumes "fold_res (\<lambda>en e. enemy_against_players now en (characters (world_state e)) e) ens t = Inr t'"
    and "engine_wf t" and "is_authoritative t" and "no_contact t ids"
    and "distinct (map enemy_id ens)"
    and "enemy_id ` set ens \<subseteq> fst ` set (enemies (environment (world_state t)))"
    and "\<And>en x. en \<in> set ens \<Longrightarrow>
      map_of (enemies (environment (world_state t))) (enemy_id en) = Some x \<Longrightarrow> x = en"
  shows "survivors t t' \<and> no_contact t' (ids \<union> enemy_id ` set ens)"
  using assms
proof (induction ens arbitrary: t ids)
  case Nil
  then show ?case by simp
next
  case (Cons en ens)
  obtain u where u: "enemy_against_players now en (characters (world_state t)) t = Inr u"
      "fold_res (\<lambda>en e. enemy_against_players now en (characters (world_state e)) e) ens u = Inr t'"
    using Cons.prems(1) by (auto simp: rbind_Inr_iff)
  have en: "enemy_id en \<in> fst ` set (enemies (environment (world_state t)))"
    using Cons.prems(6) by simp
  have gu: "good_step t u" and rest: "fst ` set (enemies (environment (world_state t))) - {enemy_id en}
       \<subseteq> fst ` set (enemies (environment (world_state u)))"
    using enemy_against_players_good [OF Cons.prems(2,3) en world_wfD(1) [OF Cons.prems(2)] order_refl, of now]
      u(1) by auto
  have own: "map_of (enemies (environment (world_state t))) (enemy_id en) = Some x \<Longrightarrow> x = en" for x
    using Cons.prems(7) [of en] by simp
  note turn = enemy_turn_no_contact [OF Cons.prems(2) u(1) Cons.prems(4) own]
  have "survivors u t' \<and> no_contact t' (insert (enemy_id en) ids \<union> enemy_id ` set ens)"
  proof (rule Cons.IH [OF u(2) good_step_wf [OF gu] _ turn(2)])
    show "is_authoritative u"
      using gu Cons.prems(3) by (auto simp: good_step_def dest: evolves_authority)
    show "distinct (map enemy_id ens)" using Cons.prems(5) by simp
    show "enemy_id ` set ens \<subseteq> fst ` set (enemies (environment (world_state u)))"
      by (rule rest_subset [of "enemy_id en", OF _ _ rest]) (use Cons.prems(5,6) in simp_all)
    show "x = en'" if "en' \<in> set ens" "map_of (enemies (environment (world_state u))) (enemy_id en') = Some x"
      for en' x
      using Cons.prems(7) [of en' x] survivors_enemy [OF turn(1) that(2)] that(1) by simp
  qed
  then show ?case
    using survivors_trans [OF turn(1)] by simp
qed

text \<open>The enemy phase leaves no living player in contact with a living enemy.\<close>

lemma handle_enemy_collisions_separates:
  assumes "engine_wf e" and "is_authoritative e" and "handle_enemy_collisions now e = Inr e'"
  shows "survivors e e' \<and> no_contact e' UNIV"
proof -
  let ?d = "enemies (environment (world_state e))"
  have wf: "keyed enemy_id ?d" by (rule world_wfD(3) [OF assms(1)])
  have run: "fold_res (\<lambda>en e. enemy_against_players now en (characters (world_state e)) e)
      (dict_values ?d) e = Inr e'"
    using assms(2,3) by (simp add: handle_enemy_collisions_def)
  have own: "x = en" if h: "en \<in> set (dict_values ?d)" "map_of ?d (enemy_id en) = Some x" for en x
  proof -
    obtain k where "(k, en) \<in> set ?d" using h(1) by force
    then show ?thesis
      using keyedD [OF wf] keyed_map_of_in [OF wf] h(2) by fastforce
  qed
  have sub: "enemy_id ` set (dict_values ?d) \<subseteq> fst ` set ?d"
    using keyed_values_set [OF wf] by blast
  have "no_contact e {}" by (simp add: no_contact_def)
  note * = enemy_turns_no_contact [OF run assms(1,2) this keyed_values_distinct [OF wf] sub own]
  have "no_contact e' UNIV"
  proof (rule no_contact_all)
    show "no_contact e' ({} \<union> enemy_id ` set (dict_values ?d))" by (rule conjunct2 [OF *])
    fix i en
    assume i: "map_of (enemies (environment (world_state e'))) i = Some en"
    have "map_of ?d i = Some en" by (rule survivors_enemy [OF conjunct1 [OF *] i])
    then show "i \<in> {} \<union> enemy_id ` set (dict_values ?d)"
      unfolding keyed_values_set [OF wf] by (force dest: map_of_SomeD)
  qed
  with conjunct1 [OF *] show ?thesis ..
qed

subsection \<open>Who gets a power-up\<close>

definition arbitrated :: "player list \<Rightarrow> powerup \<Rightarrow> powerup \<Rightarrow> bool" where
  "arbitrated ps u u' \<longleftrightarrow>
     (if collected u \<or> (\<forall>p \<in> set ps. \<not> check_collision p u) then u' = u
      else \<exists>p \<in> set ps. check_collision p u \<and>
        (\<forall>q \<in> set ps. check_collision q u \<longrightarrow> join_index p \<le> join_index q) \<and>
        u' = u\<lparr>collected := True, owner := Some (player_id p)\<rparr>)"

lemma arbitrated_untouched:
  "collected u \<or> (\<forall>p \<in> set ps. \<not> check_collision p u) \<Longrightarrow> arbitrated ps u u' \<longleftrightarrow> u' = u"
  unfolding arbitrated_def by (simp only: if_True)

lemma arbitrated_touched:
  "\<not> (collected u \<or> (\<forall>p \<in> set ps. \<not> check_collision p u)) \<Longrightarrow> arbitrated ps u u' \<longleftrightarrow>
     (\<exists>p \<in> set ps. check_collision p u \<and>
        (\<forall>q \<in> set ps. check_collision q u \<longrightarrow> join_index p \<le> join_index q) \<and>
        u' = u\<lparr>collected := True, owner := Some (player_id p)\<rparr>)"
  unfolding arbitrated_def by (simp only: if_False)

definition same_rank :: "player \<Rightarrow> player \<Rightarrow> bool" where
  "same_rank p q \<longleftrightarrow> same_box p q \<and> player_id q = player_id p \<and> join_index q = join_index p"

lemma same_rank_refl [simp]: "same_rank p p"
  by (simp add: same_rank_def)

lemma same_rank_trans: "same_rank p q \<Longrightarrow> same_rank q r \<Longrightarrow> same_rank p r"
  by (auto simp: same_rank_def intro: same_box_trans)

lemma list_all2_same_rank_trans:
  "list_all2 same_rank ps qs \<Longrightarrow> list_all2 same_rank qs rs \<Longrightarrow> list_all2 same_rank ps rs"
  by (rule list_all2_trans [of same_rank same_rank same_rank]) (rule same_rank_trans)

lemma arbitrated_same_rank:
  assumes "list_all2 same_rank ps qs" and "arbitrated qs u u'"
  shows "arbitrated ps u u'"
proof -
  have 1: "\<exists>p \<in> set ps. same_rank p q" if "q \<in> set qs" for q
    using assms(1) that by (metis in_set_conv_nth list_all2_conv_all_nth)
  have 2: "\<exists>q \<in> set qs. same_rank p q" if "p \<in> set ps" for p
    using assms(1) that by (metis in_set_conv_nth list_all2_conv_all_nth)
  have touch: "(\<forall>q \<in> set qs. \<not> check_collision q u) \<longleftrightarrow> (\<forall>p \<in> set ps. \<not> check_collision p u)"
    using 1 2 same_box_collision unfolding same_rank_def by metis
  show ?thesis
  proof (cases "collected u \<or> (\<forall>p \<in> set ps. \<not> check_collision p u)")
    case True
    then show ?thesis using assms(2) touch by (metis arbitrated_untouched)
  next
    case False
    then have "\<not> (collected u \<or> (\<forall>q \<in> set qs. \<not> check_collision q u))" using touch by blast
    then obtain q where q: "q \<in> set qs" "check_collision q u"
        "\<forall>r \<in> set qs. check_collision r u \<longrightarrow> join_index q \<le> join_index r"
        "u' = u\<lparr>collected := True, owner := Some (player_id q)\<rparr>"
      using assms(2) arbitrated_touched by blast
    obtain p where p: "p \<in> set ps" "same_rank p q" using 1 [OF q(1)] by blast
    have "join_index p \<le> join_index r" if "r \<in> set ps" "check_collision r u" for r
      using 2 [OF that(1)] q(3) that(2) p(2) same_box_collision unfolding same_rank_def by metis
    moreover have "check_collision p u"
      using p(2) q(2) same_box_collision unfolding same_rank_def by metis
    ultimately show ?thesis
      unfolding arbitrated_touched [OF False] using p q(4) by (auto simp: same_rank_def)
  qed
qed

lemma list_all2_AList_update:
  assumes "(k, p) \<in> set d" and "distinct (dict_keys d)" and "same_rank p q"
  shows "list_all2 same_rank (dict_values d) (dict_values (AList.update k q d))"
  using assms
proof (induction d)
  case Nil
  then show ?case by simp
next
  case (Cons a d)
  then show ?case
    by (cases a) (auto simp: list.rel_map list_all2_same rev_image_eqI)
qed

lemma collect_powerup_arbitrated:
  assumes "keyed player_id (fst s)" and "collect_powerup now a s = Inr (a', s')"
  shows "fst a' = fst a \<and> arbitrated (dict_values (fst s)) (snd a) (snd a') \<and>
    list_all2 same_rank (dict_values (fst s)) (dict_values (fst s'))"
proof -
  obtain k u cs evs where as: "a = (k, u)" "s = (cs, evs)" by (metis surj_pair)
  let ?hit = "filter (\<lambda>(_, p). check_collision p u) cs"
  let ?key = "\<lambda>(_ :: ident, p). join_index p"
  show ?thesis
  proof (cases "collected u \<or> ?hit = []")
    case True
    then have "arbitrated (dict_values cs) u u"
      by (auto simp: arbitrated_def filter_empty_conv)
    then show ?thesis
      using True assms by (auto simp: collect_powerup_def as list_all2_same split: if_splits)
  next
    case False
    obtain wid winner where w: "arg_min_list ?key ?hit = (wid, winner)"
      by force
    then have mem: "(wid, winner) \<in> set cs" "check_collision winner u"
      using False arg_min_list_mem [of ?hit ?key] by auto
    have "?key (arg_min_list ?key ?hit) \<le> ?key x" if "x \<in> set ?hit" for x
      using f_arg_min_list_f [of ?hit ?key] False that by simp
    then have least: "join_index winner \<le> join_index p" if "(i, p) \<in> set cs" "check_collision p u" for i p
      using that w by fastforce
    have "arbitrated (dict_values cs) u (u\<lparr>collected := True, owner := Some (player_id winner)\<rparr>)"
    proof (subst arbitrated_touched)
      show "\<not> (collected u \<or> (\<forall>p \<in> set (dict_values cs). \<not> check_collision p u))"
        using False mem by force
      have "winner \<in> set (dict_values cs)" using mem(1) by force
      then show "\<exists>p \<in> set (dict_values cs). check_collision p u \<and>
          (\<forall>q \<in> set (dict_values cs). check_collision q u \<longrightarrow> join_index p \<le> join_index q) \<and>
          u\<lparr>collected := True, owner := Some (player_id winner)\<rparr>
            = u\<lparr>collected := True, owner := Some (player_id p)\<rparr>"
        using mem(2) least by (intro bexI [of _ winner]) auto
    qed
    moreover have "list_all2 same_rank (dict_values cs)
        (dict_values (AList.update wid (winner\<lparr>powerup_effect_expires_at := t\<rparr>) cs))" for t
      using assms(1) mem(1)
      by (intro list_all2_AList_update [of _ winner]) (auto simp: as keyed_distinct same_rank_def same_box_def)
    ultimately show ?thesis
      using False assms(2) by (auto simp: collect_powerup_def as w list_all2_same split: if_splits)
  qed
qed

subsection \<open>Commands that are not commands\<close>

lemma handle_block_collisions_enemies:
  "handle_block_collisions e = Inr e' \<Longrightarrow>
     enemies (environment (world_state e')) = enemies (environment (world_state e))"
  by (auto simp: handle_block_collisions_def rbind_Inr_iff)

lemma handle_powerup_collisions_enemies:
  "handle_powerup_collisions now e = Inr e' \<Longrightarrow>
     enemies (environment (world_state e')) = enemies (environment (world_state e))"
  by (auto simp: handle_powerup_collisions_def rbind_Inr_iff split: if_splits)

lemma each_player_enemies [simp]:
  "enemies (environment (world_state (each_player f e))) = enemies (environment (world_state e))"
  by (simp add: each_player_def)

lemma apply_inputs_enemies [simp]:
  "enemies (environment (world_state (apply_inputs inputs e))) = enemies (environment (world_state e))"
proof (induction inputs arbitrary: e)
  case Nil
  then show ?case by (simp add: apply_inputs_def)
next
  case (Cons a inputs)
  then show ?case
    by (cases a) (simp add: apply_inputs_def split: option.split)
qed

text \<open>A command object of another type, for an enemy that is alive, aborts the update.\<close>

definition invalid_command_for :: "enemy_commands \<Rightarrow> game_engine \<Rightarrow> bool" where
  "invalid_command_for commands e \<longleftrightarrow>
     (\<exists>cmds. commands = Some cmds \<and>
        (\<exists>k \<in> fst ` set (enemies (environment (world_state e))). map_of cmds k = Some Other_Object))"

lemma map_res_Inl:
  assumes "\<exists>a \<in> set as. f a = Inl err" and "\<And>a. a \<in> set as \<Longrightarrow> f a = Inl err \<or> (\<exists>b. f a = Inr b)"
  shows "map_res f as = Inl err"
  using assms
proof (induction as)
  case Nil
  then show ?case by simp
next
  case (Cons a as)
  then show ?case
    using Cons.prems(2) [of a] by (cases "f a") auto
qed

lemma update_enemies_rejects:
  assumes "invalid_command_for commands e"
  shows "update_enemies dt commands e = Inl (ValueError ''Invalid enemy movement command'')"
proof -
  obtain cmds k en where c: "commands = Some cmds" "map_of cmds k = Some Other_Object"
      "(k, en) \<in> set (enemies (environment (world_state e)))"
    using assms by (auto simp: invalid_command_for_def)
  have 1: "update_enemy dt commands (k, en) = Inl (ValueError ''Invalid enemy movement command'')"
    by (simp add: update_enemy_def c)
  have 2: "update_enemy dt commands a = Inl (ValueError ''Invalid enemy movement command'') \<or>
      (\<exists>b. update_enemy dt commands a = Inr b)" for a
    by (cases a)
      (auto simp: update_enemy_def split: option.split command_object.split enemy_movement_command.split)
  have "map_res (update_enemy dt commands) (enemies (environment (world_state e)))
      = Inl (ValueError ''Invalid enemy movement command'')"
    using 1 2 c(3) by (intro map_res_Inl) blast+
  then show ?thesis
    by (simp add: update_enemies_def)
qed

subsection \<open>World bounds\<close>

definition in_world :: "game_engine \<Rightarrow> player \<Rightarrow> bool" where
  "in_world e p \<longleftrightarrow> 0 \<le> pos_x p \<and> pos_x p \<le> max 0 (of_int (world_width e) - width p) \<and> 0 \<le> pos_y p"

lemma clamp_in_world: "in_world e (clamp_character_to_world e b p)"
  by (auto simp: in_world_def clamp_character_to_world_def Let_def)

lemma respawned_in_world: "in_world e (respawned pid e)"
  by (simp add: respawned_def clamp_in_world Let_def split: prod.split)

lemma clamp_players_in_world:
  "p \<in> snd ` set (characters (world_state (clamp_players_to_world e))) \<Longrightarrow> in_world e p"
  by (auto simp: clamp_players_to_world_def each_player_def set_map_vals clamp_in_world)

lemma process_respawns_in_world:
  assumes "engine_wf e" and "\<And>p. p \<in> snd ` set (characters (world_state e)) \<Longrightarrow> in_world e p"
    and "p \<in> snd ` set (characters (world_state (process_respawns now e)))"
  shows "in_world e p"
proof (cases "is_authoritative e")
  case False
  then show ?thesis using assms(2,3) by (simp add: process_respawns_def)
next
  case True
  obtain k where "(k, p) \<in> set (characters (world_state (process_respawns now e)))"
    using assms(3) by force
  then have "map_of (characters (world_state (process_respawns now e))) k = Some p"
    using world_wfD(1) [OF good_step_wf [OF process_respawns_good [OF assms(1)]]]
    by (rule keyed_map_of_in [rotated])
  then show ?thesis
    using process_respawns_lookup(1) [OF assms(1) True, of now k] assms(2) respawned_in_world
    by (force split: if_splits dest: map_of_SomeD)
qed

subsection \<open>A small engine\<close>

text \<open>One platform, a block, a coin, a walking enemy and a final gate; two players.\<close>

definition example_level :: level where
  "example_level =
     \<lparr>level_platforms = [\<lparr>pos_x = 0, pos_y = 400, width = 800, height = 40\<rparr>],
      level_blocks = [\<lparr>pos_x = 300, pos_y = 200, width = 54, height = 54, destroyed = False\<rparr>],
      level_powerups = [\<lparr>pos_x = 60, pos_y = 310, width = 39, height = 39, powerup_id = ''coin-1'',
        collected = False, owner = None\<rparr>],
      level_enemies = [\<lparr>pos_x = 500, pos_y = 340, width = 51, height = 51, enemy_id = ''goomba-1'',
        enemy_vx = 60, left_bound = 400, right_bound = 700, movement_speed = Some 60,
        enemy_type = GOOMBA\<rparr>],
      level_gates = [\<lparr>pos_x = 740, pos_y = 250, width = 54, height = 144, gate_id = ''gate-1'',
        gate_state = ''closed'', contributions = {||}, coins_required = 1, blocks_required = 0,
        enemies_required = 0, is_final = True\<rparr>],
      level_spawn_points = [\<lparr>spawn_x = 50, spawn_y = 300\<rparr>],
      level_decorations = [], level_coins_to_win = 1, level_blocks_to_win = 0,
      level_enemies_to_win = 0, level_width = 800, level_height = 600\<rparr>"

definition example_engine :: game_engine where
  "example_engine = spawn_player ''player2'' 55 300 1 (spawn_player ''player1'' 50 300 0
     (new_engine example_level True))"

lemmas example_defs = example_engine_def example_level_def new_engine_def load_level_def
  new_world_def spawn_player_def add_player_def clamp_character_to_world_def new_player_def
  dict_by_def world_sizes Let_def

lemma example_engine_wf: "engine_wf example_engine"
  by (simp add: example_defs world_wf_def)

lemma example_engine_playing: "\<not> victory (world_state example_engine)" "is_authoritative example_engine"
  by (simp_all add: example_defs)

lemma example_engine_enemies: "fst ` set (enemies (environment (world_state example_engine))) = {''goomba-1''}"
  by (simp add: example_defs)

subsection \<open>Properties of a tick\<close>

text \<open>C1: a tick of a well-formed engine with genuine commands never raises, keeps the engine
  well-formed and advances the sequence number by exactly one, whatever the clock reads, the
  players press and the step width is.\<close>

theorem tick_total:
  assumes "engine_wf e" and "valid_commands commands"
  shows "\<exists>e'. tick clk dt inputs commands e = Inr e' \<and> engine_wf e' \<and>
    sequence_number (world_state e') = sequence_number (world_state e) + 1"
  using tick_good [OF assms] by blast

theorem tick_total_witness:
  "\<exists>e'. tick (tick_clock_at 5) (1 / 60) [(''player1'', no_input)] (Some [(''goomba-1'', Command CMD_STOP)])
     example_engine = Inr e' \<and> engine_wf e' \<and>
   sequence_number (world_state e') = sequence_number (world_state example_engine) + 1"
  by (rule tick_total [OF example_engine_wf]) (simp add: valid_commands_def)

text \<open>An object that is not a movement command, addressed to an enemy that is alive,
  makes the tick of a running game raise \<^verbatim>\<open>ValueError\<close>.\<close>

theorem tick_rejects_invalid_command:
  assumes "engine_wf e" and "\<not> victory (world_state e)" and "invalid_command_for commands e"
  shows "tick clk dt inputs commands e = Inl (ValueError ''Invalid enemy movement command'')"
proof -
  define e5 where "e5 = handle_collisions (each_player (apply_physics dt)
    (apply_inputs inputs (expire_powerup_effects (clock_expire clk) (save_previous_positions e))))"
  have g5: "good_step e e5"
    unfolding e5_def by (intro good_phases good_step_refl assms(1))
  obtain e6 where e6: "handle_environment_collisions (clock_powerups clk) e5 = Inr e6"
    using handle_environment_collisions_good [OF good_step_wf [OF g5]] by (auto simp: good_result_def)
  then have "enemies (environment (world_state e6)) = enemies (environment (world_state e5))"
    by (auto simp: handle_environment_collisions_def rbind_Inr_iff
        dest!: handle_block_collisions_enemies handle_powerup_collisions_enemies)
  then have "enemies (environment (world_state e6)) = enemies (environment (world_state e))"
    by (simp add: e5_def handle_collisions_def expire_powerup_effects_def save_previous_positions_def)
  then have "invalid_command_for commands e6"
    using assms(3) by (simp add: invalid_command_for_def)
  then show ?thesis
    using e6 assms(2) by (simp add: tick_def Let_def update_enemies_rejects flip: e5_def)
qed

theorem tick_rejects_invalid_command_witness:
  "tick (tick_clock_at 5) (1 / 60) [] (Some [(''goomba-1'', Other_Object)]) example_engine
     = Inl (ValueError ''Invalid enemy movement command'')"
  by (rule tick_rejects_invalid_command [OF example_engine_wf example_engine_playing(1)])
    (simp add: invalid_command_for_def example_engine_enemies)



text \<open>C14: the engine of a replica decides nothing: its tick leaves the power-ups, the set of
  enemies, the set of players, the respawn queue and the outcome as they are, and emits no event
  that is reserved to the authority.\<close>

theorem tick_replica_decides_nothing:
  assumes "engine_wf e" and "valid_commands commands" and "\<not> is_authoritative e"
  shows "\<exists>e'. tick clk dt inputs commands e = Inr e' \<and> replica_frame e e' \<and>
    (\<exists>new. events e' = events e @ new \<and> (\<forall>ev \<in> set new. \<not> authoritative_event ev))"
  using tick_good [OF assms(1,2), of clk dt inputs] assms(3) by (auto simp: evolves_def)

theorem tick_replica_decides_nothing_witness:
  "\<exists>e'. tick (tick_clock_at 5) (1 / 60) [] None (example_engine\<lparr>is_authoritative := False\<rparr>) = Inr e' \<and>
     replica_frame (example_engine\<lparr>is_authoritative := False\<rparr>) e' \<and>
     (\<exists>new. events e' = events (example_engine\<lparr>is_authoritative := False\<rparr>) @ new \<and>
        (\<forall>ev \<in> set new. \<not> authoritative_event ev))"
  by (rule tick_replica_decides_nothing) (simp_all add: example_engine_wf valid_commands_def)

text \<open>C2: a tick loses nobody and duplicates nobody: the players alive and the players waiting to
  respawn partition the same set of identifiers before and after.\<close>

theorem tick_loses_nobody:
  assumes "engine_wf e" and "valid_commands commands"
  shows "\<exists>e'. tick clk dt inputs commands e = Inr e' \<and>
    fst ` set (characters (world_state e')) \<union> fst ` set (respawn_timers (world_state e'))
      = fst ` set (characters (world_state e)) \<union> fst ` set (respawn_timers (world_state e)) \<and>
    fst ` set (characters (world_state e')) \<inter> fst ` set (respawn_timers (world_state e')) = {} \<and>
    distinct (dict_keys (characters (world_state e')))"
  using tick_good [OF assms, of clk dt inputs]
  by (auto simp: evolves_def present_def world_wf_def keyed_def)

theorem tick_loses_nobody_witness:
  "\<exists>e'. tick (tick_clock_at 5) (1 / 60) [] None example_engine = Inr e' \<and>
    fst ` set (characters (world_state e')) \<union> fst ` set (respawn_timers (world_state e'))
      = fst ` set (characters (world_state example_engine))
        \<union> fst ` set (respawn_timers (world_state example_engine)) \<and>
    fst ` set (characters (world_state e')) \<inter> fst ` set (respawn_timers (world_state e')) = {} \<and>
    distinct (dict_keys (characters (world_state e')))"
  by (rule tick_loses_nobody [OF example_engine_wf]) (simp add: valid_commands_def)

text \<open>Progress is never undone within a run: block by block and power-up by power-up, a
  destroyed block stays destroyed and a collected power-up keeps its owner, gates keep their
  requirements, and the static level is unchanged.\<close>

theorem tick_keeps_progress:
  assumes "engine_wf e" and "valid_commands commands"
  shows "\<exists>e'. tick clk dt inputs commands e = Inr e' \<and> same_setting e e' \<and>
    list_all2 (\<lambda>b b'. destroyed b \<longrightarrow> b' = b)
      (destructible_blocks (environment (world_state e)))
      (destructible_blocks (environment (world_state e'))) \<and>
    list_all2 (\<lambda>u u'. fst u' = fst u \<and> (collected (snd u) \<longrightarrow> u' = u))
      (power_ups (environment (world_state e))) (power_ups (environment (world_state e'))) \<and>
    list_all2 gate_evolves (cooperative_gates (environment (world_state e)))
      (cooperative_gates (environment (world_state e')))"
proof -
  obtain e' where e': "tick clk dt inputs commands e = Inr e'" "evolves e e'"
    using tick_good [OF assms] by blast
  have "list_all2 (\<lambda>b b'. destroyed b \<longrightarrow> b' = b)
      (destructible_blocks (environment (world_state e)))
      (destructible_blocks (environment (world_state e')))"
    using evolvesD(2) [OF e'(2)] by (rule list_all2_mono) (auto simp: block_evolves_def)
  moreover have "list_all2 (\<lambda>u u'. fst u' = fst u \<and> (collected (snd u) \<longrightarrow> u' = u))
      (power_ups (environment (world_state e))) (power_ups (environment (world_state e')))"
    using evolvesD(3) [OF e'(2)] by (rule list_all2_mono) (auto simp: powerup_evolves_def)
  ultimately show ?thesis
    using e' evolvesD(1,4) [OF e'(2)] by blast
qed

theorem tick_keeps_progress_witness:
  "\<exists>e'. tick (tick_clock_at 0) (1 / 60) [] None example_engine = Inr e' \<and>
    same_setting example_engine e' \<and>
    list_all2 (\<lambda>b b'. destroyed b \<longrightarrow> b' = b)
      (destructible_blocks (environment (world_state example_engine)))
      (destructible_blocks (environment (world_state e'))) \<and>
    list_all2 (\<lambda>u u'. fst u' = fst u \<and> (collected (snd u) \<longrightarrow> u' = u))
      (power_ups (environment (world_state example_engine))) (power_ups (environment (world_state e'))) \<and>
    list_all2 gate_evolves (cooperative_gates (environment (world_state example_engine)))
      (cooperative_gates (environment (world_state e')))"
  by (rule tick_keeps_progress [OF example_engine_wf]) (simp add: valid_commands_def)

text \<open>After every tick of a running game the progress counters equal what the environment
  holds, and every gate is open exactly when the counters reach its requirements.\<close>

theorem tick_settles_gates:
  assumes "engine_wf e" and "valid_commands commands" and "\<not> victory (world_state e)"
  shows "\<exists>e'. tick clk dt inputs commands e = Inr e' \<and>
    objectives_synced (world_state e') \<and> gates_settled (world_state e')"
proof -
  obtain e11 where e11: "gates_settled (world_state e11)" "objectives_synced (world_state e11)"
    "tick clk dt inputs commands e = Inr (next_sequence_number (process_respawns (clock_respawns clk)
       (handle_victory_condition (clamp_players_to_world e11))))"
    using tick_phases [OF assms] by metis
  then show ?thesis
    by (simp add: gates_settled_def objectives_synced_def gate_should_be_open_def)
qed

theorem tick_settles_gates_witness:
  "\<exists>e'. tick (tick_clock_at 0) (1 / 60) [] None example_engine = Inr e' \<and>
     objectives_synced (world_state e') \<and> gates_settled (world_state e')"
  by (rule tick_settles_gates [OF example_engine_wf _ example_engine_playing(1)])
    (simp add: valid_commands_def)

text \<open>A tick declares victory only on the authority, and then the recorded winner is alive and
  touches a final gate that is open and whose requirements are met.\<close>

theorem tick_victory_sound:
  assumes "engine_wf e" and "valid_commands commands" and "\<not> victory (world_state e)"
  shows "\<exists>e'. tick clk dt inputs commands e = Inr e' \<and>
    (victory (world_state e') \<longrightarrow> is_authoritative e \<and>
      (\<exists>pid p g. victory_player_id (world_state e') = Some pid \<and>
         get_player pid (world_state e') = Some p \<and>
         g \<in> snd ` set (cooperative_gates (environment (world_state e'))) \<and>
         is_final g \<and> gate_state g = ''open'' \<and> gate_should_be_open (world_state e') g \<and>
         check_collision p g))"
proof -
  obtain e11 where e11: "good_step e e11" "gates_settled (world_state e11)"
    "outcome e11 = outcome e"
    "tick clk dt inputs commands e = Inr (next_sequence_number (process_respawns (clock_respawns clk)
       (handle_victory_condition (clamp_players_to_world e11))))"
    using tick_phases [OF assms] by metis
  let ?e12 = "clamp_players_to_world e11"
  let ?e13 = "handle_victory_condition ?e12"
  let ?e' = "next_sequence_number (process_respawns (clock_respawns clk) ?e13)"
  have g12: "good_step e ?e12" by (intro good_phases e11(1))
  have g13: "good_step e ?e13" by (intro good_phases e11(1))
  have "is_authoritative e \<and>
      (\<exists>pid p g. victory_player_id (world_state ?e') = Some pid \<and>
         get_player pid (world_state ?e') = Some p \<and>
         g \<in> snd ` set (cooperative_gates (environment (world_state ?e'))) \<and>
         is_final g \<and> gate_state g = ''open'' \<and> gate_should_be_open (world_state ?e') g \<and>
         check_collision p g)" if "victory (world_state ?e')"
  proof -
    have False: "\<not> victory (world_state ?e12)"
      using e11(3) assms(3) by (simp add: outcome_def)
    have v: "victory (world_state ?e13)" using that by simp
    then have auth: "is_authoritative ?e12"
      using handle_victory_condition_iff [OF False] by blast
    obtain p where p: "p \<in> snd ` set (characters (world_state ?e12))"
        "final_contact (world_state ?e12) p" "victory_player_id (world_state ?e13) = Some (player_id p)"
      using handle_victory_condition_winner [OF False v] by blast
    obtain k where "(k, p) \<in> set (characters (world_state ?e12))" using p(1) by force
    then have "map_of (characters (world_state ?e12)) (player_id p) = Some p"
      using world_wfD(1) [OF good_step_wf [OF g12]] by (metis keyedD keyed_map_of_in)
    then have "map_of (characters (world_state ?e13)) (player_id p) = Some p" by simp
    then have alive: "get_player (player_id p) (world_state ?e') = Some p"
      using process_respawns_keeps [OF good_step_wf [OF g13]] by (simp add: get_player_def)
    obtain g where g: "g \<in> snd ` set (cooperative_gates (environment (world_state e11)))"
        "gate_state g = ''open''" "is_final g" "check_collision p g"
      using p(2) by (auto simp: final_contact_def)
    have "gate_should_be_open (world_state e11) g"
      using e11(2) g(1,2) unfolding gates_settled_def by (auto split: if_splits)
    then have "gate_should_be_open (world_state ?e') g"
      by (simp add: gate_should_be_open_def)
    then show ?thesis
      using g alive p(3) auth evolves_authority [of e ?e12] g12 by (auto simp: good_step_def)
  qed
  then show ?thesis using e11(4) by blast
qed

theorem tick_victory_sound_witness:
  "\<exists>e'. tick (tick_clock_at 0) (1 / 60) [] None example_engine = Inr e' \<and>
    (victory (world_state e') \<longrightarrow> is_authoritative example_engine \<and>
      (\<exists>pid p g. victory_player_id (world_state e') = Some pid \<and>
         get_player pid (world_state e') = Some p \<and>
         g \<in> snd ` set (cooperative_gates (environment (world_state e'))) \<and>
         is_final g \<and> gate_state g = ''open'' \<and> gate_should_be_open (world_state e') g \<and>
         check_collision p g))"
  by (rule tick_victory_sound [OF example_engine_wf _ example_engine_playing(1)])
    (simp add: valid_commands_def)

text \<open>After every tick of a running game each living player, respawned ones included, is inside
  the horizontal bounds of the world and not above its top.\<close>

theorem tick_players_in_world:
  assumes "engine_wf e" and "valid_commands commands" and "\<not> victory (world_state e)"
  shows "\<exists>e'. tick clk dt inputs commands e = Inr e' \<and>
    (\<forall>p \<in> snd ` set (characters (world_state e')).
       0 \<le> pos_x p \<and> pos_x p \<le> max 0 (of_int (world_width e) - width p) \<and> 0 \<le> pos_y p)"
proof -
  obtain e11 where e11: "good_step e e11"
    "tick clk dt inputs commands e = Inr (next_sequence_number (process_respawns (clock_respawns clk)
       (handle_victory_condition (clamp_players_to_world e11))))"
    using tick_phases [OF assms] by metis
  let ?e13 = "handle_victory_condition (clamp_players_to_world e11)"
  have "good_step e ?e13" by (intro good_phases e11(1))
  note wf = good_step_wf [OF this]
  have same: "in_world (clamp_players_to_world e11) p = in_world e p" "in_world ?e13 p = in_world e p"
    "in_world e11 p = in_world e p" for p
    using e11(1) by (simp_all add: in_world_def good_step_def evolves_def same_setting_def)
  have "in_world e p"
    if "p \<in> snd ` set (characters (world_state (process_respawns (clock_respawns clk) ?e13)))" for p
    using process_respawns_in_world [OF wf _ that] clamp_players_in_world [of _ e11] same by simp
  then show ?thesis
    using e11(2) by (simp add: in_world_def)
qed

theorem tick_players_in_world_witness:
  "\<exists>e'. tick (tick_clock_at 0) (1 / 60) [] None example_engine = Inr e' \<and>
    (\<forall>p \<in> snd ` set (characters (world_state e')).
       0 \<le> pos_x p \<and> pos_x p \<le> max 0 (of_int (world_width example_engine) - width p) \<and> 0 \<le> pos_y p)"
  by (rule tick_players_in_world [OF example_engine_wf _ example_engine_playing(1)])
    (simp add: valid_commands_def)

text \<open>Whatever it is commanded, an enemy never leaves its patrol bounds once inside them and
  keeps its own speed: every enemy after a tick is an enemy from before it, in bounds if it was in
  bounds and moving at its movement speed if it was.\<close>

theorem tick_enemies_patrol:
  assumes "engine_wf e" and "valid_commands commands"
  shows "\<exists>e'. tick clk dt inputs commands e = Inr e' \<and>
    (\<forall>(k, en') \<in> set (enemies (environment (world_state e'))).
       \<exists>en. (k, en) \<in> set (enemies (environment (world_state e))) \<and> enemy_evolves en en')"
proof -
  obtain e' where e': "tick clk dt inputs commands e = Inr e'" "evolves e e'"
    using tick_good [OF assms] by blast
  then show ?thesis
    using evolvesD(5) [OF e'(2)] unfolding enemies_evolve_def by fastforce
qed

theorem tick_enemies_patrol_witness:
  "\<exists>e'. tick (tick_clock_at 0) (1 / 60) [] (Some [(''goomba-1'', Command CMD_MOVE_LEFT)])
      example_engine = Inr e' \<and>
    (\<forall>(k, en') \<in> set (enemies (environment (world_state e'))).
       \<exists>en. (k, en) \<in> set (enemies (environment (world_state example_engine))) \<and> enemy_evolves en en')"
  by (rule tick_enemies_patrol [OF example_engine_wf]) (simp add: valid_commands_def)

text \<open>The respawn phase brings back exactly the players whose timer has run out, each at the
  spawn point of the join index recorded at its death, and leaves everybody else alone.\<close>

theorem respawn_exact:
  assumes "engine_wf e" and "is_authoritative e"
  shows "get_player pid (world_state (process_respawns now e)) =
      (case map_of (respawn_timers (world_state e)) pid of
         None \<Rightarrow> get_player pid (world_state e)
       | Some d \<Rightarrow> if d \<le> now then Some (respawned pid e) else None) \<and>
    map_of (respawn_timers (world_state (process_respawns now e))) pid =
      (case map_of (respawn_timers (world_state e)) pid of
         None \<Rightarrow> None
       | Some d \<Rightarrow> if d \<le> now then None else Some d)"
proof -
  have "map_of (characters (world_state e)) pid = None"
    if "map_of (respawn_timers (world_state e)) pid = Some d" for d
    using world_wfD(6) [OF assms(1)] map_of_SomeD [OF that] by (force simp: map_of_eq_None_iff)
  then show ?thesis
    by (auto simp: get_player_def process_respawns_lookup [OF assms] due_def split: option.split)
qed

theorem respawn_exact_witness:
  "get_player ''player2'' (world_state (process_respawns 4
       (queue_player_death 1 (new_player ''player2'' 55 300 1) ''goomba-1'' example_engine)))
     = Some (respawned ''player2''
         (queue_player_death 1 (new_player ''player2'' 55 300 1) ''goomba-1'' example_engine))"
  using respawn_exact [of "queue_player_death 1 (new_player ''player2'' 55 300 1) ''goomba-1'' example_engine"
      "''player2''" 4]
  by (simp add: example_defs queue_player_death_def remove_player_def world_wf_def RESPAWN_DELAY_S_def)

text \<open>C26: an exclusive power-up goes to exactly one of the players who touch it, the one of least
  join index; one that is already taken, or that nobody touches, is left as it is.\<close>

theorem powerup_arbitration:
  assumes "engine_wf e" and "is_authoritative e"
  shows "\<exists>e'. handle_powerup_collisions now e = Inr e' \<and>
    list_all2 (\<lambda>a a'. fst a' = fst a \<and>
        arbitrated (dict_values (characters (world_state e))) (snd a) (snd a'))
      (power_ups (environment (world_state e))) (power_ups (environment (world_state e')))"
proof -
  let ?w = "world_state e"
  let ?R = "\<lambda>a a'. fst a' = fst a \<and> arbitrated (dict_values (characters ?w)) (snd a) (snd a')"
  let ?P = "\<lambda>s :: player dict \<times> event list. keyed player_id (fst s) \<and>
    list_all2 same_rank (dict_values (characters ?w)) (dict_values (fst s))"
  have "\<exists>us s. map_accum (collect_powerup now) (power_ups (environment ?w))
      (characters ?w, events e) = Inr (us, s)
      \<and> list_all2 ?R (power_ups (environment ?w)) us \<and> ?P s"
  proof (rule map_accum_total)
    show "?P (characters ?w, events e)"
      using assms(1) by (simp add: world_wfD list_all2_same)
  next
    fix a and s :: "player dict \<times> event list"
    assume P: "?P s"
    obtain a' s' where c: "collect_powerup now a s = Inr (a', s')" "keyed player_id (fst s')"
      using collect_powerup_total [of s now a] P by blast
    note arb = collect_powerup_arbitrated [OF conjunct1 [OF P] c(1)]
    have R: "?R a a'"
      using arb arbitrated_same_rank [OF conjunct2 [OF P]] by simp
    have rank: "list_all2 same_rank (dict_values (characters ?w)) (dict_values (fst s'))"
      using P arb list_all2_same_rank_trans by blast
    show "\<exists>a' s'. collect_powerup now a s = Inr (a', s') \<and> ?R a a' \<and> ?P s'"
      by (intro exI conjI) (fact c R [THEN conjunct1] R [THEN conjunct2] rank)+
  qed
  then show ?thesis
    using assms(2) by (auto simp: handle_powerup_collisions_def)
qed

theorem powerup_arbitration_witness:
  "\<exists>e'. handle_powerup_collisions 0 example_engine = Inr e' \<and>
    list_all2 (\<lambda>a a'. fst a' = fst a \<and>
        arbitrated (dict_values (characters (world_state example_engine))) (snd a) (snd a'))
      (power_ups (environment (world_state example_engine))) (power_ups (environment (world_state e')))"
  by (rule powerup_arbitration [OF example_engine_wf example_engine_playing(2)])

text \<open>On the authority the enemy phase leaves no living player in contact with a living enemy:
  of every contact either the enemy is defeated or the player is queued for respawn.\<close>

theorem enemy_phase_separates:
  assumes "engine_wf e" and "is_authoritative e"
  shows "\<exists>e'. handle_enemy_collisions now e = Inr e' \<and>
    (\<forall>p \<in> snd ` set (characters (world_state e')).
       \<forall>en \<in> snd ` set (enemies (environment (world_state e'))). \<not> check_collision p en)"
proof -
  obtain e' where e': "handle_enemy_collisions now e = Inr e'" "good_step e e'"
    using handle_enemy_collisions_good [OF assms(1)] by (auto simp: good_result_def)
  note wf = world_wfD [OF good_step_wf [OF e'(2)]]
  have "no_contact e' UNIV"
    using handle_enemy_collisions_separates [OF assms e'(1)] ..
  then have "\<not> check_collision p en"
    if "(k, p) \<in> set (characters (world_state e'))"
      "(i, en) \<in> set (enemies (environment (world_state e')))" for k p i en
    using keyed_map_of_in [OF wf(1) that(1)] keyed_map_of_in [OF wf(3) that(2)]
    unfolding no_contact_def by blast
  then show ?thesis
    using e'(1) by auto
qed

theorem enemy_phase_separates_witness:
  "\<exists>e'. handle_enemy_collisions 0 example_engine = Inr e' \<and>
    (\<forall>p \<in> snd ` set (characters (world_state e')).
       \<forall>en \<in> snd ` set (enemies (environment (world_state e'))). \<not> check_collision p en)"
  by (rule enemy_phase_separates [OF example_engine_wf example_engine_playing(2)])

end
