(* ===== verification/Roster.thy ===== *)
theory Roster
  imports Config
begin

text \<open>
  The replicated roster of \<^verbatim>\<open>shared/roster.py\<close>: validated entries and the operations on the
  list of participants.  A roster is well-formed when no two entries share a join index; the
  lemmas say what each operation does to membership, order and the host flag.
\<close>

record roster_entry =
  entry_player_id :: ident
  entry_host :: string
  entry_udp_port :: int
  entry_join_index :: int
  entry_status :: connection_status
  entry_is_host :: bool

text \<open>\<^verbatim>\<open>RosterEntry.__post_init__\<close>\<close>

definition validate_entry :: "roster_entry \<Rightarrow> roster_entry result" where
  "validate_entry e =
     (if entry_player_id e = [] then Inl (RosterValidationError ''Invalid player_id'')
      else if entry_host e = [] then Inl (RosterValidationError ''Invalid host'')
      else if \<not> (1024 \<le> entry_udp_port e \<and> entry_udp_port e \<le> 65535)
        then Inl (RosterValidationError ''udp_port out of range'')
      else if entry_join_index e < 0 then Inl (RosterValidationError ''join_index must be >= 0'')
      else Inr e)"

definition valid_entry :: "roster_entry \<Rightarrow> bool" where
  "valid_entry e \<longleftrightarrow> entry_player_id e \<noteq> [] \<and> entry_host e \<noteq> [] \<and>
     1024 \<le> entry_udp_port e \<and> entry_udp_port e \<le> 65535 \<and> 0 \<le> entry_join_index e"

lemma validate_entry_iff: "validate_entry e = Inr e' \<longleftrightarrow> e' = e \<and> valid_entry e"
  by (auto simp: validate_entry_def valid_entry_def)

lemma validate_entry_valid [simp]: "valid_entry e \<Longrightarrow> validate_entry e = Inr e"
  by (simp add: validate_entry_iff)

subsection \<open>Operations\<close>

type_synonym roster = "roster_entry list"

definition roster_add :: "roster_entry \<Rightarrow> roster \<Rightarrow> roster result" where
  "roster_add e r =
     (if \<exists>x \<in> set r. entry_join_index x = entry_join_index e
      then Inl (RosterValidationError ''Duplicate join_index'')
      else Inr (r @ [e]))"

definition roster_get :: "ident \<Rightarrow> roster \<Rightarrow> roster_entry option" where
  "roster_get pid r = find (\<lambda>e. entry_player_id e = pid) r"

definition roster_host :: "roster \<Rightarrow> roster_entry option" where
  "roster_host r = find entry_is_host r"

definition roster_remove :: "ident \<Rightarrow> roster \<Rightarrow> roster" where
  "roster_remove pid r = filter (\<lambda>e. entry_player_id e \<noteq> pid) r"

definition promote_host :: "ident \<Rightarrow> roster \<Rightarrow> roster" where
  "promote_host pid r = map (\<lambda>e. e\<lparr>entry_is_host := (entry_player_id e = pid)\<rparr>) r"

definition roster_all :: "roster \<Rightarrow> roster_entry list" where
  "roster_all r = sort_key entry_join_index r"

text \<open>Building a roster entry by entry, as the decoder and the lobby do.\<close>

definition roster_of :: "roster_entry list \<Rightarrow> roster result" where
  "roster_of es = fold_res (\<lambda>e r. rbind (validate_entry e) (\<lambda>e'. roster_add e' r)) es []"

subsection \<open>Well-formed rosters\<close>

definition roster_wf :: "roster \<Rightarrow> bool" where
  "roster_wf r \<longleftrightarrow> distinct (map entry_join_index r) \<and> (\<forall>e \<in> set r. valid_entry e)"

lemma roster_add_iff:
  "roster_add e r = Inr r' \<longleftrightarrow> entry_join_index e \<notin> entry_join_index ` set r \<and> r' = r @ [e]"
  by (auto simp: roster_add_def image_iff) metis

lemma roster_add_wf:
  "roster_wf r \<Longrightarrow> valid_entry e \<Longrightarrow> roster_add e r = Inr r' \<Longrightarrow> roster_wf r'"
  by (auto simp: roster_wf_def roster_add_iff)

lemma roster_remove_wf: "roster_wf r \<Longrightarrow> roster_wf (roster_remove pid r)"
  by (auto simp: roster_wf_def roster_remove_def distinct_map inj_on_def)

lemma valid_entry_host [simp]: "valid_entry (e\<lparr>entry_is_host := b\<rparr>) = valid_entry e"
  by (simp add: valid_entry_def)

lemma promote_host_wf: "roster_wf r \<Longrightarrow> roster_wf (promote_host pid r)"
  by (auto simp: roster_wf_def promote_host_def comp_def)

lemma roster_of_append:
  assumes "distinct (map entry_join_index (r @ es))" and "\<forall>e \<in> set es. valid_entry e"
  shows "fold_res (\<lambda>e r. rbind (validate_entry e) (\<lambda>e'. roster_add e' r)) es r = Inr (r @ es)"
  using assms
proof (induction es arbitrary: r)
  case Nil
  then show ?case by simp
next
  case (Cons e es)
  have "roster_add e r = Inr (r @ [e])"
    using Cons.prems(1) by (auto simp: roster_add_iff)
  then show ?case
    using Cons.IH [of "r @ [e]"] Cons.prems by simp
qed

lemma roster_of_wf: "roster_wf r \<Longrightarrow> roster_of r = Inr r"
  by (simp add: roster_of_def roster_of_append roster_wf_def)

lemma roster_of_result:
  assumes "roster_of es = Inr r"
  shows "r = es \<and> roster_wf r"
proof -
  have "r' = r @ es \<and> roster_wf r'"
    if "fold_res (\<lambda>e r. rbind (validate_entry e) (\<lambda>e'. roster_add e' r)) es r = Inr r'" "roster_wf r"
    for r r'
    using that
  proof (induction es arbitrary: r)
    case Nil
    then show ?case by simp
  next
    case (Cons e es)
    then obtain s where s: "valid_entry e" "roster_add e r = Inr s"
        "fold_res (\<lambda>e r. rbind (validate_entry e) (\<lambda>e'. roster_add e' r)) es s = Inr r'"
      by (auto simp: rbind_Inr_iff validate_entry_iff)
    then have "s = r @ [e]" by (simp add: roster_add_iff)
    then show ?case
      using Cons.IH [OF s(3) roster_add_wf [OF Cons.prems(2) s(1,2)]] by auto
  qed
  from this [of "[]"] show ?thesis
    using assms by (auto simp: roster_of_def roster_wf_def)
qed

text \<open>The roster is listed in strictly increasing join order.\<close>

lemma roster_all_sorted:
  "roster_wf r \<Longrightarrow> sorted_wrt (<) (map entry_join_index (roster_all r)) \<and> set (roster_all r) = set r"
proof -
  assume "roster_wf r"
  then have "distinct (map entry_join_index (roster_all r))"
    unfolding roster_wf_def roster_all_def distinct_map by simp
  moreover have "sorted (map entry_join_index (roster_all r))"
    by (simp add: roster_all_def)
  ultimately show ?thesis
    by (simp add: strict_sorted_iff roster_all_def)
qed

text \<open>After a promotion the host is the promoted player, if it is in the roster, and nobody else.\<close>

lemma promote_host_host:
  "roster_host (promote_host pid r)
     = map_option (\<lambda>e. e\<lparr>entry_is_host := True\<rparr>) (roster_get pid r)"
  by (induction r) (simp_all add: roster_host_def promote_host_def roster_get_def)

lemma promote_host_only:
  "e \<in> set (promote_host pid r) \<Longrightarrow> entry_is_host e \<longleftrightarrow> entry_player_id e = pid"
  by (auto simp: promote_host_def)

lemma promote_host_ids [simp]:
  "map entry_player_id (promote_host pid r) = map entry_player_id r"
  "map entry_join_index (promote_host pid r) = map entry_join_index r"
  by (simp_all add: promote_host_def)

lemma roster_get_add:
  "roster_add e r = Inr r' \<Longrightarrow> roster_get pid r' =
     (case roster_get pid r of Some x \<Rightarrow> Some x
      | None \<Rightarrow> if pid = entry_player_id e then Some e else None)"
proof -
  have "find P (xs @ [e]) = (case find P xs of Some x \<Rightarrow> Some x | None \<Rightarrow> if P e then Some e else None)"
    for P and xs :: roster
    by (induction xs) auto
  then show "roster_add e r = Inr r' \<Longrightarrow> ?thesis"
    by (auto simp: roster_add_iff roster_get_def split: option.split)
qed

lemma roster_get_remove:
  "roster_get pid (roster_remove pid' r) = (if pid = pid' then None else roster_get pid r)"
  by (induction r) (auto simp: roster_get_def roster_remove_def)

lemma roster_remove_set: "set (roster_remove pid r) = {e \<in> set r. entry_player_id e \<noteq> pid}"
  by (auto simp: roster_remove_def)

end
