(* ===== verification/Json.thy ===== *)
theory Json
  imports Prelude
begin

text \<open>
  JSON values and what the code does with them: dictionary access, \<^verbatim>\<open>isinstance\<close> reads,
  keyword construction \<^verbatim>\<open>C(**d)\<close> of a dataclass, and comprehensions over lists and
  dictionaries.  A payload is its value here; its text, and that the text
  is read back, is the theory \<open>Json_Text\<close>.  Integers and
  floats are one kind of number, as everywhere in the model.

  The locale \<open>codec\<close> is the contract between an encoder and a reader: reading what was
  encoded gives the value back.  It lifts to lists, dictionaries and optional values.
\<close>

datatype json =
    JNull
  | JBool bool
  | JNum flt
  | JStr string
  | JList "json list"
  | JObj "(string \<times> json) list"

type_synonym obj = "(string \<times> json) list"

subsection \<open>Reading a value of a declared type\<close>

definition is_integral :: "flt \<Rightarrow> bool" where
  "is_integral x \<longleftrightarrow> of_int \<lfloor>x\<rfloor> = x"

lemma is_integral_of_int [simp]: "is_integral (of_int i)"
  by (simp add: is_integral_def)

fun as_bool :: "json \<Rightarrow> bool result" where
  "as_bool (JBool b) = Inr b"
| "as_bool _ = Inl (IllTyped ''bool'')"

fun as_num :: "json \<Rightarrow> flt result" where
  "as_num (JNum x) = Inr x"
| "as_num _ = Inl (IllTyped ''number'')"

fun as_int :: "json \<Rightarrow> int result" where
  "as_int (JNum x) = (if is_integral x then Inr \<lfloor>x\<rfloor> else Inl (IllTyped ''int''))"
| "as_int _ = Inl (IllTyped ''int'')"

fun as_str :: "json \<Rightarrow> string result" where
  "as_str (JStr s) = Inr s"
| "as_str _ = Inl (IllTyped ''str'')"

definition as_opt :: "(json \<Rightarrow> 'a result) \<Rightarrow> json \<Rightarrow> 'a option result" where
  "as_opt r j = (if j = JNull then Inr None else rbind (r j) (\<lambda>x. Inr (Some x)))"

text \<open>Iterating over a list, and over the items of a dictionary.\<close>

fun as_list :: "(json \<Rightarrow> 'a result) \<Rightarrow> json \<Rightarrow> 'a list result" where
  "as_list r (JList js) = map_res r js"
| "as_list r _ = Inl (TypeError ''object is not iterable'')"

fun as_dict :: "(json \<Rightarrow> 'a result) \<Rightarrow> json \<Rightarrow> 'a dict result" where
  "as_dict r (JObj d) = map_res (\<lambda>(k, j). rbind (r j) (\<lambda>x. Inr (k, x))) d"
| "as_dict r _ = Inl (AttributeError ''object has no attribute items'')"

text \<open>
  \<^verbatim>\<open>set(v)\<close> where strings are expected.  A string iterates over its characters and a
  dictionary over its keys; an element that is a list or a dictionary is not hashable.
\<close>

fun as_str_set :: "json \<Rightarrow> string fset result" where
  "as_str_set (JList js) =
     rbind (map_res (\<lambda>j. case j of JStr s \<Rightarrow> Inr s
                              | JList _ \<Rightarrow> Inl (TypeError ''unhashable type: list'')
                              | JObj _ \<Rightarrow> Inl (TypeError ''unhashable type: dict'')
                              | _ \<Rightarrow> Inl (IllTyped ''str'')) js)
       (\<lambda>ss. Inr (fset_of_list ss))"
| "as_str_set (JStr s) = Inr (fset_of_list (map (\<lambda>c. [c]) s))"
| "as_str_set (JObj d) = Inr (fset_of_list (dict_keys d))"
| "as_str_set _ = Inl (TypeError ''object is not iterable'')"

subsection \<open>Dictionary access and keyword construction\<close>

text \<open>\<^verbatim>\<open>d[k]\<close> raises when the key is missing; \<^verbatim>\<open>d.get(k, default)\<close> does not.\<close>

definition item :: "(json \<Rightarrow> 'a result) \<Rightarrow> string \<Rightarrow> obj \<Rightarrow> 'a result" where
  "item r k d = (case map_of d k of None \<Rightarrow> Inl (KeyError k) | Some j \<Rightarrow> r j)"

definition item_or :: "(json \<Rightarrow> 'a result) \<Rightarrow> string \<Rightarrow> 'a \<Rightarrow> obj \<Rightarrow> 'a result" where
  "item_or r k dflt d = (case map_of d k of None \<Rightarrow> Inr dflt | Some j \<Rightarrow> r j)"

text \<open>
  \<^verbatim>\<open>C(**j)\<close> for a dataclass with these required and defaulted fields: the keyword arguments,
  once none of them is unknown and none of the required ones is missing.
\<close>

definition kwargs :: "string list \<Rightarrow> string list \<Rightarrow> json \<Rightarrow> obj result" where
  "kwargs required defaulted j =
     (case j of
        JObj d \<Rightarrow>
          (if \<not> set (dict_keys d) \<subseteq> set (required @ defaulted)
           then Inl (TypeError ''got an unexpected keyword argument'')
           else if \<not> set required \<subseteq> set (dict_keys d)
             then Inl (TypeError ''missing a required argument'')
           else Inr d)
      | _ \<Rightarrow> Inl (TypeError ''argument after ** must be a mapping''))"

fun enc_opt :: "('a \<Rightarrow> json) \<Rightarrow> 'a option \<Rightarrow> json" where
  "enc_opt f None = JNull"
| "enc_opt f (Some x) = f x"

definition enc_dict :: "('a \<Rightarrow> json) \<Rightarrow> 'a dict \<Rightarrow> json" where
  "enc_dict f d = JObj (map_vals f d)"

definition enc_list :: "('a \<Rightarrow> json) \<Rightarrow> 'a list \<Rightarrow> json" where
  "enc_list f xs = JList (map f xs)"

definition enc_int :: "int \<Rightarrow> json" where
  "enc_int i = JNum (of_int i)"

subsection \<open>Codecs\<close>

locale codec =
  fixes enc :: "'a \<Rightarrow> json" and rd :: "json \<Rightarrow> 'a result" and ok :: "'a \<Rightarrow> bool"
  assumes read_encoded: "ok x \<Longrightarrow> rd (enc x) = Inr x"
begin

lemma list_read_encoded: "\<forall>x \<in> set xs. ok x \<Longrightarrow> as_list rd (enc_list enc xs) = Inr xs"
  by (simp add: enc_list_def map_res_map_id read_encoded)

lemma dict_read_encoded:
  assumes "\<forall>x \<in> snd ` set d. ok x"
  shows "as_dict rd (enc_dict enc d) = Inr d"
proof -
  have "map_res (\<lambda>(k, j). rbind (rd j) (\<lambda>x. Inr (k, x))) (map (\<lambda>(k, v). (k, enc v)) d) = Inr d"
    by (rule map_res_map_id) (use assms in \<open>force simp: read_encoded\<close>)
  then show ?thesis
    by (simp add: enc_dict_def map_vals_def)
qed

lemma opt_read_encoded:
  assumes "\<forall>x. v = Some x \<longrightarrow> ok x \<and> enc x \<noteq> JNull"
  shows "as_opt rd (enc_opt enc v) = Inr v"
  using assms by (cases v) (simp_all add: as_opt_def read_encoded)

lemma enc_inj: "ok x \<Longrightarrow> ok y \<Longrightarrow> enc x = enc y \<Longrightarrow> x = y"
  by (metis read_encoded sum.inject(2))

end

interpretation num: codec JNum as_num "\<lambda>_. True"
  by unfold_locales simp

interpretation int: codec enc_int as_int "\<lambda>_. True"
  by unfold_locales (simp add: enc_int_def)

interpretation str: codec JStr as_str "\<lambda>_. True"
  by unfold_locales simp

interpretation bool: codec JBool as_bool "\<lambda>_. True"
  by unfold_locales simp

lemma as_str_set_encoded [simp]:
  "as_str_set (enc_list JStr (sorted_list_of_fset S)) = Inr S"
proof -
  have "map_res (\<lambda>j. case j of JStr s \<Rightarrow> Inr s
                          | JList _ \<Rightarrow> Inl (TypeError ''unhashable type: list'')
                          | JObj _ \<Rightarrow> Inl (TypeError ''unhashable type: dict'')
                          | _ \<Rightarrow> Inl (IllTyped ''str'')) (map JStr ss) = Inr ss" for ss
    by (rule map_res_map_id) simp
  then show ?thesis
    by (simp add: enc_list_def sorted_list_of_fset.rep_eq fset_of_list_elem fset_eq_iff)
qed

lemmas codec_simps = num.read_encoded int.read_encoded str.read_encoded bool.read_encoded
  item_def item_or_def

end
