(* ===== verification/Messages.thy ===== *)
theory Messages
  imports World Roster Json
begin

text \<open>
  The messages of \<^verbatim>\<open>shared/messages/\<close>: one constructor per message class, with its wire tag
  and the validation of its \<^verbatim>\<open>__post_init__\<close>.  \<open>mk_message\<close> is the constructor call of the
  code: it returns the message, or the \<^verbatim>\<open>MessageValidationError\<close> it raises.

  The two synchronisation messages carry the world itself; the dictionary form the sender puts
  in them is the business of the serializer.
\<close>

datatype message =
    PlayerInputPacket ident int input_state
  | WorldStateSnapshot int world_state
  | InitialStateSync world_state
  | HostDiscoveryProbe ident string
  | HostIdentityResponse ident string
  | SessionCreate ident string int
  | SessionJoin ident ident string int "int option"
  | SessionRecreate ident int string int int "int list"
  | SessionLeave ident int
  | GameStart ident
  | SessionCreated ident int
  | SessionJoined int
  | RosterUpdate roster
  | SessionClosed ident
  | SessionJoinRejected ident string
  | NewHostClaim string int ident
  | ElectionAck string ident
  | ReconnectionAck string int int ident
  | BlockDestroyedMessage "flt \<times> flt"
  | PowerUpCollectedMessage ident ident
  | GateStateChangedMessage ident string
  | PlayerLeft ident
  | PlayerDisconnected ident
  | PlayerDeathMessage ident ident
  | LevelResetMessage

text \<open>\<^verbatim>\<open>MessageType\<close>\<close>

fun message_type :: "message \<Rightarrow> string" where
  "message_type (PlayerInputPacket _ _ _) = ''player_input''"
| "message_type (WorldStateSnapshot _ _) = ''world_state''"
| "message_type (InitialStateSync _) = ''initial_state_sync''"
| "message_type (HostDiscoveryProbe _ _) = ''host_discovery_probe''"
| "message_type (HostIdentityResponse _ _) = ''host_identity_response''"
| "message_type (SessionCreate _ _ _) = ''session_create''"
| "message_type (SessionJoin _ _ _ _ _) = ''session_join''"
| "message_type (SessionRecreate _ _ _ _ _ _) = ''session_recreate''"
| "message_type (SessionLeave _ _) = ''session_leave''"
| "message_type (GameStart _) = ''game_start''"
| "message_type (SessionCreated _ _) = ''session_created''"
| "message_type (SessionJoined _) = ''session_joined''"
| "message_type (RosterUpdate _) = ''roster_update''"
| "message_type (SessionClosed _) = ''session_closed''"
| "message_type (SessionJoinRejected _ _) = ''session_join_rejected''"
| "message_type (NewHostClaim _ _ _) = ''new_host_claim''"
| "message_type (ElectionAck _ _) = ''election_ack''"
| "message_type (ReconnectionAck _ _ _ _) = ''reconnection_ack''"
| "message_type (BlockDestroyedMessage _) = ''block_destroyed_message''"
| "message_type (PowerUpCollectedMessage _ _) = ''powerup_collected_message''"
| "message_type (GateStateChangedMessage _ _) = ''gate_state_changed_message''"
| "message_type (PlayerLeft _) = ''player_left''"
| "message_type (PlayerDisconnected _) = ''player_disconnected''"
| "message_type (PlayerDeathMessage _ _) = ''player_death_message''"
| "message_type LevelResetMessage = ''level_reset_message''"

subsection \<open>Validation\<close>

definition require :: "bool \<Rightarrow> string \<Rightarrow> unit result" where
  "require ok what = (if ok then Inr () else Inl (MessageValidationError what))"

lemma require_Inr [simp]: "require ok what = Inr u \<longleftrightarrow> ok"
  by (simp add: require_def)

definition validate_player_id :: "ident \<Rightarrow> unit result" where
  "validate_player_id pid = require (pid \<noteq> []) ''Invalid player_id''"

definition port_ok :: "int \<Rightarrow> bool" where
  "port_ok p \<longleftrightarrow> 1024 \<le> p \<and> p \<le> 65535"

definition validate_port :: "int \<Rightarrow> unit result" where
  "validate_port p = require (port_ok p) ''Port out of range''"

definition validate_join_index :: "int \<Rightarrow> unit result" where
  "validate_join_index j = require (0 \<le> j) ''join_index must be >= 0''"

text \<open>Several checks in a row; the first that fails raises.\<close>

fun checks :: "unit result list \<Rightarrow> unit result" where
  "checks [] = Inr ()"
| "checks (c # cs) = rbind c (\<lambda>_. checks cs)"

lemma checks_Inr: "checks cs = Inr u \<longleftrightarrow> (\<forall>c \<in> set cs. c = Inr ())"
  by (induction cs) (auto simp: rbind_Inr_iff)

declare checks.simps [simp del]

text \<open>One definition per \<^verbatim>\<open>__post_init__\<close>.\<close>

definition init_player_input_packet :: "ident \<Rightarrow> unit result" where
  "init_player_input_packet pid =
     validate_player_id pid"

definition init_host_discovery_probe :: "ident \<Rightarrow> string \<Rightarrow> unit result" where
  "init_host_discovery_probe sid ip =
     checks [require (sid \<noteq> []) ''Invalid session_id'', require (ip \<noteq> []) ''Invalid requester_ip'']"

definition init_host_identity_response :: "ident \<Rightarrow> string \<Rightarrow> unit result" where
  "init_host_identity_response sid ip =
     checks [require (sid \<noteq> []) ''Invalid session_id'', require (ip \<noteq> []) ''Invalid host_ip'']"

definition init_session_create :: "ident \<Rightarrow> string \<Rightarrow> int \<Rightarrow> unit result" where
  "init_session_create pid ip port =
     checks [validate_player_id pid, validate_port port, require (ip \<noteq> []) ''Invalid ip'']"

definition init_session_join :: "ident \<Rightarrow> ident \<Rightarrow> string \<Rightarrow> int \<Rightarrow> int option \<Rightarrow> unit result" where
  "init_session_join sid pid ip port rejoin =
     checks [validate_player_id pid, validate_port port,
       require (sid \<noteq> []) ''Invalid session_id'', require (ip \<noteq> []) ''Invalid ip'',
       require (case rejoin of None \<Rightarrow> True | Some j \<Rightarrow> 0 \<le> j \<and> j < MAX_PLAYERS)
         ''Invalid rejoin_join_index'',
       require (case rejoin of None \<Rightarrow> True | Some j \<Rightarrow> pid = player_id_for j)
         ''player_id must match rejoin_join_index when requesting a rejoin'']"

definition init_session_created :: "ident \<Rightarrow> int \<Rightarrow> unit result" where
  "init_session_created sid ji =
     checks [require (sid \<noteq> []) ''Invalid session_id'', validate_join_index ji]"

definition init_session_joined :: "int \<Rightarrow> unit result" where
  "init_session_joined ji =
     validate_join_index ji"

definition init_roster_update :: "roster \<Rightarrow> unit result" where
  "init_roster_update r =
     require (length (map entry_join_index r) = card (set (map entry_join_index r)))
       ''Roster has duplicate join_index values''"

definition init_session_recreate :: "ident \<Rightarrow> int \<Rightarrow> string \<Rightarrow> int \<Rightarrow> int \<Rightarrow> int list \<Rightarrow> unit result" where
  "init_session_recreate sid nji ip port hji reserved =
     checks ([require (sid \<noteq> []) ''Invalid session_id'',
       require (0 \<le> nji) ''Invalid next_join_index'',
       require (ip \<noteq> []) ''Invalid host_ip'',
       validate_port port,
       require (0 \<le> hji \<and> hji < MAX_PLAYERS) ''Invalid host_join_index'',
       require (length reserved = card (set reserved)) ''reserved_join_indices must be unique'']
       @ concat (map (\<lambda>j. [validate_join_index j,
           require (j < MAX_PLAYERS) ''Invalid reserved join_index'']) reserved)
       @ [require (hji \<notin> set reserved) ''host_join_index cannot be reserved''])"

definition init_game_start :: "ident \<Rightarrow> unit result" where
  "init_game_start sid =
     require (sid \<noteq> []) ''Invalid session_id''"

definition init_new_host_claim :: "string \<Rightarrow> int \<Rightarrow> ident \<Rightarrow> unit result" where
  "init_new_host_claim ip ji sid =
     checks [require (ip \<noteq> []) ''Invalid claimer_ip'',
       require (0 \<le> ji) ''Invalid claimer_join_index'', require (sid \<noteq> []) ''Invalid session_id'']"

definition init_election_ack :: "string \<Rightarrow> ident \<Rightarrow> unit result" where
  "init_election_ack ip sid =
     checks [require (ip \<noteq> []) ''Invalid from_ip'', require (sid \<noteq> []) ''Invalid session_id'']"

definition init_reconnection_ack :: "string \<Rightarrow> int \<Rightarrow> int \<Rightarrow> ident \<Rightarrow> unit result" where
  "init_reconnection_ack ip port gport sid =
     checks [require (ip \<noteq> []) ''Invalid new_host_ip'', validate_port port, validate_port gport,
       require (sid \<noteq> []) ''Invalid session_id'']"

definition init_block_destroyed :: "flt \<times> flt \<Rightarrow> unit result" where
  "init_block_destroyed pos =
     require (is_integral (fst pos) \<and> is_integral (snd pos)) ''Invalid position''"

definition init_power_up_collected :: "ident \<Rightarrow> ident \<Rightarrow> unit result" where
  "init_power_up_collected uid pid =
     checks [require (uid \<noteq> []) ''Invalid powerup_id'', validate_player_id pid]"

definition init_gate_state_changed :: "ident \<Rightarrow> string \<Rightarrow> unit result" where
  "init_gate_state_changed gid st =
     checks [require (gid \<noteq> []) ''Invalid gate_id'', require (st \<noteq> []) ''Invalid new_state'']"

definition init_player_left :: "ident \<Rightarrow> unit result" where
  "init_player_left pid =
     validate_player_id pid"

definition init_player_disconnected :: "ident \<Rightarrow> unit result" where
  "init_player_disconnected pid =
     validate_player_id pid"

definition init_player_death :: "ident \<Rightarrow> ident \<Rightarrow> unit result" where
  "init_player_death pid eid =
     checks [validate_player_id pid, require (eid \<noteq> []) ''Invalid enemy_id'']"

fun post_init :: "message \<Rightarrow> unit result" where
  "post_init (PlayerInputPacket pid _ _) = init_player_input_packet pid"
| "post_init (HostDiscoveryProbe sid ip) = init_host_discovery_probe sid ip"
| "post_init (HostIdentityResponse sid ip) = init_host_identity_response sid ip"
| "post_init (SessionCreate pid ip port) = init_session_create pid ip port"
| "post_init (SessionJoin sid pid ip port rejoin) = init_session_join sid pid ip port rejoin"
| "post_init (SessionCreated sid ji) = init_session_created sid ji"
| "post_init (SessionJoined ji) = init_session_joined ji"
| "post_init (RosterUpdate r) = init_roster_update r"
| "post_init (SessionRecreate sid nji ip port hji reserved) = init_session_recreate sid nji ip port hji reserved"
| "post_init (GameStart sid) = init_game_start sid"
| "post_init (NewHostClaim ip ji sid) = init_new_host_claim ip ji sid"
| "post_init (ElectionAck ip sid) = init_election_ack ip sid"
| "post_init (ReconnectionAck ip port gport sid) = init_reconnection_ack ip port gport sid"
| "post_init (BlockDestroyedMessage pos) = init_block_destroyed pos"
| "post_init (PowerUpCollectedMessage uid pid) = init_power_up_collected uid pid"
| "post_init (GateStateChangedMessage gid st) = init_gate_state_changed gid st"
| "post_init (PlayerLeft pid) = init_player_left pid"
| "post_init (PlayerDisconnected pid) = init_player_disconnected pid"
| "post_init (PlayerDeathMessage pid eid) = init_player_death pid eid"
| "post_init _ = Inr ()"

lemmas post_inits [simp] = init_player_input_packet_def init_host_discovery_probe_def init_host_identity_response_def init_session_create_def init_session_join_def init_session_created_def init_session_joined_def init_roster_update_def init_session_recreate_def init_game_start_def init_new_host_claim_def init_election_ack_def init_reconnection_ack_def init_block_destroyed_def init_power_up_collected_def init_gate_state_changed_def init_player_left_def init_player_disconnected_def init_player_death_def

definition mk_message :: "message \<Rightarrow> message result" where
  "mk_message m = rbind (post_init m) (\<lambda>_. Inr m)"

definition valid_message :: "message \<Rightarrow> bool" where
  "valid_message m \<longleftrightarrow> post_init m = Inr ()"

lemma mk_message_Inr: "mk_message m = Inr m' \<longleftrightarrow> m' = m \<and> valid_message m"
  by (cases "post_init m") (auto simp: mk_message_def valid_message_def)

lemma mk_message_valid [simp]: "valid_message m \<Longrightarrow> mk_message m = Inr m"
  by (simp add: mk_message_Inr)

lemmas message_checks = valid_message_def checks_Inr validate_player_id_def validate_port_def
  validate_join_index_def port_ok_def

text \<open>What the validation of the lobby messages guarantees to their handlers.\<close>

lemma valid_SessionCreate:
  "valid_message (SessionCreate pid ip port) \<longleftrightarrow> pid \<noteq> [] \<and> port_ok port \<and> ip \<noteq> []"
  by (auto simp: message_checks)

lemma valid_SessionJoin:
  "valid_message (SessionJoin sid pid ip port rejoin) \<longleftrightarrow>
     pid \<noteq> [] \<and> port_ok port \<and> sid \<noteq> [] \<and> ip \<noteq> [] \<and>
     (\<forall>j. rejoin = Some j \<longrightarrow> 0 \<le> j \<and> j < MAX_PLAYERS \<and> pid = player_id_for j)"
  by (auto simp: message_checks split: option.splits)

lemma card_length_distinct: "length xs = card (set xs) \<longleftrightarrow> distinct xs"
  by (metis card_distinct distinct_card)

lemma valid_RosterUpdate:
  "valid_message (RosterUpdate r) \<longleftrightarrow> distinct (map entry_join_index r)"
  using card_length_distinct [of "map entry_join_index r"]
  by (simp add: valid_message_def)

lemma valid_SessionRecreate:
  "valid_message (SessionRecreate sid nji ip port hji reserved) \<longleftrightarrow>
     sid \<noteq> [] \<and> 0 \<le> nji \<and> ip \<noteq> [] \<and> port_ok port \<and> 0 \<le> hji \<and> hji < MAX_PLAYERS \<and>
     distinct reserved \<and> (\<forall>j \<in> set reserved. 0 \<le> j \<and> j < MAX_PLAYERS) \<and> hji \<notin> set reserved"
  by (auto simp: message_checks card_length_distinct)

end
