(* ===== verification/Lobby.thy ===== *)
theory Lobby
  imports Messages
begin

text \<open>
  The lobby service of \<^verbatim>\<open>network/lobby/service.py\<close>: the session registry, one definition per
  method of \<^verbatim>\<open>LobbyManager\<close>, and the WebSocket endpoint that drives it, as a handler of one
  decoded message and as a step relation over all connections.

  A session record keeps its participants as dictionaries; here they are \<open>slot\<close> records with
  the same fields.  A fresh session identifier (\<^verbatim>\<open>uuid4\<close>) is an argument.  Frames that do not
  decode to a message end the connection and are the step \<open>Close\<close>.
\<close>

record slot =
  slot_player_id :: ident
  slot_host :: string
  slot_udp_port :: int
  slot_join_index :: int
  slot_status :: string
  slot_is_host :: bool

type_synonym conn = nat

record session_record =
  entries :: "slot list"
  connections :: "conn list"
  session_active :: bool
  next_join_index :: int
  reserved_join_indices :: "int set"

type_synonym lobby = "session_record dict"

definition new_slot :: "int \<Rightarrow> string \<Rightarrow> int \<Rightarrow> bool \<Rightarrow> slot" where
  "new_slot ji host port is_host =
     \<lparr>slot_player_id = player_id_for ji, slot_host = host, slot_udp_port = port,
      slot_join_index = ji, slot_status = connection_status_value CONNECTED, slot_is_host = is_host\<rparr>"

subsection \<open>The registry\<close>

definition create_session :: "ident \<Rightarrow> string \<Rightarrow> int \<Rightarrow> lobby \<Rightarrow> int \<times> lobby" where
  "create_session sid host port l =
     (0, AList.update sid
           \<lparr>entries = [new_slot 0 host port True], connections = [], session_active = False,
            next_join_index = 1, reserved_join_indices = {}\<rparr> l)"

text \<open>\<^verbatim>\<open>reset\<close> empties the registry.\<close>

definition lobby_reset :: "lobby \<Rightarrow> lobby" where
  "lobby_reset l = []"

definition occupied_indices :: "session_record \<Rightarrow> int set" where
  "occupied_indices s = slot_join_index ` set (entries s) \<union> reserved_join_indices s"

text \<open>\<^verbatim>\<open>next(index for index in range(MAX_PLAYERS) if index not in occupied)\<close>\<close>

definition first_free :: "int set \<Rightarrow> int option" where
  "first_free occupied = find (\<lambda>i. i \<notin> occupied) (upto 0 (MAX_PLAYERS - 1))"

definition add_slot :: "ident \<Rightarrow> session_record \<Rightarrow> int \<Rightarrow> string \<Rightarrow> int \<Rightarrow> lobby \<Rightarrow> lobby" where
  "add_slot sid s ji host port l =
     AList.update sid (s\<lparr>entries := entries s @ [new_slot ji host port False],
                         next_join_index := max (next_join_index s) (ji + 1)\<rparr>) l"

definition join_session ::
  "ident \<Rightarrow> ident \<Rightarrow> string \<Rightarrow> int \<Rightarrow> int option \<Rightarrow> lobby \<Rightarrow> int option \<times> lobby" where
  "join_session sid pid host port rejoin l =
     (case map_of l sid of
        None \<Rightarrow> (None, l)
      | Some s \<Rightarrow>
          (case rejoin of
             Some j \<Rightarrow>
               (case find (\<lambda>e. slot_join_index e = j) (entries s) of
                  Some existing \<Rightarrow>
                    if slot_player_id existing \<noteq> pid then (None, l)
                    else (Some j,
                      AList.update sid
                        (s\<lparr>entries := update_first (\<lambda>e. slot_join_index e = j)
                                        (\<lambda>e. e\<lparr>slot_host := host, slot_udp_port := port\<rparr>) (entries s),
                           reserved_join_indices := reserved_join_indices s - {j}\<rparr>) l)
                | None \<Rightarrow>
                    if j \<notin> reserved_join_indices s then (None, l)
                    else (Some j,
                      add_slot sid (s\<lparr>reserved_join_indices := reserved_join_indices s - {j}\<rparr>)
                        j host port l))
           | None \<Rightarrow>
               if int (card (occupied_indices s)) \<ge> MAX_PLAYERS then (None, l)
               else (case first_free (occupied_indices s) of
                       None \<Rightarrow> (None, l)
                     | Some j \<Rightarrow> (Some j, add_slot sid s j host port l))))"

definition add_connection :: "ident \<Rightarrow> conn \<Rightarrow> lobby \<Rightarrow> lobby result" where
  "add_connection sid c l =
     (case map_of l sid of
        None \<Rightarrow> Inl (KeyError sid)
      | Some s \<Rightarrow> Inr (AList.update sid (s\<lparr>connections := connections s @ [c]\<rparr>) l))"

definition remove_connection :: "ident \<Rightarrow> conn \<Rightarrow> lobby \<Rightarrow> lobby" where
  "remove_connection sid c l =
     (case map_of l sid of
        None \<Rightarrow> l
      | Some s \<Rightarrow> AList.update sid (s\<lparr>connections := filter (\<lambda>x. x \<noteq> c) (connections s)\<rparr>) l)"

definition leave_session :: "ident \<Rightarrow> int \<Rightarrow> lobby \<Rightarrow> bool \<times> lobby" where
  "leave_session sid ji l =
     (case map_of l sid of
        None \<Rightarrow> (False, l)
      | Some s \<Rightarrow>
          (case find (\<lambda>e. slot_join_index e = ji) (entries s) of
             None \<Rightarrow> (False, l)
           | Some leaving \<Rightarrow>
               (slot_is_host leaving,
                AList.update sid
                  (s\<lparr>entries := filter (\<lambda>e. slot_join_index e \<noteq> ji) (entries s)\<rparr>) l)))"

definition is_full :: "ident \<Rightarrow> int option \<Rightarrow> lobby \<Rightarrow> bool" where
  "is_full sid rejoin l =
     (case map_of l sid of
        None \<Rightarrow> False
      | Some s \<Rightarrow>
          (case rejoin of
             Some j \<Rightarrow> j \<notin> reserved_join_indices s \<and>
               \<not> (\<exists>e \<in> set (entries s). slot_join_index e = j \<and> slot_player_id e \<noteq> player_id_for j)
           | None \<Rightarrow> int (card (occupied_indices s)) \<ge> MAX_PLAYERS))"

definition has_session :: "ident \<Rightarrow> lobby \<Rightarrow> bool" where
  "has_session sid l \<longleftrightarrow> sid \<in> fst ` set l"

definition drop_session :: "ident \<Rightarrow> lobby \<Rightarrow> lobby" where
  "drop_session sid l = AList.delete sid l"

definition slot_entry :: "slot \<Rightarrow> roster_entry result" where
  "slot_entry e = rbind (connection_status_of (slot_status e)) (\<lambda>st.
     validate_entry \<lparr>entry_player_id = slot_player_id e, entry_host = slot_host e,
       entry_udp_port = slot_udp_port e, entry_join_index = slot_join_index e,
       entry_status = st, entry_is_host = slot_is_host e\<rparr>)"

definition get_roster :: "ident \<Rightarrow> lobby \<Rightarrow> roster result" where
  "get_roster sid l =
     (case map_of l sid of
        None \<Rightarrow> Inl (KeyError sid)
      | Some s \<Rightarrow> fold_res (\<lambda>e r. rbind (slot_entry e) (\<lambda>x. roster_add x r)) (entries s) [])"

definition mark_active :: "ident \<Rightarrow> lobby \<Rightarrow> lobby result" where
  "mark_active sid l =
     (case map_of l sid of
        None \<Rightarrow> Inl (KeyError sid)
      | Some s \<Rightarrow> Inr (AList.update sid (s\<lparr>session_active := True\<rparr>) l))"

definition is_active :: "ident \<Rightarrow> lobby \<Rightarrow> bool" where
  "is_active sid l = (case map_of l sid of None \<Rightarrow> False | Some s \<Rightarrow> session_active s)"

definition entry_slot :: "roster_entry \<Rightarrow> slot" where
  "entry_slot e =
     \<lparr>slot_player_id = entry_player_id e, slot_host = entry_host e,
      slot_udp_port = entry_udp_port e, slot_join_index = entry_join_index e,
      slot_status = connection_status_value (entry_status e), slot_is_host = entry_is_host e\<rparr>"

definition register_active_session :: "ident \<Rightarrow> roster \<Rightarrow> int \<Rightarrow> int set \<Rightarrow> lobby \<Rightarrow> lobby" where
  "register_active_session sid r nji reserved l =
     AList.update sid
       \<lparr>entries = map entry_slot (roster_all r), connections = [], session_active = True,
        next_join_index = nji, reserved_join_indices = reserved\<rparr> l"

text \<open>The frames a broadcast sends, one to each connection of the session.\<close>

definition broadcast :: "ident \<Rightarrow> message \<Rightarrow> lobby \<Rightarrow> (conn \<times> message) list" where
  "broadcast sid m l =
     (case map_of l sid of None \<Rightarrow> [] | Some s \<Rightarrow> map (\<lambda>c. (c, m)) (connections s))"

subsection \<open>The endpoint\<close>

text \<open>
  What one connection's handler sees: the registry, the session the connection joined, and the
  frames sent so far.  An operation may raise after it has changed the registry, so a handler
  returns the state it reached together with the exception, if any.
\<close>

record endpoint =
  registry :: lobby
  session_id :: "ident option"
  sent :: "(conn \<times> message) list"

type_synonym outcome = "endpoint \<times> py_error option"

definition send_to :: "conn \<Rightarrow> message \<Rightarrow> endpoint \<Rightarrow> endpoint" where
  "send_to c m st = st\<lparr>sent := sent st @ [(c, m)]\<rparr>"

definition send_all :: "ident \<Rightarrow> message \<Rightarrow> endpoint \<Rightarrow> endpoint" where
  "send_all sid m st = st\<lparr>sent := sent st @ broadcast sid m (registry st)\<rparr>"

text \<open>\<^verbatim>\<open>get_roster\<close>, \<^verbatim>\<open>RosterUpdate(...)\<close> and \<^verbatim>\<open>broadcast\<close>\<close>

definition broadcast_roster :: "ident \<Rightarrow> endpoint \<Rightarrow> outcome" where
  "broadcast_roster sid st =
     (case rbind (get_roster sid (registry st)) (\<lambda>r. mk_message (RosterUpdate r)) of
        Inl err \<Rightarrow> (st, Some err)
      | Inr m \<Rightarrow> (send_all sid m st, None))"

definition connect :: "ident \<Rightarrow> conn \<Rightarrow> endpoint \<Rightarrow> (endpoint \<Rightarrow> outcome) \<Rightarrow> outcome" where
  "connect sid c st k =
     (case add_connection sid c (registry st) of
        Inl err \<Rightarrow> (st, Some err)
      | Inr l \<Rightarrow> k (st\<lparr>registry := l\<rparr>))"

definition send_built :: "conn \<Rightarrow> message \<Rightarrow> endpoint \<Rightarrow> (endpoint \<Rightarrow> outcome) \<Rightarrow> outcome" where
  "send_built c m st k =
     (case mk_message m of Inl err \<Rightarrow> (st, Some err) | Inr m' \<Rightarrow> k (send_to c m' st))"

definition handle_leave :: "ident \<Rightarrow> int \<Rightarrow> endpoint \<Rightarrow> outcome" where
  "handle_leave sid ji st =
     (if \<not> has_session sid (registry st) then (st, None)
      else
        let (host_left, l) = leave_session sid ji (registry st);
            st1 = st\<lparr>registry := l\<rparr>
        in if host_left then
             let st2 = send_all sid (SessionClosed sid) st1
             in (st2\<lparr>registry := drop_session sid (registry st2)\<rparr>, None)
           else broadcast_roster sid st1)"

fun handle_message :: "conn \<Rightarrow> ident \<Rightarrow> message \<Rightarrow> endpoint \<Rightarrow> outcome" where
  "handle_message c fresh (SessionCreate pid ip port) st =
     (let (ji, l) = create_session fresh ip port (registry st);
          st1 = st\<lparr>registry := l, session_id := Some fresh\<rparr>
      in connect fresh c st1 (\<lambda>st2.
           send_built c (SessionCreated fresh ji) st2 (broadcast_roster fresh)))"
| "handle_message c fresh (SessionJoin sid pid ip port rejoin) st =
     (let st0 = st\<lparr>session_id := Some sid\<rparr> in
      if is_full sid rejoin (registry st0) then
        ((send_to c (SessionJoinRejected sid ''The session already has 4 players'') st0)
           \<lparr>session_id := None\<rparr>, None)
      else case join_session sid pid ip port rejoin (registry st0) of
        (None, l) \<Rightarrow>
          ((send_to c (SessionJoinRejected sid ''The requested player slot is unavailable'')
              (st0\<lparr>registry := l\<rparr>))\<lparr>session_id := None\<rparr>, None)
      | (Some ji, l) \<Rightarrow>
          connect sid c (st0\<lparr>registry := l\<rparr>) (\<lambda>st2.
            send_built c (SessionJoined ji) st2 (\<lambda>st3.
              case broadcast_roster sid st3 of
                (st4, Some err) \<Rightarrow> (st4, Some err)
              | (st4, None) \<Rightarrow>
                  if is_active sid (registry st4) then send_built c (GameStart sid) st4 (\<lambda>st5. (st5, None))
                  else (st4, None))))"
| "handle_message c fresh (SessionRecreate sid nji ip port hji reserved) st =
     (let st0 = st\<lparr>session_id := Some sid\<rparr>;
          e = \<lparr>entry_player_id = player_id_for hji, entry_host = ip, entry_udp_port = port,
               entry_join_index = hji, entry_status = CONNECTED, entry_is_host = True\<rparr>
      in case rbind (validate_entry e) (\<lambda>e'. roster_add e' []) of
           Inl err \<Rightarrow> (st0, Some err)
         | Inr r \<Rightarrow>
             connect sid c
               (st0\<lparr>registry := register_active_session sid r nji (set reserved) (registry st0)\<rparr>)
               (\<lambda>st2. send_built c (SessionCreated sid 0) st2 (\<lambda>st3. (st3, None))))"
| "handle_message c fresh (SessionLeave sid ji) st = handle_leave sid ji st"
| "handle_message c fresh (InitialStateSync w) st =
     (case session_id st of
        None \<Rightarrow> (st, None)
      | Some sid \<Rightarrow> (send_all sid (InitialStateSync w) st, None))"
| "handle_message c fresh (GameStart sid) st =
     (case mark_active sid (registry st) of
        Inl err \<Rightarrow> (st, Some err)
      | Inr l \<Rightarrow> (send_all sid (GameStart sid) (st\<lparr>registry := l\<rparr>), None))"
| "handle_message c fresh m st = (st, None)"

text \<open>The end of a connection, after a disconnect or an exception.\<close>

definition close_connection :: "conn \<Rightarrow> endpoint \<Rightarrow> endpoint" where
  "close_connection c st =
     (case session_id st of
        None \<Rightarrow> st
      | Some sid \<Rightarrow> st\<lparr>registry := remove_connection sid c (registry st)\<rparr>)"

end
