(* ===== verification/Lobby_Inv.thy ===== *)
theory Lobby_Inv
  imports Lobby
begin

text \<open>
  The invariant of the lobby and its consequences.  In a well-formed session the slots taken and
  the slots reserved are disjoint subsets of the four join indices, each participant carries the
  canonical identifier of its slot, and there is at most one host.  Every handler keeps it, so
  it holds in every reachable state of the service, whatever valid messages arrive on whatever
  connections.
\<close>

definition slot_ok :: "slot \<Rightarrow> bool" where
  "slot_ok e \<longleftrightarrow> 0 \<le> slot_join_index e \<and> slot_join_index e < MAX_PLAYERS \<and>
     slot_player_id e = player_id_for (slot_join_index e) \<and>
     slot_host e \<noteq> [] \<and> port_ok (slot_udp_port e) \<and>
     slot_status e \<in> connection_status_value ` {CONNECTED, DISCONNECTED}"

definition session_wf :: "session_record \<Rightarrow> bool" where
  "session_wf s \<longleftrightarrow>
     distinct (map slot_join_index (entries s)) \<and> (\<forall>e \<in> set (entries s). slot_ok e) \<and>
     reserved_join_indices s \<subseteq> {0..<MAX_PLAYERS} \<and>
     slot_join_index ` set (entries s) \<inter> reserved_join_indices s = {} \<and>
     length (filter slot_is_host (entries s)) \<le> 1"

definition lobby_wf :: "lobby \<Rightarrow> bool" where
  "lobby_wf l \<longleftrightarrow> distinct (dict_keys l) \<and> (\<forall>s \<in> snd ` set l. session_wf s)"

lemma lobby_wf_Nil [simp]: "lobby_wf []"
  by (simp add: lobby_wf_def)

lemma lobby_wfD: "lobby_wf l \<Longrightarrow> map_of l sid = Some s \<Longrightarrow> session_wf s"
  by (force simp: lobby_wf_def dest: map_of_SomeD)

lemma lobby_wf_update [wf_intros]:
  "lobby_wf l \<Longrightarrow> session_wf s \<Longrightarrow> lobby_wf (AList.update sid s l)"
  using set_AList_update [of sid s l] by (auto simp: lobby_wf_def AList.distinct_update)

lemma lobby_wf_delete [wf_intros]: "lobby_wf l \<Longrightarrow> lobby_wf (AList.delete sid l)"
  by (auto simp: lobby_wf_def AList.distinct_delete set_AList_delete)

subsection \<open>Free slots\<close>

lemma occupied_range: "session_wf s \<Longrightarrow> occupied_indices s \<subseteq> {0..<MAX_PLAYERS}"
  by (auto simp: session_wf_def occupied_indices_def slot_ok_def)

lemma slots_range: "set (upto 0 (MAX_PLAYERS - 1)) = {0..<MAX_PLAYERS}"
  by auto

text \<open>The session is full exactly when no slot is free.\<close>

lemma full_iff:
  assumes "occ \<subseteq> {0..<MAX_PLAYERS}"
  shows "int (card occ) \<ge> MAX_PLAYERS \<longleftrightarrow> occ = {0..<MAX_PLAYERS}"
proof
  assume "int (card occ) \<ge> MAX_PLAYERS"
  then have "card {0..<MAX_PLAYERS} \<le> card occ" by (simp add: MAX_PLAYERS_def)
  then show "occ = {0..<MAX_PLAYERS}"
    using assms card_seteq [of "{0..<MAX_PLAYERS}" occ] by simp
qed (simp add: MAX_PLAYERS_def)

lemma find_upto:
  "find P (upto a b) = Some j \<longleftrightarrow> a \<le> j \<and> j \<le> b \<and> P j \<and> (\<forall>i. a \<le> i \<and> i < j \<longrightarrow> \<not> P i)"
proof (induction a b rule: upto.induct)
  case (1 a b)
  show ?case
  proof (cases "a \<le> b")
    case False
    then show ?thesis by (simp add: upto.simps)
  next
    case True
    have step: "(\<forall>i. a \<le> i \<and> i < j \<longrightarrow> \<not> P i) \<longleftrightarrow> (\<forall>i. a + 1 \<le> i \<and> i < j \<longrightarrow> \<not> P i)" if "\<not> P a"
      using that by (metis add1_zle_eq order_le_less)
    show ?thesis
    proof (cases "P a")
      case True
      then show ?thesis
        using \<open>a \<le> b\<close> by (cases "a < j") (auto simp: upto_rec1)
    next
      case False
      then show ?thesis
        using 1 [OF True] True step [OF False]
        by (subst upto.simps) (auto simp: order_le_less)
    qed
  qed
qed

lemma first_free_Some:
  "first_free occ = Some j \<longleftrightarrow>
     0 \<le> j \<and> j < MAX_PLAYERS \<and> j \<notin> occ \<and> (\<forall>i. 0 \<le> i \<and> i < j \<longrightarrow> i \<in> occ)"
  unfolding first_free_def find_upto by auto

lemma first_free_None: "occ \<subseteq> {0..<MAX_PLAYERS} \<Longrightarrow> first_free occ = None \<longleftrightarrow> occ = {0..<MAX_PLAYERS}"
  unfolding first_free_def find_None_iff slots_range by auto

subsection \<open>The registry operations keep the invariant\<close>

lemma find_join_index:
  "find (\<lambda>e. slot_join_index e = j) es = None \<longleftrightarrow> j \<notin> slot_join_index ` set es"
  by (auto simp: find_None_iff)

lemma new_slot_ok: "0 \<le> j \<Longrightarrow> j < MAX_PLAYERS \<Longrightarrow> host \<noteq> [] \<Longrightarrow> port_ok port \<Longrightarrow> slot_ok (new_slot j host port h)"
  by (auto simp: slot_ok_def new_slot_def)

lemma new_slot_simps [simp]:
  "slot_join_index (new_slot j host port h) = j" "slot_is_host (new_slot j host port h) = h"
  by (simp_all add: new_slot_def)

lemma create_session_wf:
  "lobby_wf l \<Longrightarrow> host \<noteq> [] \<Longrightarrow> port_ok port \<Longrightarrow> lobby_wf (snd (create_session sid host port l))"
  by (auto simp: create_session_def session_wf_def MAX_PLAYERS_def intro!: lobby_wf_update new_slot_ok)

lemma add_slot_wf:
  assumes "lobby_wf l" and "session_wf s" and "0 \<le> j" and "j < MAX_PLAYERS" and "j \<notin> occupied_indices s"
    and "host \<noteq> []" and "port_ok port"
  shows "lobby_wf (add_slot sid s j host port l)"
proof -
  have "session_wf (s\<lparr>entries := entries s @ [new_slot j host port False],
      next_join_index := max (next_join_index s) (j + 1)\<rparr>)"
    using assms(2,5) new_slot_ok [OF assms(3,4,6,7), of False]
    by (auto simp: session_wf_def occupied_indices_def)
  then show ?thesis
    unfolding add_slot_def by (rule lobby_wf_update [OF assms(1)])
qed

lemma filter_update_first:
  "(\<And>x. P (f x) = P x) \<Longrightarrow> length (filter P (update_first Q f xs)) = length (filter P xs)"
  by (induction xs) auto

lemma session_wf_reclaim:
  assumes "session_wf s" and "host \<noteq> []" and "port_ok port"
  shows "session_wf (s\<lparr>entries := update_first (\<lambda>e. slot_join_index e = j)
      (\<lambda>e. e\<lparr>slot_host := host, slot_udp_port := port\<rparr>) (entries s),
    reserved_join_indices := reserved_join_indices s - {j}\<rparr>)"
proof -
  let ?es = "update_first (\<lambda>e. slot_join_index e = j)
      (\<lambda>e. e\<lparr>slot_host := host, slot_udp_port := port\<rparr>) (entries s)"
  have ids: "map slot_join_index ?es = map slot_join_index (entries s)"
    by (rule map_update_first) simp
  then have "slot_join_index ` set ?es = slot_join_index ` set (entries s)"
    by (metis list.set_map)
  moreover have "\<forall>e \<in> set ?es. slot_ok e"
    using assms set_update_first [of "\<lambda>e. slot_join_index e = j"
        "\<lambda>e. e\<lparr>slot_host := host, slot_udp_port := port\<rparr>" "entries s"]
    by (fastforce simp: session_wf_def slot_ok_def)
  moreover have "length (filter slot_is_host ?es) = length (filter slot_is_host (entries s))"
    by (rule filter_update_first) simp
  ultimately show ?thesis
    using assms(1) ids by (auto simp: session_wf_def)
qed

lemma join_session_wf:
  assumes "lobby_wf l" and "host \<noteq> []" and "port_ok port"
  shows "lobby_wf (snd (join_session sid pid host port rejoin l))"
proof (cases "map_of l sid")
  case None
  then show ?thesis using assms(1) by (simp add: join_session_def)
next
  case (Some s)
  note wf = lobby_wfD [OF assms(1) Some]
  show ?thesis
  proof (cases rejoin)
    case None
    have "lobby_wf (add_slot sid s j host port l)" if "first_free (occupied_indices s) = Some j" for j
      using that assms wf by (intro add_slot_wf) (auto simp: first_free_Some)
    then show ?thesis
      using assms(1) by (simp add: join_session_def Some None split: option.split)
  next
    case (Some j)
    have "lobby_wf (add_slot sid (s\<lparr>reserved_join_indices := reserved_join_indices s - {j}\<rparr>) j host port l)"
      if "j \<in> reserved_join_indices s" "j \<notin> slot_join_index ` set (entries s)"
      using that assms wf
      by (intro add_slot_wf) (auto simp: session_wf_def occupied_indices_def)
    note reserved = this
    show ?thesis
    proof (cases "find (\<lambda>e. slot_join_index e = j) (entries s)")
      case None
      then have "j \<notin> slot_join_index ` set (entries s)" unfolding find_join_index .
      with reserved None show ?thesis
        using assms(1) by (simp add: join_session_def \<open>map_of l sid = Some s\<close> Some)
    next
      case (Some e)
      then show ?thesis
        using assms(1) lobby_wf_update [OF assms(1) session_wf_reclaim [OF wf assms(2,3)]]
        by (simp add: join_session_def \<open>map_of l sid = Some s\<close> \<open>rejoin = Some j\<close>)
    qed
  qed
qed

lemma leave_session_wf: "lobby_wf l \<Longrightarrow> lobby_wf (snd (leave_session sid ji l))"
proof -
  assume wf: "lobby_wf l"
  have le: "length (filter Q (filter P xs)) \<le> length (filter Q xs)" for P Q and xs :: "slot list"
    by (induction xs) auto
  have "session_wf (s\<lparr>entries := filter P (entries s)\<rparr>)" if "session_wf s" for s P
    using that le [of slot_is_host P "entries s"]
    by (auto simp: session_wf_def distinct_map inj_on_def simp del: filter_filter)
  then show ?thesis
    using wf lobby_wfD [OF wf]
    by (auto simp: leave_session_def intro!: lobby_wf_update split: option.split)
qed

lemma add_connection_wf: "lobby_wf l \<Longrightarrow> add_connection sid c l = Inr l' \<Longrightarrow> lobby_wf l'"
  by (auto simp: add_connection_def session_wf_def intro!: lobby_wf_update dest: lobby_wfD
      split: option.splits)

lemma remove_connection_wf: "lobby_wf l \<Longrightarrow> lobby_wf (remove_connection sid c l)"
  by (auto simp: remove_connection_def session_wf_def intro!: lobby_wf_update dest: lobby_wfD
      split: option.splits)

lemma mark_active_wf: "lobby_wf l \<Longrightarrow> mark_active sid l = Inr l' \<Longrightarrow> lobby_wf l'"
  by (auto simp: mark_active_def session_wf_def intro!: lobby_wf_update dest: lobby_wfD
      split: option.splits)

subsection \<open>The roster of a well-formed session\<close>

definition slot_roster_entry :: "slot \<Rightarrow> roster_entry" where
  "slot_roster_entry e =
     \<lparr>entry_player_id = slot_player_id e, entry_host = slot_host e,
      entry_udp_port = slot_udp_port e, entry_join_index = slot_join_index e,
      entry_status = (if slot_status e = ''connected'' then CONNECTED else DISCONNECTED),
      entry_is_host = slot_is_host e\<rparr>"

lemma slot_entry_ok:
  "slot_ok e \<Longrightarrow> slot_entry e = Inr (slot_roster_entry e) \<and> valid_entry (slot_roster_entry e)"
  by (auto simp: slot_ok_def slot_entry_def slot_roster_entry_def valid_entry_def port_ok_def
      connection_status_of_def validate_entry_def)

lemma get_roster_fold:
  assumes "\<forall>e \<in> set es. slot_ok e"
    and "distinct (map entry_join_index r @ map slot_join_index es)"
  shows "fold_res (\<lambda>e r. rbind (slot_entry e) (\<lambda>x. roster_add x r)) es r
     = Inr (r @ map slot_roster_entry es)"
  using assms
proof (induction es arbitrary: r)
  case Nil
  then show ?case by simp
next
  case (Cons e es)
  have "roster_add (slot_roster_entry e) r = Inr (r @ [slot_roster_entry e])"
    using Cons.prems(2) by (auto simp: roster_add_iff slot_roster_entry_def)
  then show ?case
    using Cons.IH [of "r @ [slot_roster_entry e]"] Cons.prems slot_entry_ok [of e]
    by (simp add: slot_roster_entry_def)
qed

text \<open>Publishing the roster of a session cannot fail.\<close>

lemma get_roster_wf:
  assumes "lobby_wf l" and "map_of l sid = Some s"
  shows "get_roster sid l = Inr (map slot_roster_entry (entries s))"
    and "roster_wf (map slot_roster_entry (entries s))"
    and "valid_message (RosterUpdate (map slot_roster_entry (entries s)))"
proof -
  have wf: "session_wf s" by (rule lobby_wfD [OF assms])
  have ids: "map entry_join_index (map slot_roster_entry (entries s)) = map slot_join_index (entries s)"
    by (simp add: slot_roster_entry_def)
  show "get_roster sid l = Inr (map slot_roster_entry (entries s))"
    using get_roster_fold [of "entries s" "[]"] wf by (simp add: get_roster_def assms(2) session_wf_def)
  show "roster_wf (map slot_roster_entry (entries s))"
    using wf slot_entry_ok unfolding roster_wf_def ids by (auto simp: session_wf_def)
  show "valid_message (RosterUpdate (map slot_roster_entry (entries s)))"
    using wf unfolding valid_RosterUpdate ids by (simp add: session_wf_def)
qed

lemma broadcast_roster_ok:
  assumes "lobby_wf (registry st)" and "map_of (registry st) sid = Some s"
  shows "broadcast_roster sid st
     = (send_all sid (RosterUpdate (map slot_roster_entry (entries s))) st, None)"
  using get_roster_wf [OF assms] by (simp add: broadcast_roster_def)

subsection \<open>The handlers keep the invariant\<close>

lemma send_simps [simp]:
  "registry (send_to c m st) = registry st" "session_id (send_to c m st) = session_id st"
  "registry (send_all sid m st) = registry st" "session_id (send_all sid m st) = session_id st"
  by (simp_all add: send_to_def send_all_def)

lemma send_built_ok: "valid_message m \<Longrightarrow> send_built c m st k = k (send_to c m st)"
  by (simp add: send_built_def)

lemma connect_known:
  "map_of (registry st) sid = Some s \<Longrightarrow>
     connect sid c st k
       = k (st\<lparr>registry := AList.update sid (s\<lparr>connections := connections s @ [c]\<rparr>) (registry st)\<rparr>)"
  by (simp add: connect_def add_connection_def)

lemma join_session_Some:
  assumes "join_session sid pid host port rejoin l = (Some j, l')"
  shows "\<exists>s s'. map_of l sid = Some s \<and> l' = AList.update sid s' l \<and> session_active s' = session_active s
    \<and> connections s' = connections s"
  using assms
  by (auto simp: join_session_def add_slot_def split: option.splits if_splits)

lemma join_session_index:
  assumes "lobby_wf l" and "join_session sid pid host port rejoin l = (Some j, l')"
    and "\<And>i. rejoin = Some i \<Longrightarrow> 0 \<le> i"
  shows "0 \<le> j"
  using assms lobby_wfD [OF assms(1)]
  by (auto simp: join_session_def first_free_Some split: option.splits if_splits)

text \<open>A handler that ends normally in a well-formed registry.\<close>

definition fine :: "outcome \<Rightarrow> bool" where
  "fine r \<longleftrightarrow> lobby_wf (registry (fst r)) \<and> snd r = None"

lemma fine_simps [simp]: "fine (st, e) \<longleftrightarrow> lobby_wf (registry st) \<and> e = None"
  by (simp add: fine_def)

lemma broadcast_roster_fine:
  "lobby_wf (registry st) \<Longrightarrow> map_of (registry st) sid \<noteq> None \<Longrightarrow> fine (broadcast_roster sid st)"
  by (auto simp: broadcast_roster_ok)

lemma connect_fine:
  assumes "lobby_wf (registry st)" and "map_of (registry st) sid \<noteq> None"
    and "\<And>st'. lobby_wf (registry st') \<Longrightarrow> map_of (registry st') sid \<noteq> None \<Longrightarrow> fine (k st')"
  shows "fine (connect sid c st k)"
proof -
  obtain s where s: "map_of (registry st) sid = Some s" using assms(2) by auto
  have "session_wf (s\<lparr>connections := cs\<rparr>)" for cs
    using lobby_wfD [OF assms(1) s] by (simp add: session_wf_def)
  then show ?thesis
    using assms(1) by (auto simp: connect_known [OF s] AList.update_conv' intro!: assms(3) lobby_wf_update)
qed

lemma handle_create_fine:
  assumes "lobby_wf (registry st)" and "valid_message (SessionCreate pid ip port)" and "fresh \<noteq> []"
  shows "fine (handle_message c fresh (SessionCreate pid ip port) st)"
proof -
  have v: "valid_message (SessionCreated fresh 0)"
    using assms(3) by (simp add: message_checks)
  have "lobby_wf (snd (create_session fresh ip port (registry st)))"
    using assms(1,2) by (intro create_session_wf) (simp_all add: valid_SessionCreate)
  then show ?thesis
    by (auto simp: create_session_def v send_built_ok AList.update_conv'
        intro!: connect_fine broadcast_roster_fine)
qed

lemma handle_join_fine:
  assumes "lobby_wf (registry st)" and "valid_message (SessionJoin sid pid ip port rejoin)"
  shows "fine (handle_message c fresh (SessionJoin sid pid ip port rejoin) st)"
proof -
  have v: "ip \<noteq> []" "port_ok port" "sid \<noteq> []" "\<And>i. rejoin = Some i \<Longrightarrow> 0 \<le> i"
    using assms(2) by (auto simp: valid_SessionJoin)
  obtain r l where r: "join_session sid pid ip port rejoin (registry st) = (r, l)" by force
  have wf: "lobby_wf l"
    using join_session_wf [OF assms(1) v(1,2), of sid pid rejoin] r by simp
  show ?thesis
  proof (cases r)
    case None
    then show ?thesis using assms(1) wf r by (simp add: Let_def)
  next
    case (Some j)
    have j: "valid_message (SessionJoined j)"
      using join_session_index [OF assms(1) r [unfolded Some] v(4)] by (simp add: message_checks)
    have g: "valid_message (GameStart sid)"
      using v(3) by (simp add: message_checks)
    have known: "map_of l sid \<noteq> None"
      using join_session_Some [OF r [unfolded Some]] by (auto simp: AList.update_conv')
    have "fine (case broadcast_roster sid st3 of
        (st4, Some err) \<Rightarrow> (st4, Some err)
      | (st4, None) \<Rightarrow>
          if is_active sid (registry st4) then send_built c (GameStart sid) st4 (\<lambda>st5. (st5, None))
          else (st4, None))"
      if "lobby_wf (registry st3)" "map_of (registry st3) sid \<noteq> None" for st3
      using that by (auto simp: broadcast_roster_ok send_built_ok [OF g])
    then show ?thesis
      using assms(1) wf known by (auto simp: r Some send_built_ok [OF j] Let_def intro!: connect_fine)
  qed
qed

lemma handle_recreate_fine:
  assumes "lobby_wf (registry st)" and "valid_message (SessionRecreate sid nji ip port hji reserved)"
  shows "fine (handle_message c fresh (SessionRecreate sid nji ip port hji reserved) st)"
proof -
  have v: "sid \<noteq> []" "ip \<noteq> []" "port_ok port" "0 \<le> hji" "hji < MAX_PLAYERS"
      "\<forall>j \<in> set reserved. 0 \<le> j \<and> j < MAX_PLAYERS" "hji \<notin> set reserved"
    using assms(2) by (simp_all add: valid_SessionRecreate)
  let ?e = "\<lparr>entry_player_id = player_id_for hji, entry_host = ip, entry_udp_port = port,
      entry_join_index = hji, entry_status = CONNECTED, entry_is_host = True\<rparr>"
  have e: "validate_entry ?e = Inr ?e" "roster_add ?e [] = Inr [?e]"
    using v by (simp_all add: valid_entry_def port_ok_def roster_add_iff)
  have ack: "valid_message (SessionCreated sid 0)"
    using v(1) by (simp add: message_checks)
  have "lobby_wf (register_active_session sid [?e] nji (set reserved) (registry st))"
    using assms(1) v unfolding register_active_session_def
    by (intro lobby_wf_update)
      (auto simp: session_wf_def roster_all_def entry_slot_def slot_ok_def)
  then show ?thesis
    by (auto simp: e send_built_ok [OF ack] register_active_session_def AList.update_conv'
        intro!: connect_fine)
qed

lemma handle_leave_fine:
  assumes "lobby_wf (registry st)"
  shows "fine (handle_message c fresh (SessionLeave sid ji) st)"
proof (cases "has_session sid (registry st)")
  case False
  then show ?thesis using assms by (simp add: handle_leave_def)
next
  case True
  then obtain s where s: "map_of (registry st) sid = Some s"
    by (auto simp: has_session_def dest!: weak_map_of_SomeI)
  obtain b l where b: "leave_session sid ji (registry st) = (b, l)" by force
  have wf: "lobby_wf l"
    using leave_session_wf [OF assms, of sid ji] b by simp
  have "map_of l sid \<noteq> None"
    using b s by (auto simp: leave_session_def AList.update_conv' split: option.splits)
  then show ?thesis
    using True wf
    by (auto simp: handle_leave_def b drop_session_def lobby_wf_delete Let_def intro!: broadcast_roster_fine)
qed

text \<open>
  Every valid message is handled without an exception, except the start of a session that does
  not exist; the registry stays well-formed either way.
\<close>

lemma handle_message_wf:
  assumes "lobby_wf (registry st)" and "valid_message m" and "fresh \<noteq> []"
  shows "lobby_wf (registry (fst (handle_message c fresh m st))) \<and>
    (snd (handle_message c fresh m st) \<noteq> None \<longrightarrow>
      (\<exists>sid. m = GameStart sid \<and> \<not> has_session sid (registry st)))"
proof (cases m)
  case (GameStart sid)
  then show ?thesis
    using assms(1) mark_active_wf [OF assms(1), of sid]
    by (auto simp: mark_active_def has_session_def map_of_eq_None_iff split: option.splits)
next
  case (InitialStateSync w)
  then show ?thesis using assms(1) by (simp split: option.split)
next
  case (SessionCreate pid ip port)
  then show ?thesis using handle_create_fine [of st pid ip port fresh c] assms by (simp add: fine_def)
next
  case (SessionJoin sid pid ip port rejoin)
  then show ?thesis using handle_join_fine [of st sid pid ip port rejoin c fresh] assms by (simp add: fine_def)
next
  case (SessionRecreate sid nji ip port hji reserved)
  then show ?thesis
    using handle_recreate_fine [of st sid nji ip port hji reserved c fresh] assms by (simp add: fine_def)
next
  case (SessionLeave sid ji)
  then show ?thesis using handle_leave_fine [of st c fresh sid ji] assms by (simp add: fine_def)
qed (use assms in simp_all)

subsection \<open>The service\<close>

text \<open>
  All connections over one registry: a connection opens, delivers a valid message, delivers a
  frame that is not one, or disconnects.  A step is labelled with the frames it sends.
\<close>

record service =
  service_lobby :: lobby
  service_conns :: "(conn \<times> ident option) list"

definition endpoint_of :: "service \<Rightarrow> ident option \<Rightarrow> endpoint" where
  "endpoint_of s sid = \<lparr>registry = service_lobby s, session_id = sid, sent = []\<rparr>"

inductive service_step :: "service \<Rightarrow> (conn \<times> message) list \<Rightarrow> service \<Rightarrow> bool" where
  Open: "c \<notin> fst ` set (service_conns s) \<Longrightarrow>
    service_step s [] (s\<lparr>service_conns := AList.update c None (service_conns s)\<rparr>)"
| Deliver: "map_of (service_conns s) c = Some sid \<Longrightarrow> valid_message m \<Longrightarrow> fresh \<noteq> [] \<Longrightarrow>
    handle_message c fresh m (endpoint_of s sid) = (st, None) \<Longrightarrow>
    service_step s (sent st)
      \<lparr>service_lobby = registry st,
       service_conns = AList.update c (session_id st) (service_conns s)\<rparr>"
| Fail: "map_of (service_conns s) c = Some sid \<Longrightarrow> valid_message m \<Longrightarrow> fresh \<noteq> [] \<Longrightarrow>
    handle_message c fresh m (endpoint_of s sid) = (st, Some err) \<Longrightarrow>
    service_step s (sent st)
      \<lparr>service_lobby = registry (close_connection c st),
       service_conns = AList.delete c (service_conns s)\<rparr>"
| Close: "map_of (service_conns s) c = Some sid \<Longrightarrow>
    service_step s []
      \<lparr>service_lobby = registry (close_connection c (endpoint_of s sid)),
       service_conns = AList.delete c (service_conns s)\<rparr>"

definition service_start :: service where
  "service_start = \<lparr>service_lobby = [], service_conns = []\<rparr>"

inductive service_reachable :: "service \<Rightarrow> bool" where
  start: "service_reachable service_start"
| step: "service_reachable s \<Longrightarrow> service_step s out s' \<Longrightarrow> service_reachable s'"

text \<open>A registry that was reset is well formed and admits nobody, not even a player it had a slot for.\<close>

lemma lobby_reset_admits_nobody:
  "lobby_wf (lobby_reset l) \<and> fst (join_session sid pid host port rejoin (lobby_reset l)) = None"
  by (simp add: lobby_reset_def join_session_def lobby_wf_def)

lemma close_connection_wf: "lobby_wf (registry st) \<Longrightarrow> lobby_wf (registry (close_connection c st))"
  by (simp add: close_connection_def remove_connection_wf split: option.split)

lemma service_step_wf:
  assumes "service_step s out s'" and "lobby_wf (service_lobby s)"
  shows "lobby_wf (service_lobby s')"
  using assms
proof cases
  case (Deliver c sid m fresh st)
  then show ?thesis
    using handle_message_wf [of "endpoint_of s sid" m fresh c] assms(2) by (simp add: endpoint_of_def)
next
  case (Fail c sid m fresh st err)
  then show ?thesis
    using handle_message_wf [of "endpoint_of s sid" m fresh c] assms(2)
    by (simp add: endpoint_of_def close_connection_wf)
qed (simp_all add: endpoint_of_def close_connection_wf)

lemma service_reachable_wf: "service_reachable s \<Longrightarrow> lobby_wf (service_lobby s)"
  by (induction rule: service_reachable.induct) (auto simp: service_start_def intro: service_step_wf)

subsection \<open>Properties\<close>

text \<open>C4: in every reachable state of the lobby service, after any interleaving of connections,
  valid messages, bad frames and disconnects, each session has at most four participants
  counting the reserved slots, at most one host, pairwise different join indices within range,
  canonical player identifiers, and no slot that is both taken and reserved.\<close>

theorem lobby_invariant:
  assumes "service_reachable s" and "map_of (service_lobby s) sid = Some r"
  shows "length (entries r) + card (reserved_join_indices r) \<le> nat MAX_PLAYERS \<and>
    length (filter slot_is_host (entries r)) \<le> 1 \<and>
    distinct (map slot_join_index (entries r)) \<and>
    (\<forall>e \<in> set (entries r). 0 \<le> slot_join_index e \<and> slot_join_index e < MAX_PLAYERS \<and>
       slot_player_id e = player_id_for (slot_join_index e)) \<and>
    slot_join_index ` set (entries r) \<inter> reserved_join_indices r = {}"
proof -
  have wf: "session_wf r"
    using service_reachable_wf [OF assms(1)] assms(2) by (rule lobby_wfD)
  then have fin: "finite (reserved_join_indices r)"
    by (auto simp: session_wf_def intro: finite_subset)
  have "length (entries r) = card (slot_join_index ` set (entries r))"
    using wf by (metis distinct_card length_map list.set_map session_wf_def)
  moreover have "card (slot_join_index ` set (entries r)) + card (reserved_join_indices r)
      = card (occupied_indices r)"
    using wf fin unfolding occupied_indices_def by (intro card_Un_disjoint [symmetric]) (auto simp: session_wf_def)
  moreover have "card (occupied_indices r) \<le> card {0..<MAX_PLAYERS}"
    by (rule card_mono [OF _ occupied_range [OF wf]]) simp
  ultimately show ?thesis
    using wf by (auto simp: session_wf_def slot_ok_def MAX_PLAYERS_def)
qed

text \<open>A fresh join succeeds exactly when fewer than four slots are taken or reserved, and then
  it takes the smallest free join index, under the canonical identifier of that index, leaving
  the rest of the session as it is; otherwise the registry is unchanged.\<close>

theorem fresh_join_takes_least_free_slot:
  assumes "lobby_wf l" and "map_of l sid = Some s"
  shows "(is_full sid None l \<longrightarrow> join_session sid pid host port None l = (None, l)) \<and>
    (\<not> is_full sid None l \<longrightarrow>
      (\<exists>j l' s'. join_session sid pid host port None l = (Some j, l') \<and>
        map_of l' sid = Some s' \<and> entries s' = entries s @ [new_slot j host port False] \<and>
        reserved_join_indices s' = reserved_join_indices s \<and>
        0 \<le> j \<and> j < MAX_PLAYERS \<and> j \<notin> occupied_indices s \<and>
        (\<forall>i. 0 \<le> i \<and> i < j \<longrightarrow> i \<in> occupied_indices s)))"
proof (cases "is_full sid None l")
  case True
  then show ?thesis by (simp add: is_full_def join_session_def assms(2))
next
  case False
  note wf = lobby_wfD [OF assms]
  have "occupied_indices s \<noteq> {0..<MAX_PLAYERS}"
    using False full_iff [OF occupied_range [OF wf]] by (simp add: is_full_def assms(2))
  then obtain j where j: "first_free (occupied_indices s) = Some j"
    using first_free_None [OF occupied_range [OF wf]] by auto
  then show ?thesis
    using False j [unfolded first_free_Some]
    by (auto simp: is_full_def join_session_def assms(2) add_slot_def AList.update_conv')
qed

text \<open>A session of one host whose second slot is reserved for a crashed player.\<close>

definition example_lobby :: lobby where
  "example_lobby = register_active_session ''s1''
     [\<lparr>entry_player_id = ''player1'', entry_host = ''10.0.0.1'', entry_udp_port = 50010,
       entry_join_index = 0, entry_status = CONNECTED, entry_is_host = True\<rparr>] 2 {1} []"

definition example_endpoint :: endpoint where
  "example_endpoint = \<lparr>registry = example_lobby, session_id = None, sent = []\<rparr>"

lemma example_lobby_record:
  "map_of example_lobby ''s1'' =
     Some \<lparr>entries = [\<lparr>slot_player_id = ''player1'', slot_host = ''10.0.0.1'', slot_udp_port = 50010,
             slot_join_index = 0, slot_status = ''connected'', slot_is_host = True\<rparr>],
           connections = [], session_active = True, next_join_index = 2, reserved_join_indices = {1}\<rparr>"
  by (simp add: example_lobby_def register_active_session_def roster_all_def entry_slot_def)

lemma example_lobby_wf: "lobby_wf example_lobby"
  by (simp add: example_lobby_def register_active_session_def roster_all_def entry_slot_def
      lobby_wf_def session_wf_def slot_ok_def port_ok_def player_ids MAX_PLAYERS_def)

theorem fresh_join_takes_least_free_slot_witness:
  "\<exists>l'. join_session ''s1'' ''p'' ''10.0.0.7'' 50010 None example_lobby = (Some 2, l')"
proof -
  note least = fresh_join_takes_least_free_slot [OF example_lobby_wf example_lobby_record,
      of "''p''" "''10.0.0.7''" 50010]
  have occ: "occupied_indices \<lparr>entries = [\<lparr>slot_player_id = ''player1'', slot_host = ''10.0.0.1'',
       slot_udp_port = 50010, slot_join_index = 0, slot_status = ''connected'', slot_is_host = True\<rparr>],
     connections = [], session_active = True, next_join_index = 2, reserved_join_indices = {1}\<rparr> = {0, 1}"
    by (auto simp: occupied_indices_def)
  have "\<not> is_full ''s1'' None example_lobby"
    by (simp add: is_full_def example_lobby_record occ MAX_PLAYERS_def)
  with least obtain j l' where j: "join_session ''s1'' ''p'' ''10.0.0.7'' 50010 None example_lobby = (Some j, l')"
      "0 \<le> j" "j \<noteq> 0" "j \<noteq> 1" "\<forall>i. 0 \<le> i \<and> i < j \<longrightarrow> i = 0 \<or> i = 1"
    by (auto simp: occ)
  have "\<not> 2 < j" using j(5) [rule_format, of 2] by auto
  then have "j = 2" using j(2-4) by simp
  then show ?thesis using j(1) by blast
qed

text \<open>The service after one connection has created a session.\<close>

definition example_record :: session_record where
  "example_record = \<lparr>entries = [new_slot 0 ''10.0.0.1'' 50010 True], connections = [7],
     session_active = False, next_join_index = 1, reserved_join_indices = {}\<rparr>"

lemma example_service_create:
  "handle_message 7 ''s1'' (SessionCreate ''p'' ''10.0.0.1'' 50010)
     \<lparr>registry = [], session_id = None, sent = []\<rparr>
   = (\<lparr>registry = [(''s1'', example_record)], session_id = Some ''s1'',
       sent = [(7, SessionCreated ''s1'' 0),
               (7, RosterUpdate [slot_roster_entry (new_slot 0 ''10.0.0.1'' 50010 True)])]\<rparr>, None)"
proof -
  let ?st = "\<lparr>registry = [(''s1'', example_record)], session_id = Some ''s1'',
    sent = [(7, SessionCreated ''s1'' 0)]\<rparr>"
  have "lobby_wf (registry ?st)"
    by (simp add: lobby_wf_def session_wf_def example_record_def new_slot_ok MAX_PLAYERS_def port_ok_def)
  from broadcast_roster_ok [OF this, of "''s1''" example_record]
  have "broadcast_roster ''s1'' ?st = (send_all ''s1'' (RosterUpdate
      [slot_roster_entry (new_slot 0 ''10.0.0.1'' 50010 True)]) ?st, None)"
    by (simp add: example_record_def)
  moreover have "valid_message (SessionCreated ''s1'' 0)"
    by (simp add: message_checks)
  ultimately show ?thesis
    by (simp add: create_session_def connect_def add_connection_def send_built_ok send_to_def
        example_record_def send_all_def broadcast_def)
qed

definition example_service :: service where
  "example_service = \<lparr>service_lobby = [(''s1'', example_record)], service_conns = [(7, Some ''s1'')]\<rparr>"

lemma example_service_reachable: "service_reachable example_service"
proof -
  let ?s1 = "\<lparr>service_lobby = [], service_conns = [(7, None)]\<rparr>"
  have "service_step service_start [] ?s1"
    using service_step.Open [of 7 service_start] by (simp add: service_start_def)
  then have r1: "service_reachable ?s1" by (rule service_reachable.step [OF service_reachable.start])
  have "valid_message (SessionCreate ''p'' ''10.0.0.1'' 50010)"
    by (simp add: valid_SessionCreate port_ok_def)
  from service_step.Deliver [of ?s1 7 None _ "''s1''", OF _ this]
  have "service_step ?s1 [(7, SessionCreated ''s1'' 0),
      (7, RosterUpdate [slot_roster_entry (new_slot 0 ''10.0.0.1'' 50010 True)])] example_service"
    using example_service_create by (simp add: endpoint_of_def example_service_def)
  then show ?thesis by (rule service_reachable.step [OF r1])
qed

theorem lobby_invariant_witness:
  "length (entries example_record) + card (reserved_join_indices example_record) \<le> nat MAX_PLAYERS"
  using lobby_invariant [OF example_service_reachable, of "''s1''" example_record]
  by (simp add: example_service_def)

lemma reclaim_slot:
  assumes "lobby_wf (registry st)" and "map_of (registry st) sid = Some s"
    and "valid_message (SessionJoin sid pid ip port (Some j))" and "j \<in> reserved_join_indices s"
  shows "\<exists>s' st'. handle_message c fresh (SessionJoin sid pid ip port (Some j)) st = (st', None) \<and>
    map_of (registry st') sid = Some s' \<and> session_id st' = Some sid \<and>
    entries s' = entries s @ [new_slot j ip port False] \<and>
    reserved_join_indices s' = reserved_join_indices s - {j} \<and>
    sent st' = sent st @ [(c, SessionJoined j)]
      @ map (\<lambda>x. (x, RosterUpdate (map slot_roster_entry (entries s')))) (connections s @ [c])
      @ (if session_active s then [(c, GameStart sid)] else [])"
proof -
  have wf: "session_wf s" by (rule lobby_wfD [OF assms(1,2)])
  have v: "ip \<noteq> []" "port_ok port" "sid \<noteq> []" "0 \<le> j"
    using assms(3) by (auto simp: valid_SessionJoin)
  have free: "find (\<lambda>e. slot_join_index e = j) (entries s) = None"
    using wf assms(4) unfolding find_join_index by (auto simp: session_wf_def)
  let ?s0 = "s\<lparr>reserved_join_indices := reserved_join_indices s - {j},
      entries := entries s @ [new_slot j ip port False],
      next_join_index := max (next_join_index s) (j + 1)\<rparr>"
  have join: "join_session sid pid ip port (Some j) (registry st)
      = (Some j, AList.update sid ?s0 (registry st))"
    by (simp add: join_session_def assms(2,4) free add_slot_def)
  have full: "\<not> is_full sid (Some j) (registry st)"
    by (simp add: is_full_def assms(2,4))
  have "lobby_wf (AList.update sid ?s0 (registry st))"
    using join_session_wf [OF assms(1) v(1,2), of sid pid "Some j"] by (simp add: join)
  then have "session_wf ?s0" by (rule lobby_wfD [of _ sid]) (simp add: AList.update_conv')
  let ?s1 = "?s0\<lparr>connections := connections s @ [c]\<rparr>"
  let ?st3 = "\<lparr>registry = AList.update sid ?s1 (AList.update sid ?s0 (registry st)),
      session_id = Some sid, sent = sent st @ [(c, SessionJoined j)]\<rparr>"
  have "lobby_wf (registry ?st3)"
    using assms(1) \<open>session_wf ?s0\<close>
    by (simp add: lobby_wf_update \<open>lobby_wf (AList.update sid ?s0 (registry st))\<close> session_wf_def)
  note pub = broadcast_roster_ok [OF this, of sid ?s1]
  have msgs: "valid_message (SessionJoined j)" "valid_message (GameStart sid)"
    using v by (simp_all add: message_checks)
  show ?thesis
    using full join pub
    by (cases st) (simp add: Let_def connect_def add_connection_def AList.update_conv' send_built_ok [OF msgs(1)]
        send_built_ok [OF msgs(2)] send_to_def send_all_def broadcast_def is_active_def)
qed

text \<open>A crashed player whose slot is reserved gets that very slot back, whoever else joins in the
  meantime: the reply carries its old join index, the new roster goes to everybody, and if the
  game already runs it is started on the returning node at once.\<close>

theorem reserved_slot_is_reclaimed:
  assumes "lobby_wf (registry st)" and "map_of (registry st) sid = Some s"
    and "valid_message (SessionJoin sid pid ip port (Some j))" and "j \<in> reserved_join_indices s"
  shows "\<exists>s' st'. handle_message c fresh (SessionJoin sid pid ip port (Some j)) st = (st', None) \<and>
    map_of (registry st') sid = Some s' \<and> session_id st' = Some sid \<and>
    entries s' = entries s @ [new_slot j ip port False] \<and>
    reserved_join_indices s' = reserved_join_indices s - {j} \<and>
    sent st' = sent st @ [(c, SessionJoined j)]
      @ map (\<lambda>x. (x, RosterUpdate (map slot_roster_entry (entries s')))) (connections s @ [c])
      @ (if session_active s then [(c, GameStart sid)] else [])"
  by (rule reclaim_slot [OF assms])

theorem reserved_slot_is_reclaimed_witness:
  "\<exists>st'. handle_message 3 ''f'' (SessionJoin ''s1'' ''player2'' ''10.0.0.2'' 50010 (Some 1)) example_endpoint
      = (st', None) \<and> (3, SessionJoined 1) \<in> set (sent st') \<and> (3, GameStart ''s1'') \<in> set (sent st')"
proof -
  have wf: "lobby_wf (registry example_endpoint)"
    by (simp add: example_endpoint_def example_lobby_wf)
  have s: "map_of (registry example_endpoint) ''s1'' =
     Some \<lparr>entries = [\<lparr>slot_player_id = ''player1'', slot_host = ''10.0.0.1'', slot_udp_port = 50010,
             slot_join_index = 0, slot_status = ''connected'', slot_is_host = True\<rparr>],
           connections = [], session_active = True, next_join_index = 2, reserved_join_indices = {1}\<rparr>"
    by (simp add: example_endpoint_def example_lobby_record)
  have v: "valid_message (SessionJoin ''s1'' ''player2'' ''10.0.0.2'' 50010 (Some 1))"
    by (simp add: valid_SessionJoin port_ok_def MAX_PLAYERS_def player_ids)
  show ?thesis
    using reserved_slot_is_reclaimed [OF wf s v, of 3 "''f''"] by (auto simp: example_endpoint_def)
qed

text \<open>When the host leaves, every connection of the session is told that it is closed and the
  session is gone; when anybody else leaves, the session goes on without it and the others get
  the new roster.\<close>

theorem leaving_closes_or_publishes:
  assumes "lobby_wf (registry st)" and "map_of (registry st) sid = Some s"
    and "e \<in> set (entries s)"
  shows "\<exists>st'. handle_message c fresh (SessionLeave sid (slot_join_index e)) st = (st', None) \<and>
    (if slot_is_host e
     then map_of (registry st') sid = None \<and>
       sent st' = sent st @ map (\<lambda>x. (x, SessionClosed sid)) (connections s)
     else \<exists>s'. map_of (registry st') sid = Some s' \<and> entries s' = remove1 e (entries s) \<and>
       reserved_join_indices s' = reserved_join_indices s \<and>
       sent st' = sent st
         @ map (\<lambda>x. (x, RosterUpdate (map slot_roster_entry (remove1 e (entries s))))) (connections s))"
proof -
  have wf: "session_wf s" by (rule lobby_wfD [OF assms(1,2)])
  have uniq: "x = e" if "x \<in> set (entries s)" "slot_join_index x = slot_join_index e" for x
    using wf that assms(3) by (auto simp: session_wf_def distinct_map inj_on_def)
  have fnd: "find (\<lambda>x. slot_join_index x = slot_join_index e) (entries s) = Some e"
  proof (cases "find (\<lambda>x. slot_join_index x = slot_join_index e) (entries s)")
    case None
    then show ?thesis using assms(3) by (auto simp: find_None_iff)
  next
    case (Some x)
    then have "slot_join_index x = slot_join_index e \<and> x \<in> set (entries s)"
      by (auto simp: find_Some_iff)
    then show ?thesis using uniq Some by simp
  qed
  have filt: "filter (\<lambda>x. slot_join_index x \<noteq> slot_join_index e) (entries s) = remove1 e (entries s)"
  proof -
    have "distinct (entries s)" using wf by (simp add: session_wf_def distinct_map)
    then have "remove1 e (entries s) = filter (\<lambda>x. x \<noteq> e) (entries s)"
      by (rule distinct_remove1_removeAll [THEN trans]) (simp add: removeAll_filter_not_eq eq_commute)
    moreover have "filter (\<lambda>x. x \<noteq> e) (entries s)
        = filter (\<lambda>x. slot_join_index x \<noteq> slot_join_index e) (entries s)"
      using uniq by (intro filter_cong) auto
    ultimately show ?thesis by simp
  qed
  let ?s' = "s\<lparr>entries := remove1 e (entries s)\<rparr>"
  let ?l = "AList.update sid ?s' (registry st)"
  have leave: "leave_session sid (slot_join_index e) (registry st) = (slot_is_host e, ?l)"
    by (simp add: leave_session_def assms(2) fnd filt)
  have known: "has_session sid (registry st)"
    using assms(2) by (force simp: has_session_def dest: map_of_SomeD)
  have "lobby_wf ?l"
    using leave_session_wf [OF assms(1), of sid "slot_join_index e"] by (simp add: leave)
  then have "broadcast_roster sid (st\<lparr>registry := ?l\<rparr>)
      = (send_all sid (RosterUpdate (map slot_roster_entry (remove1 e (entries s)))) (st\<lparr>registry := ?l\<rparr>), None)"
    using broadcast_roster_ok [of "st\<lparr>registry := ?l\<rparr>" sid ?s'] by (simp add: AList.update_conv')
  then show ?thesis
    by (simp add: handle_leave_def known leave Let_def drop_session_def send_all_def broadcast_def
        AList.update_conv' AList.delete_conv')
qed

theorem leaving_closes_or_publishes_witness:
  "\<exists>st'. handle_message 7 ''f'' (SessionLeave ''s1'' 0)
      \<lparr>registry = [(''s1'', example_record)], session_id = Some ''s1'', sent = []\<rparr> = (st', None) \<and>
    map_of (registry st') ''s1'' = None \<and> sent st' = [(7, SessionClosed ''s1'')]"
proof -
  have "lobby_wf [(''s1'', example_record)]"
    using service_reachable_wf [OF example_service_reachable] by (simp add: example_service_def)
  then show ?thesis
    using leaving_closes_or_publishes [of "\<lparr>registry = [(''s1'', example_record)],
        session_id = Some ''s1'', sent = []\<rparr>" "''s1''" example_record
        "new_slot 0 ''10.0.0.1'' 50010 True" 7 "''f''"]
    by (simp add: example_record_def)
qed

text \<open>A player that rejoins while its own entry is still in the session is turned away: the
  endpoint answers that the session already has four players, however few there are, and changes
  nothing; the branch of \<^verbatim>\<open>join_session\<close> that would refresh the entry is never reached.\<close>

theorem rejoin_of_taken_slot_is_refused:
  assumes "lobby_wf (registry st)" and "map_of (registry st) sid = Some s"
    and "e \<in> set (entries s)" and "slot_join_index e = j"
  shows "handle_message c fresh (SessionJoin sid (player_id_for j) ip port (Some j)) st
      = (st\<lparr>session_id := None,
            sent := sent st @ [(c, SessionJoinRejected sid ''The session already has 4 players'')]\<rparr>, None) \<and>
    fst (join_session sid (player_id_for j) ip port (Some j) (registry st)) = Some j"
proof -
  have wf: "session_wf s" by (rule lobby_wfD [OF assms(1,2)])
  have canon: "slot_player_id x = player_id_for j" if "x \<in> set (entries s)" "slot_join_index x = j" for x
    using wf that by (auto simp: session_wf_def slot_ok_def)
  have "j \<notin> reserved_join_indices s"
    using wf assms(3,4) by (auto simp: session_wf_def)
  then have full: "is_full sid (Some j) (registry st)"
    using canon by (auto simp: is_full_def assms(2))
  obtain x where x: "find (\<lambda>e. slot_join_index e = j) (entries s) = Some x"
    using find_join_index [of j "entries s"] assms(3,4) by (cases "find (\<lambda>e. slot_join_index e = j) (entries s)") auto
  then have "slot_player_id x = player_id_for j"
    using canon by (auto simp: find_Some_iff)
  then show ?thesis
    using full x by (simp add: Let_def send_to_def join_session_def assms(2))
qed

theorem rejoin_of_taken_slot_is_refused_witness:
  "handle_message 9 ''f'' (SessionJoin ''s1'' (player_id_for 0) ''10.0.0.9'' 50010 (Some 0)) example_endpoint
     = (example_endpoint\<lparr>sent := [(9, SessionJoinRejected ''s1'' ''The session already has 4 players'')]\<rparr>, None)"
  using rejoin_of_taken_slot_is_refused [of example_endpoint "''s1''" _ _ 0 9 "''f''" "''10.0.0.9''" 50010]
    example_lobby_wf example_lobby_record
  by (simp add: example_endpoint_def)

end
