(* ===== verification/Election.thy ===== *)
theory Election
  imports Messages
begin

text \<open>
  Host failure detection and election: the coordinator, the timeout watcher and the snapshot
  buffer of \<^verbatim>\<open>application/election/\<close>, and the protocol they run when every surviving node
  has started an election.  The network may delay, reorder and repeat claims; the theorems say
  who can still be a claimant once they have arrived.
\<close>

subsection \<open>Failure detection\<close>

record timeout_watcher =
  timeout_s :: flt
  last_snapshot_time :: "flt option"

definition new_watcher :: "flt \<Rightarrow> timeout_watcher" where
  "new_watcher t = \<lparr>timeout_s = t, last_snapshot_time = None\<rparr>"

definition watcher_reset :: "flt \<Rightarrow> timeout_watcher \<Rightarrow> timeout_watcher" where
  "watcher_reset timestamp w = w\<lparr>last_snapshot_time := Some timestamp\<rparr>"

definition watcher_tick :: "flt \<Rightarrow> timeout_watcher \<Rightarrow> bool" where
  "watcher_tick now w =
     (case last_snapshot_time w of None \<Rightarrow> False | Some t \<Rightarrow> now - t > timeout_s w)"

lemma watcher_tick_reset: "watcher_tick now (watcher_reset t w) \<longleftrightarrow> now > t + timeout_s w"
  by (auto simp: watcher_tick_def watcher_reset_def)

text \<open>The single-slot buffer of the last snapshot.\<close>

record snapshot =
  snapshot_seq :: int
  snapshot_world :: world_state

record env_state_buffer =
  last_snapshot :: "snapshot option"

definition new_env_buffer :: env_state_buffer where
  "new_env_buffer = \<lparr>last_snapshot = None\<rparr>"

definition env_buffer_update :: "snapshot \<Rightarrow> env_state_buffer \<Rightarrow> env_state_buffer" where
  "env_buffer_update s b = b\<lparr>last_snapshot := Some s\<rparr>"

definition env_buffer_get_last :: "env_state_buffer \<Rightarrow> snapshot option" where
  "env_buffer_get_last b = last_snapshot b"

subsection \<open>The coordinator\<close>

datatype election_state = E_IDLE | ELECTION_PENDING | CLAIMED | FOLLOWER

datatype election_event = SelfElected string | FollowingHost string int

record coordinator =
  coord_join_index :: int
  my_ip :: string
  timeout_base_s :: flt
  timeout_delta_s :: flt
  election_state :: election_state
  current_host_ip :: "string option"
  current_host_join_index :: "int option"
  known_peers :: "string set"
  election_timer_expiry :: "flt option"

definition new_coordinator :: "int \<Rightarrow> string \<Rightarrow> flt \<Rightarrow> flt \<Rightarrow> coordinator" where
  "new_coordinator ji ip base delta =
     \<lparr>coord_join_index = ji, my_ip = ip, timeout_base_s = base, timeout_delta_s = delta,
      election_state = E_IDLE, current_host_ip = None, current_host_join_index = None,
      known_peers = {}, election_timer_expiry = None\<rparr>"

definition start_election :: "string set \<Rightarrow> coordinator \<Rightarrow> coordinator" where
  "start_election peers c =
     c\<lparr>election_state := ELECTION_PENDING, known_peers := peers,
       current_host_ip := None, current_host_join_index := None\<rparr>"

definition set_election_timer :: "flt \<Rightarrow> coordinator \<Rightarrow> coordinator" where
  "set_election_timer now c =
     c\<lparr>election_timer_expiry :=
         Some (now + (timeout_base_s c + of_int (coord_join_index c) * timeout_delta_s c))\<rparr>"

definition coordinator_tick ::
  "flt \<Rightarrow> coordinator \<Rightarrow> (election_event option \<times> coordinator) result" where
  "coordinator_tick now c =
     (if election_state c = ELECTION_PENDING then
        (case election_timer_expiry c of
           None \<Rightarrow> Inl (ValueError ''election_timer_expiry must be set before calling tick()'')
         | Some expiry \<Rightarrow>
             if now \<ge> expiry
             then Inr (Some (SelfElected (my_ip c)), c\<lparr>election_state := CLAIMED\<rparr>)
             else Inr (None, c))
      else Inr (None, c))"

definition on_new_host_claim ::
  "int \<Rightarrow> string \<Rightarrow> coordinator \<Rightarrow> election_event option \<times> coordinator" where
  "on_new_host_claim claimer ip c =
     (if claimer \<ge> coord_join_index c then (None, c)
      else (Some (FollowingHost ip claimer),
            c\<lparr>election_state := FOLLOWER, current_host_ip := Some ip,
              current_host_join_index := Some claimer, election_timer_expiry := None\<rparr>))"

text \<open>
  The coordinator's invariant: a follower follows a node of lower join index, and a pending
  election has its timer set.
\<close>

definition coordinator_wf :: "coordinator \<Rightarrow> bool" where
  "coordinator_wf c \<longleftrightarrow>
     (election_state c = ELECTION_PENDING \<longrightarrow> election_timer_expiry c \<noteq> None) \<and>
     (election_state c = FOLLOWER \<longrightarrow>
        (\<exists>j. current_host_join_index c = Some j \<and> j < coord_join_index c))"

lemma new_coordinator_wf [wf_intros]: "coordinator_wf (new_coordinator ji ip base delta)"
  by (simp add: coordinator_wf_def new_coordinator_def)

lemma begin_election_wf [wf_intros]:
  "coordinator_wf (set_election_timer now (start_election peers c))"
  by (simp add: coordinator_wf_def start_election_def set_election_timer_def)

lemma coordinator_tick_wf:
  assumes "coordinator_wf c"
  shows "\<exists>ev c'. coordinator_tick now c = Inr (ev, c') \<and> coordinator_wf c' \<and>
    coord_join_index c' = coord_join_index c"
  using assms by (auto simp: coordinator_tick_def coordinator_wf_def split: option.split)

lemma on_new_host_claim_wf [wf_intros]:
  "coordinator_wf c \<Longrightarrow> coordinator_wf (snd (on_new_host_claim j ip c))"
  by (auto simp: coordinator_wf_def on_new_host_claim_def)

subsection \<open>One election among several nodes\<close>

text \<open>
  The nodes are indexed by join index.  A claim is the pair of the claimer's index and address;
  \<open>delivered\<close> records which claims have reached which node.  Delivery may repeat and reorder.
\<close>

record election =
  node_of :: "int \<Rightarrow> coordinator option"
  claims :: "(int \<times> string) set"
  delivered :: "((int \<times> string) \<times> int) set"

inductive election_step :: "election \<Rightarrow> election \<Rightarrow> bool" where
  Wait: "node_of s i = Some c \<Longrightarrow> coordinator_tick now c = Inr (None, c') \<Longrightarrow>
    election_step s (s\<lparr>node_of := (node_of s)(i \<mapsto> c')\<rparr>)"
| Claim: "node_of s i = Some c \<Longrightarrow> coordinator_tick now c = Inr (Some (SelfElected ip), c') \<Longrightarrow>
    election_step s (s\<lparr>node_of := (node_of s)(i \<mapsto> c'), claims := insert (i, ip) (claims s)\<rparr>)"
| Deliver: "node_of s i = Some c \<Longrightarrow> (k, ip) \<in> claims s \<Longrightarrow> k \<noteq> i \<Longrightarrow>
    on_new_host_claim k ip c = (ev, c') \<Longrightarrow>
    election_step s (s\<lparr>node_of := (node_of s)(i \<mapsto> c'),
                       delivered := insert ((k, ip), i) (delivered s)\<rparr>)"

text \<open>Every node has detected the failure and started its timer.\<close>

definition election_start :: "election \<Rightarrow> bool" where
  "election_start s \<longleftrightarrow> claims s = {} \<and> delivered s = {} \<and>
     (\<forall>i c. node_of s i = Some c \<longrightarrow> coord_join_index c = i \<and>
        election_state c = ELECTION_PENDING \<and> election_timer_expiry c \<noteq> None)"

inductive election_reachable :: "election \<Rightarrow> bool" where
  start: "election_start s \<Longrightarrow> election_reachable s"
| step: "election_reachable s \<Longrightarrow> election_step s s' \<Longrightarrow> election_reachable s'"

text \<open>What holds of one node, given the claims sent and delivered.\<close>

definition node_inv ::
  "(int \<times> string) set \<Rightarrow> ((int \<times> string) \<times> int) set \<Rightarrow> int \<Rightarrow> coordinator \<Rightarrow> bool" where
  "node_inv cl dl i c \<longleftrightarrow>
     coord_join_index c = i \<and> coordinator_wf c \<and> election_state c \<noteq> E_IDLE \<and>
     (election_state c = CLAIMED \<longrightarrow> i \<in> fst ` cl) \<and>
     (\<forall>k ip. ((k, ip), i) \<in> dl \<longrightarrow> k < i \<longrightarrow> election_state c = FOLLOWER) \<and>
     (\<forall>j. election_state c = FOLLOWER \<longrightarrow> current_host_join_index c = Some j \<longrightarrow> j \<in> fst ` cl)"

definition election_inv :: "election \<Rightarrow> bool" where
  "election_inv s \<longleftrightarrow>
     (\<forall>i c. node_of s i = Some c \<longrightarrow> node_inv (claims s) (delivered s) i c) \<and>
     (\<forall>k \<in> fst ` claims s. node_of s k \<noteq> None) \<and>
     fst ` delivered s \<subseteq> claims s"

lemma node_inv_mono: "node_inv cl dl i c \<Longrightarrow> cl \<subseteq> cl' \<Longrightarrow> node_inv cl' dl i c"
  unfolding node_inv_def by blast

lemma node_inv_claim:
  assumes "node_inv cl dl i c" and "election_state c = ELECTION_PENDING"
  shows "node_inv (insert (i, ip) cl) dl i (c\<lparr>election_state := CLAIMED\<rparr>)"
  using assms by (auto simp: node_inv_def coordinator_wf_def)

lemma node_inv_other: "node_inv cl dl i c \<Longrightarrow> j \<noteq> i \<Longrightarrow> node_inv cl (insert (m, j) dl) i c"
  unfolding node_inv_def by blast

lemma coordinator_tick_cases:
  assumes "coordinator_tick now c = Inr (ev, c')"
  shows "(ev = None \<and> c' = c) \<or>
    (ev = Some (SelfElected (my_ip c)) \<and> election_state c = ELECTION_PENDING \<and>
     c' = c\<lparr>election_state := CLAIMED\<rparr>)"
  using assms by (auto simp: coordinator_tick_def split: if_splits option.splits)

lemma on_new_host_claim_cases:
  assumes "on_new_host_claim k ip c = (ev, c')"
  shows "(coord_join_index c \<le> k \<and> c' = c) \<or>
    (k < coord_join_index c \<and> election_state c' = FOLLOWER \<and> current_host_join_index c' = Some k \<and>
     coord_join_index c' = coord_join_index c)"
  using assms by (auto simp: on_new_host_claim_def split: if_splits)

lemma election_inv_start: "election_start s \<Longrightarrow> election_inv s"
  by (auto simp: election_start_def election_inv_def node_inv_def coordinator_wf_def)

lemma node_inv_deliver:
  assumes "node_inv cl dl i c" and "(k, ip) \<in> cl" and "on_new_host_claim k ip c = (ev, c')"
  shows "node_inv cl (insert ((k, ip), i) dl) i c'"
proof (cases "coord_join_index c \<le> k")
  case True
  then have "c' = c" using on_new_host_claim_cases [OF assms(3)] by auto
  then show ?thesis using assms(1) True by (auto simp: node_inv_def)
next
  case False
  then have "election_state c' = FOLLOWER" "current_host_join_index c' = Some k"
      "coord_join_index c' = coord_join_index c"
    using on_new_host_claim_cases [OF assms(3)] by auto
  moreover have "coordinator_wf c'"
    using on_new_host_claim_wf [of c k ip] assms(1,3) by (simp add: node_inv_def)
  moreover have "k \<in> fst ` cl" using assms(2) by force
  ultimately show ?thesis
    using assms(1) by (simp add: node_inv_def)
qed

lemma election_inv_step:
  assumes "election_step s s'" and "election_inv s"
  shows "election_inv s'"
  using assms
proof cases
  case (Wait i c now c')
  then have "c' = c" by (auto dest: coordinator_tick_cases)
  then have "s' = s" using Wait by (cases s) (auto simp: fun_upd_idem)
  then show ?thesis using assms(2) by simp
next
  case (Claim i c now ip c')
  then have c: "election_state c = ELECTION_PENDING" "c' = c\<lparr>election_state := CLAIMED\<rparr>"
    by (auto dest: coordinator_tick_cases)
  have inv: "node_inv (claims s) (delivered s) j d" if "node_of s j = Some d" for j d
    using assms(2) that by (simp add: election_inv_def)
  have "node_inv (claims s') (delivered s') j d" if "node_of s' j = Some d" for j d
    using that Claim(1,2) c node_inv_claim [OF inv [OF Claim(2)] c(1)]
      node_inv_mono [OF inv, of j d "insert (i, ip) (claims s)"]
    by (auto split: if_splits)
  then show ?thesis
    using Claim(1,2) assms(2) by (auto simp: election_inv_def)
next
  case (Deliver i c k ip ev c')
  have inv: "node_inv (claims s) (delivered s) j d" if "node_of s j = Some d" for j d
    using assms(2) that by (simp add: election_inv_def)
  have "node_inv (claims s') (delivered s') j d" if "node_of s' j = Some d" for j d
    using that Deliver(1,2) node_inv_deliver [OF inv [OF Deliver(2)] Deliver(3,5)]
      node_inv_other [OF inv, of j d i "(k, ip)"]
    by (auto split: if_splits)
  then show ?thesis
    using Deliver(1-3) assms(2) by (auto simp: election_inv_def)
qed

lemma election_reachable_inv: "election_reachable s \<Longrightarrow> election_inv s"
  by (induction rule: election_reachable.induct) (auto intro: election_inv_start election_inv_step)

subsection \<open>Properties\<close>

text \<open>Of two nodes that start the same election at the same time, the one of lower join index
  has the strictly earlier deadline, at least one stagger interval earlier.\<close>

theorem election_timers_are_staggered:
  assumes "coord_join_index c < coord_join_index d"
    and "timeout_base_s d = timeout_base_s c" and "timeout_delta_s d = timeout_delta_s c"
    and "0 < timeout_delta_s c"
  shows "\<exists>t u. election_timer_expiry (set_election_timer now (start_election ps c)) = Some t \<and>
    election_timer_expiry (set_election_timer now (start_election qs d)) = Some u \<and>
    t + timeout_delta_s c \<le> u"
proof -
  have "of_int (coord_join_index c) + 1 \<le> (of_int (coord_join_index d) :: flt)"
    using assms(1) by linarith
  then have "(of_int (coord_join_index c) + 1) * timeout_delta_s c
      \<le> of_int (coord_join_index d) * timeout_delta_s c"
    using assms(4) by (intro mult_right_mono) simp_all
  then show ?thesis
    using assms(2,3) by (simp add: set_election_timer_def start_election_def algebra_simps)
qed

theorem election_timers_are_staggered_witness:
  "\<exists>t u. election_timer_expiry (set_election_timer 0 (start_election {}
      (new_coordinator 1 ''a'' T_ELECTION_BASE_S T_ELECTION_DELTA_S))) = Some t \<and>
    election_timer_expiry (set_election_timer 0 (start_election {}
      (new_coordinator 2 ''b'' T_ELECTION_BASE_S T_ELECTION_DELTA_S))) = Some u \<and>
    t + T_ELECTION_DELTA_S \<le> u"
  using election_timers_are_staggered [of "new_coordinator 1 ''a'' T_ELECTION_BASE_S T_ELECTION_DELTA_S"
      "new_coordinator 2 ''b'' T_ELECTION_BASE_S T_ELECTION_DELTA_S" 0 "{}" "{}"]
  by (simp add: new_coordinator_def T_ELECTION_DELTA_S_def)



text \<open>The node of least join index never yields: whatever claims reach it, it is still counting
  down or has claimed, so a tick at or after its deadline makes it a claimant.\<close>

theorem least_node_wins:
  assumes "election_reachable s" and "node_of s m = Some c"
    and "\<And>i. node_of s i \<noteq> None \<Longrightarrow> m \<le> i"
  shows "election_state c \<noteq> FOLLOWER \<and>
    (\<exists>t. \<forall>now \<ge> t. \<exists>ev c'. coordinator_tick now c = Inr (ev, c') \<and> election_state c' = CLAIMED)"
proof -
  note inv = election_reachable_inv [OF assms(1)]
  have ninv: "node_inv (claims s) (delivered s) m c"
    using inv assms(2) by (simp add: election_inv_def)
  have "election_state c \<noteq> FOLLOWER"
  proof
    assume "election_state c = FOLLOWER"
    then obtain k where "k < m" "k \<in> fst ` claims s"
      using ninv by (auto simp: node_inv_def coordinator_wf_def)
    then show False using inv assms(3) [of k] by (auto simp: election_inv_def)
  qed
  then have "election_state c = CLAIMED \<or> election_state c = ELECTION_PENDING"
    using ninv by (cases "election_state c") (simp_all add: node_inv_def)
  then show ?thesis
    using \<open>election_state c \<noteq> FOLLOWER\<close> ninv
    by (auto simp: coordinator_tick_def node_inv_def coordinator_wf_def)
qed

text \<open>A follower compares a claim with its own index only: a claim that arrives later replaces
  the host it follows even by one of higher join index.\<close>

theorem later_claim_overrides_better_host:
  assumes "i < k" and "k < coord_join_index c"
  shows "current_host_join_index (snd (on_new_host_claim i ip c)) = Some i \<and>
    current_host_join_index (snd (on_new_host_claim k ip' (snd (on_new_host_claim i ip c)))) = Some k"
  using assms by (simp add: on_new_host_claim_def)

theorem later_claim_overrides_better_host_witness:
  "current_host_join_index (snd (on_new_host_claim 1 ''b'' (snd (on_new_host_claim 0 ''a''
     (new_coordinator 3 ''d'' T_ELECTION_BASE_S T_ELECTION_DELTA_S))))) = Some 1"
  using later_claim_overrides_better_host [of 0 1
      "new_coordinator 3 ''d'' T_ELECTION_BASE_S T_ELECTION_DELTA_S" "''a''" "''b''"]
  by (simp add: new_coordinator_def)

subsection \<open>An election of two nodes\<close>

definition example_node :: "int \<Rightarrow> string \<Rightarrow> coordinator" where
  "example_node ji ip = set_election_timer 0 (start_election {}
     (new_coordinator ji ip T_ELECTION_BASE_S T_ELECTION_DELTA_S))"

definition example_start :: election where
  "example_start = \<lparr>node_of = [1 \<mapsto> example_node 1 ''a'', 2 \<mapsto> example_node 2 ''b''],
     claims = {}, delivered = {}\<rparr>"

definition example_end :: election where
  "example_end = \<lparr>node_of = [1 \<mapsto> (example_node 1 ''a'')\<lparr>election_state := CLAIMED\<rparr>,
       2 \<mapsto> snd (on_new_host_claim 1 ''a'' (example_node 2 ''b''))],
     claims = {(1, ''a'')}, delivered = {((1, ''a''), 2)}\<rparr>"

lemmas example_node_defs = example_node_def set_election_timer_def start_election_def
  new_coordinator_def T_ELECTION_BASE_S_def T_ELECTION_DELTA_S_def

lemma example_node_pending:
  "election_state (example_node ji ip) = ELECTION_PENDING \<and> coord_join_index (example_node ji ip) = ji \<and>
   election_timer_expiry (example_node ji ip) \<noteq> None"
  by (simp add: example_node_def set_election_timer_def start_election_def new_coordinator_def)

lemma example_end_reachable: "election_reachable example_end"
proof -
  have s0: "election_reachable example_start"
    by (rule election_reachable.start)
      (use example_node_pending in \<open>auto simp: election_start_def example_start_def split: if_splits\<close>)
  let ?s1 = "\<lparr>node_of = [1 \<mapsto> (example_node 1 ''a'')\<lparr>election_state := CLAIMED\<rparr>,
      2 \<mapsto> example_node 2 ''b''], claims = {(1, ''a'')}, delivered = {}\<rparr>"
  have "election_step example_start (example_start
      \<lparr>node_of := (node_of example_start)(1 \<mapsto> (example_node 1 ''a'')\<lparr>election_state := CLAIMED\<rparr>),
       claims := insert (1, ''a'') (claims example_start)\<rparr>)"
    by (rule election_step.Claim [of _ _ "example_node 1 ''a''" 1])
      (simp_all add: example_start_def coordinator_tick_def example_node_defs)
  then have "election_step example_start ?s1"
    by (simp add: example_start_def fun_upd_twist)
  then have s1: "election_reachable ?s1" by (rule election_reachable.step [OF s0])
  have "election_step ?s1 (?s1
      \<lparr>node_of := (node_of ?s1)(2 \<mapsto> snd (on_new_host_claim 1 ''a'' (example_node 2 ''b''))),
       delivered := insert ((1, ''a''), 2) (delivered ?s1)\<rparr>)"
    by (rule election_step.Deliver [of _ _ "example_node 2 ''b''"]) (simp_all add: prod_eq_iff)
  then have "election_step ?s1 example_end"
    by (simp add: example_end_def)
  then show ?thesis by (rule election_reachable.step [OF s1])
qed



theorem least_node_wins_witness:
  "\<exists>c. node_of example_end 1 = Some c \<and> election_state c \<noteq> FOLLOWER"
  using least_node_wins [OF example_end_reachable, of 1 "(example_node 1 ''a'')\<lparr>election_state := CLAIMED\<rparr>"]
  by (auto simp: example_end_def split: if_splits)

end
