(* ===== verification/Buffers.thy ===== *)
theory Buffers
  imports Prelude
begin

text \<open>
  The bounded buffers of the code.  \<open>take_last\<close> is what \<^verbatim>\<open>deque(maxlen=n)\<close> keeps after an
  append; \<open>bounded_queue\<close> is \<^verbatim>\<open>queue.Queue(maxsize)\<close> as one thread sees it.  The locale
  \<open>recent_buffer\<close> is the contract their users rely on: a push never fails, never blocks, and
  gives up the oldest items only.
\<close>

definition take_last :: "nat \<Rightarrow> 'a list \<Rightarrow> 'a list" where
  "take_last n xs = drop (length xs - n) xs"

lemma length_take_last [simp]: "length (take_last n xs) = min n (length xs)"
  by (simp add: take_last_def)

lemma map_take_last: "map f (take_last n xs) = take_last n (map f xs)"
  by (simp add: take_last_def drop_map)

lemma take_last_all: "length xs \<le> n \<Longrightarrow> take_last n xs = xs"
  by (simp add: take_last_def)

lemma set_take_last: "set (take_last n xs) \<subseteq> set xs"
  by (simp add: take_last_def set_drop_subset)

lemma last_take_last: "0 < n \<Longrightarrow> xs \<noteq> [] \<Longrightarrow> last (take_last n xs) = last xs"
  by (simp add: take_last_def last_drop)

lemma take_last_append: "take_last n (take_last n xs @ ys) = take_last n (xs @ ys)"
proof (cases "length xs \<le> n")
  case True
  then show ?thesis by (simp add: take_last_all)
next
  case False
  then show ?thesis
    by (cases "length ys \<le> n") (simp_all add: take_last_def add.commute)
qed

subsection \<open>The contract\<close>

locale recent_buffer =
  fixes push :: "'a \<Rightarrow> 'q \<Rightarrow> 'q"
    and items :: "'q \<Rightarrow> 'a list"
    and capacity :: "'q \<Rightarrow> nat"
    and ok :: "'q \<Rightarrow> bool"
  assumes items_push: "ok q \<Longrightarrow> items (push v q) = take_last (capacity q) (items q @ [v])"
    and capacity_push: "ok q \<Longrightarrow> capacity (push v q) = capacity q"
    and ok_push: "ok q \<Longrightarrow> ok (push v q)"
    and items_bounded: "ok q \<Longrightarrow> length (items q) \<le> capacity q"
begin

lemma push_all_ok: "ok q \<Longrightarrow> ok (fold push vs q) \<and> capacity (fold push vs q) = capacity q"
  by (induction vs arbitrary: q) (simp_all add: ok_push capacity_push)

lemma items_push_all: "ok q \<Longrightarrow> items (fold push vs q) = take_last (capacity q) (items q @ vs)"
proof (induction vs arbitrary: q)
  case Nil
  then show ?case by (simp add: take_last_all items_bounded)
next
  case (Cons v vs)
  then show ?case
    using take_last_append [of "capacity q" "items q @ [v]" vs]
    by (simp add: ok_push items_push capacity_push)
qed

lemma newest_kept: "ok q \<Longrightarrow> 0 < capacity q \<Longrightarrow> last (items (push v q)) = v"
  by (simp add: items_push last_take_last)

lemma push_all_bounded: "ok q \<Longrightarrow> length (items (fold push vs q)) \<le> capacity q"
  by (simp add: items_push_all)

end

subsection \<open>Queues\<close>

record 'a bounded_queue =
  maxsize :: int
  queued :: "'a list"

definition queue_full :: "'a bounded_queue \<Rightarrow> bool" where
  "queue_full q \<longleftrightarrow> 0 < maxsize q \<and> maxsize q \<le> int (length (queued q))"

text \<open>\<^verbatim>\<open>put_nowait\<close> and \<^verbatim>\<open>get_nowait\<close>; \<open>None\<close> is the exception \<^verbatim>\<open>Full\<close> or \<^verbatim>\<open>Empty\<close>.\<close>

definition put_nowait :: "'a \<Rightarrow> 'a bounded_queue \<Rightarrow> 'a bounded_queue option" where
  "put_nowait v q = (if queue_full q then None else Some (q\<lparr>queued := queued q @ [v]\<rparr>))"

definition get_nowait :: "'a bounded_queue \<Rightarrow> ('a \<times> 'a bounded_queue) option" where
  "get_nowait q = (case queued q of [] \<Rightarrow> None | v # vs \<Rightarrow> Some (v, q\<lparr>queued := vs\<rparr>))"

lemma get_nowait_Some: "get_nowait q = Some (v, q') \<longleftrightarrow> queued q = v # queued q' \<and> maxsize q' = maxsize q"
  by (cases q; cases q') (auto simp: get_nowait_def split: list.split)

lemma get_nowait_None: "get_nowait q = None \<longleftrightarrow> queued q = []"
  by (auto simp: get_nowait_def split: list.split)

lemma full_not_empty: "put_nowait v q = None \<Longrightarrow> get_nowait q \<noteq> None"
  by (auto simp: put_nowait_def get_nowait_None queue_full_def split: if_splits)

text \<open>The loop of \<^verbatim>\<open>_put_latest\<close>: make room by dropping the oldest item, then put.\<close>

function put_latest :: "'a \<Rightarrow> 'a bounded_queue \<Rightarrow> int \<Rightarrow> int \<times> 'a bounded_queue" where
  "put_latest v q dropped =
     (case put_nowait v q of
        Some q' \<Rightarrow> (dropped, q')
      | None \<Rightarrow>
          (case get_nowait q of
             None \<Rightarrow> put_latest v q dropped
           | Some (old, q') \<Rightarrow> put_latest v q' (dropped + 1)))"
  by pat_completeness auto

termination
  by (relation "measure (\<lambda>(v, q, d). length (queued q))")
    (auto simp: get_nowait_Some dest: full_not_empty)

declare put_latest.simps [simp del]

text \<open>A loop that empties a queue.\<close>

function drain_queue :: "('a \<Rightarrow> 's \<Rightarrow> 's) \<Rightarrow> 'a bounded_queue \<Rightarrow> 's \<Rightarrow> 'a bounded_queue \<times> 's" where
  "drain_queue f q s =
     (case get_nowait q of None \<Rightarrow> (q, s) | Some (v, q') \<Rightarrow> drain_queue f q' (f v s))"
  by pat_completeness auto

termination
  by (relation "measure (\<lambda>(f, q, s). length (queued q))") (auto simp: get_nowait_Some)

declare drain_queue.simps [simp del]

lemma drain_queue_eq: "drain_queue f q s = (q\<lparr>queued := []\<rparr>, fold f (queued q) s)"
proof (induction f q s rule: drain_queue.induct)
  case (1 f q s)
  show ?case
  proof (cases "get_nowait q")
    case None
    then show ?thesis
      by (subst drain_queue.simps) (cases q, auto simp: get_nowait_def split: list.splits)
  next
    case (Some r)
    obtain v q' where r: "r = (v, q')" by force
    have q: "queued q = v # queued q'" "maxsize q' = maxsize q"
      using Some r by (simp_all add: get_nowait_Some)
    then have "q\<lparr>queued := []\<rparr> = q'\<lparr>queued := []\<rparr>"
      by (cases q; cases q') simp
    then show ?thesis
      using "1.IH" [OF Some [unfolded r] refl] Some r
      by (subst drain_queue.simps) (simp add: q)
  qed
qed

text \<open>Exactly the overflow is dropped.\<close>

lemma put_latest_eq:
  assumes "0 < maxsize q"
  shows "put_latest v q d =
    (d + max 0 (int (length (queued q)) + 1 - maxsize q),
     q\<lparr>queued := drop (nat (int (length (queued q)) + 1 - maxsize q)) (queued q) @ [v]\<rparr>)"
  using assms
proof (induction v q d rule: put_latest.induct)
  case (1 v q d)
  show ?case
  proof (cases "put_nowait v q")
    case (Some q')
    then show ?thesis
      using "1.prems" by (subst put_latest.simps) (auto simp: put_nowait_def queue_full_def split: if_splits)
  next
    case None
    then obtain old q' where g: "get_nowait q = Some (old, q')"
      using full_not_empty [OF None] by auto
    then have q: "queued q = old # queued q'" "maxsize q' = maxsize q"
      by (simp_all add: get_nowait_Some)
    have full: "maxsize q \<le> 1 + int (length (queued q'))"
      using None by (simp add: put_nowait_def queue_full_def q split: if_splits)
    then have n: "nat (2 + int (length (queued q')) - maxsize q)
        = Suc (nat (1 + int (length (queued q')) - maxsize q))"
      by (simp add: nat_eq_iff)
    have "q\<lparr>queued := xs\<rparr> = q'\<lparr>queued := xs\<rparr>" for xs
      using q by (cases q; cases q') simp
    then show ?thesis
      using "1.IH"(2) [OF None g refl] "1.prems" None g full q
      by (subst put_latest.simps) (simp add: n algebra_simps)
  qed
qed

definition queue_ok :: "'a bounded_queue \<Rightarrow> bool" where
  "queue_ok q \<longleftrightarrow> 0 < maxsize q \<and> int (length (queued q)) \<le> maxsize q"

definition push_latest :: "'a \<Rightarrow> 'a bounded_queue \<Rightarrow> 'a bounded_queue" where
  "push_latest v q = snd (put_latest v q 0)"

definition queue_capacity :: "'a bounded_queue \<Rightarrow> nat" where
  "queue_capacity q = nat (maxsize q)"

lemma put_latest_recent:
  assumes "queue_ok q"
  shows "queued (snd (put_latest v q d)) = take_last (queue_capacity q) (queued q @ [v])"
    and "maxsize (snd (put_latest v q d)) = maxsize q"
    and "fst (put_latest v q d) = d + (if queue_full q then 1 else 0)"
proof -
  have "nat (int (length (queued q)) + 1 - maxsize q) = Suc (length (queued q)) - queue_capacity q"
    "Suc (length (queued q)) - queue_capacity q \<le> length (queued q)"
    using assms by (simp add: queue_ok_def queue_capacity_def nat_diff_distrib')
      (use assms in \<open>simp add: queue_ok_def queue_capacity_def; arith\<close>)
  then show "queued (snd (put_latest v q d)) = take_last (queue_capacity q) (queued q @ [v])"
    using assms by (simp add: queue_ok_def put_latest_eq take_last_def)
qed (use assms in \<open>auto simp: queue_ok_def queue_full_def put_latest_eq\<close>)

interpretation latest: recent_buffer push_latest queued queue_capacity queue_ok
proof unfold_locales
  fix q :: "'a bounded_queue" and v
  assume ok: "queue_ok q"
  show items: "queued (push_latest v q) = take_last (queue_capacity q) (queued q @ [v])"
    and "queue_capacity (push_latest v q) = queue_capacity q"
    using put_latest_recent [OF ok] by (simp_all add: push_latest_def queue_capacity_def)
  show "queue_ok (push_latest v q)"
    using put_latest_recent [OF ok] items ok
    by (auto simp: queue_ok_def push_latest_def queue_capacity_def)
  show "length (queued q) \<le> queue_capacity q"
    using ok by (simp add: queue_ok_def queue_capacity_def le_nat_iff)
qed

end
