(* ===== verification/Prediction.thy ===== *)
theory Prediction
  imports Buffers Engine_Props Election
begin

text \<open>
  Client-side prediction and reconciliation (\<^verbatim>\<open>application/reconciliation/\<close>): the bounded
  input history, the prediction engine, its no-op counterpart, and the protocol both implement
  as the locale \<open>predictor\<close>.

  The controller and its prediction engine share one game engine; here the operations take it
  and return it.  A replay of several ticks reads the clock in each of them, so it takes one
  \<^typ>\<open>tick_clock\<close> per replayed tick.  The log lines of \<^verbatim>\<open>_log_correction\<close> are left out.
\<close>

subsection \<open>The input history\<close>

record history_entry =
  he_sequence_number :: int
  he_input_state :: input_state
  he_dt :: flt
  he_sent_at :: flt

text \<open>\<^verbatim>\<open>deque(maxlen=n)\<close>: an append drops from the front what exceeds the capacity.\<close>

definition history_push :: "nat \<Rightarrow> history_entry \<Rightarrow> history_entry list \<Rightarrow> history_entry list" where
  "history_push capacity e es = take_last capacity (es @ [e])"

text \<open>Drops the acknowledged prefix, and returns its last entry.\<close>

fun acknowledge ::
  "int \<Rightarrow> history_entry option \<Rightarrow> history_entry list \<Rightarrow> history_entry option \<times> history_entry list" where
  "acknowledge s last_acknowledged [] = (last_acknowledged, [])"
| "acknowledge s last_acknowledged (e # es) =
     (if he_sequence_number e \<le> s then acknowledge s (Some e) es
      else (last_acknowledged, e # es))"

lemma acknowledge_rest: "snd (acknowledge s a es) = dropWhile (\<lambda>e. he_sequence_number e \<le> s) es"
  by (induction s a es rule: acknowledge.induct) auto

lemma acknowledge_last:
  "fst (acknowledge s a es) = (case takeWhile (\<lambda>e. he_sequence_number e \<le> s) es of
     [] \<Rightarrow> a | x # xs \<Rightarrow> Some (last (x # xs)))"
  by (induction s a es rule: acknowledge.induct) (auto split: list.split)

subsection \<open>The prediction engine\<close>

record prediction =
  pe_local_player_id :: ident
  pe_capacity :: nat
  pe_entries :: "history_entry list"

definition new_prediction :: "ident \<Rightarrow> nat \<Rightarrow> prediction" where
  "new_prediction pid capacity =
     \<lparr>pe_local_player_id = pid, pe_capacity = capacity, pe_entries = []\<rparr>"

definition engine_seq :: "game_engine \<Rightarrow> int" where
  "engine_seq e = sequence_number (world_state e)"

definition predict :: "flt \<Rightarrow> input_state \<Rightarrow> flt \<Rightarrow> game_engine \<Rightarrow> prediction \<Rightarrow> prediction" where
  "predict now inp dt e p =
     p\<lparr>pe_entries := history_push (pe_capacity p)
          \<lparr>he_sequence_number = engine_seq e + 1, he_input_state = inp, he_dt = dt, he_sent_at = now\<rparr>
          (pe_entries p)\<rparr>"

definition pending_count :: "prediction \<Rightarrow> int" where
  "pending_count p = int (length (pe_entries p))"

definition replay_pending ::
  "(nat \<Rightarrow> tick_clock) \<Rightarrow> ident \<Rightarrow> history_entry list \<Rightarrow> game_engine \<Rightarrow> game_engine result" where
  "replay_pending clks pid pending e =
     fold_res (\<lambda>(i, entry). tick (clks i) (he_dt entry) [(pid, he_input_state entry)] None)
       (enumerate 0 pending) e"

text \<open>
  The world the client adopts: the authoritative one, except for the parts of the environment
  that travel as game events.
\<close>

definition adopt_snapshot :: "world_state \<Rightarrow> game_engine \<Rightarrow> game_engine" where
  "adopt_snapshot w e =
     (let local_env = environment (world_state e)
      in e\<lparr>world_state := w\<lparr>environment := (environment w)
             \<lparr>destructible_blocks := destructible_blocks local_env,
              power_ups := power_ups local_env,
              cooperative_gates := cooperative_gates local_env\<rparr>\<rparr>\<rparr>)"

definition reconcile ::
  "(nat \<Rightarrow> tick_clock) \<Rightarrow> snapshot \<Rightarrow> game_engine \<Rightarrow> prediction \<Rightarrow> (game_engine \<times> prediction) result" where
  "reconcile clks snap e p =
     (let w = snapshot_world snap;
          client_seq_before = engine_seq e;
          es1 = snd (acknowledge (sequence_number w) None (pe_entries p));
          es2 = (if client_seq_before > sequence_number w + int (pe_capacity p) then [] else es1);
          e1 = adopt_snapshot w e
      in rbind (if es2 \<noteq> [] then replay_pending clks (pe_local_player_id p) es2 e1 else Inr e1)
           (\<lambda>e2. Inr (e2, p\<lparr>pe_entries := es2\<rparr>)))"

subsection \<open>The no-op prediction engine\<close>

type_synonym noop_prediction = unit

definition noop_predict :: "flt \<Rightarrow> input_state \<Rightarrow> flt \<Rightarrow> game_engine \<Rightarrow> noop_prediction \<Rightarrow> noop_prediction" where
  "noop_predict now inp dt e p = p"

definition noop_reconcile ::
  "(nat \<Rightarrow> tick_clock) \<Rightarrow> snapshot \<Rightarrow> game_engine \<Rightarrow> noop_prediction \<Rightarrow> (game_engine \<times> noop_prediction) result" where
  "noop_reconcile clks snap e p = Inr (e\<lparr>world_state := snapshot_world snap\<rparr>, p)"

definition noop_pending_count :: "noop_prediction \<Rightarrow> int" where
  "noop_pending_count p = 0"

subsection \<open>The protocol\<close>

text \<open>
  What the controller relies on: reconciling with a well-formed snapshot succeeds, keeps the
  engine well-formed and its authority, and leaves it exactly the pending inputs ahead of the
  snapshot; predicting buffers at most one input.
\<close>

locale predictor =
  fixes predict :: "flt \<Rightarrow> input_state \<Rightarrow> flt \<Rightarrow> game_engine \<Rightarrow> 'p \<Rightarrow> 'p"
    and reconcile :: "(nat \<Rightarrow> tick_clock) \<Rightarrow> snapshot \<Rightarrow> game_engine \<Rightarrow> 'p \<Rightarrow> (game_engine \<times> 'p) result"
    and pending :: "'p \<Rightarrow> int"
  assumes reconcile_ok: "engine_wf e \<Longrightarrow> world_wf (snapshot_world s) \<Longrightarrow>
      \<exists>e' p'. reconcile clks s e p = Inr (e', p') \<and> engine_wf e' \<and>
        is_authoritative e' = is_authoritative e \<and>
        engine_seq e' = sequence_number (snapshot_world s) + pending p'"
    and pending_nonneg: "0 \<le> pending p"
    and predict_pending: "pending (predict now inp dt e p) \<le> pending p + 1"
begin

text \<open>A backlog of snapshots is absorbed one by one; the last one counts.\<close>

lemma drain_ok:
  assumes "engine_wf e" and "\<forall>(clks, s) \<in> set snaps. world_wf (snapshot_world s)" and "snaps \<noteq> []"
  shows "\<exists>e' p'. fold_res (\<lambda>(clks, s) (e, p). reconcile clks s e p) snaps (e, p) = Inr (e', p') \<and>
    engine_wf e' \<and> is_authoritative e' = is_authoritative e \<and>
    engine_seq e' = sequence_number (snapshot_world (snd (last snaps))) + pending p'"
  using assms
proof (induction snaps arbitrary: e p)
  case Nil
  then show ?case by simp
next
  case (Cons a snaps)
  obtain clks s where a: "a = (clks, s)" by force
  obtain e1 p1 where r: "reconcile clks s e p = Inr (e1, p1)" "engine_wf e1"
      "is_authoritative e1 = is_authoritative e"
      "engine_seq e1 = sequence_number (snapshot_world s) + pending p1"
    using reconcile_ok [OF Cons.prems(1), of s clks p] Cons.prems(2) by (auto simp: a)
  show ?case
  proof (cases "snaps = []")
    case True
    then show ?thesis using r by (simp add: a)
  next
    case False
    then show ?thesis
      using Cons.IH [OF r(2) _ False, of p1] Cons.prems(2) r(1,3) by (simp add: a)
  qed
qed

text \<open>The snapshot is never ahead of the engine that adopted it.\<close>

lemma lead_nonneg:
  assumes "engine_wf e" and "world_wf (snapshot_world s)" and "reconcile clks s e p = Inr (e', p')"
  shows "sequence_number (snapshot_world s) \<le> engine_seq e'"
  using reconcile_ok [OF assms(1,2), of clks p] pending_nonneg [of p'] assms(3) by auto

end

text \<open>Adopting a snapshot, and replaying on it.\<close>

lemma adopt_snapshot_wf: "engine_wf e \<Longrightarrow> world_wf w \<Longrightarrow> engine_wf (adopt_snapshot w e)"
  by (simp add: adopt_snapshot_def world_wf_def Let_def)

lemma adopt_snapshot_simps [simp]:
  "is_authoritative (adopt_snapshot w e) = is_authoritative e"
  "engine_seq (adopt_snapshot w e) = sequence_number w"
  "characters (world_state (adopt_snapshot w e)) = characters w"
  "enemies (environment (world_state (adopt_snapshot w e))) = enemies (environment w)"
  "destructible_blocks (environment (world_state (adopt_snapshot w e)))
     = destructible_blocks (environment (world_state e))"
  "power_ups (environment (world_state (adopt_snapshot w e))) = power_ups (environment (world_state e))"
  "cooperative_gates (environment (world_state (adopt_snapshot w e)))
     = cooperative_gates (environment (world_state e))"
  by (simp_all add: adopt_snapshot_def engine_seq_def Let_def)

lemma replay_pending_run:
  "replay_pending clks pid pending e =
     fold_res tick_with
       (map (\<lambda>(i, entry). \<lparr>args_clock = clks i, args_dt = he_dt entry,
          args_inputs = [(pid, he_input_state entry)], args_commands = None\<rparr>) (enumerate 0 pending)) e"
  by (simp add: replay_pending_def fold_res_map tick_with_def split_def)

lemma replay_pending_ok:
  assumes "engine_wf e"
  shows "\<exists>e'. replay_pending clks pid pending e = Inr e' \<and> engine_wf e' \<and> evolves e e' \<and>
    engine_seq e' = engine_seq e + int (length pending)"
  unfolding replay_pending_run engine_seq_def
  using simulation.run_ok [OF assms, of "map (\<lambda>(i, entry). \<lparr>args_clock = clks i, args_dt = he_dt entry,
      args_inputs = [(pid, he_input_state entry)], args_commands = None\<rparr>) (enumerate 0 pending)"]
  by (auto simp: valid_args_def valid_commands_def split: prod.split)

text \<open>The inputs a snapshot leaves pending.\<close>

definition kept_entries :: "world_state \<Rightarrow> game_engine \<Rightarrow> prediction \<Rightarrow> history_entry list" where
  "kept_entries w e p =
     (if engine_seq e > sequence_number w + int (pe_capacity p) then []
      else dropWhile (\<lambda>x. he_sequence_number x \<le> sequence_number w) (pe_entries p))"

lemma reconcile_total:
  assumes "engine_wf e" and "world_wf (snapshot_world s)"
  shows "\<exists>e'. reconcile clks s e p = Inr (e', p\<lparr>pe_entries := kept_entries (snapshot_world s) e p\<rparr>) \<and>
    engine_wf e' \<and> evolves (adopt_snapshot (snapshot_world s) e) e' \<and>
    engine_seq e' = sequence_number (snapshot_world s) + int (length (kept_entries (snapshot_world s) e p))"
proof -
  let ?w = "snapshot_world s"
  note wf = adopt_snapshot_wf [OF assms]
  obtain e2 where "replay_pending clks (pe_local_player_id p) (kept_entries ?w e p) (adopt_snapshot ?w e) = Inr e2"
      "engine_wf e2" "evolves (adopt_snapshot ?w e) e2"
      "engine_seq e2 = sequence_number ?w + int (length (kept_entries ?w e p))"
    using replay_pending_ok [OF wf, of clks "pe_local_player_id p" "kept_entries ?w e p"] by auto
  then show ?thesis
    using wf by (simp add: reconcile_def Let_def acknowledge_rest flip: kept_entries_def)
qed

text \<open>The history is a buffer of recent entries.\<close>

interpretation history: recent_buffer
  "\<lambda>e p. p\<lparr>pe_entries := history_push (pe_capacity p) e (pe_entries p)\<rparr>" pe_entries pe_capacity
  "\<lambda>p. length (pe_entries p) \<le> pe_capacity p"
  by unfold_locales (simp_all add: history_push_def)

interpretation predicting: predictor predict reconcile pending_count
proof unfold_locales
  fix e :: game_engine and s :: snapshot and clks p
  assume "engine_wf e" and "world_wf (snapshot_world s)"
  from reconcile_total [OF this, of clks p]
  show "\<exists>e' p'. reconcile clks s e p = Inr (e', p') \<and> engine_wf e' \<and>
      is_authoritative e' = is_authoritative e \<and>
      engine_seq e' = sequence_number (snapshot_world s) + pending_count p'"
    by (auto simp: pending_count_def dest: evolves_authority)
qed (auto simp: pending_count_def predict_def history_push_def)

interpretation following: predictor noop_predict noop_reconcile noop_pending_count
  by unfold_locales (simp_all add: noop_predict_def noop_reconcile_def noop_pending_count_def engine_seq_def)

subsection \<open>The timeline of the buffered inputs\<close>

text \<open>
  Relative to the sequence number \<open>base\<close> of the last snapshot, the buffered inputs are those of
  the client's last ticks, and none since \<open>base\<close> is missing unless the buffer overflowed.
\<close>

definition aligned :: "int \<Rightarrow> game_engine \<Rightarrow> prediction \<Rightarrow> bool" where
  "aligned base e p \<longleftrightarrow>
     length (pe_entries p) \<le> pe_capacity p \<and>
     map he_sequence_number (pe_entries p)
       = upto (engine_seq e - int (length (pe_entries p)) + 1) (engine_seq e) \<and>
     (engine_seq e - int (length (pe_entries p)) \<le> base \<or> length (pe_entries p) = pe_capacity p)"

lemma drop_upto: "drop k (upto a b) = upto (a + int k) b"
proof (induction k arbitrary: a)
  case 0
  then show ?case by simp
next
  case (Suc k)
  then show ?case by (subst upto.simps) (simp add: algebra_simps)
qed

lemma dropWhile_upto: "dropWhile (\<lambda>x. x \<le> h) (upto a b) = upto (max a (h + 1)) b"
proof (induction a b rule: upto.induct)
  case (1 a b)
  show ?case
  proof (cases "a \<le> b \<and> a \<le> h")
    case True
    then have "max (a + 1) (h + 1) = max a (h + 1)" by simp
    then show ?thesis using True 1 by (simp add: upto_rec1)
  next
    case False
    then show ?thesis by (cases "a \<le> b") (simp_all add: upto_rec1)
  qed
qed

lemma upto_snoc: "a \<le> b + 1 \<Longrightarrow> upto a b @ [b + 1] = upto a (b + 1)"
  using upto_rec2 [of a "b + 1"] by simp

lemma predict_aligned:
  assumes "aligned base e p" and "engine_seq e' = engine_seq e + 1"
  shows "aligned base e' (predict now inp dt e p)"
proof -
  let ?n = "length (pe_entries p)"
  let ?k = "Suc ?n - pe_capacity p"
  have ids: "map he_sequence_number (pe_entries (predict now inp dt e p))
      = drop ?k (upto (engine_seq e - int ?n + 1) (engine_seq e + 1))"
  proof -
    have "map he_sequence_number (pe_entries (predict now inp dt e p))
        = take_last (pe_capacity p) (upto (engine_seq e - int ?n + 1) (engine_seq e) @ [engine_seq e + 1])"
      using assms(1) by (simp add: predict_def history_push_def map_take_last aligned_def)
    also have "\<dots> = take_last (pe_capacity p) (upto (engine_seq e - int ?n + 1) (engine_seq e + 1))"
      by (subst upto_snoc) simp_all
    also have "\<dots> = drop ?k (upto (engine_seq e - int ?n + 1) (engine_seq e + 1))"
      by (simp add: take_last_def nat_add_distrib)
    finally show ?thesis .
  qed
  have len: "length (pe_entries (predict now inp dt e p)) = min (pe_capacity p) (Suc ?n)"
    by (simp add: predict_def history_push_def)
  have cap: "pe_capacity (predict now inp dt e p) = pe_capacity p"
    by (simp add: predict_def)
  show ?thesis
    using assms unfolding aligned_def ids len cap drop_upto
    by (auto simp: min_def algebra_simps)
qed

lemma kept_entries_aligned:
  assumes "aligned base e p" and "base \<le> sequence_number w"
  shows "map he_sequence_number (kept_entries w e p)
    = (if engine_seq e > sequence_number w + int (pe_capacity p) then []
       else upto (sequence_number w + 1) (engine_seq e))"
proof -
  let ?n = "length (pe_entries p)" and ?h = "sequence_number w"
  have "map he_sequence_number (dropWhile (\<lambda>x. he_sequence_number x \<le> ?h) (pe_entries p))
      = upto (max (engine_seq e - int ?n + 1) (?h + 1)) (engine_seq e)"
    using assms(1) dropWhile_map [of "\<lambda>x. x \<le> ?h" he_sequence_number "pe_entries p"]
    by (simp add: aligned_def dropWhile_upto comp_def)
  moreover have "engine_seq e - int ?n \<le> ?h" if "\<not> engine_seq e > ?h + int (pe_capacity p)"
    using assms that by (auto simp: aligned_def)
  ultimately show ?thesis
    by (simp add: kept_entries_def max_def)
qed

lemma kept_entries_length:
  assumes "aligned base e p" and "base \<le> sequence_number w"
  shows "int (length (kept_entries w e p))
    = (if engine_seq e > sequence_number w + int (pe_capacity p) then 0
       else max 0 (engine_seq e - sequence_number w))"
proof -
  have "length (kept_entries w e p) = length (map he_sequence_number (kept_entries w e p))"
    by simp
  then show ?thesis
    unfolding kept_entries_aligned [OF assms] by auto
qed

subsection \<open>Properties\<close>



text \<open>As long as snapshots do not go back in time, prediction and reconciliation keep the buffered
  inputs aligned with the ticks they belong to: a predicted tick appends its own input, and a
  snapshot of the host's tick \<open>h\<close> leaves exactly the inputs of the client's ticks after \<open>h\<close>, so
  the client stays at the later of its own tick and the host's, unless the host is more than a
  buffer behind, when the client drops its inputs and falls back to the host.\<close>

theorem timeline_is_kept:
  assumes "aligned base e p" and "engine_wf e"
  shows "(\<exists>e'. tick clk dt [(pid, inp)] None e = Inr e' \<and> aligned base e' (predict now inp dt e p)) \<and>
    (base \<le> sequence_number (snapshot_world s) \<longrightarrow> world_wf (snapshot_world s) \<longrightarrow>
      (\<exists>e' p'. reconcile clks s e p = Inr (e', p') \<and>
         aligned (sequence_number (snapshot_world s)) e' p' \<and>
         engine_seq e' =
           (if engine_seq e > sequence_number (snapshot_world s) + int (pe_capacity p)
            then sequence_number (snapshot_world s)
            else max (sequence_number (snapshot_world s)) (engine_seq e))))"
proof -
  let ?w = "snapshot_world s"
  let ?h = "sequence_number ?w"
  have "valid_commands None" by (simp add: valid_commands_def)
  then have 1: "\<exists>e'. tick clk dt [(pid, inp)] None e = Inr e' \<and> aligned base e' (predict now inp dt e p)"
    using tick_good [OF assms(2), of None clk dt "[(pid, inp)]"] predict_aligned [OF assms(1)]
    by (auto simp: engine_seq_def)
  have 2: "\<exists>e' p'. reconcile clks s e p = Inr (e', p') \<and> aligned ?h e' p' \<and> engine_seq e' =
      (if engine_seq e > ?h + int (pe_capacity p) then ?h else max ?h (engine_seq e))"
    if h: "base \<le> ?h" "world_wf ?w"
  proof -
    obtain e' where e': "reconcile clks s e p = Inr (e', p\<lparr>pe_entries := kept_entries ?w e p\<rparr>)"
        "engine_seq e' = ?h + int (length (kept_entries ?w e p))"
      using reconcile_total [OF assms(2) h(2), of clks p] by blast
    note len = kept_entries_length [OF assms(1) h(1)]
    have seq: "engine_seq e' =
        (if engine_seq e > ?h + int (pe_capacity p) then ?h else max ?h (engine_seq e))"
      using e'(2) len by auto
    have "length (kept_entries ?w e p) \<le> pe_capacity p"
      using len by (auto split: if_splits)
    moreover have "map he_sequence_number (kept_entries ?w e p)
        = upto (engine_seq e' - int (length (kept_entries ?w e p)) + 1) (engine_seq e')"
      unfolding kept_entries_aligned [OF assms(1) h(1)] using e'(2) seq len
      by (cases "engine_seq e > ?h + int (pe_capacity p)"; cases "engine_seq e \<le> ?h") simp_all
    ultimately have "aligned ?h e' (p\<lparr>pe_entries := kept_entries ?w e p\<rparr>)"
      using e'(2) by (simp add: aligned_def)
    with e'(1) seq show ?thesis by blast
  qed
  from 1 2 show ?thesis by blast
qed

theorem timeline_is_kept_witness:
  "\<exists>e'. tick (tick_clock_at 0) TICK_INTERVAL [(''player2'', no_input)] None example_engine = Inr e' \<and>
     aligned 0 e' (predict 0 no_input TICK_INTERVAL example_engine (new_prediction ''player2'' 60))"
proof -
  have "aligned 0 example_engine (new_prediction ''player2'' 60)"
    by (simp add: aligned_def new_prediction_def engine_seq_def example_defs)
  from timeline_is_kept [OF this example_engine_wf, of "tick_clock_at 0" TICK_INTERVAL "''player2''" no_input 0
      "\<lparr>snapshot_seq = 0, snapshot_world = world_state example_engine\<rparr>" "\<lambda>_. tick_clock_at 0"]
  show ?thesis by blast
qed

text \<open>Absorbing a backlog of snapshots, oldest first, succeeds and ends the pending inputs ahead
  of the last of them.\<close>

theorem snapshot_backlog:
  assumes "engine_wf e" and "\<forall>(clks, s) \<in> set snaps. world_wf (snapshot_world s)" and "snaps \<noteq> []"
  shows "\<exists>e' p'. fold_res (\<lambda>(clks, s) (e, p). reconcile clks s e p) snaps (e, p) = Inr (e', p') \<and>
    engine_wf e' \<and> is_authoritative e' = is_authoritative e \<and>
    engine_seq e' = sequence_number (snapshot_world (snd (last snaps))) + pending_count p'"
  by (rule predicting.drain_ok [OF assms])

theorem snapshot_backlog_witness:
  "\<exists>e' p'. fold_res (\<lambda>(clks, s) (e, p). reconcile clks s e p)
      [(\<lambda>_. tick_clock_at 0, \<lparr>snapshot_seq = 0, snapshot_world = world_state example_engine\<rparr>)]
      (example_engine, new_prediction ''player2'' 60) = Inr (e', p') \<and> engine_wf e'"
  using snapshot_backlog [OF example_engine_wf,
      of "[(\<lambda>_. tick_clock_at 0, \<lparr>snapshot_seq = 0, snapshot_world = world_state example_engine\<rparr>)]"
      "new_prediction ''player2'' 60"] example_engine_wf
  by auto

text \<open>A snapshot that goes back in time by less than a buffer, as a new host's first snapshots
  may, is not recognised as another timeline: the inputs of the client's ticks after \<open>base\<close> are
  all replayed on the older tick, the client is rewound, and the buffer still carries the old
  tick numbers, so it is out of step with the client until the host passes them.\<close>

theorem rewind_loses_alignment:
  assumes "aligned base e p" and "engine_wf e" and "world_wf (snapshot_world s)"
    and "engine_seq e - int (length (pe_entries p)) = base" and "pe_entries p \<noteq> []"
    and "sequence_number (snapshot_world s) < base"
    and "engine_seq e \<le> sequence_number (snapshot_world s) + int (pe_capacity p)"
  shows "\<exists>e'. reconcile clks s e p = Inr (e', p) \<and> engine_seq e' < engine_seq e \<and>
    (\<forall>b. \<not> aligned b e' p)"
proof -
  let ?w = "snapshot_world s"
  have ids: "map he_sequence_number (pe_entries p) = upto (base + 1) (engine_seq e)"
    using assms(1,4) by (simp add: aligned_def)
  have "he_sequence_number x > sequence_number ?w" if "x \<in> set (pe_entries p)" for x
  proof -
    have "he_sequence_number x \<in> set (upto (base + 1) (engine_seq e))"
      using that unfolding ids [symmetric] by simp
    then show ?thesis using assms(6) by simp
  qed
  then have "dropWhile (\<lambda>x. he_sequence_number x \<le> sequence_number ?w) (pe_entries p) = pe_entries p"
    using assms(5) by (cases "pe_entries p") (force simp: not_le)+
  then have "kept_entries ?w e p = pe_entries p"
    using assms(7) by (simp add: kept_entries_def)
  then obtain e' where e': "reconcile clks s e p = Inr (e', p)"
      "engine_seq e' = sequence_number ?w + int (length (pe_entries p))"
    using reconcile_total [OF assms(2,3), of clks p] by auto
  then have lt: "engine_seq e' < engine_seq e" using assms(4,6) by simp
  have "base + 1 \<le> engine_seq e"
    using assms(4,5) by (cases "pe_entries p") auto
  then have "last (map he_sequence_number (pe_entries p)) = engine_seq e"
    unfolding ids by (simp add: upto_rec2)
  then have old: "last (map he_sequence_number (pe_entries p)) \<noteq> engine_seq e'"
    using lt by simp
  have "engine_seq e' - int (length (pe_entries p)) + 1 \<le> engine_seq e'"
    using assms(5) by (cases "pe_entries p") auto
  then have "last (upto (engine_seq e' - int (length (pe_entries p)) + 1) (engine_seq e')) = engine_seq e'"
    by (simp add: upto_rec2)
  then have "\<not> aligned b e' p" for b
    using old by (auto simp: aligned_def)
  with e'(1) lt show ?thesis by blast
qed

text \<open>The client at tick 10 with the input of that tick pending, and a new host at tick 5.\<close>

definition example_client :: game_engine where
  "example_client = world_state_update (sequence_number_update (\<lambda>_. 10)) example_engine"

definition example_pending :: prediction where
  "example_pending = \<lparr>pe_local_player_id = ''player2'', pe_capacity = 60,
     pe_entries = [\<lparr>he_sequence_number = 10, he_input_state = no_input, he_dt = TICK_INTERVAL,
       he_sent_at = 0\<rparr>]\<rparr>"

theorem rewind_loses_alignment_witness:
  "\<exists>e'. reconcile (\<lambda>_. tick_clock_at 0)
      \<lparr>snapshot_seq = 5, snapshot_world = (world_state example_engine)\<lparr>sequence_number := 5\<rparr>\<rparr>
      example_client example_pending = Inr (e', example_pending) \<and> engine_seq e' < engine_seq example_client \<and>
    (\<forall>b. \<not> aligned b e' example_pending)"
proof (rule rewind_loses_alignment)
  show "aligned 9 example_client example_pending"
    by (simp add: aligned_def example_client_def example_pending_def engine_seq_def upto.simps)
  show "engine_wf example_client"
    using example_engine_wf by (simp add: example_client_def world_wf_def)
qed (use example_engine_wf in
    \<open>simp_all add: world_wf_def example_client_def example_pending_def engine_seq_def\<close>)

end
