(* ===== verification/Shadow_Copy.thy ===== *)
theory Shadow_Copy
  imports Entities
begin

text \<open>
  Visual smoothing of remote players: \<^verbatim>\<open>domain/shadow_copy.py\<close>, its adapter and the no-op
  copy of \<^verbatim>\<open>application/reconciliation/shadow_copy.py\<close>, and the protocol both implement as the
  locale \<open>display_copy\<close>.  The theorems bound what is shown: between two confirmed states while
  snapshots arrive, and within a fixed distance of the last one when they stop.
\<close>

definition lerp :: "flt \<Rightarrow> flt \<Rightarrow> flt \<Rightarrow> flt" where
  "lerp start stop alpha = start + (stop - start) * alpha"

record shadow_copy =
  snapshot_timeout :: flt
  max_extrapolation_time :: flt
  last_confirmed :: "player option"
  target :: "player option"
  last_sequence_number :: int
  shadow_snapshot_time :: "flt option"
  interpolation_window :: flt

definition new_shadow_copy :: shadow_copy where
  "new_shadow_copy =
     \<lparr>snapshot_timeout = SNAPSHOT_TIMEOUT, max_extrapolation_time = MAX_EXTRAPOLATION_TIME,
      last_confirmed = None, target = None, last_sequence_number = - 1,
      shadow_snapshot_time = None, interpolation_window = SNAPSHOT_TIMEOUT\<rparr>"

definition shadow_update :: "player \<Rightarrow> int \<Rightarrow> flt \<Rightarrow> shadow_copy \<Rightarrow> bool \<times> shadow_copy" where
  "shadow_update new_snapshot seq received_at s =
     (if seq \<le> last_sequence_number s then (False, s)
      else
        let s1 = (case target s of
            None \<Rightarrow> s\<lparr>last_confirmed := Some new_snapshot, target := Some new_snapshot,
                      interpolation_window := snapshot_timeout s\<rparr>
          | Some old \<Rightarrow> s\<lparr>last_confirmed := Some old, target := Some new_snapshot,
                interpolation_window :=
                  (case shadow_snapshot_time s of
                     None \<Rightarrow> snapshot_timeout s
                   | Some t \<Rightarrow> max (1 / 1000000) (min (snapshot_timeout s) (received_at - t)))\<rparr>)
        in (True, s1\<lparr>last_sequence_number := seq, shadow_snapshot_time := Some received_at\<rparr>))"

definition interpolate :: "flt \<Rightarrow> shadow_copy \<Rightarrow> player result" where
  "interpolate alpha s =
     (case target s of
        None \<Rightarrow> Inl (ValueError ''Cannot interpolate without at least one snapshot'')
      | Some tg \<Rightarrow>
          let start = (case last_confirmed s of Some p \<Rightarrow> p | None \<Rightarrow> tg);
              a = clamp 0 alpha 1
          in Inr (tg\<lparr>pos_x := lerp (pos_x start) (pos_x tg) a,
                     pos_y := lerp (pos_y start) (pos_y tg) a,
                     vx := lerp (vx start) (vx tg) a,
                     vy := lerp (vy start) (vy tg) a,
                     prev_x := lerp (prev_x start) (prev_x tg) a,
                     prev_y := lerp (prev_y start) (prev_y tg) a\<rparr>))"

definition extrapolate :: "flt \<Rightarrow> shadow_copy \<Rightarrow> player \<Rightarrow> player" where
  "extrapolate elapsed s tg =
     (let extrapolation_elapsed = min (elapsed - snapshot_timeout s) (max_extrapolation_time s);
          stopped = elapsed - snapshot_timeout s \<ge> max_extrapolation_time s
      in tg\<lparr>pos_x := pos_x tg + vx tg * extrapolation_elapsed,
            pos_y := pos_y tg + vy tg * extrapolation_elapsed,
            prev_x := prev_x tg + vx tg * extrapolation_elapsed,
            prev_y := prev_y tg + vy tg * extrapolation_elapsed,
            vx := (if stopped then 0 else vx tg),
            vy := (if stopped then 0 else vy tg)\<rparr>)"

text \<open>
  \<^verbatim>\<open>elapsed / interpolation_window\<close>: Python raises on a zero divisor, which the invariant below
  excludes.
\<close>

definition get_visual_state :: "flt \<Rightarrow> shadow_copy \<Rightarrow> player option result" where
  "get_visual_state now s =
     (case target s of
        None \<Rightarrow> Inr None
      | Some tg \<Rightarrow>
          (case shadow_snapshot_time s of
             None \<Rightarrow> Inr (Some tg)
           | Some t \<Rightarrow>
               let elapsed = max 0 (now - t) in
               if elapsed \<le> snapshot_timeout s
               then (if interpolation_window s = 0 then Inl (ValueError ''division by zero'')
                     else rbind (interpolate (elapsed / interpolation_window s) s) (\<lambda>p. Inr (Some p)))
               else Inr (Some (extrapolate elapsed s tg))))"

subsection \<open>Invariant\<close>

text \<open>The two states of a copy are states of one and the same player.\<close>

definition same_entity :: "player \<Rightarrow> player \<Rightarrow> bool" where
  "same_entity p q \<longleftrightarrow> player_id q = player_id p \<and> join_index q = join_index p \<and>
     width q = width p \<and> height q = height p \<and> on_ground q = on_ground p \<and>
     is_crouching q = is_crouching p \<and>
     powerup_effect_expires_at q = powerup_effect_expires_at p"

lemma same_entity_refl [simp]: "same_entity p p"
  by (simp add: same_entity_def)

definition shadow_wf :: "shadow_copy \<Rightarrow> bool" where
  "shadow_wf s \<longleftrightarrow>
     1 / 1000000 \<le> snapshot_timeout s \<and> 0 \<le> max_extrapolation_time s \<and>
     0 < interpolation_window s \<and> interpolation_window s \<le> snapshot_timeout s \<and>
     (target s = None \<longleftrightarrow> last_confirmed s = None) \<and>
     (target s = None \<longleftrightarrow> shadow_snapshot_time s = None) \<and>
     (target s = None \<longrightarrow> last_sequence_number s = - 1)"

lemma new_shadow_copy_wf [wf_intros]: "shadow_wf new_shadow_copy"
  by (simp add: shadow_wf_def new_shadow_copy_def SNAPSHOT_TIMEOUT_def MAX_EXTRAPOLATION_TIME_def)

lemma shadow_update_wf [wf_intros]:
  "shadow_wf s \<Longrightarrow> shadow_wf (snd (shadow_update p seq t s))"
  by (auto simp: shadow_wf_def shadow_update_def Let_def split: option.split)

lemma lerp_between:
  assumes "0 \<le> alpha" and "alpha \<le> 1"
  shows "min a b \<le> lerp a b alpha \<and> lerp a b alpha \<le> max a b"
proof (cases "a \<le> b")
  case True
  then have "0 \<le> (b - a) * alpha" "(b - a) * alpha \<le> b - a"
    using assms mult_left_le [of alpha "b - a"] by auto
  then show ?thesis using True by (simp add: lerp_def)
next
  case False
  then have "0 \<le> (a - b) * alpha" "(a - b) * alpha \<le> a - b"
    using assms mult_left_le [of alpha "a - b"] by auto
  moreover have "lerp a b alpha = a - (a - b) * alpha"
    by (simp add: lerp_def algebra_simps)
  ultimately show ?thesis using False by linarith
qed

lemma lerp_ends [simp]: "lerp a b 0 = a" "lerp a b 1 = b" "lerp a a alpha = a"
  by (simp_all add: lerp_def)

lemma clamp_unit: "0 \<le> clamp 0 x 1 \<and> clamp 0 x 1 \<le> 1"
  using clamp_bounds [of 0 1 x] by simp

subsection \<open>The adapter and the no-op copy\<close>

text \<open>\<^verbatim>\<open>InterpolatedShadowCopy\<close> passes the reading of its clock.\<close>

definition interpolated_update :: "flt \<Rightarrow> player \<Rightarrow> int \<Rightarrow> shadow_copy \<Rightarrow> shadow_copy" where
  "interpolated_update now p seq s = snd (shadow_update p seq now s)"

definition interpolated_display :: "flt \<Rightarrow> shadow_copy \<Rightarrow> player option result" where
  "interpolated_display now s = get_visual_state now s"

definition noop_update :: "flt \<Rightarrow> player \<Rightarrow> int \<Rightarrow> player option \<Rightarrow> player option" where
  "noop_update now p seq s = Some p"

definition noop_display :: "flt \<Rightarrow> player option \<Rightarrow> player option result" where
  "noop_display now s = Inr s"

text \<open>
  The protocol: a copy that has been given a state shows one of the same entity, and never
  raises.  \<open>shown\<close> is the authoritative state the copy currently stands for.
\<close>

locale display_copy =
  fixes update :: "flt \<Rightarrow> player \<Rightarrow> int \<Rightarrow> 's \<Rightarrow> 's"
    and display :: "flt \<Rightarrow> 's \<Rightarrow> player option result"
    and inv :: "'s \<Rightarrow> bool"
    and shown :: "'s \<Rightarrow> player option"
  assumes update_inv: "inv s \<Longrightarrow> inv (update now p seq s)"
    and display_ok: "inv s \<Longrightarrow> \<exists>d. display now s = Inr d \<and>
      (case shown s of None \<Rightarrow> d = None | Some q \<Rightarrow> \<exists>p. d = Some p \<and> same_entity q p)"
    and update_shown: "inv s \<Longrightarrow> 0 \<le> seq \<Longrightarrow> shown (update now p seq s) \<in> {Some p, shown s} - {None}"
begin

text \<open>Once a state has been received the copy always has something to show.\<close>

lemma displays_after_update:
  assumes "inv s" and "0 \<le> seq"
  shows "\<exists>p'. display later (update now p seq s) = Inr (Some p')"
proof -
  obtain q where "shown (update now p seq s) = Some q"
    using update_shown [OF assms, of now p] by auto
  then show ?thesis
    using display_ok [OF update_inv [OF assms(1)], of later now p seq] by auto
qed

end

lemma get_visual_state_entity:
  assumes "shadow_wf s"
  shows "\<exists>d. get_visual_state now s = Inr d \<and>
    (case target s of None \<Rightarrow> d = None | Some q \<Rightarrow> \<exists>p. d = Some p \<and> same_entity q p)"
  using assms
  by (auto simp: get_visual_state_def shadow_wf_def interpolate_def extrapolate_def Let_def
      same_entity_def split: option.split)

interpretation interpolated: display_copy interpolated_update interpolated_display shadow_wf target
proof unfold_locales
  fix s :: shadow_copy and seq now p
  assume "shadow_wf s" and "(0::int) \<le> seq"
  then show "target (interpolated_update now p seq s) \<in> {Some p, target s} - {None}"
    by (cases "target s")
      (auto simp: interpolated_update_def shadow_update_def shadow_wf_def Let_def)
qed (auto simp: interpolated_update_def interpolated_display_def shadow_update_wf get_visual_state_entity)

interpretation passthrough: display_copy noop_update noop_display "\<lambda>_. True" "\<lambda>s. s"
  by unfold_locales (auto simp: noop_update_def noop_display_def split: option.split)

subsection \<open>Properties\<close>

text \<open>A copy never goes back: a snapshot that is not newer than the last one accepted changes
  nothing, a newer one becomes the target and its predecessor the state to start from.\<close>

theorem shadow_copy_is_monotone:
  assumes "shadow_wf s"
  shows "shadow_update p seq t s =
      (if seq \<le> last_sequence_number s then (False, s)
       else (True, snd (shadow_update p seq t s))) \<and>
    shadow_wf (snd (shadow_update p seq t s)) \<and>
    last_sequence_number (snd (shadow_update p seq t s)) = max seq (last_sequence_number s) \<and>
    (seq > last_sequence_number s \<longrightarrow>
      target (snd (shadow_update p seq t s)) = Some p \<and>
      last_confirmed (snd (shadow_update p seq t s)) = Some (case target s of None \<Rightarrow> p | Some q \<Rightarrow> q))"
  using shadow_update_wf [OF assms, of p seq t]
  by (auto simp: shadow_update_def Let_def max_def split: option.split)

theorem shadow_copy_is_monotone_witness:
  "last_sequence_number (snd (shadow_update (new_player ''player2'' 0 0 1) 7 0 new_shadow_copy)) = 7"
  using shadow_copy_is_monotone [OF new_shadow_copy_wf, of "new_player ''player2'' 0 0 1" 7 0]
  by (simp add: new_shadow_copy_def)

text \<open>What a copy shows is bounded: while snapshots arrive the player is drawn between the last
  two confirmed positions, and when they stop it is drawn no further from the last one than its
  speed times the extrapolation limit, at rest once that limit is reached.\<close>

theorem display_is_bounded:
  assumes "shadow_wf s" and "target s = Some tg" and "last_confirmed s = Some start"
    and "shadow_snapshot_time s = Some t"
  shows "\<exists>p. get_visual_state now s = Inr (Some p) \<and> same_entity tg p \<and>
    (if max 0 (now - t) \<le> snapshot_timeout s
     then min (pos_x start) (pos_x tg) \<le> pos_x p \<and> pos_x p \<le> max (pos_x start) (pos_x tg) \<and>
          min (pos_y start) (pos_y tg) \<le> pos_y p \<and> pos_y p \<le> max (pos_y start) (pos_y tg)
     else \<bar>pos_x p - pos_x tg\<bar> \<le> \<bar>vx tg\<bar> * max_extrapolation_time s \<and>
          \<bar>pos_y p - pos_y tg\<bar> \<le> \<bar>vy tg\<bar> * max_extrapolation_time s \<and>
          (now - t - snapshot_timeout s \<ge> max_extrapolation_time s \<longrightarrow> vx p = 0 \<and> vy p = 0))"
proof (cases "max 0 (now - t) \<le> snapshot_timeout s")
  case True
  let ?a = "clamp 0 (max 0 (now - t) / interpolation_window s) 1"
  show ?thesis
    using True assms lerp_between [of ?a "pos_x start" "pos_x tg"]
      lerp_between [of ?a "pos_y start" "pos_y tg"] clamp_unit
    by (simp add: get_visual_state_def interpolate_def Let_def shadow_wf_def same_entity_def)
next
  case False
  then have elapsed: "max 0 (now - t) = now - t" "now - t > snapshot_timeout s"
    using assms(1) by (auto simp: shadow_wf_def)
  let ?d = "min (now - t - snapshot_timeout s) (max_extrapolation_time s)"
  have "0 \<le> ?d" using elapsed assms(1) by (auto simp: shadow_wf_def)
  then have "\<bar>v * ?d\<bar> \<le> \<bar>v\<bar> * max_extrapolation_time s" for v
    by (simp add: abs_mult mult_left_mono)
  then show ?thesis
    using elapsed assms
    by (simp add: get_visual_state_def extrapolate_def Let_def same_entity_def)
qed

theorem display_is_bounded_witness:
  "\<exists>p. get_visual_state 2 (snd (shadow_update ((new_player ''player2'' 8 0 1)\<lparr>vx := 300\<rparr>) 7 1 new_shadow_copy))
      = Inr (Some p) \<and> \<bar>pos_x p - 8\<bar> \<le> 300 * MAX_EXTRAPOLATION_TIME \<and> vx p = 0"
  using display_is_bounded [OF shadow_update_wf [OF new_shadow_copy_wf],
      of "(new_player ''player2'' 8 0 1)\<lparr>vx := 300\<rparr>" 7 1
        "(new_player ''player2'' 8 0 1)\<lparr>vx := 300\<rparr>" "(new_player ''player2'' 8 0 1)\<lparr>vx := 300\<rparr>" 1 2]
  by (auto simp: shadow_update_def new_shadow_copy_def new_player_def
      SNAPSHOT_TIMEOUT_def MAX_EXTRAPOLATION_TIME_def)

text \<open>The picture does not jump: at the moment a newer snapshot is accepted the copy is drawn at
  the position confirmed before, and once the interpolation window has passed, at the new one.\<close>

theorem display_starts_and_ends_on_snapshots:
  assumes "shadow_wf s" and "target s = Some old" and "seq > last_sequence_number s"
  shows "(\<exists>p. get_visual_state t (snd (shadow_update new_p seq t s)) = Inr (Some p) \<and>
      pos_x p = pos_x old \<and> pos_y p = pos_y old) \<and>
    (\<exists>p. get_visual_state (t + interpolation_window (snd (shadow_update new_p seq t s)))
         (snd (shadow_update new_p seq t s)) = Inr (Some p) \<and>
      pos_x p = pos_x new_p \<and> pos_y p = pos_y new_p)"
proof -
  let ?s = "snd (shadow_update new_p seq t s)"
  have wf: "shadow_wf ?s" by (rule shadow_update_wf [OF assms(1)])
  have st: "target ?s = Some new_p" "last_confirmed ?s = Some old" "shadow_snapshot_time ?s = Some t"
      "snapshot_timeout ?s = snapshot_timeout s"
    using assms(2,3) by (simp_all add: shadow_update_def Let_def)
  have w: "0 < interpolation_window ?s" "interpolation_window ?s \<le> snapshot_timeout ?s"
    using wf by (simp_all add: shadow_wf_def)
  have 1: "get_visual_state t ?s = rbind (interpolate 0 ?s) (\<lambda>p. Inr (Some p))"
    using w by (simp add: get_visual_state_def st)
  have 2: "get_visual_state (t + interpolation_window ?s) ?s = rbind (interpolate 1 ?s) (\<lambda>p. Inr (Some p))"
    using w by (simp add: get_visual_state_def st Let_def)
  from 1 2 show ?thesis by (simp add: interpolate_def st clamp_def)
qed

theorem display_starts_and_ends_on_snapshots_witness:
  "\<exists>p. get_visual_state 2 (snd (shadow_update (new_player ''player2'' 9 0 1) 8 2
      (snd (shadow_update (new_player ''player2'' 5 0 1) 7 1 new_shadow_copy)))) = Inr (Some p) \<and> pos_x p = 5"
  using display_starts_and_ends_on_snapshots [OF shadow_update_wf [OF new_shadow_copy_wf],
      of "new_player ''player2'' 5 0 1" 7 1 "new_player ''player2'' 5 0 1" 8 2 "new_player ''player2'' 9 0 1"]
  by (auto simp: shadow_update_def new_shadow_copy_def new_player_def)

end
