(* ===== verification/Agents.thy ===== *)
theory Agents
  imports Buffers Engine_Props
begin

text \<open>
  The agent layer: the contracts of \<^verbatim>\<open>agents/models.py\<close>, the controllers of
  \<^verbatim>\<open>agents/controller.py\<close> and \<^verbatim>\<open>agents/bdi/goomba.py\<close>, and the adapter
  \<^verbatim>\<open>application/agent_integration.py\<close>: the bounded bridge to the agent runtime, the enemy's
  sight, and the simulation tick that consumes the agents' decisions.

  Objects of foreign types that the code checks for at run time are the constructors
  \<open>Other_Request\<close>, \<open>Other_Action\<close> and \<open>Other_Sequence\<close>.  The order in which Python iterates a
  set of identifiers is unspecified, so it is the argument \<open>iterate\<close> of the tick.  A controller
  object is the function its \<^verbatim>\<open>decide\<close> computes; it may raise.
\<close>

subsection \<open>Contracts\<close>

record position =
  at_x :: flt
  at_y :: flt

datatype obstacle_kind = OBSTACLE_PLATFORM | OBSTACLE_BLOCK

datatype sight_direction = SIGHT_LEFT | SIGHT_RIGHT

record obstacle_observation = body +
  obstacle_kind :: obstacle_kind

record player_perception =
  seen_player_id :: ident
  seen_position :: position
  seen_width :: flt
  seen_height :: flt

record goomba_perception =
  goomba_id :: ident
  goomba_position :: position
  goomba_direction :: sight_direction
  visible_players :: "player_perception list"
  visible_obstacles :: "obstacle_observation list"

record perception_message =
  simulation_sequence :: int
  perception :: goomba_perception

datatype enemy_action = ACT_MOVE_LEFT | ACT_MOVE_RIGHT | ACT_STOP | ACT_JUMP

datatype movement_command = MOVE_LEFT | MOVE_RIGHT | STOP

datatype action_object = Action enemy_action | Other_Action string

datatype sequence_object = No_Sequence | Sequence int | Other_Sequence

record action_request =
  request_enemy_id :: ident
  request_action :: action_object
  observation_sequence :: sequence_object

datatype request_object = Request action_request | Other_Request

datatype action_status = APPLIED | UNSUPPORTED | INVALID_ACTION | INVALID_TARGET | DISABLED

record action_result =
  result_enemy_id :: ident
  requested_action :: "action_object option"
  result_status :: action_status
  engine_command_of :: "movement_command option"
  position_before :: "position option"
  position_after :: "position option"
  result_message :: string

text \<open>\<^verbatim>\<open>ActionRequest(enemy_id, action)\<close> with the default sequence.\<close>

definition action_request_for :: "ident \<Rightarrow> enemy_action \<Rightarrow> action_request" where
  "action_request_for eid a =
     \<lparr>request_enemy_id = eid, request_action = Action a, observation_sequence = No_Sequence\<rparr>"

text \<open>\<^verbatim>\<open>min\<close> with a key: the first of the least, \<open>None\<close> for the default.\<close>

definition distance_key :: "goomba_perception \<Rightarrow> player_perception \<Rightarrow> flt \<times> ident" where
  "distance_key g p =
     ((at_x (seen_position p) - at_x (goomba_position g)) ^ 2
        + (at_y (seen_position p) - at_y (goomba_position g)) ^ 2, seen_player_id p)"

fun key_less :: "flt \<times> ident \<Rightarrow> flt \<times> ident \<Rightarrow> bool" where
  "key_less (d, i) (d', i') \<longleftrightarrow> d < d' \<or> d = d' \<and> i < i'"

fun least_by :: "('a \<Rightarrow> flt \<times> ident) \<Rightarrow> 'a list \<Rightarrow> 'a option" where
  "least_by f [] = None"
| "least_by f (x # xs) =
     (case least_by f xs of
        None \<Rightarrow> Some x
      | Some y \<Rightarrow> Some (if key_less (f y) (f x) then y else x))"

definition nearest_visible_player :: "goomba_perception \<Rightarrow> player_perception option" where
  "nearest_visible_player g = least_by (distance_key g) (visible_players g)"

definition target_player_id :: "goomba_perception \<Rightarrow> ident option" where
  "target_player_id g = map_option seen_player_id (nearest_visible_player g)"

definition mario_position :: "goomba_perception \<Rightarrow> position option" where
  "mario_position g = map_option seen_position (nearest_visible_player g)"

subsection \<open>Controllers\<close>

type_synonym decide = "goomba_perception \<Rightarrow> request_object result"

definition new_pursuit :: "flt \<Rightarrow> flt result" where
  "new_pursuit deadband =
     (if deadband < 0 then Inl (ValueError ''horizontal_deadband must be non-negative'')
      else Inr deadband)"

definition pursuit_action :: "flt \<Rightarrow> goomba_perception \<Rightarrow> enemy_action" where
  "pursuit_action deadband g =
     (case mario_position g of
        None \<Rightarrow> ACT_STOP
      | Some target \<Rightarrow>
          let delta_x = at_x target - at_x (goomba_position g) in
          if delta_x > deadband then ACT_MOVE_RIGHT
          else if delta_x < - deadband then ACT_MOVE_LEFT
          else ACT_STOP)"

definition pursuit_decide :: "flt \<Rightarrow> decide" where
  "pursuit_decide deadband g = Inr (Request (action_request_for (goomba_id g) (pursuit_action deadband g)))"

text \<open>The patrol behaviour of the SPADE agent: the belief it sets and the action it sends.\<close>

datatype patrol_action = TURN_AROUND | PATROL_RIGHT | PATROL_LEFT

definition patrol_step :: "bool \<Rightarrow> string \<Rightarrow> bool \<times> patrol_action option" where
  "patrol_step obstacle_ahead direction =
     (if obstacle_ahead then (True, Some TURN_AROUND)
      else if direction = ''right'' then (False, Some PATROL_RIGHT)
      else if direction = ''left'' then (False, Some PATROL_LEFT)
      else (False, None))"

text \<open>The custom action \<^verbatim>\<open>.turn_around\<close> on the agent's two beliefs.\<close>

definition turn_around :: "bool \<times> string option \<Rightarrow> bool \<times> string option" where
  "turn_around beliefs =
     (False,
      if snd beliefs = Some ''right'' then Some ''left''
      else if snd beliefs = Some ''left'' then Some ''right''
      else snd beliefs)"

subsection \<open>The bridge\<close>

definition AGENT_QUEUE_CAPACITY :: int where "AGENT_QUEUE_CAPACITY = 64"

record bridge =
  perceptions :: "perception_message bounded_queue"
  action_requests :: "action_request bounded_queue"
  dropped_perceptions :: int
  dropped_actions :: int

definition new_bridge :: bridge where
  "new_bridge =
     \<lparr>perceptions = \<lparr>maxsize = AGENT_QUEUE_CAPACITY, queued = []\<rparr>,
      action_requests = \<lparr>maxsize = AGENT_QUEUE_CAPACITY, queued = []\<rparr>,
      dropped_perceptions = 0, dropped_actions = 0\<rparr>"

definition publish :: "perception_message \<Rightarrow> bridge \<Rightarrow> bridge" where
  "publish m b =
     (let (dropped, q) = put_latest m (perceptions b) 0
      in b\<lparr>perceptions := q, dropped_perceptions := dropped_perceptions b + dropped\<rparr>)"

definition submit_action :: "request_object \<Rightarrow> bridge \<Rightarrow> bridge result" where
  "submit_action r b =
     (case r of
        Other_Request \<Rightarrow> Inl (TypeError ''SPADE must submit ActionRequest instances'')
      | Request req \<Rightarrow>
          let (dropped, q) = put_latest req (action_requests b) 0
          in Inr (b\<lparr>action_requests := q, dropped_actions := dropped_actions b + dropped\<rparr>))"

definition discard_perceptions :: "bridge \<Rightarrow> bridge" where
  "discard_perceptions b = b\<lparr>perceptions := fst (drain_queue (\<lambda>_ u. u) (perceptions b) ())\<rparr>"

definition discard_queued_actions :: "bridge \<Rightarrow> bridge" where
  "discard_queued_actions b =
     b\<lparr>action_requests := fst (drain_queue (\<lambda>_ u. u) (action_requests b) ())\<rparr>"

definition poll_perception :: "bridge \<Rightarrow> perception_message option \<times> bridge" where
  "poll_perception b =
     (case get_nowait (perceptions b) of
        None \<Rightarrow> (None, b)
      | Some (m, q) \<Rightarrow> (Some m, b\<lparr>perceptions := q\<rparr>))"

subsection \<open>The enemy's sight\<close>

definition GOOMBA_SIGHT_DISTANCE :: flt where "GOOMBA_SIGHT_DISTANCE = 200"

definition center_of :: "'a body_scheme \<Rightarrow> position" where
  "center_of b = \<lparr>at_x = pos_x b + width b / 2, at_y = pos_y b + height b / 2\<rparr>"

definition is_in_sight :: "flt \<Rightarrow> position \<Rightarrow> position \<Rightarrow> sight_direction \<Rightarrow> bool" where
  "is_in_sight sight_distance origin target direction =
     (let delta_x = at_x target - at_x origin;
          delta_y = at_y target - at_y origin;
          is_forward = (case direction of SIGHT_LEFT \<Rightarrow> delta_x \<le> 0 | SIGHT_RIGHT \<Rightarrow> delta_x \<ge> 0)
      in is_forward \<and> delta_x ^ 2 + delta_y ^ 2 \<le> sight_distance ^ 2)"

text \<open>One axis of the slab test, and both.\<close>

definition clip_axis :: "flt \<Rightarrow> flt \<Rightarrow> flt \<Rightarrow> flt \<Rightarrow> flt \<times> flt \<Rightarrow> (flt \<times> flt) option" where
  "clip_axis origin delta minimum maximum = (\<lambda>(entry, leave).
     if delta = 0 then
       (if origin < minimum \<or> origin > maximum then None else Some (entry, leave))
     else
       let first = (minimum - origin) / delta;
           second = (maximum - origin) / delta;
           (first, second) = (if first > second then (second, first) else (first, second));
           entry = max entry first;
           leave = min leave second
       in if entry > leave then None else Some (entry, leave))"

definition segment_rectangle_intersection ::
  "position \<Rightarrow> position \<Rightarrow> flt \<Rightarrow> flt \<Rightarrow> flt \<Rightarrow> flt \<Rightarrow> (flt \<times> flt) option" where
  "segment_rectangle_intersection p q left_x top_y right_x bottom_y =
     (let delta_x = at_x q - at_x p;
          delta_y = at_y q - at_y p
      in Option.bind (clip_axis (at_x p) delta_x left_x right_x (0, 1))
           (clip_axis (at_y p) delta_y top_y bottom_y))"

definition blocks_line :: "position \<Rightarrow> position \<Rightarrow> 'a body_scheme \<Rightarrow> bool" where
  "blocks_line origin target ob =
     (case segment_rectangle_intersection origin target (pos_x ob) (pos_y ob)
             (pos_x ob + width ob) (pos_y ob + height ob) of
        None \<Rightarrow> False
      | Some (entry, leave) \<Rightarrow> entry < 1 - 1 / 10 ^ 9 \<and> leave > 1 / 10 ^ 9)"

definition has_clear_line ::
  "position \<Rightarrow> position \<Rightarrow> obstacle_observation list \<Rightarrow> nat option \<Rightarrow> bool" where
  "has_clear_line origin target obstacles ignored =
     list_all (\<lambda>(i, ob). Some i = ignored \<or> \<not> blocks_line origin target ob) (enumerate 0 obstacles)"

definition obstacle_of :: "obstacle_kind \<Rightarrow> 'a body_scheme \<Rightarrow> obstacle_observation" where
  "obstacle_of k b =
     \<lparr>pos_x = pos_x b, pos_y = pos_y b, width = width b, height = height b, obstacle_kind = k\<rparr>"

definition obstacle_candidates :: "game_engine \<Rightarrow> obstacle_observation list" where
  "obstacle_candidates e =
     map (obstacle_of OBSTACLE_PLATFORM) (platforms e)
     @ map (obstacle_of OBSTACLE_BLOCK)
         (filter (\<lambda>b. \<not> destroyed b) (destructible_blocks (environment (world_state e))))"

definition can_see_player ::
  "flt \<Rightarrow> player \<Rightarrow> position \<Rightarrow> sight_direction \<Rightarrow> obstacle_observation list \<Rightarrow> bool" where
  "can_see_player d p origin direction obstacles \<longleftrightarrow>
     is_in_sight d origin (center_of p) direction \<and> has_clear_line origin (center_of p) obstacles None"

definition perceive_player :: "player \<Rightarrow> player_perception" where
  "perceive_player p =
     \<lparr>seen_player_id = player_id p, seen_position = \<lparr>at_x = pos_x p, at_y = pos_y p\<rparr>,
      seen_width = width p, seen_height = height p\<rparr>"

definition visible_obstacles_from ::
  "flt \<Rightarrow> position \<Rightarrow> sight_direction \<Rightarrow> obstacle_observation list \<Rightarrow> obstacle_observation list" where
  "visible_obstacles_from d origin direction obstacles =
     map snd (filter (\<lambda>(i, ob). is_in_sight d origin (center_of ob) direction
                         \<and> has_clear_line origin (center_of ob) obstacles (Some i))
               (enumerate 0 obstacles))"

definition sight_direction_of :: "enemy \<Rightarrow> sight_direction" where
  "sight_direction_of en = (if enemy_vx en < 0 then SIGHT_LEFT else SIGHT_RIGHT)"

definition observe :: "flt \<Rightarrow> ident \<Rightarrow> game_engine \<Rightarrow> goomba_perception result" where
  "observe d eid e =
     (case map_of (enemies (environment (world_state e))) eid of
        None \<Rightarrow> Inl (EnemyNotFoundError eid)
      | Some en \<Rightarrow>
          let obstacles = obstacle_candidates e;
              origin = center_of en;
              direction = sight_direction_of en
          in Inr \<lparr>goomba_id = enemy_id en,
                  goomba_position = \<lparr>at_x = pos_x en, at_y = pos_y en\<rparr>,
                  goomba_direction = direction,
                  visible_players = map perceive_player
                    (filter (\<lambda>p. can_see_player d p origin direction obstacles)
                      (sort_key player_id (dict_values (characters (world_state e))))),
                  visible_obstacles = visible_obstacles_from d origin direction obstacles\<rparr>)"

subsection \<open>The integration\<close>

datatype controller = Fixed enemy_action | Decider decide

record integration =
  ai_engine :: game_engine
  ai_enabled :: bool
  perception_interval_ticks :: int
  action_max_age_ticks :: int
  controllers :: "controller dict"
  spade_ids :: "ident fset"
  ai_bridge :: bridge
  last_results :: "action_result dict"
  sight_distance :: flt
  latest_spade_actions :: "action_request dict"

text \<open>\<^verbatim>\<open>EnemyPerceptor.__post_init__\<close>: a perceptor is its sight distance.\<close>

definition new_perceptor :: "flt \<Rightarrow> flt result" where
  "new_perceptor distance =
     (if distance < 0 then Inl (ValueError ''sight_distance must be non-negative'') else Inr distance)"

lemma default_perceptor [simp]: "new_perceptor GOOMBA_SIGHT_DISTANCE = Inr GOOMBA_SIGHT_DISTANCE"
  by (simp add: new_perceptor_def GOOMBA_SIGHT_DISTANCE_def)

definition new_integration ::
  "game_engine \<Rightarrow> bool \<Rightarrow> int \<Rightarrow> int option \<Rightarrow> integration result" where
  "new_integration e enabled interval max_age =
     (if interval < 1 then Inl (ValueError ''perception_interval_ticks must be at least one'')
      else if (case max_age of None \<Rightarrow> False | Some a \<Rightarrow> a < 0)
      then Inl (ValueError ''action_max_age_ticks must be non-negative'')
      else rbind (new_perceptor GOOMBA_SIGHT_DISTANCE) (\<lambda>distance.
             Inr \<lparr>ai_engine = e, ai_enabled = enabled, perception_interval_ticks = interval,
                action_max_age_ticks = (case max_age of None \<Rightarrow> 2 * interval | Some a \<Rightarrow> a),
                controllers = [], spade_ids = {||}, ai_bridge = new_bridge, last_results = [],
                sight_distance = distance, latest_spade_actions = []\<rparr>))"

definition enemy_exists :: "ident \<Rightarrow> integration \<Rightarrow> bool" where
  "enemy_exists eid st \<longleftrightarrow> eid \<in> fst ` set (enemies (environment (world_state (ai_engine st))))"

definition control_enemy :: "ident \<Rightarrow> controller \<Rightarrow> integration \<Rightarrow> integration result" where
  "control_enemy eid c st =
     (if \<not> enemy_exists eid st then Inl (EnemyNotFoundError eid)
      else Inr (st\<lparr>spade_ids := spade_ids st |-| {|eid|},
                   controllers := AList.update eid c (controllers st)\<rparr>))"

definition control_enemy_with_spade :: "ident \<Rightarrow> integration \<Rightarrow> integration result" where
  "control_enemy_with_spade eid st =
     (if \<not> enemy_exists eid st then Inl (EnemyNotFoundError eid)
      else if eid \<in> fst ` set (controllers st)
      then Inl (ValueError ''already has a synchronous controller'')
      else Inr (st\<lparr>spade_ids := finsert eid (spade_ids st)\<rparr>))"

definition release_enemy :: "ident \<Rightarrow> integration \<Rightarrow> integration" where
  "release_enemy eid st =
     st\<lparr>controllers := AList.delete eid (controllers st),
        spade_ids := spade_ids st |-| {|eid|},
        latest_spade_actions := AList.delete eid (latest_spade_actions st)\<rparr>"

text \<open>Which queued requests are accepted, and how an accepted one is stored.\<close>

definition fresh_sequence :: "int \<Rightarrow> int \<Rightarrow> sequence_object \<Rightarrow> bool" where
  "fresh_sequence max_age current s =
     (case s of Sequence n \<Rightarrow> n \<le> current \<and> current - n \<le> max_age | _ \<Rightarrow> False)"

definition sequence_ge :: "sequence_object \<Rightarrow> sequence_object \<Rightarrow> bool" where
  "sequence_ge s s' =
     (case (s, s') of (Sequence n, Sequence n') \<Rightarrow> n' \<le> n | (_, No_Sequence) \<Rightarrow> True | _ \<Rightarrow> False)"

definition accept_request ::
  "ident fset \<Rightarrow> int \<Rightarrow> int \<Rightarrow> action_request \<Rightarrow> action_request dict \<Rightarrow> action_request dict" where
  "accept_request ids max_age current r latest =
     (if request_enemy_id r |\<notin>| ids \<or> \<not> fresh_sequence max_age current (observation_sequence r)
      then latest
      else case map_of latest (request_enemy_id r) of
        None \<Rightarrow> AList.update (request_enemy_id r) r latest
      | Some previous \<Rightarrow>
          if sequence_ge (observation_sequence r) (observation_sequence previous)
          then AList.update (request_enemy_id r) r latest
          else latest)"

definition drain_spade_actions :: "int \<Rightarrow> integration \<Rightarrow> integration" where
  "drain_spade_actions current st =
     (let (q, latest) = drain_queue (accept_request (spade_ids st) (action_max_age_ticks st) current)
                          (action_requests (ai_bridge st)) (latest_spade_actions st)
      in st\<lparr>ai_bridge := (ai_bridge st)\<lparr>action_requests := q\<rparr>, latest_spade_actions := latest\<rparr>)"

definition too_old :: "int \<Rightarrow> int \<Rightarrow> sequence_object \<Rightarrow> bool" where
  "too_old max_age current s = (case s of Sequence n \<Rightarrow> current - n > max_age | _ \<Rightarrow> True)"

definition spade_action_for ::
  "int \<Rightarrow> int \<Rightarrow> ident \<Rightarrow> action_request dict \<Rightarrow> action_request \<times> action_request dict" where
  "spade_action_for max_age current eid latest =
     (case map_of latest eid of
        None \<Rightarrow> (action_request_for eid ACT_STOP, AList.delete eid latest)
      | Some r \<Rightarrow>
          if too_old max_age current (observation_sequence r)
          then (action_request_for eid ACT_STOP, AList.delete eid latest)
          else (r, latest))"

definition translate_action :: "action_object \<Rightarrow> movement_command \<times> action_status \<times> string" where
  "translate_action a =
     (case a of
        Action ACT_MOVE_LEFT \<Rightarrow> (MOVE_LEFT, APPLIED, [])
      | Action ACT_MOVE_RIGHT \<Rightarrow> (MOVE_RIGHT, APPLIED, [])
      | Action ACT_STOP \<Rightarrow> (STOP, APPLIED, [])
      | Action ACT_JUMP \<Rightarrow> (STOP, UNSUPPORTED, ''Enemies do not support jumping'')
      | Other_Action r \<Rightarrow> (STOP, INVALID_ACTION, ''Unsupported action '' @ r))"

fun engine_command :: "movement_command \<Rightarrow> enemy_movement_command" where
  "engine_command MOVE_LEFT = CMD_MOVE_LEFT"
| "engine_command MOVE_RIGHT = CMD_MOVE_RIGHT"
| "engine_command STOP = CMD_STOP"

definition position_of :: "ident \<Rightarrow> game_engine \<Rightarrow> position option" where
  "position_of eid e =
     map_option (\<lambda>en. \<lparr>at_x = pos_x en, at_y = pos_y en\<rparr>)
       (map_of (enemies (environment (world_state e))) eid)"

text \<open>What the decision loop accumulates: the SPADE actions left, the commands, the results.\<close>

record decisions =
  dec_latest :: "action_request dict"
  dec_directions :: "(ident \<times> command_object) list"
  dec_pending :: "action_result dict"

text \<open>The request an enemy that exists acts on.\<close>

definition request_for ::
  "integration \<Rightarrow> int \<Rightarrow> action_request dict \<Rightarrow> ident \<Rightarrow> action_request dict
     \<Rightarrow> (request_object \<times> action_request dict) result" where
  "request_for st current requests eid latest =
     (case map_of requests eid of
        Some r \<Rightarrow> Inr (Request r, latest)
      | None \<Rightarrow>
          (case map_of (controllers st) eid of
             Some (Fixed a) \<Rightarrow> Inr (Request (action_request_for eid a), latest)
           | Some (Decider decide) \<Rightarrow>
               rbind (observe (sight_distance st) eid (ai_engine st)) (\<lambda>g.
               rbind (decide g) (\<lambda>r. Inr (r, latest)))
           | None \<Rightarrow>
               let (r, latest') = spade_action_for (action_max_age_ticks st) current eid latest
               in Inr (Request r, latest')))"

definition mk_result ::
  "ident \<Rightarrow> action_object option \<Rightarrow> action_status \<Rightarrow> movement_command option \<Rightarrow> position option
     \<Rightarrow> string \<Rightarrow> action_result" where
  "mk_result eid a status command before msg =
     \<lparr>result_enemy_id = eid, requested_action = a, result_status = status,
      engine_command_of = command, position_before = before, position_after = None,
      result_message = msg\<rparr>"

definition known_action :: "action_object \<Rightarrow> action_object option" where
  "known_action a = (case a of Action _ \<Rightarrow> Some a | Other_Action _ \<Rightarrow> None)"

definition decide_enemy ::
  "integration \<Rightarrow> int \<Rightarrow> action_request dict \<Rightarrow> ident \<Rightarrow> decisions \<Rightarrow> decisions result" where
  "decide_enemy st current requests eid d =
     (case map_of (enemies (environment (world_state (ai_engine st)))) eid of
        None \<Rightarrow>
          Inr (d\<lparr>dec_pending := AList.update eid
                (mk_result eid (map_option request_action (map_of requests eid)) INVALID_TARGET None None
                   (''Enemy '' @ eid @ '' does not exist'')) (dec_pending d)\<rparr>)
      | Some en \<Rightarrow>
          rbind (request_for st current requests eid (dec_latest d)) (\<lambda>(r, latest).
          let before = Some \<lparr>at_x = pos_x en, at_y = pos_y en\<rparr> in
          case r of
            Other_Request \<Rightarrow> Inl (TypeError ''Enemy controllers must return an ActionRequest'')
          | Request req \<Rightarrow>
              let (command, status, msg) =
                    (if request_enemy_id req \<noteq> eid
                     then (STOP, INVALID_TARGET, ''An agent may only control its selected enemy'')
                     else translate_action (request_action req));
                  action = (if request_enemy_id req \<noteq> eid then Some (request_action req)
                            else known_action (request_action req))
              in Inr \<lparr>dec_latest = latest,
                      dec_directions =
                        AList.update eid (Command (engine_command command)) (dec_directions d),
                      dec_pending = AList.update eid
                        (mk_result eid action status (Some command) before msg) (dec_pending d)\<rparr>))"

definition unselected_result :: "ident \<Rightarrow> action_request \<Rightarrow> action_result" where
  "unselected_result eid r =
     mk_result eid (Some (request_action r)) INVALID_TARGET None None
       (''Enemy '' @ eid @ '' is not selected for agent control'')"

definition disabled_result :: "ident \<Rightarrow> action_request \<Rightarrow> action_result" where
  "disabled_result eid r =
     mk_result eid (Some (request_action r)) DISABLED None None ''Agent control is disabled''"

definition reject_unselected ::
  "ident fset \<Rightarrow> action_request dict \<Rightarrow> action_result dict \<Rightarrow> action_result dict" where
  "reject_unselected ids requests pending =
     fold (\<lambda>(eid, r) pending.
       if eid |\<in>| ids then pending else AList.update eid (unselected_result eid r) pending)
       requests pending"

definition publish_perceptions :: "int \<Rightarrow> integration \<Rightarrow> integration result" where
  "publish_perceptions sequence st =
     fold_res (\<lambda>eid st.
       if \<not> enemy_exists eid st then Inr st
       else rbind (observe (sight_distance st) eid (ai_engine st)) (\<lambda>g.
         Inr (st\<lparr>ai_bridge := publish \<lparr>simulation_sequence = sequence, perception = g\<rparr> (ai_bridge st)\<rparr>)))
       (sorted_list_of_fset (spade_ids st)) st"

text \<open>The requests of the caller, once all of them are known to be of the right class.\<close>

definition genuine_requests :: "request_object dict \<Rightarrow> action_request dict result" where
  "genuine_requests rs =
     map_res (\<lambda>(eid, r). case r of
         Request q \<Rightarrow> Inr (eid, q)
       | Other_Request \<Rightarrow> Inl (TypeError ''action_requests values must be ActionRequest instances'')) rs"

definition controlled_ids :: "integration \<Rightarrow> ident fset" where
  "controlled_ids st = fset_of_list (dict_keys (controllers st)) |\<union>| spade_ids st"

definition tick_disabled ::
  "tick_clock \<Rightarrow> flt \<Rightarrow> input_state dict \<Rightarrow> action_request dict \<Rightarrow> integration \<Rightarrow> integration result" where
  "tick_disabled clk dt inputs requests st =
     (let b = discard_perceptions (discard_queued_actions (ai_bridge st)) in
      rbind (tick clk dt inputs None (ai_engine st)) (\<lambda>e.
        Inr (st\<lparr>latest_spade_actions := [], ai_bridge := b, ai_engine := e,
                last_results := map (\<lambda>(eid, r). (eid, disabled_result eid r)) requests\<rparr>)))"

definition tick_enabled ::
  "(ident fset \<Rightarrow> ident list) \<Rightarrow> tick_clock \<Rightarrow> flt \<Rightarrow> input_state dict \<Rightarrow> action_request dict
     \<Rightarrow> integration \<Rightarrow> integration result" where
  "tick_enabled iterate clk dt inputs requests st =
     (let current = sequence_number (world_state (ai_engine st));
          st1 = drain_spade_actions current st;
          ids = controlled_ids st1
      in rbind (fold_res (decide_enemy st1 current requests) (iterate ids)
              \<lparr>dec_latest = latest_spade_actions st1, dec_directions = [], dec_pending = []\<rparr>) (\<lambda>d.
         let pending = reject_unselected ids requests (dec_pending d) in
         rbind (tick clk dt inputs
                  (if dec_directions d \<noteq> [] then Some (dec_directions d) else None) (ai_engine st1)) (\<lambda>e.
         let st2 = st1\<lparr>ai_engine := e, latest_spade_actions := dec_latest d\<rparr>;
             sequence = sequence_number (world_state e)
         in rbind (if sequence mod perception_interval_ticks st2 = 0
                   then publish_perceptions sequence st2 else Inr st2) (\<lambda>st3.
         Inr (st3\<lparr>last_results :=
           map (\<lambda>(eid, r). (eid, r\<lparr>position_after := position_of eid (ai_engine st3)\<rparr>)) pending\<rparr>)))))"

definition agent_tick ::
  "(ident fset \<Rightarrow> ident list) \<Rightarrow> tick_clock \<Rightarrow> flt \<Rightarrow> input_state dict \<Rightarrow> request_object dict
     \<Rightarrow> integration \<Rightarrow> integration result" where
  "agent_tick iterate clk dt inputs requests st =
     rbind (genuine_requests requests) (\<lambda>rs.
       if \<not> ai_enabled st then tick_disabled clk dt inputs rs st
       else tick_enabled iterate clk dt inputs rs st)"

end
