(* ===== verification/Agents_Props.thy ===== *)
theory Agents_Props
  imports Agents
begin

text \<open>
  The properties of the agent layer: what an enemy sees, what the bridge keeps, who controls an
  enemy, and which command an enemy gets.  The locale \<open>enemy_controller\<close> is the contract of the
  protocol \<^verbatim>\<open>EnemyController\<close>.
\<close>

subsection \<open>Lines of sight\<close>

text \<open>The point at parameter \<open>t\<close> of a segment lies in a rectangle.\<close>

definition inside :: "position \<Rightarrow> position \<Rightarrow> flt \<Rightarrow> flt \<Rightarrow> flt \<Rightarrow> flt \<Rightarrow> flt \<Rightarrow> bool" where
  "inside p q left_x top_y right_x bottom_y t \<longleftrightarrow>
     0 \<le> t \<and> t \<le> 1 \<and>
     left_x \<le> at_x p + t * (at_x q - at_x p) \<and> at_x p + t * (at_x q - at_x p) \<le> right_x \<and>
     top_y \<le> at_y p + t * (at_y q - at_y p) \<and> at_y p + t * (at_y q - at_y p) \<le> bottom_y"

definition in_interval :: "(flt \<times> flt) option \<Rightarrow> flt \<Rightarrow> bool" where
  "in_interval r t = (case r of None \<Rightarrow> False | Some (a, b) \<Rightarrow> a \<le> t \<and> t \<le> b)"

lemma slab:
  fixes d :: flt
  assumes "d \<noteq> 0" and "mn \<le> mx"
  shows "(mn \<le> x + t * d \<and> x + t * d \<le> mx) \<longleftrightarrow>
    min ((mn - x) / d) ((mx - x) / d) \<le> t \<and> t \<le> max ((mn - x) / d) ((mx - x) / d)"
proof (cases "d > 0")
  case True
  then have "(mn - x) / d \<le> (mx - x) / d" using assms(2) by (simp add: divide_right_mono)
  then show ?thesis
    using True by (simp add: min_absorb1 max_absorb2 pos_divide_le_eq pos_le_divide_eq algebra_simps)
next
  case False
  then have d: "d < 0" using assms(1) by simp
  then have "(mx - x) / d \<le> (mn - x) / d" using assms(2) by (simp add: divide_right_mono_neg)
  then show ?thesis
    using d by (auto simp: min_absorb2 max_absorb1 neg_divide_le_eq neg_le_divide_eq algebra_simps)
qed

lemma clip_axis_exact:
  assumes "mn \<le> mx"
  shows "in_interval (clip_axis x d mn mx (a, b)) t \<longleftrightarrow>
    a \<le> t \<and> t \<le> b \<and> mn \<le> x + t * d \<and> x + t * d \<le> mx"
proof (cases "d = 0")
  case True
  then show ?thesis by (auto simp: clip_axis_def in_interval_def)
next
  case False
  show ?thesis
    unfolding slab [OF False assms]
    by (auto simp: clip_axis_def in_interval_def Let_def False min_def max_def split: prod.split)
qed

lemma clip_axis_ordered: "a \<le> b \<Longrightarrow> clip_axis x d mn mx (a, b) = Some (a', b') \<Longrightarrow> a' \<le> b'"
  by (auto simp: clip_axis_def Let_def split: if_splits prod.splits)

lemma intersection_exact:
  assumes "left_x \<le> right_x" and "top_y \<le> bottom_y"
  shows "in_interval (segment_rectangle_intersection p q left_x top_y right_x bottom_y) t
    \<longleftrightarrow> inside p q left_x top_y right_x bottom_y t"
proof (cases "clip_axis (at_x p) (at_x q - at_x p) left_x right_x (0, 1)")
  case None
  then show ?thesis
    using clip_axis_exact [OF assms(1), of "at_x p" "at_x q - at_x p" 0 1 t]
    by (auto simp: segment_rectangle_intersection_def in_interval_def inside_def)
next
  case (Some r)
  obtain a b where r: "r = (a, b)" by force
  show ?thesis
    using clip_axis_exact [OF assms(1), of "at_x p" "at_x q - at_x p" 0 1 t]
      clip_axis_exact [OF assms(2), of "at_y p" "at_y q - at_y p" a b t]
    unfolding Some r
    by (auto simp: segment_rectangle_intersection_def Some r inside_def in_interval_def)
qed

lemma intersection_ordered:
  assumes "segment_rectangle_intersection p q left_x top_y right_x bottom_y = Some (a, b)"
  shows "a \<le> b"
  using assms unfolding segment_rectangle_intersection_def Let_def
  by (auto simp: bind_eq_Some_conv intro: clip_axis_ordered [OF clip_axis_ordered [of 0 1]])

text \<open>An obstacle obstructs a segment when they meet before its end and after its start.\<close>

definition obstructs :: "'a body_scheme \<Rightarrow> position \<Rightarrow> position \<Rightarrow> bool" where
  "obstructs ob p q \<longleftrightarrow>
     (\<exists>t. inside p q (pos_x ob) (pos_y ob) (pos_x ob + width ob) (pos_y ob + height ob) t
        \<and> t < 1 - 1 / 10 ^ 9) \<and>
     (\<exists>t. inside p q (pos_x ob) (pos_y ob) (pos_x ob + width ob) (pos_y ob + height ob) t
        \<and> 1 / 10 ^ 9 < t)"

definition solid :: "'a body_scheme \<Rightarrow> bool" where
  "solid b \<longleftrightarrow> 0 \<le> width b \<and> 0 \<le> height b"

lemma blocks_line_exact:
  assumes "solid ob"
  shows "blocks_line p q ob \<longleftrightarrow> obstructs ob p q"
proof -
  let ?i = "segment_rectangle_intersection p q (pos_x ob) (pos_y ob) (pos_x ob + width ob) (pos_y ob + height ob)"
  have exact: "in_interval ?i t \<longleftrightarrow>
      inside p q (pos_x ob) (pos_y ob) (pos_x ob + width ob) (pos_y ob + height ob) t" for t
    by (rule intersection_exact) (use assms in \<open>simp_all add: solid_def\<close>)
  show ?thesis
  proof (cases ?i)
    case None
    then show ?thesis
      by (simp add: blocks_line_def obstructs_def in_interval_def flip: exact)
  next
    case (Some r)
    obtain a b where r: "r = (a, b)" by force
    then have "a \<le> b" using Some intersection_ordered by blast
    then show ?thesis
      unfolding obstructs_def exact [symmetric]
      by (auto simp: blocks_line_def in_interval_def Some r)
  qed
qed

lemma has_clear_line_all:
  "has_clear_line p q obs None \<longleftrightarrow> (\<forall>ob \<in> set obs. \<not> blocks_line p q ob)"
proof -
  have "list_all (\<lambda>(i, ob). \<not> blocks_line p q ob) xs
      \<longleftrightarrow> list_all (\<lambda>ob. \<not> blocks_line p q ob) (map snd xs)" for xs :: "(nat \<times> obstacle_observation) list"
    by (simp add: list_all_iff split_def)
  from this [of "enumerate 0 obs"] show ?thesis
    by (simp add: has_clear_line_def list_all_iff)
qed

subsection \<open>The contract of a controller\<close>

text \<open>A controller always answers, for the enemy it was asked about.\<close>

locale enemy_controller =
  fixes decide :: decide
  assumes answers: "\<exists>a. decide g = Inr (Request (action_request_for (goomba_id g) a))"
begin

lemma request_for_controlled:
  assumes "engine_wf (ai_engine st)" and "enemy_exists eid st"
    and "map_of (controllers st) eid = Some (Decider decide)" and "map_of requests eid = None"
  shows "\<exists>a. request_for st current requests eid latest
    = Inr (Request (action_request_for eid a), latest)"
proof -
  obtain en where en: "map_of (enemies (environment (world_state (ai_engine st)))) eid = Some en"
    using assms(2) by (metis enemy_exists_def map_of_eq_None_iff not_None_eq)
  then have "enemy_id en = eid"
    using keyed_map_of world_wfD(3) [OF assms(1)] by metis
  then obtain g where "observe (sight_distance st) eid (ai_engine st) = Inr g" "goomba_id g = eid"
    by (simp add: observe_def en Let_def)
  with answers [of g] show ?thesis
    by (auto simp: request_for_def assms(3,4))
qed

end

interpretation pursuit: enemy_controller "pursuit_decide deadband" for deadband
  by unfold_locales (auto simp: pursuit_decide_def)

subsection \<open>Stored actions\<close>

definition sequence_value :: "action_request \<Rightarrow> int" where
  "sequence_value r = (case observation_sequence r of Sequence n \<Rightarrow> n | _ \<Rightarrow> 0)"

text \<open>Every stored action is for the enemy it is stored under, and was taken on a tick that is over.\<close>

definition stored_ok :: "int \<Rightarrow> action_request dict \<Rightarrow> bool" where
  "stored_ok current latest \<longleftrightarrow>
     (\<forall>k r. map_of latest k = Some r \<longrightarrow>
        request_enemy_id r = k \<and> (\<exists>n. observation_sequence r = Sequence n \<and> n \<le> current))"

lemma fresh_sequenceD: "fresh_sequence m c s \<Longrightarrow> \<exists>n. s = Sequence n \<and> n \<le> c \<and> c - n \<le> m"
  by (cases s) (auto simp: fresh_sequence_def)

definition eligible :: "ident fset \<Rightarrow> int \<Rightarrow> int \<Rightarrow> ident \<Rightarrow> action_request \<Rightarrow> bool" where
  "eligible ids m c eid r \<longleftrightarrow>
     eid |\<in>| ids \<and> request_enemy_id r = eid \<and> fresh_sequence m c (observation_sequence r)"

lemma accept_request_ok: "stored_ok c latest \<Longrightarrow> stored_ok c (accept_request ids m c r latest)"
  by (auto simp: stored_ok_def accept_request_def AList.update_conv' dest!: fresh_sequenceD
      split: option.split)

text \<open>After one request, the slot of \<open>eid\<close> holds the newer of the two.\<close>

lemma accept_request_lookup:
  assumes "stored_ok c latest"
  shows "map_of (accept_request ids m c r latest) eid =
    (if eligible ids m c eid r \<and>
        (case map_of latest eid of None \<Rightarrow> True | Some r' \<Rightarrow> sequence_value r' \<le> sequence_value r)
     then Some r else map_of latest eid)"
proof (cases "eligible ids m c (request_enemy_id r) r")
  case False
  then show ?thesis by (auto simp: accept_request_def eligible_def)
next
  case True
  then obtain n where n: "observation_sequence r = Sequence n"
    using fresh_sequenceD eligible_def by blast
  have e: "eligible ids m c eid r \<longleftrightarrow> eid = request_enemy_id r"
    using True by (auto simp: eligible_def)
  have t: "request_enemy_id r |\<in>| ids" "fresh_sequence m c (observation_sequence r)"
    using True by (simp_all add: eligible_def)
  show ?thesis
  proof (cases "map_of latest (request_enemy_id r)")
    case None
    then show ?thesis by (auto simp: accept_request_def t e AList.update_conv')
  next
    case (Some r')
    then obtain n' where n': "observation_sequence r' = Sequence n'"
      using assms by (auto simp: stored_ok_def)
    then show ?thesis
      by (auto simp: accept_request_def t Some e AList.update_conv' sequence_ge_def n [symmetric] t n' sequence_value_def)
         (auto simp: n)
  qed
qed

text \<open>A run of requests leaves a newest one of those eligible and the one stored before.\<close>

definition newest_of :: "action_request set \<Rightarrow> action_request option \<Rightarrow> bool" where
  "newest_of R r =
     (case r of None \<Rightarrow> R = {} | Some x \<Rightarrow> x \<in> R \<and> (\<forall>y \<in> R. sequence_value y \<le> sequence_value x))"

lemma newest_of_insert:
  assumes "newest_of R r"
  shows "newest_of (insert y R)
    (if (case r of None \<Rightarrow> True | Some x \<Rightarrow> sequence_value x \<le> sequence_value y) then Some y else r)"
  using assms by (cases r) (auto simp: newest_of_def)

lemma accept_all:
  assumes "stored_ok c latest" and "newest_of R (map_of latest eid)"
  shows "stored_ok c (fold (accept_request ids m c) rs latest) \<and>
    newest_of (R \<union> {r \<in> set rs. eligible ids m c eid r})
      (map_of (fold (accept_request ids m c) rs latest) eid)"
  using assms
proof (induction rs arbitrary: latest R)
  case Nil
  then show ?case by simp
next
  case (Cons r rs)
  let ?R = "if eligible ids m c eid r then insert r R else R"
  have "newest_of ?R (map_of (accept_request ids m c r latest) eid)"
    using newest_of_insert [OF Cons.prems(2), of r] Cons.prems(2)
    by (cases "map_of latest eid") (auto simp: accept_request_lookup [OF Cons.prems(1)])
  from Cons.IH [OF accept_request_ok [OF Cons.prems(1)] this]
  have "stored_ok c (fold (accept_request ids m c) (r # rs) latest) \<and>
      newest_of (?R \<union> {r \<in> set rs. eligible ids m c eid r})
        (map_of (fold (accept_request ids m c) (r # rs) latest) eid)"
    by simp
  moreover have "?R \<union> {r \<in> set rs. eligible ids m c eid r}
      = R \<union> {r' \<in> set (r # rs). eligible ids m c eid r'}"
    by auto
  ultimately show ?case by simp
qed

lemma accept_all_stored: "stored_ok c latest \<Longrightarrow> stored_ok c (fold (accept_request ids m c) rs latest)"
  by (induction rs arbitrary: latest) (simp_all add: accept_request_ok)

subsection \<open>Decisions\<close>

definition well_behaved :: "controller \<Rightarrow> bool" where
  "well_behaved c = (case c of Fixed _ \<Rightarrow> True | Decider d \<Rightarrow> \<forall>g. \<exists>r. d g = Inr (Request r))"

context enemy_controller
begin

lemma controller_well_behaved: "well_behaved (Decider decide)"
  using answers unfolding well_behaved_def controller.case by blast

end

text \<open>The command an enemy gets, as a function of the action stored for it.\<close>

definition decided ::
  "integration \<Rightarrow> int \<Rightarrow> action_request dict \<Rightarrow> ident \<Rightarrow> action_request dict \<Rightarrow> command_object option" where
  "decided st current requests eid latest =
     (if \<not> enemy_exists eid st then None
      else case request_for st current requests eid latest of
        Inr (Request r, _) \<Rightarrow>
          Some (Command (engine_command
            (if request_enemy_id r \<noteq> eid then STOP else fst (translate_action (request_action r)))))
      | _ \<Rightarrow> None)"

lemma enemy_exists_lookup:
  "enemy_exists eid st \<longleftrightarrow> map_of (enemies (environment (world_state (ai_engine st)))) eid \<noteq> None"
  by (simp add: enemy_exists_def map_of_eq_None_iff)

lemma request_for_latest:
  assumes "request_for st current requests eid latest = Inr (r, latest')" and "k \<noteq> eid"
  shows "map_of latest' k = map_of latest k"
  using assms
  by (auto simp: request_for_def rbind_Inr_iff spade_action_for_def AList.delete_conv'
      split: option.splits controller.splits if_splits)

lemma request_for_cong:
  assumes "map_of latest eid = map_of latest' eid"
  shows "decided st current requests eid latest = decided st current requests eid latest'"
  using assms
  by (auto simp: decided_def request_for_def spade_action_for_def rbind_def
      split: option.split controller.split sum.split)

lemma decide_enemy_step:
  assumes "decide_enemy st current requests eid d = Inr d'"
  shows "map_of (dec_directions d') k =
      (if k = eid \<and> enemy_exists eid st then decided st current requests eid (dec_latest d)
       else map_of (dec_directions d) k)"
    and "k \<noteq> eid \<Longrightarrow> map_of (dec_latest d') k = map_of (dec_latest d) k"
proof -
  have "map_of (dec_directions d') k =
      (if k = eid \<and> enemy_exists eid st then decided st current requests eid (dec_latest d)
       else map_of (dec_directions d) k) \<and>
    (k \<noteq> eid \<longrightarrow> map_of (dec_latest d') k = map_of (dec_latest d) k)"
  proof (cases "map_of (enemies (environment (world_state (ai_engine st)))) eid")
    case None
    then have "\<not> enemy_exists eid st" by (simp add: enemy_exists_lookup)
    with None assms show ?thesis by (auto simp: decide_enemy_def)
  next
    case (Some en)
    then have ex: "enemy_exists eid st" by (simp add: enemy_exists_lookup)
    obtain r0 latest where rf0: "request_for st current requests eid (dec_latest d) = Inr (r0, latest)"
      using assms by (auto simp: decide_enemy_def Some rbind_Inr_iff)
    then obtain r where rf: "request_for st current requests eid (dec_latest d) = Inr (Request r, latest)"
      using assms by (cases r0) (auto simp: decide_enemy_def Some)
    have "map_of (dec_latest d') k = map_of (dec_latest d) k" if "k \<noteq> eid"
      using request_for_latest [OF rf that] assms
      by (auto simp: decide_enemy_def Some rf Let_def split: prod.splits if_splits)
    moreover have "map_of (dec_directions d') k =
      (if k = eid then decided st current requests eid (dec_latest d) else map_of (dec_directions d) k)"
      using assms
      by (auto simp: decide_enemy_def decided_def Some rf ex Let_def AList.update_conv' split: prod.splits if_splits)
    ultimately show ?thesis using ex by simp
  qed
  then show "map_of (dec_directions d') k =
      (if k = eid \<and> enemy_exists eid st then decided st current requests eid (dec_latest d)
       else map_of (dec_directions d) k)"
    and "k \<noteq> eid \<Longrightarrow> map_of (dec_latest d') k = map_of (dec_latest d) k"
    by blast+
qed

lemma decide_all:
  assumes "distinct ids" and "fold_res (decide_enemy st current requests) ids d = Inr d'"
  shows "map_of (dec_directions d') k =
    (if k \<in> set ids \<and> enemy_exists k st then decided st current requests k (dec_latest d)
     else map_of (dec_directions d) k)"
  using assms
proof (induction ids arbitrary: d)
  case Nil
  then show ?case by simp
next
  case (Cons a ids)
  obtain d1 where d1: "decide_enemy st current requests a d = Inr d1"
      "fold_res (decide_enemy st current requests) ids d1 = Inr d'"
    using Cons.prems(2) by (auto simp: rbind_Inr_iff)
  note IH = Cons.IH [OF _ d1(2)] and step = decide_enemy_step [OF d1(1), of k]
  show ?case
  proof (cases "k = a")
    case True
    then show ?thesis using IH step(1) Cons.prems(1) by simp
  next
    case False
    then have "decided st current requests k (dec_latest d1) = decided st current requests k (dec_latest d)"
      using step(2) by (intro request_for_cong) simp
    then show ?thesis using IH step(1) Cons.prems(1) False by simp
  qed
qed

lemma observe_total: "enemy_exists eid st \<Longrightarrow> \<exists>g. observe d eid (ai_engine st) = Inr g"
  by (auto simp: enemy_exists_lookup observe_def Let_def)

lemma request_for_total:
  assumes "\<forall>c \<in> snd ` set (controllers st). well_behaved c" and "enemy_exists eid st"
  shows "\<exists>r latest'. request_for st current requests eid latest = Inr (Request r, latest')"
proof -
  obtain g where g: "observe (sight_distance st) eid (ai_engine st) = Inr g"
    using observe_total [OF assms(2)] by blast
  have "map_of (controllers st) eid = Some (Decider d) \<Longrightarrow> \<exists>r. d g = Inr (Request r)" for d
    using assms(1) by (force simp: well_behaved_def dest: map_of_SomeD)
  then show ?thesis
    by (auto simp: request_for_def g split: option.split controller.split prod.split)
qed

lemma decide_enemy_total:
  assumes "\<forall>c \<in> snd ` set (controllers st). well_behaved c"
  shows "\<exists>d'. decide_enemy st current requests eid d = Inr d'"
proof (cases "map_of (enemies (environment (world_state (ai_engine st)))) eid")
  case None
  then show ?thesis by (simp add: decide_enemy_def)
next
  case (Some en)
  then have "enemy_exists eid st" by (simp add: enemy_exists_lookup)
  from request_for_total [OF assms this, of current requests "dec_latest d"]
  show ?thesis
    by (auto simp: decide_enemy_def Some Let_def split: prod.split)
qed

lemma decide_enemy_directions:
  assumes "decide_enemy st current requests eid d = Inr d'"
  shows "dec_directions d' = dec_directions d \<or>
    (\<exists>c. dec_directions d' = AList.update eid (Command c) (dec_directions d))"
proof (cases "map_of (enemies (environment (world_state (ai_engine st)))) eid")
  case None
  then show ?thesis using assms by (auto simp: decide_enemy_def)
next
  case (Some en)
  obtain r0 latest where "request_for st current requests eid (dec_latest d) = Inr (r0, latest)"
    using assms by (auto simp: decide_enemy_def Some rbind_Inr_iff)
  then show ?thesis
    using assms by (cases r0) (auto simp: decide_enemy_def Some Let_def split: prod.splits)
qed

lemma decide_enemy_commands:
  assumes "decide_enemy st current requests eid d = Inr d'"
    and "Other_Object \<notin> snd ` set (dec_directions d)"
  shows "Other_Object \<notin> snd ` set (dec_directions d')"
proof -
  have "Other_Object \<notin> snd ` set (AList.update eid (Command c) (dec_directions d))" for c
    using set_AList_update [of eid "Command c" "dec_directions d"] assms(2) by auto
  then show ?thesis using decide_enemy_directions [OF assms(1)] assms(2) by metis
qed

lemma decide_all_total:
  assumes "\<forall>c \<in> snd ` set (controllers st). well_behaved c"
    and "Other_Object \<notin> snd ` set (dec_directions d)"
  shows "\<exists>d'. fold_res (decide_enemy st current requests) ids d = Inr d' \<and>
    Other_Object \<notin> snd ` set (dec_directions d')"
proof (rule fold_res_total)
  show "Other_Object \<notin> snd ` set (dec_directions d)" by (rule assms(2))
next
  fix a and t :: decisions
  assume "Other_Object \<notin> snd ` set (dec_directions t)"
  then show "\<exists>t'. decide_enemy st current requests a t = Inr t' \<and> Other_Object \<notin> snd ` set (dec_directions t')"
    using decide_enemy_total [OF assms(1), of current requests a t] decide_enemy_commands by blast
qed

subsection \<open>The invariant\<close>

abbreviation ai_now :: "integration \<Rightarrow> int" where
  "ai_now st \<equiv> sequence_number (world_state (ai_engine st))"

definition integration_wf :: "integration \<Rightarrow> bool" where
  "integration_wf st \<longleftrightarrow>
     engine_wf (ai_engine st) \<and>
     0 < perception_interval_ticks st \<and> 0 \<le> action_max_age_ticks st \<and>
     distinct (dict_keys (controllers st)) \<and>
     fst ` set (controllers st) \<inter> fset (spade_ids st) = {} \<and>
     queue_ok (perceptions (ai_bridge st)) \<and> queue_ok (action_requests (ai_bridge st)) \<and>
     stored_ok (sequence_number (world_state (ai_engine st))) (latest_spade_actions st)"

lemma stored_ok_delete: "stored_ok c d \<Longrightarrow> stored_ok c (AList.delete k d)"
  by (auto simp: stored_ok_def AList.delete_conv' split: if_splits)

lemma stored_ok_mono: "stored_ok c d \<Longrightarrow> c \<le> c' \<Longrightarrow> stored_ok c' d"
  by (fastforce simp: stored_ok_def)

lemma drain_spade_actions_eq:
  "drain_spade_actions c st =
     st\<lparr>ai_bridge := (ai_bridge st)\<lparr>action_requests := (action_requests (ai_bridge st))\<lparr>queued := []\<rparr>\<rparr>,
        latest_spade_actions := fold (accept_request (spade_ids st) (action_max_age_ticks st) c)
          (queued (action_requests (ai_bridge st))) (latest_spade_actions st)\<rparr>"
  by (simp add: drain_spade_actions_def drain_queue_eq)

lemma decide_enemy_latest:
  assumes "decide_enemy st current requests eid d = Inr d'"
  shows "dec_latest d' = dec_latest d \<or> dec_latest d' = AList.delete eid (dec_latest d)"
proof (cases "map_of (enemies (environment (world_state (ai_engine st)))) eid")
  case None
  then show ?thesis using assms by (auto simp: decide_enemy_def)
next
  case (Some en)
  obtain r0 latest where rf: "request_for st current requests eid (dec_latest d) = Inr (r0, latest)"
    using assms by (auto simp: decide_enemy_def Some rbind_Inr_iff)
  then have "latest = dec_latest d \<or> latest = AList.delete eid (dec_latest d)"
    by (auto simp: request_for_def rbind_Inr_iff spade_action_for_def
        split: option.splits controller.splits if_splits)
  then show ?thesis
    using assms rf by (cases r0) (auto simp: decide_enemy_def Some Let_def split: prod.splits)
qed

lemma decide_all_latest:
  assumes "fold_res (decide_enemy st current requests) ids d = Inr d'" and "stored_ok c (dec_latest d)"
  shows "stored_ok c (dec_latest d')"
  using assms
  by (rule fold_res_inv) (metis decide_enemy_latest stored_ok_delete)

lemma publish_queue_ok:
  assumes "queue_ok (perceptions b)"
  shows "queue_ok (perceptions (publish m b))" and "action_requests (publish m b) = action_requests b"
  using latest.ok_push [OF assms, of m]
  by (simp_all add: publish_def push_latest_def split_def Let_def)

lemma publish_perceptions_ok:
  assumes "queue_ok (perceptions (ai_bridge st))"
  shows "\<exists>b. publish_perceptions n st = Inr (st\<lparr>ai_bridge := b\<rparr>) \<and> queue_ok (perceptions b) \<and>
    action_requests b = action_requests (ai_bridge st)"
proof -
  let ?P = "\<lambda>t. \<exists>b. t = st\<lparr>ai_bridge := b\<rparr> \<and> queue_ok (perceptions b) \<and>
    action_requests b = action_requests (ai_bridge st)"
  have "\<exists>t. publish_perceptions n st = Inr t \<and> ?P t"
    unfolding publish_perceptions_def
  proof (rule fold_res_total)
    show "?P st" using assms by (intro exI [of _ "ai_bridge st"]) simp
  next
    fix eid and t :: integration
    assume P: "?P t"
    then obtain b where b: "t = st\<lparr>ai_bridge := b\<rparr>" "queue_ok (perceptions b)"
        "action_requests b = action_requests (ai_bridge st)" by blast
    show "\<exists>t'. (if \<not> enemy_exists eid t then Inr t
        else rbind (observe (sight_distance t) eid (ai_engine t)) (\<lambda>g.
          Inr (t\<lparr>ai_bridge := publish \<lparr>simulation_sequence = n, perception = g\<rparr> (ai_bridge t)\<rparr>)))
        = Inr t' \<and> ?P t'"
    proof (cases "enemy_exists eid t")
      case False
      then show ?thesis using P by simp
    next
      case True
      obtain g where "observe (sight_distance t) eid (ai_engine t) = Inr g"
        using observe_total [OF True] by blast
      then show ?thesis
        using True publish_queue_ok [OF b(2)] b by auto
    qed
  qed
  then show ?thesis by blast
qed

definition iterates :: "(ident fset \<Rightarrow> ident list) \<Rightarrow> bool" where
  "iterates iterate \<longleftrightarrow> (\<forall>S. distinct (iterate S) \<and> set (iterate S) = fset S)"

lemma iterates_sorted: "iterates sorted_list_of_fset"
  by (simp add: iterates_def sorted_list_of_fset.rep_eq)

lemma tick_enabled_ok:
  assumes wf: "integration_wf st" and beh: "\<forall>c \<in> snd ` set (controllers st). well_behaved c"
    and it: "iterates iterate"
  shows "\<exists>st' cmds. tick_enabled iterate clk dt inputs requests st = Inr st' \<and>
    tick clk dt inputs (if cmds \<noteq> [] then Some cmds else None) (ai_engine st) = Inr (ai_engine st') \<and>
    Other_Object \<notin> snd ` set cmds \<and>
    (\<forall>k. map_of cmds k =
      (if k |\<in>| controlled_ids st \<and> enemy_exists k st
       then decided st (ai_now st) requests k
         (latest_spade_actions (drain_spade_actions (ai_now st) st))
       else None)) \<and>
    integration_wf st' \<and> controllers st' = controllers st \<and> spade_ids st' = spade_ids st"
proof -
  let ?now = "ai_now st"
  define st1 where "st1 = drain_spade_actions ?now st"
  have frame: "ai_engine st1 = ai_engine st" "controllers st1 = controllers st"
      "spade_ids st1 = spade_ids st" "perception_interval_ticks st1 = perception_interval_ticks st"
      "action_max_age_ticks st1 = action_max_age_ticks st" "sight_distance st1 = sight_distance st"
      "perceptions (ai_bridge st1) = perceptions (ai_bridge st)"
      "queued (action_requests (ai_bridge st1)) = []"
      "maxsize (action_requests (ai_bridge st1)) = maxsize (action_requests (ai_bridge st))"
    by (simp_all add: st1_def drain_spade_actions_eq)
  have stored: "stored_ok ?now (latest_spade_actions st1)"
    using wf by (simp add: st1_def drain_spade_actions_eq integration_wf_def accept_all_stored)
  have dec: "decided st1 = decided st" "enemy_exists k st1 = enemy_exists k st"
      "controlled_ids st1 = controlled_ids st" for k
    unfolding fun_eq_iff decided_def request_for_def enemy_exists_def controlled_ids_def frame
    by simp_all
  let ?d = "\<lparr>dec_latest = latest_spade_actions st1, dec_directions = [], dec_pending = []\<rparr>"
  obtain d where d: "fold_res (decide_enemy st1 ?now requests) (iterate (controlled_ids st1)) ?d = Inr d"
      "Other_Object \<notin> snd ` set (dec_directions d)"
    using decide_all_total [of st1 ?d ?now requests "iterate (controlled_ids st1)"] beh frame by auto
  let ?cmds = "if dec_directions d \<noteq> [] then Some (dec_directions d) else None"
  have cmds: "map_of (dec_directions d) k =
      (if k |\<in>| controlled_ids st \<and> enemy_exists k st
       then decided st ?now requests k (latest_spade_actions st1) else None)" for k
    using decide_all [OF _ d(1), of k] it by (simp add: iterates_def dec)
  have "valid_commands ?cmds" using d(2) by (simp add: valid_commands_def)
  then obtain e where e: "tick clk dt inputs ?cmds (ai_engine st) = Inr e" "engine_wf e"
      "sequence_number (world_state e) = ?now + 1"
    using tick_good [of "ai_engine st" ?cmds clk dt inputs] wf unfolding integration_wf_def by blast
  define st2 where "st2 = st1\<lparr>ai_engine := e, latest_spade_actions := dec_latest d\<rparr>"
  obtain b where b: "queue_ok (perceptions b)" "action_requests b = action_requests (ai_bridge st1)"
    "(if (?now + 1) mod perception_interval_ticks st2 = 0 then publish_perceptions (?now + 1) st2 else Inr st2)
       = Inr (st2\<lparr>ai_bridge := b\<rparr>)"
  proof -
    have q: "queue_ok (perceptions (ai_bridge st2))"
      using wf by (simp add: st2_def frame integration_wf_def)
    from publish_perceptions_ok [OF q, of "?now + 1"] q show ?thesis
      using that [of "ai_bridge st2"] that
      by (cases "(?now + 1) mod perception_interval_ticks st2 = 0") (auto simp: st2_def)
  qed
  let ?st' = "st2\<lparr>ai_bridge := b, last_results :=
     map (\<lambda>(eid, r). (eid, r\<lparr>position_after := position_of eid e\<rparr>))
       (reject_unselected (controlled_ids st1) requests (dec_pending d))\<rparr>"
  have run: "tick_enabled iterate clk dt inputs requests st = Inr ?st'"
    unfolding tick_enabled_def Let_def st1_def [symmetric] d(1) rbind_simps frame(1) e(1)
      st2_def [symmetric] e(3) b(3)
    by (simp add: st2_def)
  have "stored_ok (?now + 1) (dec_latest d)"
    using decide_all_latest [OF d(1), of ?now] stored by (auto intro: stored_ok_mono)
  then have "integration_wf ?st'"
    using wf b e(2,3) by (auto simp: integration_wf_def st2_def frame queue_ok_def)
  with run e(1) d(2) cmds show ?thesis
    by (intro exI [of _ ?st'] exI [of _ "dec_directions d"]) (simp add: st2_def frame flip: st1_def)
qed

lemma tick_disabled_ok:
  assumes wf: "integration_wf st"
  shows "\<exists>st'. tick_disabled clk dt inputs requests st = Inr st' \<and>
    tick clk dt inputs None (ai_engine st) = Inr (ai_engine st') \<and>
    integration_wf st' \<and> controllers st' = controllers st \<and> spade_ids st' = spade_ids st"
proof -
  obtain e where e: "tick clk dt inputs None (ai_engine st) = Inr e" "engine_wf e"
    using tick_good [of "ai_engine st" None clk dt inputs] wf
    by (auto simp: integration_wf_def valid_commands_def)
  then show ?thesis
    using wf by (simp add: tick_disabled_def integration_wf_def stored_ok_def queue_ok_def
        discard_perceptions_def discard_queued_actions_def drain_queue_eq)
qed

definition genuine :: "request_object dict \<Rightarrow> bool" where
  "genuine rs \<longleftrightarrow> Other_Request \<notin> snd ` set rs"

lemma genuine_requests_Inr: "(\<exists>qs. genuine_requests rs = Inr qs) \<longleftrightarrow> genuine rs"
proof (induction rs)
  case Nil
  then show ?case by (simp add: genuine_requests_def genuine_def)
next
  case (Cons a rs)
  then show ?case
    by (cases a; cases "snd a") (auto simp: genuine_requests_def genuine_def rbind_Inr_iff)
qed

lemma genuine_requests_lookup:
  "genuine_requests rs = Inr qs \<Longrightarrow> map_of qs k = None \<longleftrightarrow> map_of rs k = None"
proof (induction rs arbitrary: qs)
  case Nil
  then show ?case by (simp add: genuine_requests_def)
next
  case (Cons a rs)
  then show ?case
    by (cases a; cases "snd a") (auto simp: genuine_requests_def rbind_Inr_iff)
qed

text \<open>The commands one tick of the integration hands to the engine.\<close>

definition directed :: "(ident \<times> command_object) list \<Rightarrow> enemy_commands" where
  "directed cmds = (if cmds \<noteq> [] then Some cmds else None)"

lemma agent_tick_ok:
  assumes "integration_wf st" and "\<forall>c \<in> snd ` set (controllers st). well_behaved c"
    and "iterates iterate" and "genuine requests"
  shows "\<exists>st' cmds. agent_tick iterate clk dt inputs requests st = Inr st' \<and>
    tick clk dt inputs (directed cmds) (ai_engine st) = Inr (ai_engine st') \<and>
    Other_Object \<notin> snd ` set cmds \<and>
    (\<forall>k. map_of cmds k \<noteq> None \<longrightarrow> ai_enabled st \<and> k |\<in>| controlled_ids st \<and> enemy_exists k st) \<and>
    integration_wf st' \<and> controllers st' = controllers st \<and> spade_ids st' = spade_ids st"
proof -
  obtain qs where qs: "genuine_requests requests = Inr qs"
    using assms(4) genuine_requests_Inr by blast
  show ?thesis
  proof (cases "ai_enabled st")
    case True
    obtain st' cmds where t: "tick_enabled iterate clk dt inputs qs st = Inr st'"
        "tick clk dt inputs (directed cmds) (ai_engine st) = Inr (ai_engine st')"
        "Other_Object \<notin> snd ` set cmds"
        "\<And>k. map_of cmds k \<noteq> None \<Longrightarrow> k |\<in>| controlled_ids st \<and> enemy_exists k st"
        "integration_wf st'" "controllers st' = controllers st" "spade_ids st' = spade_ids st"
      using tick_enabled_ok [OF assms(1,2,3), of clk dt inputs qs] unfolding directed_def
      by (metis (no_types, lifting))
    then show ?thesis
      using True by (intro exI [of _ st'] exI [of _ cmds]) (simp add: agent_tick_def qs)
  next
    case False
    then show ?thesis
      using tick_disabled_ok [OF assms(1), of clk dt inputs qs]
      by (auto simp: agent_tick_def qs directed_def intro!: exI [of _ "[]"])
  qed
qed

subsection \<open>Reachable integrations\<close>

text \<open>Every operation of the adapter, in any order; the tick is one of them.\<close>

inductive agent_reachable :: "integration \<Rightarrow> bool" where
  Start: "engine_wf e \<Longrightarrow> new_integration e enabled interval max_age = Inr st \<Longrightarrow> agent_reachable st"
| Control: "agent_reachable st \<Longrightarrow> well_behaved c \<Longrightarrow> control_enemy eid c st = Inr st' \<Longrightarrow>
    agent_reachable st'"
| Control_Spade: "agent_reachable st \<Longrightarrow> control_enemy_with_spade eid st = Inr st' \<Longrightarrow>
    agent_reachable st'"
| Release: "agent_reachable st \<Longrightarrow> agent_reachable (release_enemy eid st)"
| Enable: "agent_reachable st \<Longrightarrow> agent_reachable (st\<lparr>ai_enabled := b\<rparr>)"
| Submit: "agent_reachable st \<Longrightarrow> submit_action r (ai_bridge st) = Inr b \<Longrightarrow>
    agent_reachable (st\<lparr>ai_bridge := b\<rparr>)"
| Poll: "agent_reachable st \<Longrightarrow> agent_reachable (st\<lparr>ai_bridge := snd (poll_perception (ai_bridge st))\<rparr>)"
| Tick: "agent_reachable st \<Longrightarrow> iterates iterate \<Longrightarrow>
    agent_tick iterate clk dt inputs requests st = Inr st' \<Longrightarrow> agent_reachable st'"

lemma submit_action_ok:
  assumes "queue_ok (action_requests b)" and "submit_action r b = Inr b'"
  shows "queue_ok (action_requests b')" and "perceptions b' = perceptions b"
  using assms latest.ok_push [OF assms(1)]
  by (auto simp: submit_action_def push_latest_def split_def Let_def split: request_object.splits)

lemma poll_perception_ok:
  assumes "queue_ok (perceptions b)"
  shows "queue_ok (perceptions (snd (poll_perception b)))"
    and "action_requests (snd (poll_perception b)) = action_requests b"
  using assms
  by (auto simp: poll_perception_def queue_ok_def get_nowait_Some split: option.split)

definition agent_inv :: "integration \<Rightarrow> bool" where
  "agent_inv st \<longleftrightarrow> integration_wf st \<and> (\<forall>c \<in> snd ` set (controllers st). well_behaved c)"

lemma agent_reachable_inv: "agent_reachable st \<Longrightarrow> agent_inv st"
proof (induction rule: agent_reachable.induct)
  case (Start e enabled interval max_age st)
  then show ?case
    by (auto simp: agent_inv_def integration_wf_def new_integration_def new_bridge_def queue_ok_def
        stored_ok_def AGENT_QUEUE_CAPACITY_def split: if_splits option.splits)
next
  case (Control st c eid st')
  have sub: "x = eid \<and> y = c \<or> (x, y) \<in> set (controllers st)"
    if "(x, y) \<in> set (AList.update eid c (controllers st))" for x y
    using that set_AList_update [of eid c "controllers st"] by auto
  have "fst ` set (AList.update eid c (controllers st)) \<inter> fset (spade_ids st |-| {|eid|}) = {}"
    "\<forall>x \<in> snd ` set (AList.update eid c (controllers st)). well_behaved x"
    using Control.IH Control.hyps(2) by (force simp: agent_inv_def integration_wf_def dest!: sub)+
  moreover have "st' = st\<lparr>spade_ids := spade_ids st |-| {|eid|},
      controllers := AList.update eid c (controllers st)\<rparr>"
    using Control.hyps(3) by (simp add: control_enemy_def split: if_splits)
  ultimately show ?case
    using Control.IH by (simp add: agent_inv_def integration_wf_def AList.distinct_update)
next
  case (Control_Spade st eid st')
  then have "st' = st\<lparr>spade_ids := finsert eid (spade_ids st)\<rparr>" "eid \<notin> fst ` set (controllers st)"
    by (simp_all add: control_enemy_with_spade_def split: if_splits)
  then show ?case
    using Control_Spade.IH by (simp add: agent_inv_def integration_wf_def)
next
  case (Release st eid)
  have "fst ` set (AList.delete eid (controllers st)) \<inter> fset (spade_ids st |-| {|eid|}) = {}"
    "\<forall>x \<in> snd ` set (AList.delete eid (controllers st)). well_behaved x"
    using Release.IH by (auto simp: agent_inv_def integration_wf_def set_AList_delete)
  with Release.IH show ?case
    by (simp add: agent_inv_def integration_wf_def release_enemy_def AList.distinct_delete stored_ok_delete)
next
  case (Enable st b)
  then show ?case by (simp add: agent_inv_def integration_wf_def)
next
  case (Submit st r b)
  then show ?case
    using submit_action_ok [OF _ Submit.hyps(2)] by (simp add: agent_inv_def integration_wf_def)
next
  case (Poll st)
  then show ?case
    using poll_perception_ok [of "ai_bridge st"] by (simp add: agent_inv_def integration_wf_def)
next
  case (Tick st iterate clk dt inputs requests st')
  have "genuine requests"
    using Tick.hyps(3) genuine_requests_Inr by (auto simp: agent_tick_def rbind_Inr_iff)
  from agent_tick_ok [OF _ _ Tick.hyps(2) this, of st clk dt inputs] Tick
  show ?case by (auto simp: agent_inv_def)
qed

subsection \<open>Properties\<close>

definition example_request :: action_request where
  "example_request = \<lparr>request_enemy_id = ''goomba-1'', request_action = Action ACT_MOVE_LEFT,
     observation_sequence = Sequence 0\<rparr>"

definition example_agents :: integration where
  "example_agents =
     \<lparr>ai_engine = example_engine, ai_enabled = True, perception_interval_ticks = 5,
      action_max_age_ticks = 10, controllers = [], spade_ids = {|''goomba-1''|},
      ai_bridge = new_bridge\<lparr>action_requests := \<lparr>maxsize = 64, queued = [example_request]\<rparr>\<rparr>,
      last_results = [], sight_distance = GOOMBA_SIGHT_DISTANCE, latest_spade_actions = []\<rparr>"

lemma example_agents_inv: "agent_inv example_agents"
  using example_engine_wf
  by (simp add: agent_inv_def integration_wf_def example_agents_def new_bridge_def queue_ok_def
      stored_ok_def AGENT_QUEUE_CAPACITY_def)

text \<open>The slab test is exact: a parameter of the segment lies in the interval it returns if
  and only if the point there lies in the rectangle.\<close>

theorem sight_line_is_exact:
  assumes "left_x \<le> right_x" and "top_y \<le> bottom_y"
  shows "in_interval (segment_rectangle_intersection p q left_x top_y right_x bottom_y) t
    \<longleftrightarrow> inside p q left_x top_y right_x bottom_y t"
  by (rule intersection_exact [OF assms])

theorem sight_line_is_exact_witness:
  "in_interval (segment_rectangle_intersection \<lparr>at_x = 0, at_y = 0\<rparr> \<lparr>at_x = 10, at_y = 5\<rparr> 4 1 6 9) (1 / 2)
    \<longleftrightarrow> inside \<lparr>at_x = 0, at_y = 0\<rparr> \<lparr>at_x = 10, at_y = 5\<rparr> 4 1 6 9 (1 / 2)"
  by (rule sight_line_is_exact) simp_all

text \<open>What an enemy should see: forward of it, within reach, and not behind an obstacle.\<close>

definition sees :: "flt \<Rightarrow> enemy \<Rightarrow> game_engine \<Rightarrow> player \<Rightarrow> bool" where
  "sees d en e p \<longleftrightarrow>
     (if enemy_vx en < 0 then at_x (center_of p) \<le> at_x (center_of en)
      else at_x (center_of en) \<le> at_x (center_of p)) \<and>
     (at_x (center_of p) - at_x (center_of en)) ^ 2 + (at_y (center_of p) - at_y (center_of en)) ^ 2 \<le> d ^ 2 \<and>
     (\<forall>ob \<in> set (obstacle_candidates e). \<not> obstructs ob (center_of en) (center_of p))"

lemma can_see_player_sees:
  assumes "\<forall>ob \<in> set (obstacle_candidates e). solid ob"
  shows "can_see_player d p (center_of en) (sight_direction_of en) (obstacle_candidates e)
    \<longleftrightarrow> sees d en e p"
proof -
  have "(\<forall>ob \<in> set (obstacle_candidates e). \<not> blocks_line (center_of en) (center_of p) ob)
      \<longleftrightarrow> (\<forall>ob \<in> set (obstacle_candidates e). \<not> obstructs ob (center_of en) (center_of p))"
    by (rule ball_cong) (use assms in \<open>simp_all add: blocks_line_exact\<close>)
  then show ?thesis
    by (auto simp: can_see_player_def is_in_sight_def sight_direction_of_def sees_def has_clear_line_all)
qed

text \<open>An enemy perceives exactly the living players in its sight, sorted by identifier.\<close>

theorem perception_is_exact:
  assumes "engine_wf e" and "\<forall>ob \<in> set (obstacle_candidates e). solid ob"
    and "map_of (enemies (environment (world_state e))) eid = Some en"
  shows "\<exists>g. observe d eid e = Inr g \<and> goomba_id g = eid \<and>
    map seen_player_id (visible_players g) =
      sorted_list_of_set {pid. \<exists>p. get_player pid (world_state e) = Some p \<and> sees d en e p}"
proof -
  let ?cs = "characters (world_state e)"
  let ?ps = "filter (sees d en e) (sort_key player_id (dict_values ?cs))"
  have keyed: "keyed player_id ?cs" using world_wfD(1) [OF assms(1)] .
  obtain g where g: "observe d eid e = Inr g" "goomba_id g = enemy_id en"
      "map seen_player_id (visible_players g) = map player_id ?ps"
    by (simp add: observe_def assms(3) Let_def can_see_player_sees [OF assms(2)] perceive_player_def comp_def)
  have "sorted (map player_id ?ps)"
    by (simp add: sorted_filter)
  moreover have "distinct (map player_id (sort_key player_id (dict_values ?cs)))"
    using keyed_values_distinct [OF keyed] distinct_map [of player_id "dict_values ?cs"]
    by (simp only: distinct_map distinct_sort set_sort)
  then have "distinct (map player_id ?ps)"
    by (rule distinct_map_filter)
  moreover have "set (map player_id ?ps)
      = {pid. \<exists>p. get_player pid (world_state e) = Some p \<and> sees d en e p}"
    using keyed keyed_map_of_in [OF keyed] keyedD [OF keyed]
    by (force simp: get_player_def dest: map_of_SomeD keyed_map_of)
  ultimately have "map player_id ?ps
      = sorted_list_of_set {pid. \<exists>p. get_player pid (world_state e) = Some p \<and> sees d en e p}"
    by (metis sorted_list_of_set.idem_if_sorted_distinct)
  moreover have "enemy_id en = eid"
    using keyed_map_of [OF world_wfD(3) [OF assms(1)] assms(3)] .
  ultimately show ?thesis using g by auto
qed

theorem perception_is_exact_witness:
  "\<exists>en g. observe 200 ''goomba-1'' example_engine = Inr g \<and> goomba_id g = ''goomba-1'' \<and>
    map seen_player_id (visible_players g) =
      sorted_list_of_set {pid. \<exists>p. get_player pid (world_state example_engine) = Some p
        \<and> sees 200 en example_engine p}"
proof -
  have "\<exists>en. map_of (enemies (environment (world_state example_engine))) ''goomba-1'' = Some en"
    by (simp add: example_defs)
  then obtain en where "map_of (enemies (environment (world_state example_engine))) ''goomba-1'' = Some en" ..
  from perception_is_exact [OF example_engine_wf _ this]
  show ?thesis
    by (intro exI [of _ en]) (simp add: obstacle_candidates_def obstacle_of_def solid_def example_defs)
qed

lemma fold_publish:
  "perceptions (fold publish ms b) = fold push_latest ms (perceptions b)"
  by (induction ms arbitrary: b) (simp_all add: publish_def push_latest_def split_def Let_def)

lemma fold_publish_dropped:
  "queue_ok (perceptions b) \<Longrightarrow>
     dropped_perceptions (fold publish ms b) + int (length (queued (perceptions (fold publish ms b))))
       = dropped_perceptions b + int (length (queued (perceptions b))) + int (length ms)"
proof (induction ms arbitrary: b)
  case Nil
  then show ?case by simp
next
  case (Cons m ms)
  have "dropped_perceptions (publish m b) + int (length (queued (perceptions (publish m b))))
      = dropped_perceptions b + int (length (queued (perceptions b))) + 1"
    using put_latest_recent [OF Cons.prems, of m 0] Cons.prems
    by (auto simp: publish_def split_def Let_def queue_full_def queue_ok_def queue_capacity_def)
  then show ?case
    using Cons.IH [OF publish_queue_ok(1) [OF Cons.prems], of m] by simp
qed

text \<open>Whatever is published, the bridge never holds more than its capacity, keeps exactly
  the newest perceptions in order, and counts every perception it dropped.\<close>

theorem bridge_keeps_newest_perceptions:
  assumes "queue_ok (perceptions b)"
  shows "queued (perceptions (fold publish ms b))
      = take_last (queue_capacity (perceptions b)) (queued (perceptions b) @ ms) \<and>
    dropped_perceptions (fold publish ms b) + int (length (queued (perceptions (fold publish ms b))))
      = dropped_perceptions b + int (length (queued (perceptions b))) + int (length ms)"
  using latest.items_push_all [OF assms, of ms] fold_publish_dropped [OF assms, of ms]
  by (simp only: fold_publish simp_thms)

theorem bridge_keeps_newest_perceptions_witness:
  "\<forall>ms. queued (perceptions (fold publish ms new_bridge)) = take_last 64 ms \<and>
     dropped_perceptions (fold publish ms new_bridge) = int (length ms) - int (min 64 (length ms))"
proof
  fix ms
  have q: "queue_ok (perceptions new_bridge)" "queue_capacity (perceptions new_bridge) = 64"
      "queued (perceptions new_bridge) = []" "dropped_perceptions new_bridge = 0"
    by (simp_all add: new_bridge_def queue_ok_def queue_capacity_def AGENT_QUEUE_CAPACITY_def)
  show "queued (perceptions (fold publish ms new_bridge)) = take_last 64 ms \<and>
     dropped_perceptions (fold publish ms new_bridge) = int (length ms) - int (min 64 (length ms))"
    using bridge_keeps_newest_perceptions [OF q(1), of ms] by (auto simp: q)
qed

text \<open>Whatever the order of the adapter's operations and ticks, no enemy is controlled both
  by a synchronous controller and by SPADE, both queues stay within their capacity, the engine
  stays well-formed, and every stored action belongs to its enemy and to a past tick.\<close>

theorem agents_stay_exclusive:
  assumes "agent_reachable st"
  shows "fst ` set (controllers st) \<inter> fset (spade_ids st) = {} \<and>
    queue_ok (perceptions (ai_bridge st)) \<and> queue_ok (action_requests (ai_bridge st)) \<and>
    engine_wf (ai_engine st) \<and> stored_ok (ai_now st) (latest_spade_actions st)"
  using agent_reachable_inv [OF assms] by (simp add: agent_inv_def integration_wf_def)

theorem agents_stay_exclusive_witness:
  "\<exists>st. agent_reachable st \<and> spade_ids st = {|''goomba-1''|} \<and>
    fst ` set (controllers st) \<inter> fset (spade_ids st) = {}"
proof -
  obtain st0 where 0: "new_integration example_engine True 5 None = Inr st0"
    by (simp add: new_integration_def)
  then have st0: "ai_engine st0 = example_engine" "controllers st0 = []" "spade_ids st0 = {||}"
    by (auto simp: new_integration_def)
  have "enemy_exists ''goomba-1'' st0"
    by (simp add: enemy_exists_def st0 example_engine_enemies)
  then have "control_enemy_with_spade ''goomba-1'' st0 = Inr (st0\<lparr>spade_ids := {|''goomba-1''|}\<rparr>)"
    by (simp add: control_enemy_with_spade_def st0)
  from Control_Spade [OF Start [OF example_engine_wf 0] this]
  have "agent_reachable (st0\<lparr>spade_ids := {|''goomba-1''|}\<rparr>)" .
  with agents_stay_exclusive [OF this] show ?thesis
    by (intro exI [of _ "st0\<lparr>spade_ids := {|''goomba-1''|}\<rparr>"]) simp
qed

text \<open>With controllers that answer and requests of the right class, a tick of the adapter
  never raises; it runs exactly one engine tick, whose commands are genuine and address only
  living enemies selected for agent control, and none at all while agents are disabled.\<close>

theorem agent_tick_never_fails:
  assumes "agent_inv st" and "iterates iterate" and "genuine requests"
  shows "\<exists>st' cmds. agent_tick iterate clk dt inputs requests st = Inr st' \<and> agent_inv st' \<and>
    tick clk dt inputs (directed cmds) (ai_engine st) = Inr (ai_engine st') \<and>
    Other_Object \<notin> snd ` set cmds \<and>
    (\<forall>k \<in> fst ` set cmds. ai_enabled st \<and> k |\<in>| controlled_ids st \<and> enemy_exists k st)"
  using agent_tick_ok [of st iterate requests clk dt inputs] assms unfolding agent_inv_def
  by (metis (no_types, lifting) map_of_eq_None_iff)

theorem agent_tick_never_fails_witness:
  "\<exists>st' cmds. agent_tick sorted_list_of_fset (tick_clock_at 5) (1 / 60) [] [] example_agents = Inr st' \<and>
    agent_inv st' \<and>
    tick (tick_clock_at 5) (1 / 60) [] (directed cmds) (ai_engine example_agents) = Inr (ai_engine st')"
proof -
  have "genuine []" by (simp add: genuine_def)
  from agent_tick_never_fails [OF example_agents_inv iterates_sorted this]
  show ?thesis by blast
qed

text \<open>The actions an enemy may follow: queued or stored, for it, and fresh.\<close>

definition usable :: "integration \<Rightarrow> ident \<Rightarrow> action_request set" where
  "usable st eid =
     {r. (r \<in> set (queued (action_requests (ai_bridge st))) \<or> map_of (latest_spade_actions st) eid = Some r) \<and>
         request_enemy_id r = eid \<and>
         fresh_sequence (action_max_age_ticks st) (ai_now st) (observation_sequence r)}"

definition command_of :: "action_request \<Rightarrow> enemy_movement_command" where
  "command_of r = engine_command (fst (translate_action (request_action r)))"

lemma too_old_fresh:
  assumes "observation_sequence r = Sequence n" and "n \<le> c"
  shows "too_old m c (observation_sequence r) \<longleftrightarrow> \<not> fresh_sequence m c (observation_sequence r)"
  using assms by (auto simp: too_old_def fresh_sequence_def)

text \<open>The stored action after draining, and the command it gives.\<close>

lemma drained_action:
  assumes "integration_wf st" and "eid |\<in>| spade_ids st"
  defines "latest \<equiv> latest_spade_actions (drain_spade_actions (ai_now st) st)"
    and "r \<equiv> fst (spade_action_for (action_max_age_ticks st) (ai_now st) eid
        (latest_spade_actions (drain_spade_actions (ai_now st) st)))"
  shows "if usable st eid = {} then r = action_request_for eid ACT_STOP
    else r \<in> usable st eid \<and> (\<forall>q \<in> usable st eid. sequence_value q \<le> sequence_value r)"
proof -
  let ?m = "action_max_age_ticks st" and ?now = "ai_now st"
  let ?rs = "queued (action_requests (ai_bridge st))"
  let ?R = "(case map_of (latest_spade_actions st) eid of None \<Rightarrow> {} | Some r \<Rightarrow> {r}) \<union>
      {r \<in> set ?rs. eligible (spade_ids st) ?m ?now eid r}"
  have stored: "stored_ok ?now (latest_spade_actions st)"
    using assms(1) by (simp add: integration_wf_def)
  have "newest_of (case map_of (latest_spade_actions st) eid of None \<Rightarrow> {} | Some r \<Rightarrow> {r})
      (map_of (latest_spade_actions st) eid)"
    by (simp add: newest_of_def split: option.split)
  from accept_all [OF stored this, of "spade_ids st" ?m ?rs]
  have L: "stored_ok ?now latest" "newest_of ?R (map_of latest eid)"
    by (simp_all add: latest_def drain_spade_actions_eq)
  have R: "q \<in> usable st eid \<longleftrightarrow> q \<in> ?R \<and> fresh_sequence ?m ?now (observation_sequence q)" for q
    using stored assms(2) by (auto simp: usable_def eligible_def stored_ok_def split: option.splits)
  show ?thesis
  proof (cases "map_of latest eid")
    case None
    then have "usable st eid = {}" using L(2) R by (auto simp: newest_of_def)
    then show ?thesis
      using None by (simp add: r_def spade_action_for_def flip: latest_def)
  next
    case (Some x)
    then obtain n where n: "observation_sequence x = Sequence n" "n \<le> ?now"
      using L(1) by (auto simp: stored_ok_def)
    have x: "x \<in> ?R" "\<forall>q \<in> ?R. sequence_value q \<le> sequence_value x"
      using L(2) by (simp_all add: Some newest_of_def)
    show ?thesis
    proof (cases "fresh_sequence ?m ?now (observation_sequence x)")
      case True
      then have "x \<in> usable st eid" "r = x"
        using x(1) R by (simp_all add: r_def spade_action_for_def Some too_old_fresh [OF n] flip: latest_def)
      then show ?thesis using x(2) R by auto
    next
      case False
      have "\<not> fresh_sequence ?m ?now (observation_sequence q)" if "q \<in> ?R" for q
      proof
        assume "fresh_sequence ?m ?now (observation_sequence q)"
        then obtain k where k: "observation_sequence q = Sequence k" "?now - k \<le> ?m"
          using fresh_sequenceD by blast
        then have "k \<le> n"
          using bspec [OF x(2) that] n(1) by (simp add: sequence_value_def)
        then show False using False k n by (simp add: fresh_sequence_def)
      qed
      then have "usable st eid = {}" using R by blast
      then show ?thesis
        using False by (simp add: r_def spade_action_for_def Some too_old_fresh [OF n] flip: latest_def)
    qed
  qed
qed

text \<open>C24: an enemy under SPADE control, for which the caller sends no request, follows the newest
  fresh action that was submitted for it, and stops when there is none: a stale action, one from
  the future, or one for another enemy never moves it.\<close>

theorem spade_enemy_follows_newest_fresh_action:
  assumes "agent_inv st" and "iterates iterate" and "ai_enabled st"
    and "eid |\<in>| spade_ids st" and "enemy_exists eid st" and "map_of requests eid = None"
    and "agent_tick iterate clk dt inputs requests st = Inr st'"
  shows "\<exists>cmds c. tick clk dt inputs (Some cmds) (ai_engine st) = Inr (ai_engine st') \<and>
    map_of cmds eid = Some (Command c) \<and>
    (if usable st eid = {} then c = CMD_STOP
     else \<exists>r \<in> usable st eid. c = command_of r \<and> (\<forall>q \<in> usable st eid. sequence_value q \<le> sequence_value r))"
proof -
  have wf: "integration_wf st" and beh: "\<forall>c \<in> snd ` set (controllers st). well_behaved c"
    using assms(1) by (simp_all add: agent_inv_def)
  obtain qs where qs: "genuine_requests requests = Inr qs"
      "tick_enabled iterate clk dt inputs qs st = Inr st'"
    using assms(3,7) by (auto simp: agent_tick_def rbind_Inr_iff)
  define latest where "latest = latest_spade_actions (drain_spade_actions (ai_now st) st)"
  obtain cmds where t: "tick clk dt inputs (if cmds \<noteq> [] then Some cmds else None) (ai_engine st)
      = Inr (ai_engine st')"
      "map_of cmds eid = decided st (ai_now st) qs eid latest"
    using tick_enabled_ok [OF wf beh assms(2), of clk dt inputs qs] qs(2) assms(4,5)
    by (auto simp: controlled_ids_def latest_def)
  have none: "map_of qs eid = None" "map_of (controllers st) eid = None"
    using assms(4,6) qs(1) wf genuine_requests_lookup [OF qs(1), of eid]
    by (auto simp: integration_wf_def map_of_eq_None_iff)
  define r where "r = fst (spade_action_for (action_max_age_ticks st) (ai_now st) eid latest)"
  have r: "if usable st eid = {} then r = action_request_for eid ACT_STOP
    else r \<in> usable st eid \<and> (\<forall>q \<in> usable st eid. sequence_value q \<le> sequence_value r)"
    using drained_action [OF wf assms(4)] by (simp add: r_def latest_def)
  then have "request_enemy_id r = eid"
    by (auto simp: usable_def action_request_for_def split: if_splits)
  then have "map_of cmds eid = Some (Command (command_of r))"
    using assms(5) t(2)
    by (simp add: decided_def request_for_def none command_of_def split_def Let_def flip: r_def)
  moreover from this have "cmds \<noteq> []" by auto
  ultimately show ?thesis
    using t(1) r by (auto simp: command_of_def action_request_for_def translate_action_def split: if_splits)
qed

theorem spade_enemy_follows_newest_fresh_action_witness:
  "\<exists>st' cmds. agent_tick sorted_list_of_fset (tick_clock_at 5) (1 / 60) [] [] example_agents = Inr st' \<and>
    tick (tick_clock_at 5) (1 / 60) [] (Some cmds) (ai_engine example_agents) = Inr (ai_engine st') \<and>
    map_of cmds ''goomba-1'' = Some (Command CMD_MOVE_LEFT)"
proof -
  have "agent_inv example_agents" by (rule example_agents_inv)
  then obtain st' where st': "agent_tick sorted_list_of_fset (tick_clock_at 5) (1 / 60) [] [] example_agents = Inr st'"
    using agent_tick_ok [of example_agents sorted_list_of_fset "[]" "tick_clock_at 5" "1 / 60" "[]"]
      iterates_sorted by (auto simp: agent_inv_def genuine_def)
  have e: "ai_enabled example_agents" "''goomba-1'' |\<in>| spade_ids example_agents"
      "enemy_exists ''goomba-1'' example_agents"
    by (simp_all add: example_agents_def enemy_exists_def example_engine_enemies)
  have "sequence_number (world_state example_engine) = 0"
    by (simp add: example_defs)
  then have "usable example_agents ''goomba-1'' = {example_request}"
    by (auto simp: usable_def example_agents_def example_request_def fresh_sequence_def)
  moreover have "command_of example_request = CMD_MOVE_LEFT"
    by (simp add: command_of_def example_request_def translate_action_def)
  ultimately show ?thesis
    using spade_enemy_follows_newest_fresh_action
      [OF example_agents_inv iterates_sorted e _ st'] st'
    by auto
qed

lemma least_by_least:
  assumes "xs \<noteq> []"
  shows "\<exists>x \<in> set xs. least_by f xs = Some x \<and> (\<forall>y \<in> set xs. fst (f x) \<le> fst (f y))"
  using assms
proof (induction xs)
  case Nil
  then show ?case by simp
next
  case (Cons a xs)
  show ?case
  proof (cases "xs = []")
    case True
    then show ?thesis by simp
  next
    case False
    then obtain x where x: "x \<in> set xs" "least_by f xs = Some x" "\<forall>y \<in> set xs. fst (f x) \<le> fst (f y)"
      using Cons.IH by blast
    obtain d i where fx: "f x = (d, i)" by force
    obtain d' i' where fa: "f a = (d', i')" by force
    show ?thesis using x by (auto simp: fx fa)
  qed
qed

text \<open>The pursuit controller picks one of the visible players nearest to the enemy, and moves
  towards it whenever their horizontal distance exceeds the dead band.\<close>

theorem pursuit_chases_nearest:
  assumes "visible_players g \<noteq> []" and "0 \<le> deadband"
  shows "\<exists>p \<in> set (visible_players g).
    target_player_id g = Some (seen_player_id p) \<and>
    (\<forall>q \<in> set (visible_players g). fst (distance_key g p) \<le> fst (distance_key g q)) \<and>
    (let dx = at_x (seen_position p) - at_x (goomba_position g) in
     pursuit_action deadband g =
       (if \<bar>dx\<bar> \<le> deadband then ACT_STOP else if 0 < dx then ACT_MOVE_RIGHT else ACT_MOVE_LEFT))"
proof -
  obtain p where p: "p \<in> set (visible_players g)" "nearest_visible_player g = Some p"
      "\<forall>q \<in> set (visible_players g). fst (distance_key g p) \<le> fst (distance_key g q)"
    using least_by_least [OF assms(1), of "distance_key g"] by (auto simp: nearest_visible_player_def)
  with assms(2) show ?thesis
    by (intro bexI [of _ p])
      (auto simp: target_player_id_def pursuit_action_def mario_position_def Let_def abs_if)
qed

definition example_perception :: goomba_perception where
  "example_perception =
     \<lparr>goomba_id = ''goomba-1'', goomba_position = \<lparr>at_x = 100, at_y = 0\<rparr>, goomba_direction = SIGHT_LEFT,
      visible_players =
        [\<lparr>seen_player_id = ''player1'', seen_position = \<lparr>at_x = 10, at_y = 0\<rparr>, seen_width = 75, seen_height = 75\<rparr>,
         \<lparr>seen_player_id = ''player2'', seen_position = \<lparr>at_x = 60, at_y = 5\<rparr>, seen_width = 75, seen_height = 75\<rparr>],
      visible_obstacles = []\<rparr>"

theorem pursuit_chases_nearest_witness:
  "\<exists>p \<in> set (visible_players example_perception).
    target_player_id example_perception = Some (seen_player_id p) \<and>
    (\<forall>q \<in> set (visible_players example_perception).
       fst (distance_key example_perception p) \<le> fst (distance_key example_perception q))"
proof -
  have "visible_players example_perception \<noteq> []" by (simp add: example_perception_def)
  from pursuit_chases_nearest [OF this, of 4] show ?thesis by auto
qed

end
