(* ===== verification/Node_Base.thy ===== *)
theory Node_Base
  imports Prediction Shadow_Copy Agents_Props Lobby_Inv
begin

text \<open>
  The state of \<^verbatim>\<open>application/node_controller.py\<close> and the operations every role shares
  (\<^verbatim>\<open>application/gameplay/events.py\<close>, \<^verbatim>\<open>mapper.py\<close>).

  The controller, its prediction engine and its agent adapter hold references to one engine; here
  the engine is the one inside \<open>n_agents\<close>, and \<open>node_engine\<close> reads it.  Calls on sockets, servers
  and threads are the values of \<open>effect\<close>, appended to \<open>n_out\<close> in the order the code makes them.
  What the code polls or reads arrives as arguments: each polled item comes with the \<open>reading\<close> of
  the clocks while it is processed.  A packet that does not decode is an \<open>Inl\<close>.
\<close>

datatype effect =
    Send_Udp message string int
  | Send_Broker message
  | Send_Lobby message
  | Connect_Events string int string
  | Connect_Lobby string int
  | Broker_Reconnect string int
  | Broker_Promote int
  | Bind_Udp int
  | Announce ident int
  | Start_Spade
  | Start_Relaunch
  | Start_Containers
  | Stop_Containers
  | Launch_Lobby int
  | Launch_Broker
  | Allow_Only "string set"
  | Open_Events
  | Close_Lobby
  | Close_Events
  | Close_Udp
  | Show_Error string

record reading =
  rd_wall :: flt
  rd_mono :: flt
  rd_ticks :: "nat \<Rightarrow> tick_clock"

type_synonym address = "string \<times> int"
type_synonym packet = "reading \<times> message result \<times> address"

datatype node_predictor = Noop_Predictor | Predictor prediction

datatype display = Noop_Copy "player option" | Smooth shadow_copy

record node =
  n_role :: player_role
  n_lifecycle :: node_lifecycle
  n_roster :: roster
  n_agents :: integration
  n_session_id :: ident
  n_local_ip :: string
  n_udp_port :: int
  n_local_player_id :: ident
  n_remote_player_id :: ident
  n_remote_host :: string
  n_remote_port :: int
  n_input_sequence :: int
  n_last_remote_input_sequence :: "int dict"
  n_last_snapshot_sequence :: int
  n_cached_remote_inputs :: "input_state dict"
  n_sent_input_packets :: int
  n_received_input_packets :: int
  n_sent_snapshots :: int
  n_received_snapshots :: int
  n_last_input_time :: "flt dict"
  n_prediction :: node_predictor
  n_shadow_copies :: "display dict"
  n_shadow_factory :: display
  n_use_discovery :: bool
  n_visual_offset :: "flt \<times> flt"
  n_lead_baseline :: flt
  n_calibration_remaining :: int
  n_tick_adjustment :: int
  n_host_last_frame_at :: "flt option"
  n_host_frame_intervals :: "flt list"
  n_host_input_window :: int
  n_client_last_frame_at :: "flt option"
  n_client_frame_intervals :: "flt list"
  n_join_index :: int
  n_coordinator :: "coordinator option"
  n_watcher :: "timeout_watcher option"
  n_env_buffer :: "env_state_buffer option"
  n_election_triggered :: bool
  n_reconnected :: bool
  n_rejoin_join_index :: "int option"
  n_rejoin_states :: "(int \<times> player) list"
  n_pending_acks :: "string fset"
  n_claim_deadline :: flt
  n_promotion_done :: bool
  n_following_ip :: "string option"
  n_following_since :: flt
  n_verify_deadline :: flt
  n_verify_next_probe :: flt
  n_out :: "effect list"

abbreviation node_engine :: "node \<Rightarrow> game_engine" where
  "node_engine n \<equiv> ai_engine (n_agents n)"

abbreviation node_world :: "node \<Rightarrow> world_state" where
  "node_world n \<equiv> world_state (node_engine n)"

definition on_engine :: "(game_engine \<Rightarrow> game_engine) \<Rightarrow> node \<Rightarrow> node" where
  "on_engine f n = n\<lparr>n_agents := (n_agents n)\<lparr>ai_engine := f (node_engine n)\<rparr>\<rparr>"

definition on_world :: "(world_state \<Rightarrow> world_state) \<Rightarrow> node \<Rightarrow> node" where
  "on_world f = on_engine (world_state_update f)"

definition emit :: "effect \<Rightarrow> node \<Rightarrow> node" where
  "emit x n = n\<lparr>n_out := n_out n @ [x]\<rparr>"

text \<open>Build a message and act on it; its validation may raise.\<close>

definition with_message :: "message \<Rightarrow> (message \<Rightarrow> node) \<Rightarrow> node result" where
  "with_message m k = rbind (mk_message m) (\<lambda>m'. Inr (k m'))"

lemma with_message_valid [simp]: "valid_message m \<Longrightarrow> with_message m k = Inr (k m)"
  by (simp add: with_message_def)

lemma with_message_Inr: "with_message m k = Inr n \<longleftrightarrow> valid_message m \<and> n = k m"
  by (auto simp: with_message_def rbind_Inr_iff mk_message_Inr)

subsection \<open>Events\<close>

fun event_to_message :: "event \<Rightarrow> message" where
  "event_to_message (BlockDestroyedEvent pos) = BlockDestroyedMessage pos"
| "event_to_message (PowerUpCollectedEvent uid pid) = PowerUpCollectedMessage uid pid"
| "event_to_message (GateStateChangedEvent gid st) = GateStateChangedMessage gid st"
| "event_to_message (PlayerDeathEvent pid eid) = PlayerDeathMessage pid eid"
| "event_to_message LevelResetEvent = LevelResetMessage"

definition send_game_event :: "event \<Rightarrow> node \<Rightarrow> node result" where
  "send_game_event ev n = with_message (event_to_message ev) (\<lambda>m. emit (Send_Broker m) n)"

definition evict_player :: "ident \<Rightarrow> node \<Rightarrow> node" where
  "evict_player pid n =
     (let n1 = (case (roster_get pid (n_roster n), get_player pid (node_world n)) of
            (Some entry, Some p) \<Rightarrow>
              n\<lparr>n_rejoin_states := AList.update (entry_join_index entry) p (n_rejoin_states n)\<rparr>
          | _ \<Rightarrow> n);
          n2 = on_world (remove_player pid) n1
      in n2\<lparr>n_roster := roster_remove pid (n_roster n2),
            n_cached_remote_inputs := AList.delete pid (n_cached_remote_inputs n2),
            n_last_remote_input_sequence := AList.delete pid (n_last_remote_input_sequence n2),
            n_last_input_time := AList.delete pid (n_last_input_time n2),
            n_shadow_copies := AList.delete pid (n_shadow_copies n2)\<rparr>)"

definition send_player_left :: "ident \<Rightarrow> node \<Rightarrow> node result" where
  "send_player_left pid n = with_message (PlayerLeft pid) (\<lambda>m. emit (Send_Broker m) n)"

definition drop_player :: "ident \<Rightarrow> node \<Rightarrow> node result" where
  "drop_player pid n = send_player_left pid (evict_player pid n)"

text \<open>The broker's reports first, then the peers whose input has been missing for too long.\<close>

definition check_player_disconnections :: "ident list \<Rightarrow> flt \<Rightarrow> node \<Rightarrow> node result" where
  "check_player_disconnections reported now n =
     rbind (fold_res drop_player reported n) (\<lambda>n1.
       fold_res (\<lambda>pid n.
         case map_of (n_last_input_time n) pid of
           None \<Rightarrow> Inl (KeyError pid)
         | Some t \<Rightarrow> if now - t > UDP_INPUT_TIMEOUT then drop_player pid n else Inr n)
         (dict_keys (n_last_input_time n1)) n1)"

definition merge_roster :: "roster \<Rightarrow> node \<Rightarrow> node result" where
  "merge_roster r n =
     (let known = entry_join_index ` set (n_roster n) in
      fold_res (\<lambda>entry n.
        if entry_join_index entry \<in> known \<or> entry_player_id entry = n_local_player_id n then Inr n
        else rbind (roster_add entry (n_roster n)) (\<lambda>r'. Inr (n\<lparr>n_roster := r'\<rparr>)))
        (roster_all r) n)"

text \<open>The parts of the environment an event names.\<close>

definition destroy_block_at :: "flt \<times> flt \<Rightarrow> world_state \<Rightarrow> world_state" where
  "destroy_block_at pos =
     environment_update (destructible_blocks_update
       (update_first (\<lambda>b. (pos_x b, pos_y b) = pos) (\<lambda>b. b\<lparr>destroyed := True\<rparr>)))"

definition mark_collected :: "ident \<Rightarrow> ident \<Rightarrow> world_state \<Rightarrow> world_state" where
  "mark_collected uid pid w =
     (case get_power_up uid w of
        None \<Rightarrow> w
      | Some u \<Rightarrow> environment_update (power_ups_update
          (AList.update uid (u\<lparr>collected := True, owner := Some pid\<rparr>))) w)"

definition mark_gate :: "ident \<Rightarrow> string \<Rightarrow> world_state \<Rightarrow> world_state" where
  "mark_gate gid st w =
     (case get_gate gid w of
        None \<Rightarrow> w
      | Some g \<Rightarrow> environment_update (cooperative_gates_update
          (AList.update gid (g\<lparr>gate_state := st\<rparr>))) w)"

text \<open>\<^verbatim>\<open>bootstrap_from_snapshot\<close>\<close>

definition bootstrap_from_snapshot :: "snapshot \<Rightarrow> node \<Rightarrow> node" where
  "bootstrap_from_snapshot s n =
     (on_world (\<lambda>_. snapshot_world s) n)\<lparr>n_last_snapshot_sequence := snapshot_seq s\<rparr>"

end
