(* ===== verification/Node_Election.thy ===== *)
theory Node_Election
  imports Node_Base
begin

text \<open>
  Election, promotion and migration as the node carries them out
  (\<^verbatim>\<open>application/election/mixin.py\<close> and the election part of
  \<^verbatim>\<open>application/gameplay/client.py\<close>).  The answer of the recovery prober is an argument.  Python
  iterates a set of addresses in an unspecified order; the order of the evictions it drives shows
  only in the order of \<open>n_rejoin_states\<close>, and the sorted one is used here.
\<close>

definition ensure_election_components :: "node \<Rightarrow> node" where
  "ensure_election_components n =
     (if n_coordinator n \<noteq> None then n
      else
        let n1 = (case roster_get (n_local_player_id n) (n_roster n) of
              None \<Rightarrow> n
            | Some entry \<Rightarrow> n\<lparr>n_join_index := entry_join_index entry\<rparr>)
        in n1\<lparr>n_coordinator := Some (new_coordinator (n_join_index n1) (n_local_ip n1)
                                       T_ELECTION_BASE_S T_ELECTION_DELTA_S),
              n_watcher := Some (new_watcher HOST_TIMEOUT_S),
              n_env_buffer := Some new_env_buffer\<rparr>)"

definition other_entries :: "node \<Rightarrow> roster_entry list" where
  "other_entries n =
     filter (\<lambda>e. entry_player_id e \<noteq> n_local_player_id n) (roster_all (n_roster n))"

definition known_client_peers :: "node \<Rightarrow> string fset" where
  "known_client_peers n =
     fset_of_list (map entry_host (filter (\<lambda>e. \<not> entry_is_host e) (other_entries n)))"

definition send_election_message_udp :: "message \<Rightarrow> string fset option \<Rightarrow> node \<Rightarrow> node" where
  "send_election_message_udp m only_hosts n =
     fold (\<lambda>e. case only_hosts of
         Some hs \<Rightarrow> if entry_host e |\<in>| hs then emit (Send_Udp m (entry_host e) (entry_udp_port e)) else id
       | None \<Rightarrow> emit (Send_Udp m (entry_host e) (entry_udp_port e)))
       (other_entries n) n"

subsection \<open>Promotion\<close>

definition finish_promotion :: "flt \<Rightarrow> node \<Rightarrow> node" where
  "finish_promotion now n =
     emit Start_Spade
       (n\<lparr>n_last_input_time :=
            fold (\<lambda>e. AList.update (entry_player_id e) now) (other_entries n) (n_last_input_time n),
          n_role := HOST\<rparr>)"

definition restore_last_snapshot :: "node \<Rightarrow> node" where
  "restore_last_snapshot n =
     (case n_env_buffer n of
        None \<Rightarrow> n
      | Some b \<Rightarrow> (case env_buffer_get_last b of None \<Rightarrow> n | Some s \<Rightarrow> bootstrap_from_snapshot s n))"

definition evict_crashed_host :: "node \<Rightarrow> node" where
  "evict_crashed_host n =
     (case roster_host (n_roster n) of
        None \<Rightarrow> n
      | Some crashed \<Rightarrow> evict_player (entry_player_id crashed) n)"

definition announce_promotion :: "node \<Rightarrow> node result" where
  "announce_promotion n =
     (if other_entries n = [] then Inr n
      else with_message
             (ReconnectionAck (n_local_ip n) HOST_UDP_PORT GAME_EVENT_WS_PORT (n_session_id n))
             (\<lambda>m. send_election_message_udp m None (emit (Send_Broker m) n)))"

definition promote_to_host :: "flt \<Rightarrow> node \<Rightarrow> node result" where
  "promote_to_host now n =
     (if n_promotion_done n then Inr n
      else
        let n1 = on_engine (\<lambda>e. e\<lparr>is_authoritative := True\<rparr>) (n\<lparr>n_promotion_done := True\<rparr>);
            n2 = restore_last_snapshot n1;
            n3 = evict_crashed_host n2;
            n4 = n3\<lparr>n_roster := promote_host (n_local_player_id n3) (n_roster n3)\<rparr>;
            n5 = emit (Bind_Udp HOST_UDP_PORT) n4
        in rbind (announce_promotion n5) (\<lambda>n6.
             let n7 = emit (Broker_Promote GAME_EVENT_WS_PORT) n6
             in Inr (emit Start_Relaunch (finish_promotion now n7))))"

text \<open>The background thread: how the lobby answered, and what the node does about it.\<close>

datatype relaunch_answer = Lobby_Unreachable | No_Ack | Lobby_Ack

definition reserved_indices :: "node \<Rightarrow> int list" where
  "reserved_indices n =
     sorted_list_of_set (entry_join_index ` set (other_entries n) \<union> fst ` set (n_rejoin_states n))"

definition recreate_message :: "node \<Rightarrow> message" where
  "recreate_message n =
     (let all_players = roster_all (n_roster n);
          next_ji = (if all_players = [] then 0 else Max (entry_join_index ` set all_players) + 1)
      in SessionRecreate (n_session_id n) next_ji (n_local_ip n) HOST_UDP_PORT (n_join_index n)
           (reserved_indices n))"

definition relaunch_lobby_for_rejoin :: "relaunch_answer \<Rightarrow> node \<Rightarrow> node result" where
  "relaunch_lobby_for_rejoin answer n =
     (let n1 = emit (Broker_Reconnect ''localhost'' GAME_EVENT_WS_PORT) n in
      case answer of
        Lobby_Unreachable \<Rightarrow> Inr n1
      | _ \<Rightarrow> with_message (recreate_message n1) (\<lambda>m.
          let n2 = emit (Send_Lobby m) n1 in
          if answer = Lobby_Ack \<and> n_use_discovery n2
          then emit (Announce (n_session_id n2) LOBBY_WS_PORT) n2 else n2))"

subsection \<open>Claims and acknowledgements\<close>

definition on_self_elected :: "flt \<Rightarrow> node \<Rightarrow> node result" where
  "on_self_elected now n =
     (let peers = known_client_peers n in
      if peers = {||} then promote_to_host now n
      else with_message (NewHostClaim (n_local_ip n) (n_join_index n) (n_session_id n)) (\<lambda>m.
        (send_election_message_udp m (Some peers) (emit (Send_Broker m) n))
          \<lparr>n_pending_acks := peers, n_claim_deadline := now + ELECTION_CLAIM_TIMEOUT_S\<rparr>))"

definition on_election_ack :: "flt \<Rightarrow> string \<Rightarrow> node \<Rightarrow> node result" where
  "on_election_ack now from_ip n =
     (if n_promotion_done n \<or> from_ip |\<notin>| n_pending_acks n then Inr n
      else
        let n1 = n\<lparr>n_pending_acks := n_pending_acks n |-| {|from_ip|}\<rparr>
        in if n_pending_acks n1 = {||} then promote_to_host now n1 else Inr n1)"

definition on_new_host_claim_node :: "flt \<Rightarrow> int \<Rightarrow> string \<Rightarrow> node \<Rightarrow> node result" where
  "on_new_host_claim_node now claimer claimer_ip n =
     (if claimer = n_join_index n then Inr n
      else case n_coordinator n of
        None \<Rightarrow> Inr n
      | Some c \<Rightarrow>
          let (event, c') = on_new_host_claim claimer claimer_ip c;
              n1 = n\<lparr>n_coordinator := Some c'\<rparr>
          in case event of
               Some (FollowingHost _ _) \<Rightarrow>
                 let n2 = n1\<lparr>n_following_ip := Some claimer_ip, n_following_since := now\<rparr>
                 in with_message (ElectionAck (n_local_ip n) (n_session_id n)) (\<lambda>m.
                      send_election_message_udp m (Some {|claimer_ip|}) (emit (Send_Broker m) n2))
             | _ \<Rightarrow> Inr n1)"

definition evict_silent_peer :: "string \<Rightarrow> node \<Rightarrow> node" where
  "evict_silent_peer ip n =
     (case find (\<lambda>e. entry_host e = ip \<and> entry_player_id e \<noteq> n_local_player_id n)
             (roster_all (n_roster n)) of
        None \<Rightarrow> n
      | Some e \<Rightarrow> evict_player (entry_player_id e) n)"

definition tick_claim_deadline :: "flt \<Rightarrow> node \<Rightarrow> node result" where
  "tick_claim_deadline now n =
     (if n_promotion_done n \<or> n_pending_acks n = {||} then Inr n
      else if n_claim_deadline n = 0 \<or> now < n_claim_deadline n then Inr n
      else
        let n1 = fold evict_silent_peer (sorted_list_of_fset (n_pending_acks n)) n
        in promote_to_host now (n1\<lparr>n_pending_acks := {||}\<rparr>))"

subsection \<open>Following a new host\<close>

definition resync_environment_from_buffer :: "node \<Rightarrow> node" where
  "resync_environment_from_buffer n =
     (case Option.bind (n_env_buffer n) env_buffer_get_last of
        None \<Rightarrow> n
      | Some s \<Rightarrow>
          let env = environment (snapshot_world s) in
          on_world (environment_update (\<lambda>e. e\<lparr>destructible_blocks := destructible_blocks env,
            power_ups := power_ups env, cooperative_gates := cooperative_gates env\<rparr>)) n)"

definition repoint_roster_at :: "string \<Rightarrow> node \<Rightarrow> node" where
  "repoint_roster_at new_host_ip n =
     (let n1 = evict_crashed_host n in
      case find (\<lambda>e. entry_host e = new_host_ip) (roster_all (n_roster n1)) of
        None \<Rightarrow> n1
      | Some e \<Rightarrow> n1\<lparr>n_roster := promote_host (entry_player_id e) (n_roster n1)\<rparr>)"

definition reset_election_state :: "node \<Rightarrow> node" where
  "reset_election_state n =
     n\<lparr>n_election_triggered := False, n_pending_acks := {||}, n_claim_deadline := 0,
       n_coordinator := None, n_watcher := Some (new_watcher HOST_TIMEOUT_S),
       n_verify_deadline := 0\<rparr>"

definition recalibrate_prediction_lead :: "node \<Rightarrow> node" where
  "recalibrate_prediction_lead n =
     n\<lparr>n_lead_baseline := 0, n_calibration_remaining := PREDICTION_LEAD_CALIBRATION_FRAMES,
       n_visual_offset := (0, 0)\<rparr>"

definition on_reconnection_ack :: "string \<Rightarrow> int \<Rightarrow> int \<Rightarrow> node \<Rightarrow> node" where
  "on_reconnection_ack new_host_ip udp_port game_events_port n =
     (if n_reconnected n \<or> n_promotion_done n then n
      else
        let n1 = n\<lparr>n_reconnected := True, n_remote_host := new_host_ip, n_remote_port := udp_port\<rparr>;
            n2 = emit (Connect_Events new_host_ip game_events_port GAME_EVENT_WS_PATH) n1;
            n3 = emit (Broker_Reconnect new_host_ip game_events_port) n2;
            n4 = emit (Connect_Lobby new_host_ip LOBBY_WS_PORT) n3;
            n5 = (resync_environment_from_buffer n4)\<lparr>n_last_snapshot_sequence := 0\<rparr>;
            n6 = reset_election_state (repoint_roster_at new_host_ip n5)
        in recalibrate_prediction_lead n6)"

definition tick_reconnection_fallback :: "flt \<Rightarrow> string option \<Rightarrow> node \<Rightarrow> node result" where
  "tick_reconnection_fallback now found n =
     (case n_following_ip n of
        None \<Rightarrow> Inr n
      | Some candidate \<Rightarrow>
          if n_reconnected n \<or> now - n_following_since n < RECONNECTION_FALLBACK_TIMEOUT_S then Inr n
          else
            let n1 = n\<lparr>n_following_since := now\<rparr> in
            case found of
              None \<Rightarrow> Inr n1
            | Some ip \<Rightarrow> with_message (ReconnectionAck ip HOST_UDP_PORT GAME_EVENT_WS_PORT (n_session_id n))
                (\<lambda>m. on_reconnection_ack ip HOST_UDP_PORT GAME_EVENT_WS_PORT (n1\<lparr>n_following_ip := None\<rparr>)))"

subsection \<open>Verifying a suspected crash\<close>

definition resend_host_verify_probe :: "flt \<Rightarrow> node \<Rightarrow> node result" where
  "resend_host_verify_probe now n =
     with_message (HostDiscoveryProbe (n_session_id n) (n_local_ip n)) (\<lambda>m.
       emit (Send_Udp m (n_remote_host n) (n_remote_port n))
         (n\<lparr>n_verify_next_probe := now + HOST_VERIFY_RESEND_INTERVAL_S\<rparr>))"

definition send_host_verify_probe :: "flt \<Rightarrow> node \<Rightarrow> node result" where
  "send_host_verify_probe now n =
     resend_host_verify_probe now
       (n\<lparr>n_verify_deadline := now + HOST_VERIFY_TIMEOUT_S, n_verify_next_probe := now\<rparr>)"

definition tick_host_verify :: "flt \<Rightarrow> timeout_watcher \<Rightarrow> coordinator \<Rightarrow> node \<Rightarrow> node result" where
  "tick_host_verify now w c n =
     (if \<not> watcher_tick now w then Inr (n\<lparr>n_verify_deadline := 0\<rparr>)
      else if now \<ge> n_verify_deadline n then
        Inr (n\<lparr>n_verify_deadline := 0, n_election_triggered := True,
               n_coordinator := Some (set_election_timer now
                 (start_election (fset (known_client_peers n)) c))\<rparr>)
      else if now \<ge> n_verify_next_probe n then resend_host_verify_probe now n
      else Inr n)"

definition on_host_identity_response :: "flt \<Rightarrow> ident \<Rightarrow> node \<Rightarrow> node" where
  "on_host_identity_response now sid n =
     (if n_verify_deadline n = 0 \<or> sid \<noteq> n_session_id n then n
      else n\<lparr>n_verify_deadline := 0, n_watcher := map_option (watcher_reset now) (n_watcher n)\<rparr>)"

definition elect :: "flt \<Rightarrow> coordinator \<Rightarrow> node \<Rightarrow> node result" where
  "elect now c n =
     rbind (coordinator_tick now c) (\<lambda>(event, c').
       let n1 = n\<lparr>n_coordinator := Some c'\<rparr> in
       case event of Some (SelfElected _) \<Rightarrow> on_self_elected now n1 | _ \<Rightarrow> Inr n1)"

definition tick_election_state :: "flt \<Rightarrow> string option \<Rightarrow> node \<Rightarrow> node result" where
  "tick_election_state now found n =
     (case (n_coordinator n, n_watcher n) of
        (Some c, Some w) \<Rightarrow>
          rbind (if n_verify_deadline n = 0
                 then (if \<not> n_election_triggered n \<and> watcher_tick now w
                       then send_host_verify_probe now n else Inr n)
                 else tick_host_verify now w c n) (\<lambda>n1.
          if \<not> n_election_triggered n1 then Inr n1
          else case n_coordinator n1 of
            None \<Rightarrow> Inr n1
          | Some c1 \<Rightarrow>
              rbind (elect now c1 n1) (\<lambda>n2.
              rbind (tick_claim_deadline now n2) (\<lambda>n3.
              tick_reconnection_fallback now found n3)))
      | _ \<Rightarrow> Inr n)"

end
