(* ===== verification/Node_Client.thy ===== *)
theory Node_Client
  imports Node_Election
begin

text \<open>
  The client's frame (\<^verbatim>\<open>application/gameplay/client.py\<close>), the reception of game events
  (\<^verbatim>\<open>application/gameplay/events.py\<close>) and the world a frame is drawn from
  (\<^verbatim>\<open>application/node_controller.py\<close>).
\<close>

subsection \<open>Game events\<close>

definition apply_game_event :: "reading \<times> message \<Rightarrow> node \<Rightarrow> node result" where
  "apply_game_event = (\<lambda>(rd, msg) n.
     case msg of
       BlockDestroyedMessage pos \<Rightarrow> Inr (on_world (destroy_block_at pos) n)
     | PowerUpCollectedMessage uid pid \<Rightarrow> Inr (on_world (mark_collected uid pid) n)
     | GateStateChangedMessage gid st \<Rightarrow> Inr (on_world (mark_gate gid st) n)
     | PlayerLeft pid \<Rightarrow> Inr (if pid \<noteq> n_local_player_id n then evict_player pid n else n)
     | PlayerDeathMessage pid eid \<Rightarrow> Inr (on_world (remove_player pid) n)
     | LevelResetMessage \<Rightarrow> Inr (on_engine reset_for_new_run n)
     | NewHostClaim ip ji sid \<Rightarrow> on_new_host_claim_node (rd_wall rd) ji ip n
     | ElectionAck ip sid \<Rightarrow> on_election_ack (rd_wall rd) ip n
     | ReconnectionAck ip port gport sid \<Rightarrow> Inr (on_reconnection_ack ip port gport n)
     | RosterUpdate r \<Rightarrow> merge_roster r n
     | _ \<Rightarrow> Inr n)"

definition drain_game_events :: "(reading \<times> message) list \<Rightarrow> node \<Rightarrow> node result" where
  "drain_game_events msgs n = fold_res apply_game_event msgs n"

definition apply_lobby_message :: "message \<Rightarrow> node \<Rightarrow> node" where
  "apply_lobby_message msg n =
     (case msg of
        InitialStateSync w \<Rightarrow>
          (on_world (\<lambda>_. w) n)\<lparr>n_last_snapshot_sequence := sequence_number w\<rparr>
      | _ \<Rightarrow> n)"

definition drain_lobby_messages :: "message list \<Rightarrow> node \<Rightarrow> node" where
  "drain_lobby_messages msgs n = fold apply_lobby_message msgs n"

subsection \<open>Prediction\<close>

definition node_predict :: "reading \<Rightarrow> input_state \<Rightarrow> flt \<Rightarrow> node \<Rightarrow> node" where
  "node_predict rd inp dt n =
     (case n_prediction n of
        Noop_Predictor \<Rightarrow> n
      | Predictor p \<Rightarrow> n\<lparr>n_prediction := Predictor (predict (rd_mono rd) inp dt (node_engine n) p)\<rparr>)"

definition node_reconcile :: "(nat \<Rightarrow> tick_clock) \<Rightarrow> snapshot \<Rightarrow> node \<Rightarrow> node result" where
  "node_reconcile clks s n =
     (case n_prediction n of
        Noop_Predictor \<Rightarrow> Inr (on_world (\<lambda>_. snapshot_world s) n)
      | Predictor p \<Rightarrow>
          rbind (reconcile clks s (node_engine n) p) (\<lambda>(e, p').
            Inr (on_engine (\<lambda>_. e) (n\<lparr>n_prediction := Predictor p'\<rparr>))))"

definition node_pending :: "node \<Rightarrow> int" where
  "node_pending n = (case n_prediction n of Noop_Predictor \<Rightarrow> 0 | Predictor p \<Rightarrow> pending_count p)"

definition engine_tick ::
  "tick_clock \<Rightarrow> flt \<Rightarrow> input_state dict \<Rightarrow> enemy_commands \<Rightarrow> node \<Rightarrow> node result" where
  "engine_tick clk dt inputs commands n =
     rbind (tick clk dt inputs commands (node_engine n)) (\<lambda>e. Inr (on_engine (\<lambda>_. e) n))"

definition run_predicted_ticks :: "(nat \<Rightarrow> reading) \<Rightarrow> input_state \<Rightarrow> node \<Rightarrow> node result" where
  "run_predicted_ticks rds inp n =
     (let ticks = nat (1 + n_tick_adjustment n) in
      fold_res (\<lambda>i n.
        engine_tick (rd_ticks (rds i) 0) TICK_INTERVAL [(n_local_player_id n, inp)] None
          (node_predict (rds i) inp TICK_INTERVAL n))
        [0..<ticks] (n\<lparr>n_tick_adjustment := 0\<rparr>))"

definition adjust_prediction_lead :: "node \<Rightarrow> node" where
  "adjust_prediction_lead n =
     (let pending = of_int (node_pending n);
          baseline = n_lead_baseline n;
          deviation = pending - baseline;
          calibrating = n_calibration_remaining n > 0
      in n\<lparr>n_tick_adjustment :=
             (if deviation > PREDICTION_LEAD_DRIFT_TOLERANCE then - 1
              else if deviation < - PREDICTION_LEAD_DRIFT_TOLERANCE then 1
              else n_tick_adjustment n),
           n_calibration_remaining := n_calibration_remaining n - (if calibrating then 1 else 0),
           n_lead_baseline :=
             (if \<bar>deviation\<bar> \<le> PREDICTION_LEAD_DRIFT_TOLERANCE \<and> calibrating
              then baseline + (pending - baseline) * PREDICTION_LEAD_EWMA_ALPHA else baseline)\<rparr>)"

definition glide_step :: "flt \<Rightarrow> flt" where
  "glide_step offset = max (- RECONCILE_MAX_GLIDE_PX) (min RECONCILE_MAX_GLIDE_PX (offset * RECONCILE_GLIDE_RATE))"

definition position_of_local :: "node \<Rightarrow> (flt \<times> flt) option" where
  "position_of_local n =
     map_option (\<lambda>p. (pos_x p, pos_y p)) (get_player (n_local_player_id n) (node_world n))"

definition smoothed_local_visual_state :: "(flt \<times> flt) option \<Rightarrow> node \<Rightarrow> player option \<times> node" where
  "smoothed_local_visual_state pre n =
     (case get_player (n_local_player_id n) (node_world n) of
        None \<Rightarrow> (None, n)
      | Some p \<Rightarrow>
          (case pre of
             None \<Rightarrow> (Some p, n)
           | Some (px, py) \<Rightarrow>
               let offset_x = fst (n_visual_offset n) + (pos_x p - px);
                   offset_y = snd (n_visual_offset n) + (pos_y p - py);
                   offset_x' = offset_x - glide_step offset_x;
                   offset_y' = offset_y - glide_step offset_y
               in (Some (p\<lparr>pos_x := pos_x p - offset_x', pos_y := pos_y p - offset_y'\<rparr>),
                   n\<lparr>n_visual_offset := (offset_x', offset_y')\<rparr>)))"

subsection \<open>Snapshots\<close>

definition display_update :: "flt \<Rightarrow> player \<Rightarrow> int \<Rightarrow> display \<Rightarrow> display" where
  "display_update now p seq d =
     (case d of
        Noop_Copy s \<Rightarrow> Noop_Copy (noop_update now p seq s)
      | Smooth s \<Rightarrow> Smooth (interpolated_update now p seq s))"

definition display_state :: "flt \<Rightarrow> display \<Rightarrow> player option result" where
  "display_state now d =
     (case d of Noop_Copy s \<Rightarrow> noop_display now s | Smooth s \<Rightarrow> interpolated_display now s)"

definition update_shadow_copies :: "flt \<Rightarrow> snapshot \<Rightarrow> node \<Rightarrow> node" where
  "update_shadow_copies now s n =
     fold (\<lambda>(pid, p) n.
       if pid = n_local_player_id n then n
       else
         let shadow = (case map_of (n_shadow_copies n) pid of
               None \<Rightarrow> n_shadow_factory n | Some d \<Rightarrow> d)
         in n\<lparr>n_shadow_copies :=
                AList.update pid (display_update now p (snapshot_seq s) shadow) (n_shadow_copies n)\<rparr>)
       (characters (snapshot_world s)) n"

definition apply_snapshot :: "flt \<Rightarrow> reading \<Rightarrow> snapshot \<Rightarrow> node \<Rightarrow> node result" where
  "apply_snapshot now rd s n =
     (if snapshot_seq s \<le> n_last_snapshot_sequence n then Inr n
      else
        rbind (node_reconcile (rd_ticks rd) s (n\<lparr>n_last_snapshot_sequence := snapshot_seq s\<rparr>)) (\<lambda>n1.
        let n2 = update_shadow_copies (rd_mono rd) s n1
        in Inr (n2\<lparr>n_received_snapshots := n_received_snapshots n2 + 1,
                   n_watcher := map_option (watcher_reset now) (n_watcher n2),
                   n_env_buffer := map_option (env_buffer_update s) (n_env_buffer n2)\<rparr>)))"

definition apply_packet :: "flt \<Rightarrow> packet \<Rightarrow> node \<Rightarrow> node result" where
  "apply_packet now = (\<lambda>(rd, decoded, addr) n.
     rbind decoded (\<lambda>msg.
     case msg of
       NewHostClaim ip ji sid \<Rightarrow> on_new_host_claim_node (rd_wall rd) ji ip n
     | ElectionAck ip sid \<Rightarrow> on_election_ack (rd_wall rd) ip n
     | ReconnectionAck ip port gport sid \<Rightarrow> Inr (on_reconnection_ack ip port gport n)
     | HostIdentityResponse sid ip \<Rightarrow> Inr (on_host_identity_response (rd_wall rd) sid n)
     | WorldStateSnapshot seq w \<Rightarrow>
         apply_snapshot now rd \<lparr>snapshot_seq = seq, snapshot_world = w\<rparr> n
     | _ \<Rightarrow> Inr n))"

definition drain_snapshot_packets :: "flt \<Rightarrow> packet list \<Rightarrow> node \<Rightarrow> node result" where
  "drain_snapshot_packets now packets n = fold_res (apply_packet now) packets n"

definition send_input_packet :: "input_state \<Rightarrow> node \<Rightarrow> node result" where
  "send_input_packet inp n =
     (let n1 = n\<lparr>n_input_sequence := n_input_sequence n + 1\<rparr> in
      with_message (PlayerInputPacket (n_local_player_id n1) (n_input_sequence n1) inp) (\<lambda>m.
        (emit (Send_Udp m (n_remote_host n1) (n_remote_port n1)) n1)
          \<lparr>n_sent_input_packets := n_sent_input_packets n1 + 1\<rparr>))"

subsection \<open>The visual world\<close>

definition visual_character ::
  "flt \<Rightarrow> player option \<Rightarrow> bool \<Rightarrow> node \<Rightarrow> ident \<times> player \<Rightarrow> (ident \<times> player) result" where
  "visual_character now local_state respawning n = (\<lambda>(pid, p).
     case (pid = n_local_player_id n \<and> \<not> respawning, local_state) of
       (True, Some v) \<Rightarrow> Inr (pid, v)
     | _ \<Rightarrow>
         (case map_of (n_shadow_copies n) pid of
            None \<Rightarrow> Inr (pid, p)
          | Some d \<Rightarrow> rbind (display_state now d) (\<lambda>v.
              Inr (pid, case v of Some q \<Rightarrow> q | None \<Rightarrow> p))))"

definition build_visual_world_state :: "flt \<Rightarrow> player option \<Rightarrow> node \<Rightarrow> world_state result" where
  "build_visual_world_state now local_state n =
     (let w = node_world n;
          me = n_local_player_id n;
          respawning = me \<in> fst ` set (respawn_timers w)
      in rbind (map_res (visual_character now local_state respawning n) (characters w)) (\<lambda>cs.
         let cs' = (case local_state of
               Some v \<Rightarrow> if \<not> respawning \<and> me \<notin> fst ` set cs then AList.update me v cs else cs
             | None \<Rightarrow> cs)
         in Inr (w\<lparr>characters := cs'\<rparr>)))"

subsection \<open>The frame\<close>

definition DIAG_LOG_INTERVAL :: nat where "DIAG_LOG_INTERVAL = 120"

text \<open>The intervals between frames; a full batch is logged and dropped.\<close>

definition record_interval :: "flt \<Rightarrow> flt option \<Rightarrow> flt list \<Rightarrow> flt list" where
  "record_interval now previous intervals =
     (case previous of None \<Rightarrow> intervals | Some t \<Rightarrow> intervals @ [now - t])"

definition flush_intervals :: "flt list \<Rightarrow> flt list" where
  "flush_intervals intervals = (if length intervals < DIAG_LOG_INTERVAL then intervals else [])"

definition record_client_frame_interval :: "flt \<Rightarrow> node \<Rightarrow> node" where
  "record_client_frame_interval now n =
     n\<lparr>n_client_frame_intervals :=
         flush_intervals (record_interval now (n_client_last_frame_at n) (n_client_frame_intervals n)),
       n_client_last_frame_at := Some now\<rparr>"

record client_io =
  io_frame_at :: flt
  io_lobby :: "message list"
  io_predictions :: "nat \<Rightarrow> reading"
  io_drain_at :: flt
  io_packets :: "packet list"
  io_events :: "(reading \<times> message) list"
  io_election_at :: flt
  io_probe :: "string option"
  io_draw_at :: flt

definition process_client_frame :: "client_io \<Rightarrow> input_state \<Rightarrow> node \<Rightarrow> (world_state \<times> node) result" where
  "process_client_frame io inp n =
     (let n1 = record_client_frame_interval (io_frame_at io) (ensure_election_components n);
          n2 = drain_lobby_messages (io_lobby io) n1
      in rbind (send_input_packet inp n2) (\<lambda>n3.
         rbind (run_predicted_ticks (io_predictions io) inp n3) (\<lambda>n4.
         let pre = position_of_local n4;
             n5 = on_engine (\<lambda>e. e\<lparr>events := []\<rparr>) n4
         in rbind (drain_snapshot_packets (io_drain_at io) (io_packets io) n5) (\<lambda>n6.
            rbind (drain_game_events (io_events io) n6) (\<lambda>n7.
            rbind (tick_election_state (io_election_at io) (io_probe io) n7) (\<lambda>n8.
            let n9 = adjust_prediction_lead n8;
                (visual, n10) = smoothed_local_visual_state pre n9
            in rbind (build_visual_world_state (io_draw_at io) visual n10) (\<lambda>w.
               Inr (w, n10))))))))"

end
