(* ===== verification/Node_Host.thy ===== *)
theory Node_Host
  imports Node_Client
begin

text \<open>
  The host's frame (\<^verbatim>\<open>application/gameplay/host.py\<close>).  The class defines
  \<^verbatim>\<open>_check_for_rejoining_players\<close> twice; the second definition is the one Python keeps.
\<close>

definition drain_input_packet :: "packet \<Rightarrow> node \<times> int \<Rightarrow> (node \<times> int) result" where
  "drain_input_packet = (\<lambda>(rd, decoded, addr) (n, drained).
     rbind decoded (\<lambda>msg.
     case msg of
       HostDiscoveryProbe sid requester \<Rightarrow>
         if sid \<noteq> n_session_id n then Inr (n, drained)
         else rbind (mk_message (HostIdentityResponse (n_session_id n) (n_local_ip n))) (\<lambda>m.
           Inr (emit (Send_Udp m (fst addr) (snd addr)) n, drained))
     | PlayerInputPacket pid seq inp \<Rightarrow>
         let last_sequence = (case map_of (n_last_remote_input_sequence n) pid of None \<Rightarrow> - 1 | Some s \<Rightarrow> s)
         in if seq \<le> last_sequence then Inr (n, drained)
            else Inr (n\<lparr>n_last_remote_input_sequence := AList.update pid seq (n_last_remote_input_sequence n),
                        n_cached_remote_inputs := AList.update pid inp (n_cached_remote_inputs n),
                        n_last_input_time := AList.update pid (rd_wall rd) (n_last_input_time n),
                        n_received_input_packets := n_received_input_packets n + 1\<rparr>, drained + 1)
     | _ \<Rightarrow> Inr (n, drained)))"

definition drain_remote_input_packets :: "packet list \<Rightarrow> node \<Rightarrow> (node \<times> int) result" where
  "drain_remote_input_packets packets n = fold_res drain_input_packet packets (n, 0)"

definition build_host_inputs :: "input_state \<Rightarrow> node \<Rightarrow> input_state dict" where
  "build_host_inputs local_input n =
     fold (\<lambda>e. AList.update (entry_player_id e)
         (case map_of (n_cached_remote_inputs n) (entry_player_id e) of
            None \<Rightarrow> no_input | Some i \<Rightarrow> i))
       (other_entries n) [(n_local_player_id n, local_input)]"

definition send_world_state_snapshot :: "node \<Rightarrow> node" where
  "send_world_state_snapshot n =
     (let m = WorldStateSnapshot (sequence_number (node_world n)) (node_world n);
          n1 = fold (\<lambda>e. emit (Send_Udp m (entry_host e) (entry_udp_port e))) (other_entries n) n
      in n1\<lparr>n_sent_snapshots := n_sent_snapshots n1 + 1\<rparr>)"

definition HOST_ROSTER_BROADCAST_INTERVAL :: int where "HOST_ROSTER_BROADCAST_INTERVAL = 120"

definition maybe_broadcast_roster :: "node \<Rightarrow> node result" where
  "maybe_broadcast_roster n =
     (if n_sent_snapshots n mod HOST_ROSTER_BROADCAST_INTERVAL \<noteq> 0 then Inr n
      else with_message (RosterUpdate (n_roster n)) (\<lambda>m. emit (Send_Broker m) n))"

subsection \<open>Players that come back\<close>

text \<open>What one entry of a roster update does; the flag says whether the player re-entered.\<close>

definition rejoin_entry :: "flt \<Rightarrow> roster_entry \<Rightarrow> node \<times> bool \<Rightarrow> (node \<times> bool) result" where
  "rejoin_entry now entry = (\<lambda>(n, joined).
     let ji = entry_join_index entry;
         pid = entry_player_id entry;
         existing = find (\<lambda>p. entry_join_index p = ji) (roster_all (n_roster n));
         restored = map_of (n_rejoin_states n) ji
     in if pid = n_local_player_id n then Inr (n, joined)
        else if (case existing of None \<Rightarrow> False | Some x \<Rightarrow> entry_player_id x \<noteq> pid) then Inr (n, joined)
        else if (case existing of None \<Rightarrow> False
                 | Some x \<Rightarrow> entry_host x = entry_host entry \<and> entry_udp_port x = entry_udp_port entry
                     \<and> restored = None) then Inr (n, joined)
        else
          let n1 = n\<lparr>n_rejoin_states := AList.delete ji (n_rejoin_states n)\<rparr>;
              r1 = (case existing of None \<Rightarrow> n_roster n1
                    | Some x \<Rightarrow> roster_remove (entry_player_id x) (n_roster n1))
          in rbind (roster_add entry r1) (\<lambda>r2.
             let n2 = n1\<lparr>n_roster := r2\<rparr>;
                 n3 = (case restored of
                     Some p \<Rightarrow> on_world (add_player (p\<lparr>player_id := pid, join_index := ji\<rparr>)) n2
                   | None \<Rightarrow>
                       (case existing of
                          Some _ \<Rightarrow> n2
                        | None \<Rightarrow>
                            let (x, y) = spawn_position_for (node_engine n2) ji
                            in on_engine (spawn_player pid x y ji) n2))
             in Inr (n3\<lparr>n_last_input_time := AList.update pid now (n_last_input_time n3)\<rparr>, True)))"

definition check_for_rejoining_players :: "flt \<Rightarrow> message option \<Rightarrow> node \<Rightarrow> node result" where
  "check_for_rejoining_players now polled n =
     (case polled of
        Some (RosterUpdate r) \<Rightarrow>
          rbind (fold_res (rejoin_entry now) (roster_all r) (n, False)) (\<lambda>(n1, joined).
            Inr (if joined then emit (Send_Lobby (InitialStateSync (node_world n1))) n1 else n1))
      | _ \<Rightarrow> Inr n)"

subsection \<open>The frame\<close>

definition record_host_frame_interval :: "flt \<Rightarrow> node \<Rightarrow> node" where
  "record_host_frame_interval now n =
     n\<lparr>n_host_frame_intervals :=
         record_interval now (n_host_last_frame_at n) (n_host_frame_intervals n),
       n_host_last_frame_at := Some now\<rparr>"

definition maybe_log_host_diagnostics :: "node \<Rightarrow> node" where
  "maybe_log_host_diagnostics n =
     (if length (n_host_frame_intervals n) < DIAG_LOG_INTERVAL then n
      else n\<lparr>n_host_frame_intervals := [], n_host_input_window := 0\<rparr>)"

record host_io =
  ho_frame_at :: flt
  ho_lobby :: "message option"
  ho_rejoin_at :: flt
  ho_reported :: "ident list"
  ho_timeouts_at :: flt
  ho_packets :: "packet list"
  ho_tick :: tick_clock
  ho_iterate :: "ident fset \<Rightarrow> ident list"

definition host_tick :: "host_io \<Rightarrow> input_state \<Rightarrow> node \<Rightarrow> node result" where
  "host_tick io inp n =
     rbind (agent_tick (ho_iterate io) (ho_tick io) TICK_INTERVAL (build_host_inputs inp n) [] (n_agents n))
       (\<lambda>a. Inr (n\<lparr>n_agents := a\<rparr>))"

definition send_events :: "node \<Rightarrow> node result" where
  "send_events n =
     rbind (fold_res send_game_event (events (node_engine n)) n) (\<lambda>n1.
       Inr (on_engine (\<lambda>e. e\<lparr>events := []\<rparr>) n1))"

definition process_host_frame :: "host_io \<Rightarrow> input_state \<Rightarrow> node \<Rightarrow> (world_state \<times> node) result" where
  "process_host_frame io inp n =
     (let n1 = record_host_frame_interval (ho_frame_at io) n
      in rbind (check_for_rejoining_players (ho_rejoin_at io) (ho_lobby io) n1) (\<lambda>n2.
         rbind (check_player_disconnections (ho_reported io) (ho_timeouts_at io) n2) (\<lambda>n3.
         rbind (drain_remote_input_packets (ho_packets io) n3) (\<lambda>(n4, drained).
         let n5 = n4\<lparr>n_host_input_window := n_host_input_window n4 + drained\<rparr>
         in rbind (host_tick io inp n5) (\<lambda>n6.
            rbind (send_events n6) (\<lambda>n7.
            let n8 = send_world_state_snapshot n7
            in rbind (maybe_broadcast_roster n8) (\<lambda>n9.
               let n10 = maybe_log_host_diagnostics n9
               in Inr (node_world n10, n10))))))))"

end
