(* ===== verification/Node.thy ===== *)
theory Node
  imports Node_Host
begin

text \<open>
  The node controller itself: bootstrap, the frame dispatch of \<^verbatim>\<open>process_frame\<close>, and the lobby
  phase (\<^verbatim>\<open>application/lobby/coordinator.py\<close>) with its waiting loops as functions of the messages
  they poll; \<open>None\<close> is an empty poll.  Loops that end only when a message arrives return the
  \<open>Waiting\<close> outcome when the list of polls is exhausted.
\<close>

subsection \<open>Bootstrap\<close>

definition init_shadow_copies :: "node \<Rightarrow> node" where
  "init_shadow_copies n =
     (if n_role n \<noteq> CLIENT then n\<lparr>n_shadow_copies := []\<rparr>
      else n\<lparr>n_shadow_copies := map (\<lambda>pid. (pid, n_shadow_factory n))
               (filter (\<lambda>pid. pid \<noteq> n_local_player_id n) (dict_keys (characters (node_world n))))\<rparr>)"

definition configure_role :: "node \<Rightarrow> node" where
  "configure_role n =
     (if n_role n = HOST then
        on_engine (\<lambda>e. e\<lparr>is_authoritative := True\<rparr>)
          (n\<lparr>n_local_player_id := HOST_PLAYER_ID, n_udp_port := HOST_UDP_PORT\<rparr>)
      else
        (on_engine (\<lambda>e. e\<lparr>is_authoritative := False\<rparr>)
          (n\<lparr>n_local_player_id := player_id_for 1, n_udp_port := 0\<rparr>))\<lparr>n_remote_port := HOST_UDP_PORT\<rparr>)"

definition bootstrap_world :: "node \<Rightarrow> node" where
  "bootstrap_world n =
     (case get_player (n_local_player_id n) (node_world n) of
        Some _ \<Rightarrow> n
      | None \<Rightarrow>
          let (x, y) = spawn_position_for (node_engine n) 0
          in on_engine (spawn_player (n_local_player_id n) x y 0) n)"

definition bootstrap :: "player_role \<Rightarrow> node \<Rightarrow> node" where
  "bootstrap role n =
     (let n1 = bootstrap_world (configure_role (n\<lparr>n_role := role\<rparr>));
          n2 = (if role \<noteq> CLIENT then n1
                else
                  let n' = (if n_prediction n1 = Noop_Predictor
                        then n1\<lparr>n_prediction := Predictor
                               (new_prediction (n_local_player_id n1) (nat INPUT_HISTORY_SIZE))\<rparr>
                        else n1)
                  in (case n_shadow_factory n' of
                        Noop_Copy _ \<Rightarrow> n'\<lparr>n_shadow_factory := Smooth new_shadow_copy\<rparr>
                      | Smooth _ \<Rightarrow> n'))
      in n2\<lparr>n_lifecycle := move_to_idle (n_lifecycle n2)\<rparr>)"

subsection \<open>The lobby phase\<close>

definition rebuild_world_from_roster :: "flt \<Rightarrow> string \<Rightarrow> node \<Rightarrow> node" where
  "rebuild_world_from_roster now lobby_host n =
     (let entries = roster_all (n_roster n);
          n1 = (on_world (\<lambda>w. w\<lparr>characters := []\<rparr>) n)\<lparr>n_shadow_copies := []\<rparr>;
          n2 = fold (\<lambda>e n.
                 let (x, y) = spawn_position_for (node_engine n) (entry_join_index e)
                 in on_engine (spawn_player (entry_player_id e) x y (entry_join_index e)) n) entries n1;
          n3 = n2\<lparr>n_last_input_time :=
                 fold (\<lambda>e. AList.update (entry_player_id e) now) (other_entries n2) []\<rparr>;
          n4 = (case other_entries n3 of
                  [] \<Rightarrow> n3 | e # es \<Rightarrow> n3\<lparr>n_remote_player_id := entry_player_id e\<rparr>)
      in if n_role n4 \<noteq> CLIENT then n4
         else
           let host_entry = find entry_is_host entries;
               game_event_host = (case host_entry of Some h \<Rightarrow> entry_host h | None \<Rightarrow> lobby_host);
               port = (case host_entry of Some h \<Rightarrow> entry_udp_port h | None \<Rightarrow> HOST_UDP_PORT)
           in emit (Connect_Events game_event_host GAME_EVENT_WS_PORT
                      (GAME_EVENT_WS_PATH @ ''?player_id='' @ n_local_player_id n4))
                (n4\<lparr>n_remote_host := game_event_host, n_remote_port := port\<rparr>))"

datatype lobby_error =
  Lobby_Cancelled | Session_Closed | Join_Rejected string | Lobby_Timeout | Raised py_error

datatype 'a lobby_outcome = Done 'a | Failed lobby_error | Waiting

text \<open>\<^verbatim>\<open>_wait_for_game_start\<close>: each poll comes with the answer of the update callback.\<close>

fun wait_for_game_start :: "bool \<Rightarrow> (message option \<times> bool) list \<Rightarrow> node \<Rightarrow> node lobby_outcome \<times> node" where
  "wait_for_game_start adopt [] n = (Waiting, n)"
| "wait_for_game_start adopt ((msg, continue) # polls) n =
     (case msg of
        Some (GameStart sid) \<Rightarrow>
          let n1 = (if adopt then n\<lparr>n_session_id := sid\<rparr> else n)
          in if continue then (Done n1, n1) else (Failed Lobby_Cancelled, n1)
      | Some (SessionClosed sid) \<Rightarrow> (Failed Session_Closed, n)
      | _ \<Rightarrow>
          let n1 = (case msg of Some (RosterUpdate r) \<Rightarrow> n\<lparr>n_roster := r\<rparr> | _ \<Rightarrow> n)
          in if continue then wait_for_game_start adopt polls n1 else (Failed Lobby_Cancelled, n1))"

text \<open>\<^verbatim>\<open>_poll_lobby\<close>: the messages polled before the deadline, until one is of the expected class.\<close>

fun poll_lobby :: "(message \<Rightarrow> bool) \<Rightarrow> message list \<Rightarrow> node \<Rightarrow> message lobby_outcome \<times> node" where
  "poll_lobby expected [] n = (Failed Lobby_Timeout, n)"
| "poll_lobby expected (msg # msgs) n =
     (let n1 = (case msg of RosterUpdate r \<Rightarrow> n\<lparr>n_roster := r\<rparr> | _ \<Rightarrow> n)
      in case msg of
           SessionJoinRejected sid reason \<Rightarrow> (Failed (Join_Rejected reason), n1)
         | _ \<Rightarrow> if expected msg then (Done msg, n1) else poll_lobby expected msgs n1)"

text \<open>\<^verbatim>\<open>_host_replay_wait\<close> and the waiting loop of \<^verbatim>\<open>_host_lobby_phase\<close>.\<close>

fun wait_for_start_request :: "(message option \<times> bool \<times> bool) list \<Rightarrow> node \<Rightarrow> node lobby_outcome \<times> node" where
  "wait_for_start_request [] n = (Waiting, n)"
| "wait_for_start_request ((msg, continue, requested) # polls) n =
     (let n1 = (case msg of Some (RosterUpdate r) \<Rightarrow> n\<lparr>n_roster := r\<rparr> | _ \<Rightarrow> n)
      in if \<not> continue then (Failed Lobby_Cancelled, n1)
         else if requested \<and> n_roster n1 \<noteq> [] then (Done n1, n1)
         else wait_for_start_request polls n1)"

text \<open>\<^verbatim>\<open>_broadcast_game_start\<close>: the announcement, its echo, and the updates that crossed it.\<close>

definition is_game_start :: "message \<Rightarrow> bool" where
  "is_game_start m = (case m of GameStart _ \<Rightarrow> True | _ \<Rightarrow> False)"

definition adopt_rosters :: "message list \<Rightarrow> node \<Rightarrow> node" where
  "adopt_rosters msgs n =
     fold (\<lambda>msg n. case msg of RosterUpdate r \<Rightarrow> n\<lparr>n_roster := r\<rparr> | _ \<Rightarrow> n) msgs n"

definition broadcast_game_start ::
  "bool \<Rightarrow> message list \<Rightarrow> message list \<Rightarrow> node \<Rightarrow> node lobby_outcome \<times> node" where
  "broadcast_game_start continue polled late n =
     (if \<not> continue then (Failed Lobby_Cancelled, n)
      else case mk_message (GameStart (n_session_id n)) of
        Inl err \<Rightarrow> (Failed (Raised err), n)
      | Inr m \<Rightarrow>
          (case poll_lobby is_game_start polled (emit (Send_Lobby m) n) of
             (Done _, n1) \<Rightarrow> (let n2 = adopt_rosters late n1 in (Done n2, n2))
           | (Failed err, n1) \<Rightarrow> (Failed err, n1)
           | (Waiting, n1) \<Rightarrow> (Waiting, n1)))"

text \<open>The joining client, from its request to the acknowledged slot.\<close>

definition send_session_join :: "ident \<Rightarrow> node \<Rightarrow> node result" where
  "send_session_join sid n =
     with_message (SessionJoin sid (n_local_player_id n) (n_local_ip n) (n_udp_port n) (n_rejoin_join_index n))
       (\<lambda>m. emit (Send_Lobby m) n)"

definition adopt_join_index :: "ident \<Rightarrow> int \<Rightarrow> node \<Rightarrow> node" where
  "adopt_join_index sid ji n =
     n\<lparr>n_session_id := sid, n_join_index := ji, n_local_player_id := player_id_for ji,
       n_prediction := (case n_prediction n of
           Noop_Predictor \<Rightarrow> Noop_Predictor
         | Predictor p \<Rightarrow> Predictor (p\<lparr>pe_local_player_id := player_id_for ji\<rparr>))\<rparr>"

definition leave_lobby :: "node \<Rightarrow> node" where
  "leave_lobby n =
     (if n_session_id n = [] then n
      else emit (Send_Lobby (SessionLeave (n_session_id n) (n_join_index n))) n)"

definition discovery_allowed_ips :: "node \<Rightarrow> string set" where
  "discovery_allowed_ips n =
     {h \<in> entry_host ` set (n_roster n). h \<noteq> []} \<union> (if n_local_ip n \<noteq> [] then {n_local_ip n} else {})"

definition enter_game :: "flt \<Rightarrow> string \<Rightarrow> node \<Rightarrow> node" where
  "enter_game now lobby_host n =
     (let n1 = init_shadow_copies (rebuild_world_from_roster now lobby_host n)
      in n1\<lparr>n_lifecycle := move_to_game (n_lifecycle n1)\<rparr>)"

definition replay_game :: "flt \<Rightarrow> string \<Rightarrow> node \<Rightarrow> node" where
  "replay_game now lobby_host n = enter_game now lobby_host (on_engine reset_for_new_run n)"

subsection \<open>Frames\<close>

definition start_if_needed :: "node \<Rightarrow> node" where
  "start_if_needed n =
     (if is_started (n_lifecycle n) then n else n\<lparr>n_lifecycle := move_to_game (n_lifecycle n)\<rparr>)"

definition process_frame ::
  "host_io \<Rightarrow> client_io \<Rightarrow> input_state \<Rightarrow> node \<Rightarrow> (world_state \<times> node) result" where
  "process_frame hio cio inp n =
     (let n1 = start_if_needed n
      in if n_role n1 = HOST then process_host_frame hio inp n1 else process_client_frame cio inp n1)"

end
