(* ===== verification/Engine_Events.thy ===== *)
theory Engine_Events
  imports Engine_Props Messages
begin

text \<open>
  The events a tick emits can be sent: in a world whose identifiers are not empty and whose blocks
  stand at whole coordinates, every event names something the message classes accept.  Both
  conditions are kept by the preorder \<^const>\<open>evolves\<close>, so they are assumed once, of the level.
\<close>

fun sendable :: "event \<Rightarrow> bool" where
  "sendable (BlockDestroyedEvent pos) = (is_integral (fst pos) \<and> is_integral (snd pos))"
| "sendable (PowerUpCollectedEvent uid pid) = (uid \<noteq> [] \<and> pid \<noteq> [])"
| "sendable (GateStateChangedEvent gid st) = (gid \<noteq> [] \<and> st \<noteq> [])"
| "sendable (PlayerDeathEvent pid eid) = (pid \<noteq> [] \<and> eid \<noteq> [])"
| "sendable LevelResetEvent = True"

definition integral_block :: "block \<Rightarrow> bool" where
  "integral_block b \<longleftrightarrow> is_integral (pos_x b) \<and> is_integral (pos_y b)"

definition named_world :: "world_state \<Rightarrow> bool" where
  "named_world w \<longleftrightarrow>
     [] \<notin> fst ` set (characters w) \<and> [] \<notin> fst ` set (respawn_timers w) \<and>
     [] \<notin> fst ` set (power_ups (environment w)) \<and> [] \<notin> fst ` set (enemies (environment w)) \<and>
     [] \<notin> fst ` set (cooperative_gates (environment w)) \<and>
     (\<forall>b \<in> set (destructible_blocks (environment w)). integral_block b) \<and>
     (\<forall>en \<in> snd ` set (enemies (environment w)). movement_speed en \<noteq> None)"

abbreviation named :: "game_engine \<Rightarrow> bool" where
  "named e \<equiv> named_world (world_state e)"

definition emits :: "game_engine \<Rightarrow> game_engine \<Rightarrow> bool" where
  "emits e e' \<longleftrightarrow> (\<forall>ev \<in> set (events e'). ev \<in> set (events e) \<or> sendable ev)"

lemma emits_same: "events e' = events e \<Longrightarrow> emits e e'"
  by (simp add: emits_def)

lemma emits_trans [trans]: "emits a b \<Longrightarrow> emits b c \<Longrightarrow> emits a c"
  by (auto simp: emits_def)

lemma list_all2_keys: "list_all2 P d d' \<Longrightarrow> (\<And>a b. P a b \<Longrightarrow> fst b = fst a) \<Longrightarrow> fst ` set d' = fst ` set d"
proof -
  assume "list_all2 P d d'" and "\<And>a b. P a b \<Longrightarrow> fst b = fst a"
  then have "list_all2 (\<lambda>a b. fst b = fst a) d d'" by (auto elim: list_all2_mono)
  then have "map fst d' = map fst d" by (rule list_all2_fst_keys)
  then show "fst ` set d' = fst ` set d" by (metis list.set_map)
qed

lemma block_evolves_integral: "block_evolves b b' \<Longrightarrow> integral_block b' = integral_block b"
  by (auto simp: block_evolves_def integral_block_def)

lemma evolves_named: "evolves e e' \<Longrightarrow> named e \<Longrightarrow> named e'"
proof -
  assume ev: "evolves e e'" and nm: "named e"
  note d = evolvesD [OF ev]
  have "fst ` set (power_ups (environment (world_state e'))) = fst ` set (power_ups (environment (world_state e)))"
    using list_all2_keys [OF d(3)] powerup_evolves_id by blast
  moreover have "fst ` set (cooperative_gates (environment (world_state e')))
      = fst ` set (cooperative_gates (environment (world_state e)))"
    using list_all2_keys [OF d(4)] gate_evolves_id by blast
  moreover have "fst ` set (enemies (environment (world_state e'))) \<subseteq> fst ` set (enemies (environment (world_state e)))"
  proof
    fix k
    assume "k \<in> fst ` set (enemies (environment (world_state e')))"
    then obtain a' where "a' \<in> set (enemies (environment (world_state e')))" "k = fst a'" by blast
    with d(5) show "k \<in> fst ` set (enemies (environment (world_state e)))"
      unfolding enemies_evolve_def by (metis image_eqI)
  qed
  moreover have "\<forall>b \<in> set (destructible_blocks (environment (world_state e'))). integral_block b"
    using d(2) nm block_evolves_integral
    by (fastforce simp: named_world_def list_all2_conv_all_nth in_set_conv_nth)
  moreover have "\<forall>en \<in> snd ` set (enemies (environment (world_state e'))). movement_speed en \<noteq> None"
  proof
    fix en
    assume "en \<in> snd ` set (enemies (environment (world_state e')))"
    then obtain a' where "a' \<in> set (enemies (environment (world_state e')))" "en = snd a'"
      by blast
    then obtain a where "a \<in> set (enemies (environment (world_state e)))" "movement_speed en = movement_speed (snd a)"
      using d(5) unfolding enemies_evolve_def enemy_evolves_def by metis
    then show "movement_speed en \<noteq> None" using nm unfolding named_world_def by auto
  qed
  moreover have "[] \<notin> present e'"
    using d(7) nm by (auto simp: named_world_def present_def)
  ultimately show "named e'"
    using nm by (auto simp: named_world_def present_def)
qed

lemma named_players:
  assumes "engine_wf e" and "named e"
  shows "\<forall>a \<in> set (characters (world_state e)). player_id (snd a) \<noteq> []"
proof
  fix a
  assume a: "a \<in> set (characters (world_state e))"
  then have "player_id (snd a) = fst a"
    using keyedD [OF world_wfD(1) [OF assms(1)], of "fst a" "snd a"] by simp
  moreover have "fst a \<noteq> []"
    using a assms(2) unfolding named_world_def by (metis image_eqI)
  ultimately show "player_id (snd a) \<noteq> []" by simp
qed

subsection \<open>The phases that emit\<close>

lemma map_accum_inv:
  assumes "map_accum f as s = Inr (as', s')" and "P s"
    and "\<And>a t a' t'. a \<in> set as \<Longrightarrow> P t \<Longrightarrow> f a t = Inr (a', t') \<Longrightarrow> P t'"
  shows "P s'"
  using assms
proof (induction as arbitrary: s as')
  case Nil
  then show ?case by simp
next
  case (Cons a as)
  obtain a1 t bs where t: "f a s = Inr (a1, t)" "map_accum f as t = Inr (bs, s')"
    using Cons.prems(1) by (auto simp: rbind_Inr_iff)
  have "P t" using Cons.prems(3) [OF _ Cons.prems(2) t(1)] by simp
  then show ?case
    using Cons.IH [OF t(2)] Cons.prems(3) by (meson list.set_intros(2))
qed

lemma collide_block_sends:
  assumes "collide_block b (p, evs) = Inr (b', (p', evs'))" and "integral_block b"
  shows "integral_block b'" and "\<forall>ev \<in> set evs'. ev \<in> set evs \<or> sendable ev"
  using assms by (auto simp: collide_block_def integral_block_def split: if_splits)

lemma collide_blocks_sends:
  assumes "collide_blocks a (bs, evs) = Inr (a', (bs', evs'))" and "\<forall>b \<in> set bs. integral_block b"
  shows "(\<forall>b \<in> set bs'. integral_block b) \<and> (\<forall>ev \<in> set evs'. ev \<in> set evs \<or> sendable ev)"
proof -
  obtain k p where a: "a = (k, p)" by force
  obtain p' where m: "map_accum collide_block bs (p, evs) = Inr (bs', (p', evs'))"
    using assms(1) by (auto simp: collide_blocks_def a rbind_Inr_iff)
  have "(\<forall>b \<in> set bs'. integral_block b) \<and> (\<forall>ev \<in> set evs'. ev \<in> set evs \<or> sendable ev)"
    using m assms(2)
  proof (induction bs arbitrary: p evs bs' p' evs')
    case Nil
    then show ?case by simp
  next
    case (Cons b bs)
    obtain b1 p1 evs1 bs1 where *: "collide_block b (p, evs) = Inr (b1, (p1, evs1))"
        "map_accum collide_block bs (p1, evs1) = Inr (bs1, (p', evs'))" "bs' = b1 # bs1"
      using Cons.prems(1) by (auto simp: rbind_Inr_iff)
    show ?case
      using collide_block_sends [OF *(1)] Cons.IH [OF *(2)] Cons.prems(2) *(3) by auto
  qed
  then show ?thesis .
qed

lemma block_phase_emits:
  assumes "handle_block_collisions e = Inr e'" and "named e"
  shows "emits e e'"
proof -
  let ?w = "world_state e"
  obtain cs bs evs where m: "map_accum collide_blocks (characters ?w)
      (destructible_blocks (environment ?w), events e) = Inr (cs, (bs, evs))" and e': "events e' = evs"
    using assms(1) by (auto simp: handle_block_collisions_def rbind_Inr_iff)
  let ?P = "\<lambda>s. (\<forall>b \<in> set (fst s). integral_block b) \<and> (\<forall>ev \<in> set (snd s). ev \<in> set (events e) \<or> sendable ev)"
  have "?P (bs, evs)"
  proof (rule map_accum_inv [OF m])
    show "?P (destructible_blocks (environment ?w), events e)"
      using assms(2) by (simp add: named_world_def)
  next
    fix a t a' t'
    assume "?P t" and "collide_blocks a t = Inr (a', t')"
    then show "?P t'"
      using collide_blocks_sends [of a "fst t" "snd t" a' "fst t'" "snd t'"] by auto
  qed
  then show ?thesis
    by (simp add: emits_def e')
qed

lemma collect_powerup_sends:
  assumes "collect_powerup now (k, u) (cs, evs) = Inr (a', (cs', evs'))"
    and "keyed player_id cs" and "powerup_id u \<noteq> []" and "[] \<notin> fst ` set cs"
  shows "\<forall>ev \<in> set evs'. ev \<in> set evs \<or> sendable ev"
proof (cases "collected u \<or> filter (\<lambda>(_, p). check_collision p u) cs = []")
  case True
  then show ?thesis using assms(1) by (cases "collected u") (simp_all add: collect_powerup_def)
next
  case False
  let ?hit = "filter (\<lambda>(_, p). check_collision p u) cs"
  obtain wid winner where w: "arg_min_list (\<lambda>(_, p). join_index p) ?hit = (wid, winner)"
    by force
  then have "(wid, winner) \<in> set cs"
    using False arg_min_list_mem [of ?hit "\<lambda>(_, p). join_index p"] by auto
  then have "player_id winner \<noteq> []"
    using assms(2,4) by (force dest: keyedD)
  then show ?thesis
    using False assms(1,3) by (auto simp: collect_powerup_def w)
qed

lemma powerup_phase_emits:
  assumes "handle_powerup_collisions now e = Inr e'" and "engine_wf e" and "named e"
  shows "emits e e'"
proof (cases "is_authoritative e")
  case False
  then show ?thesis using assms(1) by (simp add: handle_powerup_collisions_def emits_def)
next
  case True
  let ?w = "world_state e"
  obtain us cs evs where m: "map_accum (collect_powerup now) (power_ups (environment ?w))
      (characters ?w, events e) = Inr (us, (cs, evs))" and e': "events e' = evs"
    using assms(1) True by (auto simp: handle_powerup_collisions_def rbind_Inr_iff)
  let ?P = "\<lambda>s. keyed player_id (fst s) \<and> dict_keys (fst s) = dict_keys (characters ?w) \<and>
    (\<forall>ev \<in> set (snd s). ev \<in> set (events e) \<or> sendable ev)"
  have "?P (cs, evs)"
  proof (rule map_accum_inv [OF m])
    show "?P (characters ?w, events e)"
      using assms(2) by (simp add: world_wfD)
  next
    fix a t a' t'
    assume a: "a \<in> set (power_ups (environment ?w))" and P: "?P t"
      and c: "collect_powerup now a t = Inr (a', t')"
    have keys: "keyed player_id (fst t')" "dict_keys (fst t') = dict_keys (fst t)"
      using collect_powerup_total [of t now a] P c by auto
    have "fst ` set (fst t) = fst ` set (characters ?w)"
      using P by (metis list.set_map)
    then have 1: "[] \<notin> fst ` set (fst t)"
      using assms(3) by (simp add: named_world_def)
    have "powerup_id (snd a) = fst a"
      using a keyedD [OF world_wfD(2) [OF assms(2)], of "fst a" "snd a"] by simp
    moreover have "fst a \<noteq> []"
      using a assms(3) unfolding named_world_def by (metis image_eqI)
    ultimately have 2: "powerup_id (snd a) \<noteq> []" by simp
    have "\<forall>ev \<in> set (snd t'). ev \<in> set (snd t) \<or> sendable ev"
      using collect_powerup_sends [of now "fst a" "snd a" "fst t" "snd t" a' "fst t'" "snd t'"]
        P c 1 2 by simp
    then show "?P t'"
      using P keys by auto
  qed
  then show ?thesis
    by (simp add: emits_def e')
qed

lemma queue_death_emits:
  "player_id p \<noteq> [] \<Longrightarrow> cause \<noteq> [] \<Longrightarrow> emits e (queue_player_death now p cause e)"
  by (auto simp: emits_def queue_player_death_def Let_def)

lemma enemy_turn_emits:
  assumes "enemy_against_players now en ps e = Inr e'" and "enemy_id en \<noteq> []"
    and "\<forall>a \<in> set ps. player_id (snd a) \<noteq> []"
  shows "emits e e'"
  using assms
proof (induction ps arbitrary: e)
  case Nil
  then show ?case by (simp add: emits_def)
next
  case (Cons a ps)
  obtain pk p where a: "a = (pk, p)" by force
  obtain active p1 where act: "has_active_powerup_effect now p = (active, p1)" by force
  have p1: "player_id p1 \<noteq> []"
    using has_active_player_id [of now p] act Cons.prems(3) a by simp
  have s: "emits e (set_player pk p1 e)"
    by (simp add: emits_def set_player_def)
  show ?case
  proof (cases "check_collision p en \<and> \<not> (active \<or> is_stomp p1 en)")
    case True
    then have "enemy_against_players now en ps
        (queue_player_death now p1 (enemy_id en) (set_player pk p1 e)) = Inr e'"
      using Cons.prems(1) by (simp add: a act Let_def)
    from Cons.IH [OF this Cons.prems(2)] Cons.prems(3)
      queue_death_emits [OF p1 Cons.prems(2)]
    show ?thesis using s by (meson emits_trans list.set_intros(2))
  next
    case False
    then show ?thesis
      using Cons.IH [of e] Cons.prems
      by (auto simp: a act Let_def delete_enemy_def emits_def set_player_def rbind_Inr_iff split: if_splits)
  qed
qed

lemma enemy_phase_emits:
  assumes "handle_enemy_collisions now e = Inr e'" and "engine_wf e" and "named e"
  shows "emits e e'"
proof (cases "is_authoritative e")
  case False
  then show ?thesis using assms(1) by (simp add: handle_enemy_collisions_def emits_def)
next
  case True
  let ?turn = "\<lambda>en e. enemy_against_players now en (characters (world_state e)) e"
  let ?ids = "\<lambda>e. fst ` set (enemies (environment (world_state e)))"
  have *: "emits t t'"
    if "fold_res ?turn ens t = Inr t'" "engine_wf t" "is_authoritative t" "named t"
      "distinct (map enemy_id ens)" "enemy_id ` set ens \<subseteq> ?ids t" for ens t t'
    using that
  proof (induction ens arbitrary: t)
    case Nil
    then show ?case by (simp add: emits_def)
  next
    case (Cons en ens)
    have en: "enemy_id en \<in> ?ids t" using Cons.prems(6) by simp
    obtain u where u: "?turn en t = Inr u" "good_step t u" "?ids t - {enemy_id en} \<subseteq> ?ids u"
      using enemy_against_players_good [OF Cons.prems(2,3) en world_wfD(1) [OF Cons.prems(2)] order_refl]
      by blast
    have "enemy_id en \<noteq> []" using en Cons.prems(4) unfolding named_world_def by metis
    moreover have "\<forall>a \<in> set (characters (world_state t)). player_id (snd a) \<noteq> []"
      by (rule named_players [OF Cons.prems(2,4)])
    ultimately have "emits t u" by (rule enemy_turn_emits [OF u(1)])
    moreover have "enemy_id ` set ens \<subseteq> ?ids u"
      by (rule rest_subset [of "enemy_id en", OF _ _ u(3)]) (use Cons.prems(5,6) in simp_all)
    then have "emits u t'"
      using Cons.IH [of u] Cons.prems(1,3,5) u(1) good_step_wf [OF u(2)]
        evolves_authority [of t u] evolves_named [of t u] u(2) Cons.prems(4)
      by (simp add: good_step_def)
    ultimately show ?case by (rule emits_trans)
  qed
  have "enemy_id ` set (dict_values (enemies (environment (world_state e)))) \<subseteq> ?ids e"
    using keyed_values_set [OF world_wfD(3) [OF assms(2)]] by blast
  with * [OF _ assms(2) True assms(3) keyed_values_distinct [OF world_wfD(3) [OF assms(2)]]] assms(1) True
  show ?thesis
    by (simp add: handle_enemy_collisions_def)
qed

lemma void_phase_emits:
  assumes "engine_wf e" and "named e"
  shows "emits e (handle_void_deaths now e)"
proof -
  let ?step = "\<lambda>p e. if pos_y p + height p \<le> of_int (world_height e) then e
                     else queue_player_death now p VOID_DEATH_CAUSE e"
  have "emits t (fold ?step ps t)" if "\<forall>p \<in> set ps. player_id p \<noteq> []" for ps t
    using that
  proof (induction ps arbitrary: t)
    case Nil
    then show ?case by (simp add: emits_def)
  next
    case (Cons p ps)
    have "emits t (?step p t)"
      using Cons.prems queue_death_emits [of p VOID_DEATH_CAUSE]
      by (auto simp: VOID_DEATH_CAUSE_def intro: emits_same)
    also have "emits (?step p t) (fold ?step ps (?step p t))"
      using Cons.prems by (intro Cons.IH) auto
    finally show ?case by (simp only: fold_simps)
  qed
  moreover have "\<forall>p \<in> set (dict_values (characters (world_state e))). player_id p \<noteq> []"
    using named_players [OF assms] by simp
  ultimately show ?thesis
    by (simp add: handle_void_deaths_def emits_same)
qed

lemma gate_phase_emits:
  assumes "handle_gate_collisions e = Inr e'" and "engine_wf e" and "named e"
  shows "emits e e'"
proof -
  let ?w = "world_state e"
  obtain gs cs evs where m: "map_accum (update_gate ?w) (cooperative_gates (environment ?w))
      (characters ?w, events e) = Inr (gs, (cs, evs))" and e': "events e' = evs"
    using assms(1) by (auto simp: handle_gate_collisions_def rbind_Inr_iff)
  have "\<forall>ev \<in> set (snd (cs, evs)). ev \<in> set (events e) \<or> sendable ev"
  proof (rule map_accum_inv [OF m])
    show "\<forall>ev \<in> set (snd (characters ?w, events e)). ev \<in> set (events e) \<or> sendable ev" by simp
  next
    fix a :: "ident \<times> gate" and t a' t'
    assume a: "a \<in> set (cooperative_gates (environment ?w))"
      and P: "\<forall>ev \<in> set (snd t). ev \<in> set (events e) \<or> sendable ev"
      and u: "update_gate ?w a t = Inr (a', t')"
    have "gate_id (snd a) \<noteq> []"
    proof -
      have "gate_id (snd a) = fst a"
        using a keyedD [OF world_wfD(4) [OF assms(2)], of "fst a" "snd a"] by simp
      moreover have "fst a \<noteq> []"
        using a assms(3) unfolding named_world_def by (metis image_eqI)
      ultimately show ?thesis by simp
    qed
    then show "\<forall>ev \<in> set (snd t'). ev \<in> set (events e) \<or> sendable ev"
      using P u by (auto simp: update_gate_def gate_update_state_def Let_def split: if_splits prod.splits)
  qed
  then show ?thesis by (simp add: emits_def e')
qed

subsection \<open>The tick\<close>

lemma quiet_phases [simp]:
  "events (each_player f e) = events e"
  "events (save_previous_positions e) = events e"
  "events (expire_powerup_effects now e) = events e"
  "events (handle_collisions e) = events e"
  "events (sync_objective_progress e) = events e"
  "events (clamp_players_to_world e) = events e"
  "events (handle_victory_condition e) = events e"
  "events (next_sequence_number e) = events e"
  by (simp_all add: each_player_def save_previous_positions_def expire_powerup_effects_def
      handle_collisions_def sync_objective_progress_def clamp_players_to_world_def
      handle_victory_condition_def next_sequence_number_def split: option.split)

lemma events_apply_inputs [simp]: "events (apply_inputs inputs e) = events e"
proof -
  have "events (fold (\<lambda>(pid, inp) e. case get_player pid (world_state e) of
      None \<Rightarrow> e | Some p \<Rightarrow> set_player pid (apply_input inp p) e) inputs t) = events t" for t
    by (induction inputs arbitrary: t) (auto simp: set_player_def split: option.split)
  then show ?thesis by (simp add: apply_inputs_def)
qed

lemma events_update_enemies: "update_enemies dt commands e = Inr e' \<Longrightarrow> events e' = events e"
  by (auto simp: update_enemies_def rbind_Inr_iff)

lemma events_process_respawns [simp]: "events (process_respawns now e) = events e"
proof -
  have "events (respawn now t e) = events e" for t e
    by (cases t) (simp add: respawn_def Let_def spawn_player_def split: prod.split)
  then have "events (fold (respawn now) ts e) = events e" for ts
    by (induction ts arbitrary: e) simp_all
  then show ?thesis by (simp add: process_respawns_def)
qed

lemma good_result_InrD: "good_result e r \<Longrightarrow> r = Inr e' \<Longrightarrow> good_step e e'"
  by simp

lemma tick_emits:
  assumes "engine_wf e" and "valid_commands commands" and "named e"
    and "tick clk dt inputs commands e = Inr e'"
  shows "emits e e'"
proof (cases "victory (world_state e)")
  case True
  then show ?thesis using assms(4) by (auto simp: tick_def intro: emits_same)
next
  case False
  define e5 where "e5 = handle_collisions (each_player (apply_physics dt)
    (apply_inputs inputs (expire_powerup_effects (clock_expire clk) (save_previous_positions e))))"
  obtain e6 e7 e8 e11 where
    e6: "handle_environment_collisions (clock_powerups clk) e5 = Inr e6" and
    e7: "update_enemies dt commands e6 = Inr e7" and
    e8: "handle_enemy_collisions (clock_enemies clk) e7 = Inr e8" and
    e11: "handle_gate_collisions (sync_objective_progress (handle_void_deaths (clock_void clk) e8)) = Inr e11" and
    e': "events e' = events e11"
    using assms(4) False by (auto simp: tick_def Let_def rbind_Inr_iff e5_def)
  have g5: "good_step e e5"
    unfolding e5_def by (intro good_phases good_step_refl assms(1))
  obtain e5b where b: "handle_block_collisions e5 = Inr e5b" "handle_powerup_collisions (clock_powerups clk) e5b = Inr e6"
    using e6 by (auto simp: handle_environment_collisions_def rbind_Inr_iff)
  note g5b = good_result_InrD [OF handle_block_collisions_good [OF good_step_wf [OF g5]] b(1)]
  note g6 = good_result_InrD [OF handle_powerup_collisions_good [OF good_step_wf [OF g5b]] b(2)]
  note g7 = good_result_InrD [OF update_enemies_good [OF good_step_wf [OF g6] assms(2)] e7]
  note g8 = good_result_InrD [OF handle_enemy_collisions_good [OF good_step_wf [OF g7]] e8]
  note g9 = handle_void_deaths_good [OF good_step_wf [OF g8], of "clock_void clk"]
  have nm: "good_step a b \<Longrightarrow> named a \<Longrightarrow> named b" for a b
    using evolves_named by (auto simp: good_step_def)
  note n5 = nm [OF g5 assms(3)]
  note n5b = nm [OF g5b n5]
  note n6 = nm [OF g6 n5b]
  note n7 = nm [OF g7 n6]
  note n8 = nm [OF g8 n7]
  note n9 = nm [OF g9 n8]
  note g10 = sync_objective_progress_good [OF good_step_wf [OF g9]]
  have "emits e e5" by (rule emits_same) (simp add: e5_def)
  also have "emits e5 e5b" by (rule block_phase_emits [OF b(1) n5])
  also have "emits e5b e6" by (rule powerup_phase_emits [OF b(2) good_step_wf [OF g5b] n5b])
  also have "emits e6 e7" by (rule emits_same) (rule events_update_enemies [OF e7])
  also have "emits e7 e8" by (rule enemy_phase_emits [OF e8 good_step_wf [OF g7] n7])
  also have "emits e8 (handle_void_deaths (clock_void clk) e8)"
    by (rule void_phase_emits [OF good_step_wf [OF g8] n8])
  also have "emits (handle_void_deaths (clock_void clk) e8)
      (sync_objective_progress (handle_void_deaths (clock_void clk) e8))"
    by (rule emits_same) simp
  also have "emits \<dots> e11"
    by (rule gate_phase_emits [OF e11 good_step_wf [OF g10] nm [OF g10 n9]])
  also have "emits e11 e'" by (rule emits_same [OF e'])
  finally show ?thesis .
qed

end
