(* ===== verification/Node_Inv.thy ===== *)
theory Node_Inv
  imports Node Engine_Events
begin

text \<open>
  The invariant of a node, and that every operation of a frame returns and keeps it.  A frame is
  a chain of fallible steps, so the proofs chain total-correctness statements: \<open>returns Q r\<close>
  says that \<open>r\<close> is a value, not an exception, and satisfies \<open>Q\<close>.
\<close>

definition returns :: "('a \<Rightarrow> bool) \<Rightarrow> 'a result \<Rightarrow> bool" where
  "returns Q r \<longleftrightarrow> (\<exists>x. r = Inr x \<and> Q x)"

lemma returns_Inr [simp]: "returns Q (Inr x) \<longleftrightarrow> Q x"
  by (simp add: returns_def)

lemma returns_Inl [simp]: "\<not> returns Q (Inl e)"
  by (simp add: returns_def)

lemma returns_bind: "returns P r \<Longrightarrow> (\<And>x. P x \<Longrightarrow> returns Q (f x)) \<Longrightarrow> returns Q (rbind r f)"
  by (auto simp: returns_def)

lemma returns_mono: "returns P r \<Longrightarrow> (\<And>x. P x \<Longrightarrow> Q x) \<Longrightarrow> returns Q r"
  by (auto simp: returns_def)

lemma returnsD: "returns Q r \<Longrightarrow> r = Inr x \<Longrightarrow> Q x"
  by simp

lemma returns_fold_res:
  assumes "P s" and "\<And>a t. a \<in> set as \<Longrightarrow> P t \<Longrightarrow> returns P (f a t)"
  shows "returns P (fold_res f as s)"
  using fold_res_total [of P s as f] assms unfolding returns_def by blast

lemma returns_map_res:
  "(\<And>a. a \<in> set as \<Longrightarrow> returns Q (f a)) \<Longrightarrow> returns (list_all2 (\<lambda>a. Q) as) (map_res f as)"
  using map_res_total [of as f "\<lambda>a. Q"] unfolding returns_def by blast

lemma returns_message: "valid_message m \<Longrightarrow> Q (k m) \<Longrightarrow> returns Q (with_message m k)"
  by simp

lemma fold_inv: "P s \<Longrightarrow> (\<And>a t. a \<in> set as \<Longrightarrow> P t \<Longrightarrow> P (f a t)) \<Longrightarrow> P (fold f as s)"
  by (induction as arbitrary: s) auto

subsection \<open>Engines whose events can be sent\<close>

definition world_good :: "world_state \<Rightarrow> bool" where
  "world_good w \<longleftrightarrow> world_wf w \<and> named_world w"

definition level_named :: "level \<Rightarrow> bool" where
  "level_named l \<longleftrightarrow>
     [] \<notin> powerup_id ` set (level_powerups l) \<and> [] \<notin> enemy_id ` set (level_enemies l) \<and>
     [] \<notin> gate_id ` set (level_gates l) \<and> (\<forall>b \<in> set (level_blocks l). integral_block b) \<and>
     (\<forall>en \<in> set (level_enemies l). movement_speed en \<noteq> None)"

definition engine_good :: "game_engine \<Rightarrow> bool" where
  "engine_good e \<longleftrightarrow> world_good (world_state e) \<and> level_named (level_template e) \<and>
     (\<forall>ev \<in> set (events e). sendable ev)"

lemma engine_goodD:
  assumes "engine_good e"
  shows "engine_wf e" and "named e" and "world_good (world_state e)" and "level_named (level_template e)"
    and "\<And>ev. ev \<in> set (events e) \<Longrightarrow> sendable ev"
  using assms by (simp_all add: engine_good_def world_good_def)

lemma engine_good_world: "engine_good e \<Longrightarrow> world_good w \<Longrightarrow> engine_good (e\<lparr>world_state := w\<rparr>)"
  by (simp add: engine_good_def)

lemma engine_good_events: "engine_good e \<Longrightarrow> engine_good (e\<lparr>events := []\<rparr>)"
  by (simp add: engine_good_def)

lemma engine_good_authority [simp]: "engine_good (e\<lparr>is_authoritative := b\<rparr>) = engine_good e"
  by (simp add: engine_good_def)

lemma tick_engine_good:
  assumes "engine_good e" and "valid_commands commands" and "tick clk dt inputs commands e = Inr e'"
  shows "engine_good e'"
proof -
  note t = tick_result [OF engine_goodD(1) [OF assms(1)] assms(2,3)]
  have "emits e e'"
    by (rule tick_emits [OF engine_goodD(1) [OF assms(1)] assms(2) engine_goodD(2) [OF assms(1)] assms(3)])
  moreover have "level_template e' = level_template e"
    using evolvesD(1) [OF t(1)] by (simp add: same_setting_def)
  ultimately show ?thesis
    using t(2) evolves_named [OF t(1) engine_goodD(2) [OF assms(1)]] engine_goodD(4,5) [OF assms(1)]
    by (auto simp: engine_good_def world_good_def emits_def)
qed

lemma tick_engine_returns:
  assumes "engine_good e" and "valid_commands commands"
  shows "returns (\<lambda>e'. engine_good e' \<and> is_authoritative e' = is_authoritative e \<and>
      engine_seq e' = engine_seq e + 1) (tick clk dt inputs commands e)"
  using tick_good [OF engine_goodD(1) [OF assms(1)] assms(2), of clk dt inputs]
    tick_engine_good [OF assms] evolves_authority
  by (auto simp: returns_def engine_seq_def)

lemma replay_engine_good:
  assumes "engine_good e"
  shows "returns (\<lambda>e'. engine_good e' \<and> is_authoritative e' = is_authoritative e)
    (replay_pending clks pid pending e)"
  unfolding replay_pending_def
proof (rule returns_fold_res)
  show "engine_good e \<and> is_authoritative e = is_authoritative e" using assms by simp
next
  fix a :: "nat \<times> history_entry" and t
  assume "engine_good t \<and> is_authoritative t = is_authoritative e"
  then show "returns (\<lambda>e'. engine_good e' \<and> is_authoritative e' = is_authoritative e)
      ((\<lambda>(i, entry). tick (clks i) (he_dt entry) [(pid, he_input_state entry)] None) a t)"
    by (cases a) (auto simp: valid_commands_def intro: returns_mono [OF tick_engine_returns])
qed

lemma adopt_snapshot_good:
  assumes "engine_good e" and "world_good w"
  shows "engine_good (adopt_snapshot w e)"
proof -
  have rt: "respawn_timers (world_state (adopt_snapshot w e)) = respawn_timers w"
    and ev: "events (adopt_snapshot w e) = events e" "level_template (adopt_snapshot w e) = level_template e"
    by (simp_all add: adopt_snapshot_def Let_def)
  note e = engine_goodD(1,2) [OF assms(1)]
  have w: "world_wf w" "named_world w"
    using assms(2) by (simp_all only: world_good_def)
  have "engine_wf (adopt_snapshot w e)"
    by (rule adopt_snapshot_wf [OF e(1) w(1)])
  moreover have "named (adopt_snapshot w e)"
    using w(2) e(2) unfolding named_world_def adopt_snapshot_simps rt by (elim conjE) (intro conjI)
  ultimately show ?thesis
    using assms(1) unfolding engine_good_def world_good_def ev by simp
qed

lemma reconcile_engine_good:
  assumes "engine_good e" and "world_good (snapshot_world s)"
  shows "returns (\<lambda>(e', p'). engine_good e' \<and> is_authoritative e' = is_authoritative e \<and>
      pe_local_player_id p' = pe_local_player_id p \<and> pe_capacity p' = pe_capacity p)
    (reconcile clks s e p)"
proof -
  note g = adopt_snapshot_good [OF assms]
  show ?thesis
    unfolding reconcile_def Let_def
    by (rule returns_bind [where P = "\<lambda>e'. engine_good e' \<and> is_authoritative e' = is_authoritative e"])
      (use g replay_engine_good [OF g] in auto)
qed

lemma remove_player_good: "world_good w \<Longrightarrow> world_good (remove_player pid w)"
  by (simp add: world_good_def remove_player_wf named_world_def) (simp add: remove_player_eq)

lemma add_player_good:
  "world_good w \<Longrightarrow> player_id p \<noteq> [] \<Longrightarrow> player_id p \<notin> fst ` set (respawn_timers w) \<Longrightarrow>
     world_good (add_player p w)"
  by (auto simp: world_good_def add_player_wf) (auto simp: named_world_def add_player_def AList.dom_update)

lemma spawn_player_good:
  "engine_good e \<Longrightarrow> pid \<noteq> [] \<Longrightarrow> pid \<notin> fst ` set (respawn_timers (world_state e)) \<Longrightarrow>
     engine_good (spawn_player pid x y ji e)"
  using add_player_good [of "world_state e" "clamp_character_to_world e True (new_player pid x y ji)"]
  by (simp add: spawn_player_def engine_good_def)

lemma fst_set_dict_by: "fst ` set (dict_by f vs) \<subseteq> f ` set vs"
proof -
  have "fst ` set (fold (\<lambda>v. AList.update (f v) v) vs d) \<subseteq> fst ` set d \<union> f ` set vs" for d
  proof (induction vs arbitrary: d)
    case Nil
    then show ?case by simp
  next
    case (Cons v vs)
    have "fst ` set (fold (\<lambda>v. AList.update (f v) v) vs (AList.update (f v) v d))
        \<subseteq> fst ` set (AList.update (f v) v d) \<union> f ` set vs"
      by (rule Cons.IH)
    then show ?case by (simp add: AList.dom_update)
  qed
  from this [of "[]"] show ?thesis by (simp add: dict_by_def)
qed

lemma snd_set_dict_by: "snd ` set (dict_by f vs) \<subseteq> set vs"
proof -
  have "snd ` set (fold (\<lambda>v. AList.update (f v) v) vs d) \<subseteq> snd ` set d \<union> set vs" for d
  proof (induction vs arbitrary: d)
    case Nil
    then show ?case by simp
  next
    case (Cons v vs)
    have "snd ` set (AList.update (f v) v d) \<subseteq> insert v (snd ` set d)"
      using set_AList_update [of "f v" v d] by auto
    with Cons.IH [of "AList.update (f v) v d"]
    have "snd ` set (fold (\<lambda>v. AList.update (f v) v) vs (AList.update (f v) v d))
        \<subseteq> insert v (snd ` set d) \<union> set vs"
      by blast
    then show ?case by simp
  qed
  from this [of "[]"] show ?thesis by (simp add: dict_by_def)
qed

lemma load_level_good:
  assumes "level_named l" and "world_good w"
  shows "world_good (load_level l w)"
proof -
  have "[] \<notin> fst ` set (dict_by powerup_id (level_powerups l))"
    "[] \<notin> fst ` set (dict_by enemy_id (level_enemies l))"
    "[] \<notin> fst ` set (dict_by gate_id (level_gates l))"
    using assms(1) fst_set_dict_by unfolding level_named_def by (metis subsetD)+
  moreover have "\<forall>en \<in> snd ` set (dict_by enemy_id (level_enemies l)). movement_speed en \<noteq> None"
    using assms(1) snd_set_dict_by unfolding level_named_def by (metis subsetD)
  ultimately have "named_world (load_level l w)"
    using assms by (simp add: world_good_def named_world_def load_level_def level_named_def)
  then show ?thesis
    using assms(2) load_level_wf by (simp add: world_good_def)
qed

lemma reset_for_new_run_good:
  assumes "engine_good e"
  shows "engine_good (reset_for_new_run e)"
proof -
  have "engine_wf (reset_for_new_run e)"
    by (rule reset_for_new_run_wf [OF engine_goodD(1) [OF assms]])
  moreover have "named (reset_for_new_run e)"
    using load_level_good [OF engine_goodD(4,3) [OF assms]]
    by (simp add: reset_for_new_run_def Let_def each_player_def named_world_def world_good_def)
  ultimately show ?thesis
    using assms
    by (auto simp: engine_good_def world_good_def)
      (auto simp: reset_for_new_run_def Let_def each_player_def)
qed

lemma world_good_blocks:
  "world_good w \<Longrightarrow> \<forall>b \<in> set (destructible_blocks (environment w)). integral_block b"
  unfolding world_good_def named_world_def by (elim conjE)

lemma destroy_block_good: "world_good w \<Longrightarrow> world_good (destroy_block_at pos w)"
proof -
  assume w: "world_good w"
  let ?bs = "destructible_blocks (environment w)"
  let ?u = "update_first (\<lambda>b. (pos_x b, pos_y b) = pos) (\<lambda>b. b\<lparr>destroyed := True\<rparr>) ?bs"
  have bs: "\<forall>b \<in> set ?bs. integral_block b"
    by (rule world_good_blocks [OF w])
  have marked: "integral_block (b\<lparr>destroyed := True\<rparr>) = integral_block b" for b
    by (simp add: integral_block_def)
  have all: "\<forall>b \<in> set ?bs \<union> (\<lambda>b. b\<lparr>destroyed := True\<rparr>) ` set ?bs. integral_block b"
    using bs by (simp add: ball_Un marked)
  have "\<forall>b \<in> set ?u. integral_block b"
    by (intro ballI bspec [OF all] subsetD [OF set_update_first])
  moreover have "destroy_block_at pos w = w\<lparr>environment := (environment w)\<lparr>destructible_blocks := ?u\<rparr>\<rparr>"
    by (simp add: destroy_block_at_def)
  ultimately show ?thesis
    using w unfolding world_good_def world_wf_def named_world_def by simp
qed

lemma mark_collected_good: "world_good w \<Longrightarrow> world_good (mark_collected uid pid w)"
proof (cases "get_power_up uid w")
  case None
  then show "world_good w \<Longrightarrow> ?thesis" by (simp add: mark_collected_def)
next
  case (Some u)
  assume w: "world_good w"
  have u: "map_of (power_ups (environment w)) uid = Some u" "powerup_id u = uid"
    using Some w by (auto simp: get_power_up_def world_good_def dest: world_wfD keyed_map_of)
  then have "uid \<in> fst ` set (power_ups (environment w))"
    by (metis map_of_eq_None_iff option.distinct(1))
  then have "uid \<noteq> []" "insert uid (fst ` set (power_ups (environment w))) = fst ` set (power_ups (environment w))"
    using w unfolding world_good_def named_world_def by (metis, blast)
  then show ?thesis
    using w u Some
    by (simp add: mark_collected_def world_good_def world_wf_def named_world_def AList.dom_update
        keyed_update)
qed

lemma mark_gate_good: "world_good w \<Longrightarrow> world_good (mark_gate gid st w)"
proof (cases "get_gate gid w")
  case None
  then show "world_good w \<Longrightarrow> ?thesis" by (simp add: mark_gate_def)
next
  case (Some g)
  assume w: "world_good w"
  have g: "map_of (cooperative_gates (environment w)) gid = Some g" "gate_id g = gid"
    using Some w by (auto simp: get_gate_def world_good_def dest: world_wfD keyed_map_of)
  then have "gid \<in> fst ` set (cooperative_gates (environment w))"
    by (metis map_of_eq_None_iff option.distinct(1))
  then have "gid \<noteq> []" "insert gid (fst ` set (cooperative_gates (environment w))) = fst ` set (cooperative_gates (environment w))"
    using w unfolding world_good_def named_world_def by (metis, blast)
  then show ?thesis
    using w g Some
    by (simp add: mark_gate_def world_good_def world_wf_def named_world_def AList.dom_update
        keyed_update)
qed

subsection \<open>The invariant\<close>

fun display_wf :: "display \<Rightarrow> bool" where
  "display_wf (Noop_Copy s) = True"
| "display_wf (Smooth s) = shadow_wf s"

text \<open>
  \<open>node_wf fresh n\<close>: the engine and its agents are well-formed, and every action the agents
  store was decided on a tick the engine has reached.  With \<open>fresh\<close>, as on a client, no action
  is stored, so the world may be replaced by an older one.
\<close>

definition identity_wf :: "node \<Rightarrow> bool" where
  "identity_wf n \<longleftrightarrow> n_session_id n \<noteq> [] \<and> n_local_ip n \<noteq> [] \<and> n_local_player_id n \<noteq> [] \<and>
     0 \<le> n_join_index n"

definition agents_wf :: "bool \<Rightarrow> integration \<Rightarrow> bool" where
  "agents_wf fresh st \<longleftrightarrow> agent_inv st \<and> engine_good (ai_engine st) \<and>
     (fresh \<longrightarrow> latest_spade_actions st = [])"

definition displays_wf :: "node \<Rightarrow> bool" where
  "displays_wf n \<longleftrightarrow> display_wf (n_shadow_factory n) \<and> (\<forall>d \<in> snd ` set (n_shadow_copies n). display_wf d)"

definition election_wf :: "node \<Rightarrow> bool" where
  "election_wf n \<longleftrightarrow>
     (\<forall>c. n_coordinator n = Some c \<longrightarrow> coordinator_wf c) \<and>
     (\<forall>b s. n_env_buffer n = Some b \<longrightarrow> env_buffer_get_last b = Some s \<longrightarrow> world_good (snapshot_world s))"

definition inputs_wf :: "node \<Rightarrow> bool" where
  "inputs_wf n \<longleftrightarrow> distinct (dict_keys (n_last_input_time n)) \<and> [] \<notin> fst ` set (n_last_input_time n)"

definition node_wf :: "bool \<Rightarrow> node \<Rightarrow> bool" where
  "node_wf fresh n \<longleftrightarrow> agents_wf (fresh \<or> n_role n = CLIENT) (n_agents n) \<and> roster_wf (n_roster n) \<and>
     identity_wf n \<and> displays_wf n \<and> election_wf n \<and> inputs_wf n \<and> \<bar>n_tick_adjustment n\<bar> \<le> 1"

lemmas node_wf_defs = node_wf_def identity_wf_def displays_wf_def election_wf_def inputs_wf_def

lemma node_wfD:
  assumes "node_wf b n"
  shows "agents_wf (b \<or> n_role n = CLIENT) (n_agents n)" and "roster_wf (n_roster n)" and "identity_wf n"
    and "displays_wf n" and "election_wf n" and "inputs_wf n" and "\<bar>n_tick_adjustment n\<bar> \<le> 1"
    and "engine_good (node_engine n)"
  using assms by (simp_all add: node_wf_def agents_wf_def)

lemma node_wf_client: "node_wf b n \<Longrightarrow> n_role n = CLIENT \<Longrightarrow> node_wf True n"
  by (simp add: node_wf_def)

lemma node_wf_weaken: "node_wf True n \<Longrightarrow> node_wf b n"
  by (simp add: node_wf_def agents_wf_def)

text \<open>The fields the invariant does not constrain.\<close>

lemma node_wf_free [simp]:
  "node_wf b (n\<lparr>n_out := out\<rparr>) = node_wf b n"
  "node_wf b (n\<lparr>n_lifecycle := lc\<rparr>) = node_wf b n"
  "node_wf b (n\<lparr>n_udp_port := port\<rparr>) = node_wf b n"
  "node_wf b (n\<lparr>n_remote_player_id := pid\<rparr>) = node_wf b n"
  "node_wf b (n\<lparr>n_remote_host := h\<rparr>) = node_wf b n"
  "node_wf b (n\<lparr>n_remote_port := port\<rparr>) = node_wf b n"
  "node_wf b (n\<lparr>n_input_sequence := i\<rparr>) = node_wf b n"
  "node_wf b (n\<lparr>n_last_remote_input_sequence := d\<rparr>) = node_wf b n"
  "node_wf b (n\<lparr>n_last_snapshot_sequence := i\<rparr>) = node_wf b n"
  "node_wf b (n\<lparr>n_cached_remote_inputs := inputs\<rparr>) = node_wf b n"
  "node_wf b (n\<lparr>n_sent_input_packets := i\<rparr>) = node_wf b n"
  "node_wf b (n\<lparr>n_received_input_packets := i\<rparr>) = node_wf b n"
  "node_wf b (n\<lparr>n_sent_snapshots := i\<rparr>) = node_wf b n"
  "node_wf b (n\<lparr>n_received_snapshots := i\<rparr>) = node_wf b n"
  "node_wf b (n\<lparr>n_prediction := p\<rparr>) = node_wf b n"
  "node_wf b (n\<lparr>n_visual_offset := v\<rparr>) = node_wf b n"
  "node_wf b (n\<lparr>n_lead_baseline := f\<rparr>) = node_wf b n"
  "node_wf b (n\<lparr>n_calibration_remaining := i\<rparr>) = node_wf b n"
  "node_wf b (n\<lparr>n_host_last_frame_at := fo\<rparr>) = node_wf b n"
  "node_wf b (n\<lparr>n_host_frame_intervals := fs\<rparr>) = node_wf b n"
  "node_wf b (n\<lparr>n_host_input_window := i\<rparr>) = node_wf b n"
  "node_wf b (n\<lparr>n_client_last_frame_at := fo\<rparr>) = node_wf b n"
  "node_wf b (n\<lparr>n_client_frame_intervals := fs\<rparr>) = node_wf b n"
  "node_wf b (n\<lparr>n_watcher := w\<rparr>) = node_wf b n"
  "node_wf b (n\<lparr>n_election_triggered := t\<rparr>) = node_wf b n"
  "node_wf b (n\<lparr>n_reconnected := t\<rparr>) = node_wf b n"
  "node_wf b (n\<lparr>n_rejoin_states := rs\<rparr>) = node_wf b n"
  "node_wf b (n\<lparr>n_pending_acks := acks\<rparr>) = node_wf b n"
  "node_wf b (n\<lparr>n_claim_deadline := f\<rparr>) = node_wf b n"
  "node_wf b (n\<lparr>n_promotion_done := t\<rparr>) = node_wf b n"
  "node_wf b (n\<lparr>n_following_ip := ip\<rparr>) = node_wf b n"
  "node_wf b (n\<lparr>n_following_since := f\<rparr>) = node_wf b n"
  "node_wf b (n\<lparr>n_verify_deadline := f\<rparr>) = node_wf b n"
  "node_wf b (n\<lparr>n_verify_next_probe := f\<rparr>) = node_wf b n"
  by (simp_all add: node_wf_defs)

lemma node_wf_emit [simp]: "node_wf b (emit x n) = node_wf b n"
  by (simp add: emit_def)

lemma fold_emit_wf [simp]: "node_wf b (fold (\<lambda>x. emit (f x)) xs n) = node_wf b n"
  by (induction xs arbitrary: n) simp_all

text \<open>The engine may be replaced, by an older one only while no agent action is stored.\<close>

lemma agents_wf_engine:
  assumes "agents_wf b st" and "engine_good e"
    and "b \<or> engine_seq (ai_engine st) \<le> engine_seq e"
  shows "agents_wf b (st\<lparr>ai_engine := e\<rparr>)"
proof -
  have "stored_ok (engine_seq e) (latest_spade_actions st)"
  proof (cases b)
    case True
    then show ?thesis using assms(1) by (simp add: agents_wf_def stored_ok_def)
  next
    case False
    then show ?thesis
      using assms(1,3) stored_ok_mono
      by (auto simp: agents_wf_def agent_inv_def integration_wf_def engine_seq_def)
  qed
  then show ?thesis
    using assms(1) engine_goodD(1) [OF assms(2)] assms(2)
    by (simp add: agents_wf_def agent_inv_def integration_wf_def engine_seq_def)
qed

lemma on_engine_wf:
  assumes "node_wf b n" and "engine_good (f (node_engine n))"
    and "b \<or> engine_seq (node_engine n) \<le> engine_seq (f (node_engine n))"
  shows "node_wf b (on_engine f n)"
  using assms agents_wf_engine [OF node_wfD(1) [OF assms(1)] assms(2)]
  by (auto simp: node_wf_defs on_engine_def)

lemma on_world_wf:
  assumes "node_wf b n" and "world_good (f (node_world n))"
    and "b \<or> sequence_number (node_world n) \<le> sequence_number (f (node_world n))"
  shows "node_wf b (on_world f n)"
  unfolding on_world_def
  by (rule on_engine_wf [OF assms(1)])
    (use assms node_wfD(8) [OF assms(1)] in \<open>auto simp: engine_seq_def engine_good_def\<close>)

lemma on_engine_simps [simp]:
  "node_engine (on_engine f n) = f (node_engine n)"
  "n_roster (on_engine f n) = n_roster n"
  "n_local_player_id (on_engine f n) = n_local_player_id n"
  "n_role (on_engine f n) = n_role n"
  by (simp_all add: on_engine_def)

lemma on_world_simps [simp]:
  "node_world (on_world f n) = f (node_world n)"
  "n_roster (on_world f n) = n_roster n"
  "n_local_player_id (on_world f n) = n_local_player_id n"
  "n_role (on_world f n) = n_role n"
  by (simp_all add: on_world_def)

lemma roster_update_wf:
  "node_wf b n \<Longrightarrow> roster_wf r \<Longrightarrow> node_wf b (n\<lparr>n_roster := r\<rparr>)"
  by (simp add: node_wf_defs)

lemma delete_keys_subset: "set (AList.delete k d) \<subseteq> set d"
  by (auto simp: set_AList_delete)

lemma last_input_time_wf:
  "node_wf b n \<Longrightarrow> pid \<noteq> [] \<Longrightarrow> node_wf b (n\<lparr>n_last_input_time := AList.update pid t (n_last_input_time n)\<rparr>)"
  by (auto simp: node_wf_defs AList.distinct_update AList.dom_update)

lemma role_wf: "node_wf True n \<Longrightarrow> node_wf True (n\<lparr>n_role := r\<rparr>)"
  by (simp add: node_wf_defs)

lemma roster_member_valid: "node_wf b n \<Longrightarrow> e \<in> set (n_roster n) \<Longrightarrow> valid_entry e"
  by (simp add: node_wf_def roster_wf_def)

lemma other_entries_set:
  "set (other_entries n) = {e \<in> set (n_roster n). entry_player_id e \<noteq> n_local_player_id n}"
  by (auto simp: other_entries_def roster_all_def)

end
