(* ===== verification/Node_Total.thy ===== *)
theory Node_Total
  imports Node_Inv
begin

text \<open>
  Every operation of a frame returns and keeps the invariant; the two frames follow by chaining.
  What the network delivers must be well-formed: \<open>good_message\<close>.
\<close>

fun good_message :: "message \<Rightarrow> bool" where
  "good_message (WorldStateSnapshot seq w) = world_good w"
| "good_message (InitialStateSync w) = world_good w"
| "good_message (RosterUpdate r) = roster_wf r"
| "good_message m = valid_message m"

subsection \<open>Eviction\<close>

lemma evict_player_eq:
  "\<exists>rs. evict_player pid n = (on_world (remove_player pid) n)
     \<lparr>n_rejoin_states := rs, n_roster := roster_remove pid (n_roster n),
      n_cached_remote_inputs := AList.delete pid (n_cached_remote_inputs n),
      n_last_remote_input_sequence := AList.delete pid (n_last_remote_input_sequence n),
      n_last_input_time := AList.delete pid (n_last_input_time n),
      n_shadow_copies := AList.delete pid (n_shadow_copies n)\<rparr>"
  by (cases n) (auto simp: evict_player_def Let_def on_world_def on_engine_def split: option.split)

lemma evict_player_wf:
  assumes "node_wf b n"
  shows "node_wf b (evict_player pid n)"
proof -
  have "node_wf b (on_world (remove_player pid) n)"
    by (rule on_world_wf [OF assms])
      (use node_wfD(8) [OF assms] remove_player_good in \<open>auto simp: engine_good_def remove_player_eq\<close>)
  moreover obtain rs where "evict_player pid n = (on_world (remove_player pid) n)
     \<lparr>n_rejoin_states := rs, n_roster := roster_remove pid (n_roster n),
      n_cached_remote_inputs := AList.delete pid (n_cached_remote_inputs n),
      n_last_remote_input_sequence := AList.delete pid (n_last_remote_input_sequence n),
      n_last_input_time := AList.delete pid (n_last_input_time n),
      n_shadow_copies := AList.delete pid (n_shadow_copies n)\<rparr>"
    using evict_player_eq by blast
  ultimately show ?thesis
    using roster_remove_wf [OF node_wfD(2) [OF assms]] assms
    by (auto simp: node_wf_defs on_world_def on_engine_def AList.distinct_delete set_AList_delete)
qed

lemma evict_player_frame [simp]:
  "n_local_player_id (evict_player pid n) = n_local_player_id n"
  "n_local_ip (evict_player pid n) = n_local_ip n"
  "n_session_id (evict_player pid n) = n_session_id n"
  "n_role (evict_player pid n) = n_role n"
  "n_join_index (evict_player pid n) = n_join_index n"
  "n_out (evict_player pid n) = n_out n"
  "n_promotion_done (evict_player pid n) = n_promotion_done n"
  "n_roster (evict_player pid n) = roster_remove pid (n_roster n)"
  "n_last_input_time (evict_player pid n) = AList.delete pid (n_last_input_time n)"
  "node_engine (evict_player pid n) = world_state_update (remove_player pid) (node_engine n)"
  by (auto simp: evict_player_def Let_def on_world_def on_engine_def split: option.split)

lemma emit_role [simp]: "n_role (emit x n) = n_role n"
  by (simp add: emit_def)

text \<open>What the steps of a host's frame before its tick leave alone.\<close>

definition same_run :: "node \<Rightarrow> node \<Rightarrow> bool" where
  "same_run n n' \<longleftrightarrow> n_role n' = n_role n \<and> engine_seq (node_engine n') = engine_seq (node_engine n) \<and>
     n_sent_snapshots n' = n_sent_snapshots n \<and> n_local_player_id n' = n_local_player_id n"

lemma same_run_refl [simp]: "same_run n n"
  by (simp add: same_run_def)

lemma same_run_trans [trans]: "same_run a b \<Longrightarrow> same_run b c \<Longrightarrow> same_run a c"
  by (simp add: same_run_def)

lemma evict_same_run [simp]: "same_run n (evict_player pid n)"
  by (auto simp: same_run_def evict_player_def Let_def on_world_def on_engine_def engine_seq_def
      remove_player_eq split: option.split)

lemma emit_same_run [simp]: "same_run n (emit x m) = same_run n m"
  by (simp add: same_run_def emit_def)

lemma drop_player_returns:
  assumes "node_wf b n" and "pid \<noteq> []"
  shows "returns (\<lambda>n'. node_wf b n' \<and> same_run n n' \<and>
      n_last_input_time n' = AList.delete pid (n_last_input_time n)) (drop_player pid n)"
proof -
  have "valid_message (PlayerLeft pid)"
    using assms(2) by (simp add: message_checks)
  then show ?thesis
    using evict_player_wf [OF assms(1), of pid] evict_same_run [of n pid]
    by (simp add: drop_player_def send_player_left_def) (simp add: emit_def)
qed

lemma check_player_disconnections_returns:
  assumes "node_wf b n" and "[] \<notin> set reported"
  shows "returns (\<lambda>n'. node_wf b n' \<and> same_run n n') (check_player_disconnections reported now n)"
proof -
  let ?step = "\<lambda>pid n. case map_of (n_last_input_time n) pid of
           None \<Rightarrow> Inl (KeyError pid)
         | Some t \<Rightarrow> if now - t > UDP_INPUT_TIMEOUT then drop_player pid n else Inr n"
  let ?Q = "\<lambda>m. node_wf b m \<and> same_run n m"
  have 1: "returns ?Q (fold_res drop_player reported n)"
  proof (rule returns_fold_res [where P = ?Q])
    show "?Q n" using assms(1) by simp
  next
    fix pid m
    assume "pid \<in> set reported" and m: "?Q m"
    with assms(2) have "pid \<noteq> []" by blast
    from m have "node_wf b m" by simp
    from drop_player_returns [OF this \<open>pid \<noteq> []\<close>] show "returns ?Q (drop_player pid m)"
      by (rule returns_mono) (use m same_run_trans in blast)
  qed
  have 2: "returns ?Q (fold_res ?step pids m)"
    if "?Q m" "distinct pids" "set pids \<subseteq> fst ` set (n_last_input_time m)" for m pids
    using that
  proof (induction pids arbitrary: m)
    case Nil
    then show ?case by simp
  next
    case (Cons pid pids)
    from Cons.prems(1) have m: "node_wf b m" by simp
    obtain t where t: "map_of (n_last_input_time m) pid = Some t"
      using Cons.prems(3) by (metis insert_subset list.set(2) map_of_eq_None_iff not_None_eq)
    have pid: "pid \<noteq> []"
      using Cons.prems(3) node_wfD(6) [OF m] unfolding inputs_wf_def
      by (metis insert_subset list.set(2))
    have "returns (\<lambda>m'. ?Q m' \<and> set pids \<subseteq> fst ` set (n_last_input_time m')) (?step pid m)"
    proof (cases "now - t > UDP_INPUT_TIMEOUT")
      case True
      have "set pids \<subseteq> fst ` set (AList.delete pid (n_last_input_time m))"
        using Cons.prems(2,3) by auto
      then have "returns (\<lambda>m'. ?Q m' \<and> set pids \<subseteq> fst ` set (n_last_input_time m')) (drop_player pid m)"
        using Cons.prems(1) same_run_trans by (intro returns_mono [OF drop_player_returns [OF m pid]]) auto
      then show ?thesis
        using True by (simp add: t)
    next
      case False
      then show ?thesis using Cons.prems(1,3) by (simp add: t)
    qed
    then show ?case
      using Cons.IH Cons.prems(2) by (auto intro: returns_bind)
  qed
  show ?thesis
    unfolding check_player_disconnections_def
    by (rule returns_bind [OF 1]) (rule 2, auto simp: node_wf_defs)
qed

subsection \<open>Promotion\<close>

lemma send_election_message_wf [simp]:
  "node_wf b (send_election_message_udp m hosts n) = node_wf b n"
proof -
  have "node_wf b (fold (\<lambda>e. case hosts of
         Some hs \<Rightarrow> if entry_host e |\<in>| hs then emit (Send_Udp m (entry_host e) (entry_udp_port e)) else id
       | None \<Rightarrow> emit (Send_Udp m (entry_host e) (entry_udp_port e))) es n) = node_wf b n" for es :: roster
    by (induction es arbitrary: n) (auto split: option.split)
  then show ?thesis by (simp add: send_election_message_udp_def)
qed

lemma world_good_node: "node_wf b n \<Longrightarrow> world_good (node_world n)"
  by (auto dest: node_wfD(8) engine_goodD)

lemma restore_last_snapshot_wf:
  assumes "node_wf True n"
  shows "node_wf True (restore_last_snapshot n)"
proof -
  have "node_wf True (bootstrap_from_snapshot s n)" if "world_good (snapshot_world s)" for s
    using on_world_wf [OF assms, of "\<lambda>_. snapshot_world s"] that
    by (simp add: bootstrap_from_snapshot_def)
  then show ?thesis
    using assms node_wfD(5) [OF assms]
    by (auto simp: restore_last_snapshot_def election_wf_def split: option.split)
qed

lemma evict_crashed_host_wf: "node_wf b n \<Longrightarrow> node_wf b (evict_crashed_host n)"
  by (auto simp: evict_crashed_host_def evict_player_wf split: option.split)

lemma valid_ReconnectionAck:
  "valid_message (ReconnectionAck ip HOST_UDP_PORT GAME_EVENT_WS_PORT sid) \<longleftrightarrow> ip \<noteq> [] \<and> sid \<noteq> []"
  by (auto simp: message_checks HOST_UDP_PORT_def GAME_EVENT_WS_PORT_def)

lemma times_of_entries_ok:
  fixes d :: "flt dict"
  assumes "distinct (dict_keys d) \<and> [] \<notin> fst ` set d" and "\<forall>e \<in> set es. valid_entry e"
  shows "distinct (dict_keys (fold (\<lambda>e. AList.update (entry_player_id e) now) es d)) \<and>
    [] \<notin> fst ` set (fold (\<lambda>e. AList.update (entry_player_id e) now) es d)"
proof (rule fold_inv [where P = "\<lambda>d. distinct (dict_keys d) \<and> [] \<notin> fst ` set d", OF assms(1)])
  fix e and d :: "flt dict"
  assume "e \<in> set es" and "distinct (dict_keys d) \<and> [] \<notin> fst ` set d"
  moreover from this(1) assms(2) have "entry_player_id e \<noteq> []" by (simp add: valid_entry_def)
  ultimately show "distinct (dict_keys (AList.update (entry_player_id e) now d)) \<and>
      [] \<notin> fst ` set (AList.update (entry_player_id e) now d)"
    by (simp add: AList.distinct_update AList.dom_update)
qed

lemma finish_promotion_wf:
  assumes "node_wf True n"
  shows "node_wf True (finish_promotion now n)"
  using times_of_entries_ok [of "n_last_input_time n" "other_entries n" now] assms
  by (simp add: finish_promotion_def) (simp add: node_wf_defs other_entries_set roster_wf_def)

lemma promote_to_host_returns:
  assumes "node_wf True n"
  shows "returns (node_wf True) (promote_to_host now n)"
proof (cases "n_promotion_done n")
  case True
  then show ?thesis using assms by (simp add: promote_to_host_def)
next
  case False
  define n1 where "n1 = on_engine (\<lambda>e. e\<lparr>is_authoritative := True\<rparr>) (n\<lparr>n_promotion_done := True\<rparr>)"
  define n2 where "n2 = evict_crashed_host (restore_last_snapshot n1)"
  define n3 where "n3 = emit (Bind_Udp HOST_UDP_PORT) (n2\<lparr>n_roster := promote_host (n_local_player_id n2) (n_roster n2)\<rparr>)"
  have "node_wf True n1"
    unfolding n1_def by (rule on_engine_wf) (use assms node_wfD(8) [OF assms] in simp_all)
  then have "node_wf True n2"
    by (simp add: n2_def restore_last_snapshot_wf evict_crashed_host_wf)
  then have n3: "node_wf True n3"
    by (simp add: n3_def roster_update_wf promote_host_wf node_wfD(2))
  have "returns (node_wf True) (announce_promotion n3)"
    using n3 node_wfD(3) [OF n3]
    by (auto simp: announce_promotion_def identity_wf_def valid_ReconnectionAck intro!: returns_message)
  then have "returns (node_wf True) (rbind (announce_promotion n3) (\<lambda>n6.
      Inr (emit Start_Relaunch (finish_promotion now (emit (Broker_Promote GAME_EVENT_WS_PORT) n6)))))"
    by (rule returns_bind) (simp add: finish_promotion_wf)
  then show ?thesis
    using False by (simp add: promote_to_host_def Let_def n1_def n2_def n3_def)
qed

subsection \<open>Elections\<close>

lemma ensure_election_components_wf:
  assumes "node_wf b n"
  shows "node_wf b (ensure_election_components n)"
proof -
  have "0 \<le> entry_join_index e" if "roster_get pid (n_roster n) = Some e" for pid e
    using that roster_member_valid [OF assms, of e]
    by (auto simp: roster_get_def find_Some_iff valid_entry_def)
  then show ?thesis
    using assms
    by (auto simp: ensure_election_components_def Let_def node_wf_defs new_coordinator_wf
        new_env_buffer_def env_buffer_get_last_def split: option.split)
qed

lemma on_self_elected_returns:
  assumes "node_wf True n"
  shows "returns (node_wf True) (on_self_elected now n)"
proof -
  have "valid_message (NewHostClaim (n_local_ip n) (n_join_index n) (n_session_id n))"
    using node_wfD(3) [OF assms] by (simp add: message_checks identity_wf_def)
  then show ?thesis
    using promote_to_host_returns [OF assms] assms by (simp add: on_self_elected_def Let_def)
qed

lemma on_election_ack_returns:
  assumes "node_wf True n"
  shows "returns (node_wf True) (on_election_ack now ip n)"
  using assms promote_to_host_returns [of "n\<lparr>n_pending_acks := n_pending_acks n |-| {|ip|}\<rparr>" now]
  by (simp add: on_election_ack_def Let_def)

lemma coordinator_update_wf:
  "node_wf b n \<Longrightarrow> coordinator_wf c \<Longrightarrow> node_wf b (n\<lparr>n_coordinator := Some c\<rparr>)"
  by (simp add: node_wf_defs)

lemma on_new_host_claim_returns:
  assumes "node_wf b n"
  shows "returns (node_wf b) (on_new_host_claim_node now claimer ip n)"
proof (cases "n_coordinator n")
  case None
  then show ?thesis using assms by (simp add: on_new_host_claim_node_def)
next
  case (Some c)
  obtain ev c' where ev: "on_new_host_claim claimer ip c = (ev, c')" by force
  have "coordinator_wf c'"
    using on_new_host_claim_wf [of c claimer ip] node_wfD(5) [OF assms] Some
    by (simp add: ev election_wf_def)
  then have wf: "node_wf b (n\<lparr>n_coordinator := Some c'\<rparr>)"
    by (rule coordinator_update_wf [OF assms])
  have "valid_message (ElectionAck (n_local_ip n) (n_session_id n))"
    using node_wfD(3) [OF assms] by (simp add: message_checks identity_wf_def)
  then show ?thesis
    using wf assms by (auto simp: on_new_host_claim_node_def Some ev Let_def split: option.split election_event.split)
qed

lemma evict_silent_peer_wf: "node_wf b n \<Longrightarrow> node_wf b (evict_silent_peer ip n)"
  by (auto simp: evict_silent_peer_def evict_player_wf split: option.split)

lemma tick_claim_deadline_returns:
  assumes "node_wf True n"
  shows "returns (node_wf True) (tick_claim_deadline now n)"
proof -
  have "node_wf True (fold evict_silent_peer ips n)" for ips
    by (rule fold_inv [where P = "node_wf True"]) (simp_all add: assms evict_silent_peer_wf)
  then show ?thesis
    using assms by (auto simp: tick_claim_deadline_def Let_def intro!: promote_to_host_returns)
qed

lemma resync_environment_wf:
  assumes "node_wf b n"
  shows "node_wf b (resync_environment_from_buffer n)"
proof (cases "Option.bind (n_env_buffer n) env_buffer_get_last")
  case None
  then show ?thesis using assms by (simp add: resync_environment_from_buffer_def)
next
  case (Some s)
  then have s: "world_good (snapshot_world s)"
    using node_wfD(5) [OF assms] by (cases "n_env_buffer n") (auto simp: election_wf_def)
  have "world_good ((node_world n)\<lparr>environment := (environment (node_world n))
      \<lparr>destructible_blocks := destructible_blocks (environment (snapshot_world s)),
       power_ups := power_ups (environment (snapshot_world s)),
       cooperative_gates := cooperative_gates (environment (snapshot_world s))\<rparr>\<rparr>)"
    using s world_good_node [OF assms] unfolding world_good_def world_wf_def named_world_def by simp
  moreover have "environment_update (\<lambda>e. e\<lparr>destructible_blocks := destructible_blocks (environment (snapshot_world s)),
       power_ups := power_ups (environment (snapshot_world s)),
       cooperative_gates := cooperative_gates (environment (snapshot_world s))\<rparr>) w
      = w\<lparr>environment := (environment w)
      \<lparr>destructible_blocks := destructible_blocks (environment (snapshot_world s)),
       power_ups := power_ups (environment (snapshot_world s)),
       cooperative_gates := cooperative_gates (environment (snapshot_world s))\<rparr>\<rparr>" for w :: world_state
    by simp
  moreover have "sequence_number (node_world n) \<le> sequence_number ((node_world n)\<lparr>environment := env\<rparr>)" for env
    by simp
  ultimately show ?thesis
    unfolding resync_environment_from_buffer_def Some option.case Let_def
    by (intro on_world_wf [OF assms]) (simp_all only: simp_thms)
qed

lemma repoint_roster_wf: "node_wf b n \<Longrightarrow> node_wf b (repoint_roster_at ip n)"
  using evict_crashed_host_wf [of b n]
  by (auto simp: repoint_roster_at_def Let_def intro!: roster_update_wf promote_host_wf
      dest: node_wfD(2) split: option.split)

lemma reset_election_state_wf: "node_wf b n \<Longrightarrow> node_wf b (reset_election_state n)"
  by (simp add: reset_election_state_def node_wf_defs)

lemma on_reconnection_ack_wf: "node_wf b n \<Longrightarrow> node_wf b (on_reconnection_ack ip port gport n)"
  by (simp add: on_reconnection_ack_def Let_def recalibrate_prediction_lead_def reset_election_state_wf
      repoint_roster_wf resync_environment_wf)

lemma tick_reconnection_fallback_returns:
  assumes "node_wf b n" and "found \<noteq> Some []"
  shows "returns (node_wf b) (tick_reconnection_fallback now found n)"
  using assms node_wfD(3) [OF assms(1)]
  by (auto simp: tick_reconnection_fallback_def Let_def valid_ReconnectionAck identity_wf_def
      intro!: returns_message on_reconnection_ack_wf split: option.split)

lemma resend_host_verify_probe_returns:
  "node_wf b n \<Longrightarrow> returns (node_wf b) (resend_host_verify_probe now n)"
  using node_wfD(3) [of b n]
  by (auto simp: resend_host_verify_probe_def message_checks identity_wf_def intro!: returns_message)

lemma tick_host_verify_returns:
  assumes "node_wf b n"
  shows "returns (node_wf b) (tick_host_verify now w c n)"
  using assms coordinator_update_wf [OF assms begin_election_wf] resend_host_verify_probe_returns [OF assms]
  by (simp add: tick_host_verify_def) (simp add: node_wf_defs)

lemma on_host_identity_response_wf:
  "node_wf b n \<Longrightarrow> node_wf b (on_host_identity_response now sid n)"
  by (simp add: on_host_identity_response_def)

lemma elect_returns:
  assumes "node_wf True n" and "coordinator_wf c"
  shows "returns (node_wf True) (elect now c n)"
proof -
  obtain ev c' where "coordinator_tick now c = Inr (ev, c')" "coordinator_wf c'"
    using coordinator_tick_wf [OF assms(2)] by blast
  then show ?thesis
    using coordinator_update_wf [OF assms(1)] on_self_elected_returns
    by (auto simp: elect_def Let_def split: option.split election_event.split)
qed

lemma tick_election_state_returns:
  assumes "node_wf True n" and "found \<noteq> Some []"
  shows "returns (node_wf True) (tick_election_state now found n)"
proof (cases "\<exists>c w. n_coordinator n = Some c \<and> n_watcher n = Some w")
  case False
  then show ?thesis
    using assms by (auto simp: tick_election_state_def split: option.split)
next
  case True
  then obtain c w where cw: "n_coordinator n = Some c" "n_watcher n = Some w" by blast
  let ?verify = "if n_verify_deadline n = 0
      then (if \<not> n_election_triggered n \<and> watcher_tick now w then send_host_verify_probe now n else Inr n)
      else tick_host_verify now w c n"
  have "returns (node_wf True) ?verify"
    using assms(1) tick_host_verify_returns [OF assms(1)]
    by (auto simp: send_host_verify_probe_def intro!: resend_host_verify_probe_returns)
  then show ?thesis
    unfolding tick_election_state_def cw prod.case option.case
  proof (rule returns_bind)
    fix n1
    assume n1: "node_wf True n1"
    have chain: "returns (node_wf True) (rbind (elect now c1 n1) (\<lambda>n2.
        rbind (tick_claim_deadline now n2) (\<lambda>n3. tick_reconnection_fallback now found n3)))"
      if "coordinator_wf c1" for c1
      by (intro returns_bind [OF elect_returns [OF n1 that]] returns_bind [OF tick_claim_deadline_returns]
          tick_reconnection_fallback_returns assms(2))
    show "returns (node_wf True) (if \<not> n_election_triggered n1 then Inr n1
      else case n_coordinator n1 of None \<Rightarrow> Inr n1
      | Some c1 \<Rightarrow> rbind (elect now c1 n1) (\<lambda>n2. rbind (tick_claim_deadline now n2) (\<lambda>n3.
          tick_reconnection_fallback now found n3)))"
      using n1 chain node_wfD(5) [OF n1] by (auto simp: election_wf_def split: option.split)
  qed
qed

subsection \<open>Events and lobby messages on a client\<close>

lemma roster_all_perm: "set (roster_all r) = set r" "distinct (map entry_join_index r) \<Longrightarrow> distinct (map entry_join_index (roster_all r))"
  by (simp_all add: roster_all_def distinct_map)

lemma merge_roster_returns:
  assumes "node_wf b n" and "roster_wf r"
  shows "returns (node_wf b) (merge_roster r n)"
proof -
  let ?known = "entry_join_index ` set (n_roster n)"
  let ?step = "\<lambda>entry m. if entry_join_index entry \<in> ?known \<or> entry_player_id entry = n_local_player_id m then Inr m
        else rbind (roster_add entry (n_roster m)) (\<lambda>r'. Inr (m\<lparr>n_roster := r'\<rparr>))"
  have *: "returns (node_wf b) (fold_res ?step es m)"
    if "node_wf b m" "distinct (map entry_join_index es)" "\<forall>e \<in> set es. valid_entry e"
      "entry_join_index ` set (n_roster m) \<inter> entry_join_index ` set es \<subseteq> ?known" for m es
    using that
  proof (induction es arbitrary: m)
    case Nil
    then show ?case by simp
  next
    case (Cons e es)
    show ?case
    proof (cases "entry_join_index e \<in> ?known \<or> entry_player_id e = n_local_player_id m")
      case True
      then show ?thesis using Cons.IH [OF Cons.prems(1)] Cons.prems(2-4) by auto
    next
      case False
      then have a: "roster_add e (n_roster m) = Inr (n_roster m @ [e])"
        using Cons.prems(4) by (auto simp: roster_add_iff)
      have "node_wf b (m\<lparr>n_roster := n_roster m @ [e]\<rparr>)"
        using roster_add_wf [OF node_wfD(2) [OF Cons.prems(1)] _ a] Cons.prems(1,3)
        by (simp add: roster_update_wf)
      from Cons.IH [OF this] show ?thesis
        using False a Cons.prems(2-4) by auto
    qed
  qed
  show ?thesis
    unfolding merge_roster_def Let_def
    by (rule * [OF assms(1)]) (use assms(2) in \<open>auto simp: roster_all_perm roster_wf_def\<close>)
qed

lemma apply_game_event_returns:
  assumes "node_wf True n" and "good_message m"
  shows "returns (node_wf True) (apply_game_event (rd, m) n)"
proof -
  note good = world_good_node [OF assms(1)]
  have world: "node_wf True (on_world f n)" if "world_good (f (node_world n))" for f
    by (rule on_world_wf [where f = f, OF assms(1) that]) simp
  have reset: "node_wf True (on_engine reset_for_new_run n)"
    by (rule on_engine_wf [OF assms(1)]) (use node_wfD(8) [OF assms(1)] reset_for_new_run_good in auto)
  show ?thesis
    using assms reset
    by (cases m) (simp_all add: apply_game_event_def world destroy_block_good mark_collected_good
        mark_gate_good remove_player_good evict_player_wf on_new_host_claim_returns on_election_ack_returns
        on_reconnection_ack_wf merge_roster_returns good)
qed

lemma drain_game_events_returns:
  assumes "node_wf True n" and "\<forall>m \<in> snd ` set msgs. good_message m"
  shows "returns (node_wf True) (drain_game_events msgs n)"
  unfolding drain_game_events_def
  by (rule returns_fold_res [where P = "node_wf True", OF assms(1)])
    (use assms(2) apply_game_event_returns in fastforce)

lemma drain_lobby_messages_wf:
  assumes "node_wf True n" and "\<forall>m \<in> set msgs. good_message m"
  shows "node_wf True (drain_lobby_messages msgs n)"
  unfolding drain_lobby_messages_def
proof (rule fold_inv [where P = "node_wf True", OF assms(1)])
  fix m n
  assume "m \<in> set msgs" and n: "node_wf True n"
  then have "good_message m" using assms(2) by blast
  then show "node_wf True (apply_lobby_message m n)"
    using n on_world_wf [OF n] by (cases m) (simp_all add: apply_lobby_message_def)
qed

subsection \<open>Prediction and snapshots\<close>

lemma node_predict_wf [simp]: "node_wf b (node_predict rd inp dt n) = node_wf b n"
  by (simp add: node_predict_def split: node_predictor.split)

lemma engine_tick_returns:
  assumes "node_wf b n" and "valid_commands commands"
  shows "returns (node_wf b) (engine_tick clk dt inputs commands n)"
  unfolding engine_tick_def
  by (rule returns_bind [OF tick_engine_returns [OF node_wfD(8) [OF assms(1)] assms(2)]])
    (use on_engine_wf [OF assms(1)] in \<open>auto simp: engine_seq_def\<close>)

lemma run_predicted_ticks_returns:
  assumes "node_wf b n"
  shows "returns (node_wf b) (run_predicted_ticks rds inp n)"
  unfolding run_predicted_ticks_def Let_def
proof (rule returns_fold_res [where P = "node_wf b"])
  show "node_wf b (n\<lparr>n_tick_adjustment := 0\<rparr>)"
    using assms by (simp add: node_wf_defs)
next
  fix i m
  assume "node_wf b m"
  then show "returns (node_wf b) (engine_tick (rd_ticks (rds i) 0) TICK_INTERVAL [(n_local_player_id m, inp)] None
      (node_predict (rds i) inp TICK_INTERVAL m))"
    by (intro engine_tick_returns) (simp_all add: valid_commands_def)
qed

lemma node_reconcile_returns:
  assumes "node_wf True n" and "world_good (snapshot_world s)"
  shows "returns (node_wf True) (node_reconcile clks s n)"
proof (cases "n_prediction n")
  case Noop_Predictor
  then show ?thesis
    using on_world_wf [OF assms(1)] assms(2) by (simp add: node_reconcile_def)
next
  case (Predictor p)
  show ?thesis
    unfolding node_reconcile_def Predictor node_predictor.case
  proof (rule returns_bind [OF reconcile_engine_good [OF node_wfD(8) [OF assms(1)] assms(2)]])
    fix x :: "game_engine \<times> prediction"
    assume "(\<lambda>(e', p'). engine_good e' \<and> is_authoritative e' = is_authoritative (node_engine n) \<and>
      pe_local_player_id p' = pe_local_player_id p \<and> pe_capacity p' = pe_capacity p) x"
    then show "returns (node_wf True) ((\<lambda>(e, p'). Inr (on_engine (\<lambda>_. e) (n\<lparr>n_prediction := Predictor p'\<rparr>))) x)"
      using assms(1) by (cases x) (simp add: on_engine_wf)
  qed
qed

lemma display_update_wf: "display_wf d \<Longrightarrow> display_wf (display_update now p seq d)"
  by (cases d) (simp_all add: display_update_def interpolated_update_def shadow_update_wf)

lemma display_state_returns: "display_wf d \<Longrightarrow> returns (\<lambda>_. True) (display_state now d)"
proof (cases d)
  case (Smooth s)
  assume "display_wf d"
  then show ?thesis
    using get_visual_state_entity [of s now]
    by (auto simp: Smooth display_state_def interpolated_display_def returns_def)
qed (simp add: display_state_def noop_display_def)

lemma shadow_copies_wf:
  assumes "node_wf b n" and "display_wf d"
  shows "node_wf b (n\<lparr>n_shadow_copies := AList.update pid d (n_shadow_copies n)\<rparr>)"
proof -
  have "\<forall>x \<in> snd ` set (AList.update pid d (n_shadow_copies n)). display_wf x"
  proof
    fix x
    assume "x \<in> snd ` set (AList.update pid d (n_shadow_copies n))"
    then have "x \<in> snd ` insert (pid, d) (set (n_shadow_copies n))"
      using set_AList_update [of pid d "n_shadow_copies n"] by blast
    then show "display_wf x"
      using assms(2) node_wfD(4) [OF assms(1)] by (auto simp: displays_wf_def)
  qed
  then show ?thesis
    using assms(1) by (simp add: node_wf_def displays_wf_def identity_wf_def election_wf_def inputs_wf_def)
qed

lemma update_shadow_copies_wf:
  assumes "node_wf b n"
  shows "node_wf b (update_shadow_copies now s n)"
  unfolding update_shadow_copies_def
proof (rule fold_inv [where P = "node_wf b", OF assms])
  fix a :: "ident \<times> player" and m
  assume m: "node_wf b m"
  obtain pid p where a: "a = (pid, p)" by force
  let ?d = "case map_of (n_shadow_copies m) pid of None \<Rightarrow> n_shadow_factory m | Some d \<Rightarrow> d"
  have "display_wf ?d"
    using node_wfD(4) [OF m] by (auto simp: displays_wf_def dest!: map_of_SomeD split: option.split)
  then have d: "display_wf (display_update now p (snapshot_seq s) ?d)"
    by (rule display_update_wf)
  have "node_wf b (m\<lparr>n_shadow_copies :=
      AList.update pid (display_update now p (snapshot_seq s) ?d) (n_shadow_copies m)\<rparr>)"
    by (rule shadow_copies_wf [OF m d])
  with m show "node_wf b ((\<lambda>(pid, p) n. if pid = n_local_player_id n then n
       else let shadow = (case map_of (n_shadow_copies n) pid of None \<Rightarrow> n_shadow_factory n | Some d \<Rightarrow> d)
         in n\<lparr>n_shadow_copies :=
                AList.update pid (display_update now p (snapshot_seq s) shadow) (n_shadow_copies n)\<rparr>) a m)"
    by (simp add: a Let_def)
qed

lemma apply_snapshot_returns:
  assumes "node_wf True n" and "world_good (snapshot_world s)"
  shows "returns (node_wf True) (apply_snapshot now rd s n)"
proof (cases "snapshot_seq s \<le> n_last_snapshot_sequence n")
  case True
  then show ?thesis using assms by (simp add: apply_snapshot_def)
next
  case False
  have r: "returns (node_wf True) (node_reconcile (rd_ticks rd) s (n\<lparr>n_last_snapshot_sequence := snapshot_seq s\<rparr>))"
    by (rule node_reconcile_returns) (use assms in simp_all)
  show ?thesis
    unfolding apply_snapshot_def Let_def
  proof (simp only: False if_False, rule returns_bind [OF r])
    fix m
    assume "node_wf True m"
    note m = update_shadow_copies_wf [OF this, of "rd_mono rd" s]
    have "node_wf True (x\<lparr>n_env_buffer := map_option (env_buffer_update s) (n_env_buffer x)\<rparr>)"
      if "node_wf True x" for x
      using that assms(2)
      by (auto simp: node_wf_defs env_buffer_update_def env_buffer_get_last_def)
    from this [OF m] show "returns (node_wf True) (Inr ((update_shadow_copies (rd_mono rd) s m)
        \<lparr>n_received_snapshots := n_received_snapshots (update_shadow_copies (rd_mono rd) s m) + 1,
         n_watcher := map_option (watcher_reset now) (n_watcher (update_shadow_copies (rd_mono rd) s m)),
         n_env_buffer := map_option (env_buffer_update s) (n_env_buffer (update_shadow_copies (rd_mono rd) s m))\<rparr>))"
      by (simp add: node_wf_defs)
  qed
qed

definition good_packet :: "packet \<Rightarrow> bool" where
  "good_packet pk \<longleftrightarrow> (\<exists>m. fst (snd pk) = Inr m \<and> good_message m)"

lemma apply_packet_returns:
  assumes "node_wf True n" and "good_packet pk"
  shows "returns (node_wf True) (apply_packet now pk n)"
proof -
  obtain rd m addr where pk: "pk = (rd, Inr m, addr)" "good_message m"
    using assms(2) by (cases pk) (auto simp: good_packet_def)
  show ?thesis
    using assms(1) pk(2)
    by (cases m) (simp_all add: pk(1) apply_packet_def on_new_host_claim_returns on_election_ack_returns
        on_reconnection_ack_wf on_host_identity_response_wf apply_snapshot_returns)
qed

lemma drain_snapshot_packets_returns:
  assumes "node_wf True n" and "\<forall>pk \<in> set packets. good_packet pk"
  shows "returns (node_wf True) (drain_snapshot_packets now packets n)"
  unfolding drain_snapshot_packets_def
  by (rule returns_fold_res [where P = "node_wf True", OF assms(1)])
    (use assms(2) apply_packet_returns in blast)

lemma send_input_packet_returns:
  assumes "node_wf b n"
  shows "returns (node_wf b) (send_input_packet inp n)"
proof -
  have "n_local_player_id n \<noteq> []" using node_wfD(3) [OF assms] by (simp add: identity_wf_def)
  then have "valid_message (PlayerInputPacket (n_local_player_id n) i inp)" for i
    by (simp add: message_checks)
  then show ?thesis using assms by (simp add: send_input_packet_def)
qed

lemma adjust_prediction_lead_wf: "node_wf b n \<Longrightarrow> node_wf b (adjust_prediction_lead n)"
  by (auto simp: adjust_prediction_lead_def Let_def node_wf_defs)

lemma smoothed_wf: "node_wf b n \<Longrightarrow> node_wf b (snd (smoothed_local_visual_state pre n))"
  by (auto simp: smoothed_local_visual_state_def Let_def split: option.split)

subsection \<open>The visual world and the client's frame\<close>

lemma visual_character_returns:
  assumes "node_wf b n"
  shows "returns (\<lambda>(pid, p). pid = fst a) (visual_character now local_state respawning n a)"
proof -
  obtain pid p where a: "a = (pid, p)" by force
  have *: "returns (\<lambda>(k, q). k = pid) (case map_of (n_shadow_copies n) pid of None \<Rightarrow> Inr (pid, p)
      | Some d \<Rightarrow> rbind (display_state now d) (\<lambda>v. Inr (pid, case v of Some q \<Rightarrow> q | None \<Rightarrow> p)))"
  proof (cases "map_of (n_shadow_copies n) pid")
    case (Some d)
    then have "display_wf d"
      using node_wfD(4) [OF assms] by (auto simp: displays_wf_def dest!: map_of_SomeD)
    from display_state_returns [OF this, of now] show ?thesis
      unfolding Some option.case by (rule returns_bind) simp
  qed simp
  show ?thesis
  proof (cases "pid = n_local_player_id n \<and> \<not> respawning \<and> local_state \<noteq> None")
    case True
    then show ?thesis by (auto simp: visual_character_def a)
  next
    case False
    then have "visual_character now local_state respawning n a = (case map_of (n_shadow_copies n) pid of
        None \<Rightarrow> Inr (pid, p)
      | Some d \<Rightarrow> rbind (display_state now d) (\<lambda>v. Inr (pid, case v of Some q \<Rightarrow> q | None \<Rightarrow> p)))"
      by (auto simp: visual_character_def a split: bool.split option.split)
    then show ?thesis using * by (simp only: a fst_conv)
  qed
qed

lemma build_visual_world_returns:
  assumes "node_wf b n"
  shows "returns (\<lambda>w. environment w = environment (node_world n)) (build_visual_world_state now local_state n)"
proof -
  let ?chars = "map_res (visual_character now local_state
    (n_local_player_id n \<in> fst ` set (respawn_timers (node_world n))) n) (characters (node_world n))"
  have "returns (\<lambda>_. True) ?chars"
    by (rule returns_mono [OF returns_map_res [where Q = "\<lambda>_. True"]])
      (auto intro: returns_mono [OF visual_character_returns [OF assms]])
  then show ?thesis
    unfolding build_visual_world_state_def Let_def by (rule returns_bind) simp
qed

text \<open>What a client's frame reads: well-formed messages, packets that decode, a prober that
  answers with an address.\<close>

definition good_client_io :: "client_io \<Rightarrow> bool" where
  "good_client_io io \<longleftrightarrow> (\<forall>m \<in> set (io_lobby io). good_message m) \<and> (\<forall>pk \<in> set (io_packets io). good_packet pk) \<and>
     (\<forall>m \<in> snd ` set (io_events io). good_message m) \<and> io_probe io \<noteq> Some []"

lemma client_frame_returns:
  assumes "node_wf True n" and "good_client_io io"
  shows "returns (\<lambda>(w, n'). node_wf True n') (process_client_frame io inp n)"
proof -
  let ?n2 = "drain_lobby_messages (io_lobby io)
    (record_client_frame_interval (io_frame_at io) (ensure_election_components n))"
  have n2: "node_wf True ?n2"
    by (rule drain_lobby_messages_wf)
      (use assms in \<open>simp_all add: good_client_io_def record_client_frame_interval_def ensure_election_components_wf\<close>)
  show ?thesis
    unfolding process_client_frame_def Let_def
  proof (rule returns_bind [OF send_input_packet_returns [OF n2]],
      rule returns_bind [OF run_predicted_ticks_returns], assumption)
    fix n4
    assume "node_wf True n4"
    then have n5: "node_wf True (on_engine (\<lambda>e. e\<lparr>events := []\<rparr>) n4)"
      by (rule on_engine_wf) (use \<open>node_wf True n4\<close> in \<open>auto intro: engine_good_events dest: node_wfD(8)\<close>)
    show "returns (\<lambda>(w, n'). node_wf True n')
       (rbind (drain_snapshot_packets (io_drain_at io) (io_packets io) (on_engine (\<lambda>e. e\<lparr>events := []\<rparr>) n4))
         (\<lambda>n6. rbind (drain_game_events (io_events io) n6)
         (\<lambda>n7. rbind (tick_election_state (io_election_at io) (io_probe io) n7)
         (\<lambda>n8. case smoothed_local_visual_state (position_of_local n4) (adjust_prediction_lead n8) of
            (visual, n10) \<Rightarrow> rbind (build_visual_world_state (io_draw_at io) visual n10) (\<lambda>w. Inr (w, n10))))))"
    proof (rule returns_bind [OF drain_snapshot_packets_returns [OF n5]],
        use assms(2) in \<open>simp add: good_client_io_def\<close>,
        rule returns_bind [OF drain_game_events_returns], assumption,
        use assms(2) in \<open>simp add: good_client_io_def\<close>,
        rule returns_bind [OF tick_election_state_returns], assumption,
        use assms(2) in \<open>simp add: good_client_io_def\<close>)
      fix n8
      assume "node_wf True n8"
      obtain visual n10 where s: "smoothed_local_visual_state (position_of_local n4) (adjust_prediction_lead n8)
          = (visual, n10)" by force
      have "node_wf True n10"
        using smoothed_wf [OF adjust_prediction_lead_wf [OF \<open>node_wf True n8\<close>], of "position_of_local n4"]
        by (simp add: s)
      then show "returns (\<lambda>(w, n'). node_wf True n')
          (case smoothed_local_visual_state (position_of_local n4) (adjust_prediction_lead n8) of
            (visual, n10) \<Rightarrow> rbind (build_visual_world_state (io_draw_at io) visual n10) (\<lambda>w. Inr (w, n10)))"
        unfolding s prod.case
        by (intro returns_bind [OF build_visual_world_returns]) simp_all
    qed
  qed
qed

subsection \<open>The host's frame\<close>

lemma drain_input_packet_returns:
  assumes "node_wf b (fst x)" and "good_packet pk"
  shows "returns (\<lambda>y. node_wf b (fst y) \<and> same_run (fst x) (fst y)) (drain_input_packet pk x)"
proof -
  obtain n d where x: "x = (n, d)" by force
  obtain rd m addr where pk: "pk = (rd, Inr m, addr)" "good_message m"
    using assms(2) by (cases pk) (auto simp: good_packet_def)
  have n: "node_wf b n" using assms(1) by (simp add: x)
  have id: "valid_message (HostIdentityResponse (n_session_id n) (n_local_ip n))"
    using node_wfD(3) [OF n] by (simp add: message_checks identity_wf_def)
  show ?thesis
  proof (cases m)
    case (PlayerInputPacket pid seq inp)
    then have "pid \<noteq> []" using pk(2) by (simp add: message_checks)
    then have "node_wf b (n\<lparr>n_last_input_time := AList.update pid (rd_wall rd) (n_last_input_time n)\<rparr>)"
      using last_input_time_wf [OF n] by blast
    then show ?thesis
      using n by (simp add: pk(1) x drain_input_packet_def PlayerInputPacket Let_def same_run_def split: option.split)
        (simp add: node_wf_defs)
  qed (use n id in \<open>simp_all add: pk(1) x drain_input_packet_def\<close>)
qed

lemma drain_remote_input_packets_returns:
  assumes "node_wf b n" and "\<forall>pk \<in> set packets. good_packet pk"
  shows "returns (\<lambda>y. node_wf b (fst y) \<and> same_run n (fst y)) (drain_remote_input_packets packets n)"
  unfolding drain_remote_input_packets_def
proof (rule returns_fold_res [where P = "\<lambda>y. node_wf b (fst y) \<and> same_run n (fst y)"])
  fix pk and y :: "node \<times> int"
  assume "pk \<in> set packets" and y: "node_wf b (fst y) \<and> same_run n (fst y)"
  then show "returns (\<lambda>y. node_wf b (fst y) \<and> same_run n (fst y)) (drain_input_packet pk y)"
    using assms(2) same_run_trans by (intro returns_mono [OF drain_input_packet_returns]) auto
qed (use assms(1) in simp)

lemma roster_find_ji:
  assumes "roster_wf r" and "find (\<lambda>p. entry_join_index p = ji) (roster_all r) = Some x"
  shows "x \<in> set r" and "entry_join_index x = ji" and "\<And>y. y \<in> set r \<Longrightarrow> entry_join_index y = ji \<Longrightarrow> y = x"
proof -
  obtain i where "i < length (roster_all r)" "entry_join_index (roster_all r ! i) = ji" "x = roster_all r ! i"
    using assms(2) unfolding find_Some_iff by blast
  then show x: "x \<in> set r" "entry_join_index x = ji"
    using nth_mem [of i "roster_all r"] by (simp_all add: roster_all_perm)
  fix y
  assume "y \<in> set r" "entry_join_index y = ji"
  then show "y = x"
    using assms(1) x by (auto simp: roster_wf_def distinct_map dest: inj_onD)
qed

lemma add_player_frame [simp]:
  "sequence_number (add_player p w) = sequence_number w"
  "respawn_timers (add_player p w) = respawn_timers w"
  "environment (add_player p w) = environment w"
  by (simp_all add: add_player_def)

definition no_ghosts :: "roster \<Rightarrow> node \<Rightarrow> bool" where
  "no_ghosts r n \<longleftrightarrow> entry_player_id ` set r \<inter> fst ` set (respawn_timers (node_world n)) = {}"

lemma rejoin_entry_returns:
  assumes n: "node_wf b n" and e: "valid_entry entry"
    and ghost: "entry_player_id entry \<notin> fst ` set (respawn_timers (node_world n))"
  shows "returns (\<lambda>y. node_wf b (fst y) \<and> same_run n (fst y) \<and>
      respawn_timers (node_world (fst y)) = respawn_timers (node_world n))
    (rejoin_entry now entry (n, joined))"
proof -
  let ?ji = "entry_join_index entry"
  let ?pid = "entry_player_id entry"
  let ?existing = "find (\<lambda>p. entry_join_index p = ?ji) (roster_all (n_roster n))"
  let ?r1 = "case ?existing of None \<Rightarrow> n_roster n | Some x \<Rightarrow> roster_remove (entry_player_id x) (n_roster n)"
  note r = node_wfD(2) [OF n]
  have r1: "roster_wf ?r1"
    using r roster_remove_wf by (auto split: option.split)
  have "?ji \<notin> entry_join_index ` set ?r1"
  proof (cases ?existing)
    case None
    then have "?ji \<notin> entry_join_index ` set (n_roster n)"
      unfolding find_None_iff roster_all_perm by (metis imageE)
    with None show ?thesis by simp
  next
    case (Some x)
    have "?ji \<notin> entry_join_index ` set (roster_remove (entry_player_id x) (n_roster n))"
      using roster_find_ji(3) [OF r Some] by (auto simp: roster_remove_set)
    then show ?thesis unfolding Some by simp
  qed
  then have add: "roster_add entry ?r1 = Inr (?r1 @ [entry])"
    by (simp add: roster_add_iff)
  have pid: "?pid \<noteq> []" using e by (simp add: valid_entry_def)
  define n2 where "n2 = n\<lparr>n_rejoin_states := AList.delete ?ji (n_rejoin_states n), n_roster := ?r1 @ [entry]\<rparr>"
  have n2: "node_wf b n2"
    using roster_add_wf [OF r1 e add] n by (simp add: n2_def roster_update_wf)
  have eng: "node_engine n2 = node_engine n" by (simp add: n2_def)
  have add_wf: "node_wf b (on_world (add_player (p\<lparr>player_id := ?pid, join_index := ?ji\<rparr>)) n2)" for p
    by (rule on_world_wf [OF n2])
      (use add_player_good [OF world_good_node [OF n], of "p\<lparr>player_id := ?pid, join_index := ?ji\<rparr>"] pid ghost in
        \<open>simp_all add: eng\<close>)
  have spawn_wf: "node_wf b (on_engine (spawn_player ?pid px py ?ji) n2)" for px py
    by (rule on_engine_wf [OF n2])
      (use spawn_player_good [OF node_wfD(8) [OF n] pid ghost] in
        \<open>simp_all add: eng engine_seq_def spawn_player_def\<close>)
  note time_wf = last_input_time_wf [OF _ pid]
  define restored where "restored = map_of (n_rejoin_states n) ?ji"
  define n3 where "n3 = (case restored of
      Some p \<Rightarrow> on_world (add_player (p\<lparr>player_id := ?pid, join_index := ?ji\<rparr>)) n2
    | None \<Rightarrow> (case ?existing of Some _ \<Rightarrow> n2
        | None \<Rightarrow> let (x, y) = spawn_position_for (node_engine n2) ?ji
                 in on_engine (spawn_player ?pid x y ?ji) n2))"
  have n3: "node_wf b n3"
    using n2 add_wf spawn_wf by (simp add: n3_def split: option.split prod.split)
  have timers: "respawn_timers (node_world n3) = respawn_timers (node_world n)"
    by (simp add: n3_def eng spawn_player_def split: option.split prod.split)
  have "same_run n n2" by (simp add: n2_def same_run_def)
  then have "same_run n n3"
    by (auto simp: n3_def same_run_def engine_seq_def spawn_player_def on_world_def on_engine_def
        split: option.split prod.split)
  then have role: "same_run n (n3\<lparr>n_last_input_time := d\<rparr>)" for d
    by (simp add: same_run_def)
  let ?skip = "?pid = n_local_player_id n
    \<or> (case ?existing of None \<Rightarrow> False | Some x \<Rightarrow> entry_player_id x \<noteq> ?pid)
    \<or> (case ?existing of None \<Rightarrow> False
       | Some x \<Rightarrow> entry_host x = entry_host entry \<and> entry_udp_port x = entry_udp_port entry \<and> restored = None)"
  have "rejoin_entry now entry (n, joined) = (if ?skip then Inr (n, joined)
      else Inr (n3\<lparr>n_last_input_time := AList.update ?pid now (n_last_input_time n3)\<rparr>, True))"
    using add by (simp add: rejoin_entry_def Let_def n3_def n2_def restored_def cong: option.case_cong)
  then show ?thesis
    using n last_input_time_wf [OF n3 pid] timers role by simp
qed

text \<open>
  What a host's frame reads: a roster update must not bring back a player that is waiting to
  respawn, whom the world would then hold twice.
\<close>

definition good_host_io :: "host_io \<Rightarrow> node \<Rightarrow> bool" where
  "good_host_io io n \<longleftrightarrow>
     (\<forall>r. ho_lobby io = Some (RosterUpdate r) \<longrightarrow> roster_wf r \<and> no_ghosts r n) \<and>
     [] \<notin> set (ho_reported io) \<and> (\<forall>pk \<in> set (ho_packets io). good_packet pk) \<and> iterates (ho_iterate io)"

lemma check_for_rejoining_players_returns:
  assumes "node_wf b n" and "\<And>r. polled = Some (RosterUpdate r) \<Longrightarrow> roster_wf r \<and> no_ghosts r n"
  shows "returns (\<lambda>n'. node_wf b n' \<and> same_run n n') (check_for_rejoining_players now polled n)"
proof (cases "\<exists>r. polled = Some (RosterUpdate r)")
  case False
  then show ?thesis
    using assms(1) by (auto simp: check_for_rejoining_players_def split: option.split message.split)
next
  case True
  then obtain r where r: "polled = Some (RosterUpdate r)" "roster_wf r" "no_ghosts r n"
    using assms(2) by blast
  let ?Q = "\<lambda>y :: node \<times> bool. node_wf b (fst y) \<and> same_run n (fst y) \<and>
    respawn_timers (node_world (fst y)) = respawn_timers (node_world n)"
  have "returns ?Q (fold_res (rejoin_entry now) (roster_all r) (n, False))"
  proof (rule returns_fold_res [where P = ?Q])
    show "?Q (n, False)" using assms(1) by simp
  next
    fix e y
    assume e: "e \<in> set (roster_all r)" and y: "?Q y"
    have "valid_entry e" "entry_player_id e \<notin> fst ` set (respawn_timers (node_world (fst y)))"
      using e r(2,3) y by (auto simp: roster_all_perm roster_wf_def no_ghosts_def)
    from rejoin_entry_returns [OF _ this, of b now "snd y"] y
    have "returns (\<lambda>z. node_wf b (fst z) \<and> same_run (fst y) (fst z) \<and>
        respawn_timers (node_world (fst z)) = respawn_timers (node_world (fst y))) (rejoin_entry now e y)"
      by simp
    then show "returns ?Q (rejoin_entry now e y)"
      by (rule returns_mono) (use y same_run_trans in auto)
  qed
  then show ?thesis
    unfolding check_for_rejoining_players_def r option.case message.case
    by (rule returns_bind) auto
qed

lemma host_tick_returns:
  assumes "node_wf False n" and "iterates (ho_iterate io)" and "n_role n = HOST"
  shows "returns (\<lambda>n'. node_wf False n' \<and> n_role n' = HOST \<and> engine_seq (node_engine n') = engine_seq (node_engine n) + 1 \<and>
      n_sent_snapshots n' = n_sent_snapshots n) (host_tick io inp n)"
proof -
  note a = node_wfD(1,8) [OF assms(1)]
  have inv: "agent_inv (n_agents n)" using a(1) by (simp add: agents_wf_def)
  have "genuine []" by (simp add: genuine_def)
  from agent_tick_ok [OF _ _ assms(2) this, of "n_agents n" "ho_tick io" TICK_INTERVAL "build_host_inputs inp n"] inv
  obtain st cmds where st: "agent_tick (ho_iterate io) (ho_tick io) TICK_INTERVAL (build_host_inputs inp n) [] (n_agents n) = Inr st"
      "tick (ho_tick io) TICK_INTERVAL (build_host_inputs inp n) (directed cmds) (node_engine n) = Inr (ai_engine st)"
      "Other_Object \<notin> snd ` set cmds" "integration_wf st" "controllers st = controllers (n_agents n)"
    unfolding agent_inv_def by blast
  have "valid_commands (directed cmds)"
    using st(3) by (simp add: valid_commands_def directed_def)
  from tick_engine_good [OF a(2) this st(2)] tick_result(3) [OF engine_goodD(1) [OF a(2)] this st(2)]
  have e: "engine_good (ai_engine st)" "engine_seq (ai_engine st) = engine_seq (node_engine n) + 1"
    by (simp_all add: engine_seq_def)
  then have "agents_wf False st"
    using st(4,5) inv by (simp add: agents_wf_def agent_inv_def)
  then show ?thesis
    using assms(1,3) e(2) by (simp add: host_tick_def st(1)) (simp add: node_wf_defs)
qed

lemma send_events_returns:
  assumes "node_wf b n"
  shows "returns (\<lambda>n'. node_wf b n' \<and> same_run n n') (send_events n)"
proof -
  let ?Q = "\<lambda>m. node_wf b m \<and> same_run n m"
  have "returns ?Q (fold_res send_game_event (events (node_engine n)) n)"
  proof (rule returns_fold_res [where P = ?Q])
    show "?Q n" using assms by simp
  next
    fix ev m
    assume ev: "ev \<in> set (events (node_engine n))" and m: "?Q m"
    have "valid_message (event_to_message ev)" if "sendable ev" for ev
      using that by (cases ev) (auto simp: message_checks)
    with engine_goodD(5) [OF node_wfD(8) [OF assms] ev] m show "returns ?Q (send_game_event ev m)"
      by (simp add: send_game_event_def)
  qed
  then show ?thesis
    unfolding send_events_def
  proof (rule returns_bind)
    fix m
    assume m: "?Q m"
    then show "returns ?Q (Inr (on_engine (\<lambda>e. e\<lparr>events := []\<rparr>) m))"
      using on_engine_wf [of b m "\<lambda>e. e\<lparr>events := []\<rparr>"] engine_good_events [OF node_wfD(8) [of b m]]
      by (simp add: engine_seq_def same_run_def) (simp add: on_engine_def)
  qed
qed

lemma fold_emit_out: "n_out (fold (\<lambda>x. emit (f x)) xs n) = n_out n @ map f xs"
  by (induction xs arbitrary: n) (simp_all add: emit_def)

lemma fold_emit_frame [simp]:
  "n_agents (fold (\<lambda>x. emit (f x)) xs n) = n_agents n"
  "n_roster (fold (\<lambda>x. emit (f x)) xs n) = n_roster n"
  "n_role (fold (\<lambda>x. emit (f x)) xs n) = n_role n"
  "n_local_player_id (fold (\<lambda>x. emit (f x)) xs n) = n_local_player_id n"
  "n_sent_snapshots (fold (\<lambda>x. emit (f x)) xs n) = n_sent_snapshots n"
  by (induction xs arbitrary: n) (simp_all add: emit_def)

text \<open>What the peers are sent at the end of a host's frame: the world as it now is.\<close>

definition broadcasts_world :: "node \<Rightarrow> bool" where
  "broadcasts_world n \<longleftrightarrow> (\<forall>e \<in> set (other_entries n).
     Send_Udp (WorldStateSnapshot (sequence_number (node_world n)) (node_world n))
       (entry_host e) (entry_udp_port e) \<in> set (n_out n))"

lemma send_world_state_snapshot_ok:
  assumes "node_wf b n"
  shows "node_wf b (send_world_state_snapshot n) \<and> broadcasts_world (send_world_state_snapshot n) \<and>
    node_engine (send_world_state_snapshot n) = node_engine n \<and>
    n_role (send_world_state_snapshot n) = n_role n \<and>
    n_sent_snapshots (send_world_state_snapshot n) = n_sent_snapshots n + 1"
  using assms
  by (simp add: send_world_state_snapshot_def Let_def broadcasts_world_def fold_emit_out other_entries_def)

lemma maybe_broadcast_roster_returns:
  assumes "node_wf b n"
  shows "returns (\<lambda>n'. \<exists>out. node_wf b n' \<and> n' = n\<lparr>n_out := n_out n @ out\<rparr>) (maybe_broadcast_roster n)"
proof -
  have "valid_message (RosterUpdate (n_roster n))"
    using node_wfD(2) [OF assms] by (simp add: roster_wf_def valid_RosterUpdate)
  then show ?thesis
    using assms by (auto simp: maybe_broadcast_roster_def emit_def intro: exI [of _ "[]"])
qed

definition host_frame_ok :: "node \<Rightarrow> node \<Rightarrow> bool" where
  "host_frame_ok n n' \<longleftrightarrow> node_wf False n' \<and> n_role n' = HOST \<and> broadcasts_world n' \<and>
     engine_seq (node_engine n') = engine_seq (node_engine n) + 1 \<and>
     n_sent_snapshots n' = n_sent_snapshots n + 1"

text \<open>The end of the frame, from the tick on.\<close>

lemma host_frame_end:
  assumes "node_wf False m" and "iterates (ho_iterate io)" and "n_role m = HOST"
  shows "returns (\<lambda>(w, n'). w = node_world n' \<and> host_frame_ok m n')
    (rbind (host_tick io inp m) (\<lambda>n6. rbind (send_events n6) (\<lambda>n7.
      rbind (maybe_broadcast_roster (send_world_state_snapshot n7)) (\<lambda>n9.
        Inr (node_world (maybe_log_host_diagnostics n9), maybe_log_host_diagnostics n9)))))"
proof (rule returns_bind [OF host_tick_returns [OF assms]])
  fix n6
  assume n6: "node_wf False n6 \<and> n_role n6 = HOST \<and> engine_seq (node_engine n6) = engine_seq (node_engine m) + 1 \<and>
      n_sent_snapshots n6 = n_sent_snapshots m"
  then have wf6: "node_wf False n6" by simp
  show "returns (\<lambda>(w, n'). w = node_world n' \<and> host_frame_ok m n') (rbind (send_events n6) (\<lambda>n7.
      rbind (maybe_broadcast_roster (send_world_state_snapshot n7)) (\<lambda>n9.
        Inr (node_world (maybe_log_host_diagnostics n9), maybe_log_host_diagnostics n9))))"
  proof (rule returns_bind [OF send_events_returns [OF wf6]])
    fix n7
    assume n7: "node_wf False n7 \<and> same_run n6 n7"
    let ?n8 = "send_world_state_snapshot n7"
    have n8: "node_wf False ?n8" "broadcasts_world ?n8" "n_role ?n8 = HOST"
        "engine_seq (node_engine ?n8) = engine_seq (node_engine m) + 1"
        "n_sent_snapshots ?n8 = n_sent_snapshots m + 1"
      using n7 n6 send_world_state_snapshot_ok [of False n7] by (simp_all add: same_run_def)
    show "returns (\<lambda>(w, n'). w = node_world n' \<and> host_frame_ok m n')
        (rbind (maybe_broadcast_roster ?n8) (\<lambda>n9.
          Inr (node_world (maybe_log_host_diagnostics n9), maybe_log_host_diagnostics n9)))"
    proof (rule returns_bind [OF maybe_broadcast_roster_returns [OF n8(1)]])
      fix n9
      assume "\<exists>out. node_wf False n9 \<and> n9 = ?n8\<lparr>n_out := n_out ?n8 @ out\<rparr>"
      then obtain out where n9: "node_wf False n9" "n9 = ?n8\<lparr>n_out := n_out ?n8 @ out\<rparr>" by blast
      then have "host_frame_ok m n9"
        using n8 by (auto simp: host_frame_ok_def broadcasts_world_def other_entries_def)
      then show "returns (\<lambda>(w, n'). w = node_world n' \<and> host_frame_ok m n')
          (Inr (node_world (maybe_log_host_diagnostics n9), maybe_log_host_diagnostics n9))"
        by (auto simp: maybe_log_host_diagnostics_def host_frame_ok_def broadcasts_world_def other_entries_def)
    qed
  qed
qed

lemma host_frame_ok_shift: "same_run n m \<Longrightarrow> host_frame_ok m n' \<Longrightarrow> host_frame_ok n n'"
  by (simp add: host_frame_ok_def same_run_def)

lemma host_frame_returns:
  assumes wf: "node_wf False n" and io: "good_host_io io n" and role: "n_role n = HOST"
  shows "returns (\<lambda>(w, n'). w = node_world n' \<and> host_frame_ok n n') (process_host_frame io inp n)"
proof -
  let ?n1 = "record_host_frame_interval (ho_frame_at io) n"
  let ?Q = "\<lambda>m. node_wf False m \<and> same_run n m"
  let ?R = "\<lambda>(w, n'). w = node_world n' \<and> host_frame_ok n n'"
  have n1: "?Q ?n1" "node_world ?n1 = node_world n"
    using wf by (simp_all add: record_host_frame_interval_def same_run_def)
  have rejoin: "returns ?Q (check_for_rejoining_players (ho_rejoin_at io) (ho_lobby io) ?n1)"
    using check_for_rejoining_players_returns [of False ?n1 "ho_lobby io" "ho_rejoin_at io"] io n1
    by (auto simp: good_host_io_def no_ghosts_def intro!: returns_mono [OF check_for_rejoining_players_returns]
        intro: same_run_trans)
  have lost: "returns ?Q (check_player_disconnections (ho_reported io) (ho_timeouts_at io) m)" if "?Q m" for m
    using that io by (intro returns_mono [OF check_player_disconnections_returns])
      (auto simp: good_host_io_def intro: same_run_trans)
  have drain: "returns (\<lambda>y. ?Q (fst y)) (drain_remote_input_packets (ho_packets io) m)" if "?Q m" for m
    using that io by (intro returns_mono [OF drain_remote_input_packets_returns])
      (auto simp: good_host_io_def intro: same_run_trans)
  show ?thesis
    unfolding process_host_frame_def Let_def
  proof (rule returns_bind [OF rejoin], rule returns_bind [OF lost], assumption,
      rule returns_bind [OF drain], assumption)
    fix y :: "node \<times> int"
    assume y: "?Q (fst y)"
    obtain n4 d where y4: "y = (n4, d)" by force
    let ?m = "n4\<lparr>n_host_input_window := n_host_input_window n4 + d\<rparr>"
    have m: "node_wf False ?m" "same_run n ?m" "n_role ?m = HOST"
      using y role by (simp_all add: y4 same_run_def)
    have "iterates (ho_iterate io)" using io by (simp add: good_host_io_def)
    from host_frame_end [OF m(1) this m(3), of inp]
    show "returns ?R ((\<lambda>(n4, drained). rbind (host_tick io inp (n4\<lparr>n_host_input_window := n_host_input_window n4 + drained\<rparr>))
         (\<lambda>n6. rbind (send_events n6) (\<lambda>n7. rbind (maybe_broadcast_roster (send_world_state_snapshot n7))
           (\<lambda>n9. Inr (node_world (maybe_log_host_diagnostics n9), maybe_log_host_diagnostics n9))))) y)"
      unfolding y4 prod.case
      by (rule returns_mono) (use host_frame_ok_shift [OF m(2)] in auto)
  qed
qed

end
