(* ===== verification/Node_Props.thy ===== *)
theory Node_Props
  imports Node_Total
begin

text \<open>
  The properties of the node controller: frames never fail, stale traffic is ignored, eviction and
  rejoining, promotion and migration, the smoothing of corrections, and what the code gets wrong
  when claims cross or a second host fails.
\<close>

subsection \<open>An example node\<close>

definition example_entry :: "ident \<Rightarrow> int \<Rightarrow> bool \<Rightarrow> string \<Rightarrow> roster_entry" where
  "example_entry pid ji host ip =
     \<lparr>entry_player_id = pid, entry_host = ip, entry_udp_port = 50010, entry_join_index = ji,
      entry_status = CONNECTED, entry_is_host = host\<rparr>"

definition example_peer :: node where
  "example_peer =
     \<lparr>n_role = CLIENT, n_lifecycle = \<lparr>lifecycle_state = IN_GAME\<rparr>,
      n_roster = [example_entry ''player1'' 0 True ''10.0.0.1'', example_entry ''player2'' 1 False ''10.0.0.2'',
        example_entry ''player3'' 2 False ''10.0.0.3''],
      n_agents = example_agents, n_session_id = ''s'', n_local_ip = ''10.0.0.2'', n_udp_port = 0,
      n_local_player_id = ''player2'', n_remote_player_id = ''player1'', n_remote_host = ''10.0.0.1'',
      n_remote_port = 50010, n_input_sequence = 0, n_last_remote_input_sequence = [],
      n_last_snapshot_sequence = 0, n_cached_remote_inputs = [], n_sent_input_packets = 0,
      n_received_input_packets = 0, n_sent_snapshots = 0, n_received_snapshots = 0,
      n_last_input_time = [(''player3'', 0)], n_prediction = Predictor (new_prediction ''player2'' 60),
      n_shadow_copies = [], n_shadow_factory = Smooth new_shadow_copy, n_use_discovery = False,
      n_visual_offset = (0, 0), n_lead_baseline = 0, n_calibration_remaining = 120, n_tick_adjustment = 0,
      n_host_last_frame_at = None, n_host_frame_intervals = [], n_host_input_window = 0,
      n_client_last_frame_at = None, n_client_frame_intervals = [], n_join_index = 1,
      n_coordinator = Some (new_coordinator 1 ''10.0.0.2'' T_ELECTION_BASE_S T_ELECTION_DELTA_S),
      n_watcher = Some (new_watcher HOST_TIMEOUT_S), n_env_buffer = Some new_env_buffer,
      n_election_triggered = False, n_reconnected = False, n_rejoin_join_index = None,
      n_rejoin_states = [], n_pending_acks = {||}, n_claim_deadline = 0, n_promotion_done = False,
      n_following_ip = None, n_following_since = 0, n_verify_deadline = 0, n_verify_next_probe = 0,
      n_out = []\<rparr>"

definition example_reading :: reading where
  "example_reading = \<lparr>rd_wall = 0, rd_mono = 0, rd_ticks = \<lambda>_. tick_clock_at 0\<rparr>"

definition quiet_host :: host_io where
  "quiet_host = \<lparr>ho_frame_at = 0, ho_lobby = None, ho_rejoin_at = 0, ho_reported = [], ho_timeouts_at = 0,
     ho_packets = [], ho_tick = tick_clock_at 0, ho_iterate = sorted_list_of_fset\<rparr>"

definition quiet_client :: client_io where
  "quiet_client = \<lparr>io_frame_at = 0, io_lobby = [], io_predictions = (\<lambda>_. example_reading), io_drain_at = 0,
     io_packets = [], io_events = [], io_election_at = 0, io_probe = None, io_draw_at = 0\<rparr>"

lemma example_engine_good: "engine_good example_engine"
  using example_engine_wf
  by (simp add: engine_good_def world_good_def)
    (simp add: named_world_def level_named_def integral_block_def is_integral_def example_defs)

lemma example_peer_wf: "node_wf True example_peer"
  using example_agents_inv example_engine_good
  by (simp add: node_wf_defs example_peer_def agents_wf_def example_entry_def roster_wf_def valid_entry_def
      new_coordinator_wf new_env_buffer_def env_buffer_get_last_def new_shadow_copy_wf)
    (simp add: example_agents_def)

lemma quiet_host_good: "good_host_io quiet_host n"
  by (simp add: good_host_io_def quiet_host_def iterates_sorted)

lemma quiet_client_good: "good_client_io quiet_client"
  by (simp add: good_client_io_def quiet_client_def)

subsection \<open>Frames\<close>

text \<open>C7: whatever its role, a well-formed node's frame returns a world to draw and leaves the node
  well-formed: no step raises, as long as the packets decode to well-formed messages and nobody
  who is waiting to respawn is brought back by a roster update.\<close>

theorem frame_never_raises:
  assumes "node_wf False n" and "good_host_io hio n" and "good_client_io cio"
  shows "\<exists>w n'. process_frame hio cio inp n = Inr (w, n') \<and> node_wf False n'"
proof -
  let ?n1 = "start_if_needed n"
  have n1: "node_wf False ?n1" "n_role ?n1 = n_role n" "good_host_io hio ?n1"
    using assms(1,2) by (auto simp: start_if_needed_def good_host_io_def no_ghosts_def)
  show ?thesis
  proof (cases "n_role n")
    case HOST
    have "returns (\<lambda>(w, n'). w = node_world n' \<and> host_frame_ok ?n1 n') (process_host_frame hio inp ?n1)"
      by (rule host_frame_returns [OF n1(1,3)]) (simp add: n1(2) HOST)
    then show ?thesis
      using n1(2) HOST by (auto simp: process_frame_def Let_def returns_def host_frame_ok_def)
  next
    case CLIENT
    have "node_wf True ?n1" by (rule node_wf_client [OF n1(1)]) (simp add: n1(2) CLIENT)
    from client_frame_returns [OF this assms(3), of inp] show ?thesis
      using n1(2) CLIENT node_wf_weaken by (auto simp: process_frame_def Let_def returns_def)
  qed
qed

theorem frame_never_raises_witness:
  "\<exists>w n'. process_frame quiet_host quiet_client no_input example_peer = Inr (w, n') \<and> node_wf False n'"
  by (rule frame_never_raises [OF node_wf_weaken [OF example_peer_wf] quiet_host_good quiet_client_good])

text \<open>Every frame of a host advances the world by one tick and ends by sending every other
  member of the roster that very world, tagged with its tick number.\<close>

theorem host_frame_broadcasts_its_tick:
  assumes "node_wf False n" and "good_host_io io n" and "n_role n = HOST"
  shows "\<exists>n'. process_host_frame io inp n = Inr (node_world n', n') \<and> n_role n' = HOST \<and>
    sequence_number (node_world n') = sequence_number (node_world n) + 1 \<and>
    (\<forall>e \<in> set (n_roster n'). entry_player_id e \<noteq> n_local_player_id n' \<longrightarrow>
       Send_Udp (WorldStateSnapshot (sequence_number (node_world n')) (node_world n'))
         (entry_host e) (entry_udp_port e) \<in> set (n_out n'))"
  using host_frame_returns [OF assms, of inp]
  by (auto simp: returns_def host_frame_ok_def broadcasts_world_def other_entries_set engine_seq_def)

theorem host_frame_broadcasts_its_tick_witness:
  "\<exists>n'. process_host_frame quiet_host no_input (example_peer\<lparr>n_role := HOST\<rparr>) = Inr (node_world n', n') \<and>
     sequence_number (node_world n') = 1"
proof -
  have "node_wf False (example_peer\<lparr>n_role := HOST\<rparr>)"
    by (rule node_wf_weaken [OF role_wf [OF example_peer_wf]])
  from host_frame_broadcasts_its_tick [OF this quiet_host_good, of no_input] show ?thesis
    by (auto simp: example_peer_def example_agents_def example_defs)
qed

subsection \<open>Input packets\<close>

definition input_sequence :: "node \<Rightarrow> ident \<Rightarrow> int" where
  "input_sequence n pid = (case map_of (n_last_remote_input_sequence n) pid of None \<Rightarrow> - 1 | Some s \<Rightarrow> s)"

definition sent_inputs :: "packet list \<Rightarrow> ident \<Rightarrow> (int \<times> input_state) set" where
  "sent_inputs packets pid =
     {(s, inp). \<exists>rd addr. (rd, Inr (PlayerInputPacket pid s inp), addr) \<in> set packets}"

lemma sent_inputs_Nil [simp]: "sent_inputs [] pid = {}"
  by (simp add: sent_inputs_def)

lemma sent_inputs_Cons:
  "sent_inputs ((rd, r, addr) # ps) pid =
     (case r of Inr (PlayerInputPacket p s inp) \<Rightarrow> if p = pid then insert (s, inp) (sent_inputs ps pid)
        else sent_inputs ps pid
      | _ \<Rightarrow> sent_inputs ps pid)"
  by (cases addr) (auto simp: sent_inputs_def split: sum.split message.split)

lemma finite_sent_inputs [simp]: "finite (sent_inputs ps pid)"
  by (induction ps) (auto simp: sent_inputs_Cons split: sum.split message.split)

definition newest_input :: "packet list \<Rightarrow> ident \<Rightarrow> node \<Rightarrow> node \<Rightarrow> bool" where
  "newest_input packets pid n n' \<longleftrightarrow>
     input_sequence n' pid = Max (insert (input_sequence n pid) (fst ` sent_inputs packets pid)) \<and>
     (if input_sequence n' pid = input_sequence n pid
      then map_of (n_cached_remote_inputs n') pid = map_of (n_cached_remote_inputs n) pid
      else \<exists>inp. (input_sequence n' pid, inp) \<in> sent_inputs packets pid \<and>
             map_of (n_cached_remote_inputs n') pid = Some inp)"

lemma drain_input_packet_cases:
  assumes "drain_input_packet (rd, Inr m, addr) (n, d) = Inr (n1, d1)"
  shows "(\<exists>pid s inp. m = PlayerInputPacket pid s inp \<and> input_sequence n pid < s \<and>
            (\<forall>k. input_sequence n1 k = (if k = pid then s else input_sequence n k)) \<and>
            (\<forall>k. map_of (n_cached_remote_inputs n1) k
               = (if k = pid then Some inp else map_of (n_cached_remote_inputs n) k)))
    \<or> ((\<forall>k. input_sequence n1 k = input_sequence n k) \<and>
       n_cached_remote_inputs n1 = n_cached_remote_inputs n \<and>
       (\<forall>pid s inp. m = PlayerInputPacket pid s inp \<longrightarrow> s \<le> input_sequence n pid))"
  using assms
  by (cases m)
    (auto simp: drain_input_packet_def rbind_Inr_iff emit_def input_sequence_def Let_def AList.update_conv'
      split: if_splits option.splits)

lemma newest_input_step:
  assumes "drain_input_packet (rd, Inr m, addr) (n, d) = Inr (n1, d1)"
    and "newest_input ps pid n1 n'"
  shows "newest_input ((rd, Inr m, addr) # ps) pid n n'"
proof -
  let ?S = "sent_inputs ps pid"
  show ?thesis
    using drain_input_packet_cases [OF assms(1)]
  proof (elim disjE exE conjE)
    fix p s inp
    assume m: "m = PlayerInputPacket p s inp" and lt: "input_sequence n p < s"
      and seq: "\<forall>k. input_sequence n1 k = (if k = p then s else input_sequence n k)"
      and cached: "\<forall>k. map_of (n_cached_remote_inputs n1) k
          = (if k = p then Some inp else map_of (n_cached_remote_inputs n) k)"
    show ?thesis
    proof (cases "p = pid")
      case True
      have s: "s \<le> Max (insert s (fst ` ?S))" by simp
      have "Max (insert (input_sequence n pid) (insert s (fst ` ?S)))
          = max (input_sequence n pid) (Max (insert s (fst ` ?S)))"
        by (rule Max_insert) simp_all
      also have "\<dots> = Max (insert s (fst ` ?S))"
        by (rule max_absorb2, rule order_trans [OF _ s]) (use lt True in simp)
      finally have "Max (insert (input_sequence n pid) (insert s (fst ` ?S))) = Max (insert s (fst ` ?S))" .
      note max = this
      have x: "input_sequence n' pid = Max (insert s (fst ` ?S))"
        and c: "if input_sequence n' pid = s then map_of (n_cached_remote_inputs n') pid = Some inp
          else \<exists>i. (input_sequence n' pid, i) \<in> ?S \<and> map_of (n_cached_remote_inputs n') pid = Some i"
        using assms(2) True seq cached unfolding newest_input_def by (auto split: if_splits)
      have "input_sequence n pid < input_sequence n' pid"
        unfolding x using lt True by (intro less_le_trans [OF _ s]) simp
      moreover have "input_sequence n' pid = Max (insert (input_sequence n pid) (insert s (fst ` ?S)))"
        unfolding max by (rule x)
      ultimately show ?thesis
        using c True by (auto simp: newest_input_def sent_inputs_Cons m simp del: Max_insert split: if_splits)
    next
      case False
      then show ?thesis
        using assms(2) seq cached by (auto simp: newest_input_def sent_inputs_Cons m simp del: Max_insert split: if_splits)
    qed
  next
    assume seq: "\<forall>k. input_sequence n1 k = input_sequence n k"
      and cached: "n_cached_remote_inputs n1 = n_cached_remote_inputs n"
      and old: "\<forall>pid s inp. m = PlayerInputPacket pid s inp \<longrightarrow> s \<le> input_sequence n pid"
    have "Max (insert (input_sequence n pid) (insert s (fst ` ?S))) = Max (insert (input_sequence n pid) (fst ` ?S))"
      if "s \<le> input_sequence n pid" for s
    proof -
      have "Max (insert s (insert (input_sequence n pid) (fst ` ?S)))
          = max s (Max (insert (input_sequence n pid) (fst ` ?S)))"
        by (rule Max_insert) simp_all
      also have "\<dots> = Max (insert (input_sequence n pid) (fst ` ?S))"
        using that by (intro max_absorb2) (simp add: order_trans [OF that Max_ge])
      finally show ?thesis by (simp only: insert_commute)
    qed
    then show ?thesis
      using assms(2) seq cached old
      by (auto simp: newest_input_def sent_inputs_Cons simp del: Max_insert split: message.split if_splits)
  qed
qed



subsection \<open>Snapshots\<close>

text \<open>The snapshots of a backlog that are newer than everything before them.\<close>

fun fresh_snapshots :: "int \<Rightarrow> (reading \<times> snapshot) list \<Rightarrow> (reading \<times> snapshot) list" where
  "fresh_snapshots last_seq [] = []"
| "fresh_snapshots last_seq ((rd, s) # ss) =
     (if snapshot_seq s \<le> last_seq then fresh_snapshots last_seq ss
      else (rd, s) # fresh_snapshots (snapshot_seq s) ss)"

definition snapshot_packet :: "address \<Rightarrow> reading \<times> snapshot \<Rightarrow> packet" where
  "snapshot_packet addr = (\<lambda>(rd, s). (rd, Inr (WorldStateSnapshot (snapshot_seq s) (snapshot_world s)), addr))"

lemma snapshot_collapse [simp]: "\<lparr>snapshot_seq = snapshot_seq s, snapshot_world = snapshot_world s\<rparr> = s"
  by simp

lemma shadow_fold_frame:
  "n_last_snapshot_sequence (update_shadow_copies now s n) = n_last_snapshot_sequence n"
  "n_received_snapshots (update_shadow_copies now s n) = n_received_snapshots n"
proof -
  let ?f = "\<lambda>m. (n_last_snapshot_sequence m, n_received_snapshots m)"
  have "?f (update_shadow_copies now s n) = ?f n"
    unfolding update_shadow_copies_def
    by (rule fold_inv [where P = "\<lambda>m. ?f m = ?f n"]) (simp_all add: Let_def split: prod.split)
  then show "n_last_snapshot_sequence (update_shadow_copies now s n) = n_last_snapshot_sequence n"
    "n_received_snapshots (update_shadow_copies now s n) = n_received_snapshots n"
    by simp_all
qed

lemma node_reconcile_frame:
  assumes "node_reconcile clks s n = Inr n'"
  shows "n_last_snapshot_sequence n' = n_last_snapshot_sequence n"
    and "n_received_snapshots n' = n_received_snapshots n"
  using assms
  by (auto simp: node_reconcile_def on_world_def on_engine_def rbind_Inr_iff split: node_predictor.splits)

lemma apply_snapshot_frame:
  assumes "apply_snapshot now rd s n = Inr n'" and "n_last_snapshot_sequence n < snapshot_seq s"
  shows "n_last_snapshot_sequence n' = snapshot_seq s"
    and "n_received_snapshots n' = n_received_snapshots n + 1"
proof -
  obtain m where "node_reconcile (rd_ticks rd) s (n\<lparr>n_last_snapshot_sequence := snapshot_seq s\<rparr>) = Inr m"
    "n' = (update_shadow_copies (rd_mono rd) s m)
       \<lparr>n_received_snapshots := n_received_snapshots (update_shadow_copies (rd_mono rd) s m) + 1,
        n_watcher := map_option (watcher_reset now) (n_watcher (update_shadow_copies (rd_mono rd) s m)),
        n_env_buffer := map_option (env_buffer_update s) (n_env_buffer (update_shadow_copies (rd_mono rd) s m))\<rparr>"
    using assms by (auto simp: apply_snapshot_def rbind_Inr_iff Let_def)
  then show "n_last_snapshot_sequence n' = snapshot_seq s" "n_received_snapshots n' = n_received_snapshots n + 1"
    using node_reconcile_frame by (simp_all add: shadow_fold_frame)
qed

text \<open>A backlog of snapshots, late, repeated or out of order, has the effect of those among them
  that are newer than all before; the client ends at the newest tick it was sent.\<close>

theorem stale_snapshots_are_ignored:
  assumes "node_wf True n" and "\<forall>(rd, s) \<in> set ss. world_good (snapshot_world s)"
  shows "\<exists>n'. drain_snapshot_packets now (map (snapshot_packet addr) ss) n = Inr n' \<and>
    drain_snapshot_packets now
      (map (snapshot_packet addr) (fresh_snapshots (n_last_snapshot_sequence n) ss)) n = Inr n' \<and>
    n_last_snapshot_sequence n' = Max (insert (n_last_snapshot_sequence n) (snapshot_seq ` snd ` set ss)) \<and>
    n_received_snapshots n' = n_received_snapshots n
      + int (length (fresh_snapshots (n_last_snapshot_sequence n) ss))"
  using assms
proof (induction ss arbitrary: n)
  case Nil
  then show ?case by (simp add: drain_snapshot_packets_def)
next
  case (Cons a ss)
  obtain rd s where a: "a = (rd, s)" by force
  have good: "world_good (snapshot_world s)" "\<forall>(rd, s) \<in> set ss. world_good (snapshot_world s)"
    using Cons.prems(2) by (auto simp: a)
  let ?M = "\<lambda>m. Max (insert m (snapshot_seq ` snd ` set ss))"
  have absorb: "Max (insert m (insert k (snapshot_seq ` snd ` set ss))) = ?M m" if "k \<le> m" for m k
  proof -
    have "Max (insert k (insert m (snapshot_seq ` snd ` set ss))) = max k (?M m)"
      by (rule Max_insert) simp_all
    also have "\<dots> = ?M m"
      using that by (intro max_absorb2) (simp add: order_trans [OF that Max_ge])
    finally show ?thesis by (simp only: insert_commute)
  qed
  show ?case
  proof (cases "snapshot_seq s \<le> n_last_snapshot_sequence n")
    case True
    then have "apply_packet now (snapshot_packet addr a) n = Inr n"
      by (simp add: apply_packet_def snapshot_packet_def a apply_snapshot_def)
    then show ?thesis
      using Cons.IH [OF Cons.prems(1) good(2)] True absorb [OF True]
      by (auto simp: drain_snapshot_packets_def a)
  next
    case False
    obtain n1 where n1: "apply_snapshot now rd s n = Inr n1" "node_wf True n1"
      using apply_snapshot_returns [OF Cons.prems(1) good(1), of now rd] by (auto simp: returns_def)
    then have p: "apply_packet now (snapshot_packet addr a) n = Inr n1"
      by (simp add: apply_packet_def snapshot_packet_def a)
    have f: "n_last_snapshot_sequence n1 = snapshot_seq s"
        "n_received_snapshots n1 = n_received_snapshots n + 1"
      using apply_snapshot_frame [OF n1(1)] False by simp_all
    have m: "Max (insert (n_last_snapshot_sequence n) (insert (snapshot_seq s) (snapshot_seq ` snd ` set ss)))
        = ?M (snapshot_seq s)"
      using absorb [of "n_last_snapshot_sequence n" "snapshot_seq s"] False by (simp add: insert_commute)
    from Cons.IH [OF n1(2) good(2)] show ?thesis
      using p False f m by (auto simp: drain_snapshot_packets_def a)
  qed
qed

theorem stale_snapshots_are_ignored_witness:
  "\<exists>n'. drain_snapshot_packets 0 (map (snapshot_packet (''10.0.0.1'', 50010))
      [(example_reading, \<lparr>snapshot_seq = 2, snapshot_world = new_world\<rparr>),
       (example_reading, \<lparr>snapshot_seq = 1, snapshot_world = new_world\<rparr>)]) example_peer = Inr n' \<and>
    n_last_snapshot_sequence n' = 2 \<and> n_received_snapshots n' = 1"
proof -
  let ?ss = "[(example_reading, \<lparr>snapshot_seq = 2, snapshot_world = new_world\<rparr>),
       (example_reading, \<lparr>snapshot_seq = 1, snapshot_world = new_world\<rparr>)]"
  have "\<forall>(rd, s) \<in> set ?ss. world_good (snapshot_world s)"
    by (simp add: world_good_def new_world_wf) (simp add: named_world_def new_world_def)
  from stale_snapshots_are_ignored [OF example_peer_wf this, of 0 "(''10.0.0.1'', 50010)"] show ?thesis
    by (auto simp: example_peer_def)
qed

subsection \<open>Eviction and rejoining\<close>

lemma evict_player_lookups:
  "get_player k (node_world (evict_player pid n)) = (if k = pid then None else get_player k (node_world n))"
  "roster_get k (n_roster (evict_player pid n)) = (if k = pid then None else roster_get k (n_roster n))"
  "map_of (n_cached_remote_inputs (evict_player pid n)) k
     = (if k = pid then None else map_of (n_cached_remote_inputs n) k)"
  "map_of (n_last_remote_input_sequence (evict_player pid n)) k
     = (if k = pid then None else map_of (n_last_remote_input_sequence n) k)"
  "map_of (n_shadow_copies (evict_player pid n)) k = (if k = pid then None else map_of (n_shadow_copies n) k)"
  "map_of (n_rejoin_states (evict_player pid n)) ji =
     (case (roster_get pid (n_roster n), get_player pid (node_world n)) of
        (Some e, Some p) \<Rightarrow> if ji = entry_join_index e then Some p else map_of (n_rejoin_states n) ji
      | _ \<Rightarrow> map_of (n_rejoin_states n) ji)"
  by (auto simp: evict_player_def Let_def on_world_def on_engine_def get_player_remove roster_get_remove
      AList.delete_conv' AList.update_conv' split: option.split)

text \<open>An evicted player is gone from the world, the roster and every per-player table, nobody
  else is affected, and the state it had is kept under its join index.\<close>

theorem evicted_player_is_gone:
  fixes n pid
  defines "n' \<equiv> evict_player pid n"
  shows "(\<forall>k. get_player k (node_world n') = (if k = pid then None else get_player k (node_world n)) \<and>
      roster_get k (n_roster n') = (if k = pid then None else roster_get k (n_roster n)) \<and>
      map_of (n_cached_remote_inputs n') k = (if k = pid then None else map_of (n_cached_remote_inputs n) k) \<and>
      map_of (n_last_remote_input_sequence n') k
        = (if k = pid then None else map_of (n_last_remote_input_sequence n) k) \<and>
      map_of (n_last_input_time n') k = (if k = pid then None else map_of (n_last_input_time n) k) \<and>
      map_of (n_shadow_copies n') k = (if k = pid then None else map_of (n_shadow_copies n) k)) \<and>
    (\<forall>ji. map_of (n_rejoin_states n') ji =
      (case (roster_get pid (n_roster n), get_player pid (node_world n)) of
         (Some e, Some p) \<Rightarrow> if ji = entry_join_index e then Some p else map_of (n_rejoin_states n) ji
       | _ \<Rightarrow> map_of (n_rejoin_states n) ji))"
  unfolding n'_def by (simp add: evict_player_lookups AList.delete_conv' del: evict_player_frame(8,10))

lemma no_entry_after_eviction:
  assumes "roster_wf (n_roster n)" and "roster_get pid (n_roster n) = Some entry"
  shows "entry_join_index entry \<notin> entry_join_index ` set (n_roster (evict_player pid n))"
proof
  assume "entry_join_index entry \<in> entry_join_index ` set (n_roster (evict_player pid n))"
  then obtain y where y: "y \<in> set (n_roster n)" "entry_player_id y \<noteq> pid" "entry_join_index y = entry_join_index entry"
    by (auto simp: roster_remove_set)
  obtain i where "i < length (n_roster n)" "entry_player_id (n_roster n ! i) = pid" "entry = n_roster n ! i"
    using assms(2) unfolding roster_get_def find_Some_iff by blast
  then have "entry \<in> set (n_roster n)" "entry_player_id entry = pid" by auto
  then show False
    using assms(1) y by (metis distinct_map inj_on_def roster_wf_def)
qed



text \<open>C36: evicting a player who is dead at that moment does not stop its respawn: when the time comes
  the host's world holds a player again that the roster no longer knows.\<close>

theorem evicted_dead_player_returns:
  assumes "node_wf b n" and "is_authoritative (node_engine n)"
    and "map_of (respawn_timers (node_world n)) pid = Some t" and "t \<le> now"
  shows "get_player pid (world_state (process_respawns now (node_engine (evict_player pid n)))) \<noteq> None \<and>
    roster_get pid (n_roster (evict_player pid n)) = None"
proof -
  let ?e = "node_engine (evict_player pid n)"
  have "engine_wf ?e" "is_authoritative ?e"
    using engine_goodD(1) [OF node_wfD(8) [OF evict_player_wf [OF assms(1)]]] assms(2) by simp_all
  moreover have "map_of (respawn_timers (world_state ?e)) pid = Some t"
    using assms(3) by (simp add: remove_player_eq)
  ultimately have "get_player pid (world_state (process_respawns now ?e)) = Some (respawned pid ?e)"
    using process_respawns_lookup(1) [of ?e now pid] assms(4) by (simp add: get_player_def due_def)
  then show ?thesis by (simp add: evict_player_lookups del: evict_player_frame(8,10))
qed

definition example_dead :: node where
  "example_dead = on_world (\<lambda>w. respawn_timers_update (\<lambda>_. [(''player2'', 3)]) (remove_player ''player2'' w)) example_peer"

lemma example_dead_wf: "node_wf True example_dead"
proof -
  have "world_good (remove_player ''player2'' (node_world example_peer))"
    by (rule remove_player_good [OF world_good_node [OF example_peer_wf]])
  moreover have "''player2'' \<notin> fst ` set (characters (remove_player ''player2'' (node_world example_peer)))"
    by (simp add: remove_player_eq)
  ultimately have "world_good (respawn_timers_update (\<lambda>_. [(''player2'', 3)])
      (remove_player ''player2'' (node_world example_peer)))"
    by (simp add: world_good_def world_wf_def named_world_def)
  then show ?thesis
    unfolding example_dead_def by (intro on_world_wf [OF example_peer_wf]) simp_all
qed

theorem evicted_dead_player_returns_witness:
  "get_player ''player2'' (world_state (process_respawns 5 (node_engine (evict_player ''player2'' example_dead)))) \<noteq> None \<and>
    roster_get ''player2'' (n_roster (evict_player ''player2'' example_dead)) = None"
  by (rule evicted_dead_player_returns [OF example_dead_wf, where t = 3])
    (simp_all add: example_dead_def example_peer_def example_agents_def on_world_def example_engine_playing)

subsection \<open>Promotion\<close>

lemma evict_crashed_host_frame [simp]:
  "n_local_player_id (evict_crashed_host n) = n_local_player_id n"
  "n_local_ip (evict_crashed_host n) = n_local_ip n"
  "n_session_id (evict_crashed_host n) = n_session_id n"
  "n_promotion_done (evict_crashed_host n) = n_promotion_done n"
  "n_roster (evict_crashed_host n) = (case roster_host (n_roster n) of None \<Rightarrow> n_roster n
     | Some h \<Rightarrow> roster_remove (entry_player_id h) (n_roster n))"
  "node_engine (evict_crashed_host n) = (case roster_host (n_roster n) of None \<Rightarrow> node_engine n
     | Some h \<Rightarrow> world_state_update (remove_player (entry_player_id h)) (node_engine n))"
  by (simp_all add: evict_crashed_host_def split: option.split)

lemma restore_last_snapshot_frame [simp]:
  "n_local_player_id (restore_last_snapshot n) = n_local_player_id n"
  "n_local_ip (restore_last_snapshot n) = n_local_ip n"
  "n_session_id (restore_last_snapshot n) = n_session_id n"
  "n_promotion_done (restore_last_snapshot n) = n_promotion_done n"
  "n_roster (restore_last_snapshot n) = n_roster n"
  "node_engine (restore_last_snapshot n) = (case Option.bind (n_env_buffer n) env_buffer_get_last of
       None \<Rightarrow> node_engine n | Some s \<Rightarrow> (node_engine n)\<lparr>world_state := snapshot_world s\<rparr>)"
  by (simp_all add: restore_last_snapshot_def bootstrap_from_snapshot_def on_world_def on_engine_def
      split: option.split Option.bind_split)

text \<open>The world a node takes over: that of the last snapshot it applied, if any.\<close>

definition restored_world :: "node \<Rightarrow> world_state" where
  "restored_world n = (case Option.bind (n_env_buffer n) env_buffer_get_last of
       None \<Rightarrow> node_world n | Some s \<Rightarrow> snapshot_world s)"

definition without_host :: "node \<Rightarrow> roster" where
  "without_host n = (case roster_host (n_roster n) of None \<Rightarrow> n_roster n
     | Some h \<Rightarrow> roster_remove (entry_player_id h) (n_roster n))"

definition promoted :: "flt \<Rightarrow> node \<Rightarrow> node \<Rightarrow> bool" where
  "promoted now n n' \<longleftrightarrow>
     n_role n' = HOST \<and> n_promotion_done n' \<and> is_authoritative (node_engine n') \<and>
     node_world n' = (case roster_host (n_roster n) of None \<Rightarrow> restored_world n
       | Some h \<Rightarrow> remove_player (entry_player_id h) (restored_world n)) \<and>
     n_roster n' = promote_host (n_local_player_id n) (without_host n) \<and>
     (\<forall>e \<in> set (without_host n). entry_player_id e \<noteq> n_local_player_id n \<longrightarrow>
        map_of (n_last_input_time n') (entry_player_id e) = Some now \<and>
        Send_Udp (ReconnectionAck (n_local_ip n) HOST_UDP_PORT GAME_EVENT_WS_PORT (n_session_id n))
          (entry_host e) (entry_udp_port e) \<in> set (n_out n'))"

lemma map_of_fold_update:
  "map_of (fold (\<lambda>e. AList.update (f e) v) es d) k = (if k \<in> f ` set es then Some v else map_of d k)"
  by (induction es arbitrary: d) (auto simp: AList.update_conv')

lemma send_to_all:
  "send_election_message_udp m None n = fold (\<lambda>e. emit (Send_Udp m (entry_host e) (entry_udp_port e))) (other_entries n) n"
  by (simp add: send_election_message_udp_def)

lemma emit_frame [simp]:
  "n_agents (emit x n) = n_agents n" "n_roster (emit x n) = n_roster n"
  "n_local_player_id (emit x n) = n_local_player_id n" "n_promotion_done (emit x n) = n_promotion_done n"
  "n_out (emit x n) = n_out n @ [x]" "n_last_input_time (emit x n) = n_last_input_time n"
  "n_local_ip (emit x n) = n_local_ip n" "n_session_id (emit x n) = n_session_id n"
  by (simp_all add: emit_def)

lemma other_entries_emit [simp]: "other_entries (emit x n) = other_entries n"
  by (simp add: other_entries_def)

lemma announced:
  assumes "n_local_ip n \<noteq> []" and "n_session_id n \<noteq> []"
  shows "\<exists>out. announce_promotion n = Inr (n\<lparr>n_out := n_out n @ out\<rparr>) \<and>
    (\<forall>e \<in> set (other_entries n).
       Send_Udp (ReconnectionAck (n_local_ip n) HOST_UDP_PORT GAME_EVENT_WS_PORT (n_session_id n))
         (entry_host e) (entry_udp_port e) \<in> set out)"
proof (cases "other_entries n = []")
  case True
  then show ?thesis by (auto simp: announce_promotion_def intro: exI [of _ "[]"])
next
  case False
  let ?m = "ReconnectionAck (n_local_ip n) HOST_UDP_PORT GAME_EVENT_WS_PORT (n_session_id n)"
  let ?f = "\<lambda>e. Send_Udp ?m (entry_host e) (entry_udp_port e)"
  have *: "fold (\<lambda>e. emit (?f e)) es n = n\<lparr>n_out := n_out n @ map ?f es\<rparr>" for es n
    by (induction es arbitrary: n) (simp_all add: emit_def)
  have "announce_promotion n = Inr (n\<lparr>n_out := n_out n @ Send_Broker ?m # map ?f (other_entries n)\<rparr>)"
    using False assms by (simp add: announce_promotion_def valid_ReconnectionAck send_to_all *)
      (simp add: emit_def)
  then show ?thesis by (intro exI [of _ "Send_Broker ?m # map ?f (other_entries n)"]) simp
qed

lemma promote_to_host_result:
  assumes "node_wf True n" and "\<not> n_promotion_done n"
  shows "\<exists>n'. promote_to_host now n = Inr n' \<and> promoted now n n'"
proof -
  define n1 where "n1 = on_engine (\<lambda>e. e\<lparr>is_authoritative := True\<rparr>) (n\<lparr>n_promotion_done := True\<rparr>)"
  define n3 where "n3 = evict_crashed_host (restore_last_snapshot n1)"
  define n5 where "n5 = emit (Bind_Udp HOST_UDP_PORT) (n3\<lparr>n_roster := promote_host (n_local_player_id n3) (n_roster n3)\<rparr>)"
  have n1: "n_env_buffer n1 = n_env_buffer n" "n_roster n1 = n_roster n" "n_local_player_id n1 = n_local_player_id n"
      "n_local_ip n1 = n_local_ip n" "n_session_id n1 = n_session_id n" "n_promotion_done n1"
      "node_engine n1 = (node_engine n)\<lparr>is_authoritative := True\<rparr>"
    by (simp_all add: n1_def on_engine_def)
  have n5: "n_roster n5 = promote_host (n_local_player_id n) (without_host n)"
      "n_local_player_id n5 = n_local_player_id n" "n_local_ip n5 = n_local_ip n"
      "n_session_id n5 = n_session_id n" "n_promotion_done n5"
    by (simp_all add: n5_def n3_def n1 without_host_def split: option.split)
  have w5: "node_world n5 = (case roster_host (n_roster n) of None \<Rightarrow> restored_world n
       | Some h \<Rightarrow> remove_player (entry_player_id h) (restored_world n))"
      "is_authoritative (node_engine n5)"
    by (simp_all add: n5_def n3_def n1 restored_world_def split: option.split Option.bind_split)
  obtain out where out: "announce_promotion n5 = Inr (n5\<lparr>n_out := n_out n5 @ out\<rparr>)"
    "\<forall>e \<in> set (other_entries n5). Send_Udp (ReconnectionAck (n_local_ip n) HOST_UDP_PORT GAME_EVENT_WS_PORT (n_session_id n))
         (entry_host e) (entry_udp_port e) \<in> set out"
    using announced [of n5] node_wfD(3) [OF assms(1)] by (auto simp: n5 identity_wf_def)
  let ?n6 = "emit (Broker_Promote GAME_EVENT_WS_PORT) (n5\<lparr>n_out := n_out n5 @ out\<rparr>)"
  let ?n' = "emit Start_Relaunch (finish_promotion now ?n6)"
  have "promote_to_host now n = Inr ?n'"
    using assms(2) out(1) by (simp add: promote_to_host_def Let_def n5_def n3_def n1_def)
  moreover have "promoted now n ?n'"
  proof -
    have mem: "e\<lparr>entry_is_host := False\<rparr> \<in> set (other_entries n5)"
      if "e \<in> set (without_host n)" "entry_player_id e \<noteq> n_local_player_id n" for e
      using that by (auto simp: other_entries_set n5 promote_host_def intro!: image_eqI [of _ _ e])
    have others: "other_entries (n5\<lparr>n_out := out'\<rparr>) = other_entries n5" for out'
      by (simp add: other_entries_def)
    have "map_of (n_last_input_time ?n') (entry_player_id e) = Some now"
      if "e \<in> set (without_host n)" "entry_player_id e \<noteq> n_local_player_id n" for e
    proof -
      have "entry_player_id e \<in> entry_player_id ` set (other_entries n5)"
        using imageI [OF mem [OF that], of entry_player_id] by simp
      then show ?thesis by (simp add: finish_promotion_def map_of_fold_update others)
    qed
    moreover have "Send_Udp (ReconnectionAck (n_local_ip n) HOST_UDP_PORT GAME_EVENT_WS_PORT (n_session_id n))
          (entry_host e) (entry_udp_port e) \<in> set (n_out ?n')"
      if "e \<in> set (without_host n)" "entry_player_id e \<noteq> n_local_player_id n" for e
      using bspec [OF out(2) mem [OF that]] by (simp add: finish_promotion_def)
    ultimately show ?thesis
      using n5 w5 by (simp add: promoted_def finish_promotion_def)
  qed
  ultimately show ?thesis by blast
qed

text \<open>C15: a promotion makes the node the authority and the only host of the roster, without the
  crashed one; it resumes from the last snapshot it applied, gives every survivor a fresh input
  deadline and tells it where to reconnect; asking for it again changes nothing.\<close>

theorem promotion_takes_over:
  assumes "node_wf True n" and "\<not> n_promotion_done n"
  shows "\<exists>n'. promote_to_host now n = Inr n' \<and> node_wf True n' \<and> promoted now n n' \<and>
    (\<forall>e \<in> set (n_roster n'). entry_is_host e \<longleftrightarrow> entry_player_id e = n_local_player_id n) \<and>
    promote_to_host later n' = Inr n'"
proof -
  obtain n' where n': "promote_to_host now n = Inr n'" "promoted now n n'"
    using promote_to_host_result [OF assms] by blast
  moreover have "node_wf True n'"
    using promote_to_host_returns [OF assms(1), of now] n'(1) by simp
  moreover have "\<forall>e \<in> set (n_roster n'). entry_is_host e \<longleftrightarrow> entry_player_id e = n_local_player_id n"
    using n'(2) promote_host_only by (auto simp: promoted_def)
  moreover have "promote_to_host later n' = Inr n'"
    using n'(2) by (simp add: promote_to_host_def promoted_def)
  ultimately show ?thesis by blast
qed

theorem promotion_takes_over_witness:
  "\<exists>n'. promote_to_host 7 example_peer = Inr n' \<and> n_role n' = HOST \<and>
     map_of (n_last_input_time n') ''player3'' = Some 7"
proof -
  have "\<not> n_promotion_done example_peer" by (simp add: example_peer_def)
  from promotion_takes_over [OF example_peer_wf this, of 7 8] obtain n'
    where n': "promote_to_host 7 example_peer = Inr n'" "promoted 7 example_peer n'" by blast
  then have "\<forall>e \<in> set (without_host example_peer). entry_player_id e \<noteq> ''player2'' \<longrightarrow>
      map_of (n_last_input_time n') (entry_player_id e) = Some 7"
    by (simp add: promoted_def example_peer_def)
  moreover have "example_entry ''player3'' 2 False ''10.0.0.3'' \<in> set (without_host example_peer)"
    by (simp add: without_host_def example_peer_def roster_host_def example_entry_def roster_remove_def)
  ultimately have "map_of (n_last_input_time n') ''player3'' = Some 7"
    by (force simp: example_entry_def)
  with n' show ?thesis by (auto simp: promoted_def)
qed

subsection \<open>Claims\<close>

lemma acks_after_promotion: "n_promotion_done n \<Longrightarrow> fold_res (on_election_ack now) ips n = Inr n"
  by (induction ips) (simp_all add: on_election_ack_def)


definition example_claimant :: node where
  "example_claimant = example_peer\<lparr>n_pending_acks := {|''10.0.0.3''|}, n_claim_deadline := 2,
     n_election_triggered := True\<rparr>"

lemma example_claimant_wf: "node_wf True example_claimant"
  using example_peer_wf by (simp add: example_claimant_def)


lemma promoted_role: "promoted now n n' \<Longrightarrow> n_role n' = HOST \<and> is_authoritative (node_engine n')"
  by (simp add: promoted_def)

lemma evict_silent_peers_frame:
  "node_wf True n \<Longrightarrow> node_wf True (fold evict_silent_peer ips n) \<and>
     n_promotion_done (fold evict_silent_peer ips n) = n_promotion_done n"
  by (rule fold_inv [where P = "\<lambda>m. node_wf True m \<and> n_promotion_done m = n_promotion_done n"])
    (auto intro: evict_silent_peer_wf simp: evict_silent_peer_def evict_player_wf split: option.split)

lemma no_fallback:
  "\<exists>n'. tick_reconnection_fallback now None n = Inr n' \<and> n_role n' = n_role n \<and>
     node_engine n' = node_engine n"
  by (simp add: tick_reconnection_fallback_def Let_def split: option.split)

text \<open>C37: a claimant that yields to a better claim, acknowledges it and follows that node, is made
  host all the same when the deadline of its own abandoned claim passes, because the claim's
  pending acknowledgements are not cleared: the session then has two hosts.\<close>

theorem follower_still_promotes:
  assumes "node_wf True n" and "n_coordinator n = Some c" and "n_watcher n = Some w"
    and "n_election_triggered n" and "n_verify_deadline n = 0" and "\<not> n_promotion_done n"
    and "n_pending_acks n \<noteq> {||}" and "n_claim_deadline n \<noteq> 0" and "n_claim_deadline n \<le> later"
    and "claimer < coord_join_index c" and "claimer \<noteq> n_join_index n"
  shows "\<exists>n1 n2. on_new_host_claim_node now claimer ip n = Inr n1 \<and>
    n_following_ip n1 = Some ip \<and> map_option election_state (n_coordinator n1) = Some FOLLOWER \<and>
    tick_election_state later None n1 = Inr n2 \<and> n_role n2 = HOST \<and> is_authoritative (node_engine n2)"
proof -
  define c1 where "c1 = c\<lparr>election_state := FOLLOWER, current_host_ip := Some ip,
      current_host_join_index := Some claimer, election_timer_expiry := None\<rparr>"
  have claim: "on_new_host_claim claimer ip c = (Some (FollowingHost ip claimer), c1)"
    using assms(10) by (simp add: on_new_host_claim_def c1_def)
  have valid: "valid_message (ElectionAck (n_local_ip n) (n_session_id n))"
    using node_wfD(3) [OF assms(1)] by (simp add: message_checks identity_wf_def)
  define m where "m = n\<lparr>n_coordinator := Some c1, n_following_ip := Some ip, n_following_since := now\<rparr>"
  have sent: "\<exists>out. send_election_message_udp msg hosts k = k\<lparr>n_out := n_out k @ out\<rparr>" for msg hosts k
    unfolding send_election_message_udp_def
    by (rule fold_inv [where P = "\<lambda>x. \<exists>out. x = k\<lparr>n_out := n_out k @ out\<rparr>"])
      (auto simp: emit_def intro: exI [of _ "[]"] split: option.split)
  obtain out where n1: "on_new_host_claim_node now claimer ip n = Inr (m\<lparr>n_out := n_out m @ out\<rparr>)"
    using assms(2,11) valid sent [of "ElectionAck (n_local_ip n) (n_session_id n)" "Some {|ip|}"
        "emit (Send_Broker (ElectionAck (n_local_ip n) (n_session_id n))) m"]
    by (auto simp: on_new_host_claim_node_def claim m_def emit_def)
  let ?n1 = "m\<lparr>n_out := n_out m @ out\<rparr>"
  have wf: "node_wf True ?n1"
    using on_new_host_claim_returns [OF assms(1), of now claimer ip] by (simp add: n1)
  have same: "?n1\<lparr>n_coordinator := Some c1\<rparr> = ?n1" by (simp add: m_def)
  have "coordinator_tick later c1 = Inr (None, c1)"
    by (simp add: coordinator_tick_def c1_def)
  then have elect: "elect later c1 ?n1 = Inr ?n1"
    by (simp only: elect_def rbind_simps prod.case option.case Let_def same)
  let ?m = "fold evict_silent_peer (sorted_list_of_fset (n_pending_acks ?n1)) ?n1\<lparr>n_pending_acks := {||}\<rparr>"
  have "node_wf True ?m" "\<not> n_promotion_done ?m"
    using evict_silent_peers_frame [OF wf] assms(6) by (simp_all add: m_def)
  from promote_to_host_result [OF this, of later]
  obtain n3 where n3: "promote_to_host later ?m = Inr n3" "promoted later ?m n3" by blast
  have deadline: "tick_claim_deadline later ?n1 = Inr n3"
    using assms(6-9) n3(1) by (simp add: tick_claim_deadline_def Let_def m_def)
  obtain n2 where n2: "tick_reconnection_fallback later None n3 = Inr n2" "n_role n2 = n_role n3"
      "node_engine n2 = node_engine n3"
    using no_fallback by blast
  have "tick_election_state later None ?n1 = Inr n2"
    using assms(3-5) elect deadline n2(1)
    by (simp add: tick_election_state_def m_def)
  then show ?thesis
    using n1 n2 promoted_role [OF n3(2)] by (auto simp: m_def c1_def)
qed

definition example_coordinator :: coordinator where
  "example_coordinator = (new_coordinator 1 ''10.0.0.2'' T_ELECTION_BASE_S T_ELECTION_DELTA_S)\<lparr>election_state := CLAIMED\<rparr>"

theorem follower_still_promotes_witness:
  "\<exists>n1 n2. on_new_host_claim_node 1 0 ''10.0.0.9'' (example_claimant\<lparr>n_coordinator := Some example_coordinator\<rparr>) = Inr n1 \<and>
     tick_election_state 3 None n1 = Inr n2 \<and> n_following_ip n1 = Some ''10.0.0.9'' \<and> n_role n2 = HOST"
proof -
  let ?n = "example_claimant\<lparr>n_coordinator := Some example_coordinator\<rparr>"
  have "node_wf True ?n"
    by (rule coordinator_update_wf [OF example_claimant_wf])
      (simp add: coordinator_wf_def example_coordinator_def)
  from follower_still_promotes [OF this, of example_coordinator "new_watcher HOST_TIMEOUT_S" 3 0 1 "''10.0.0.9''"]
  show ?thesis
    by (simp add: example_claimant_def example_peer_def example_coordinator_def new_coordinator_def) blast
qed

end
