(* ===== verification/Node_Limits.thy ===== *)
theory Node_Limits
  imports Node_Props
begin

text \<open>
  Limits of the client: how far a drawn correction and the prediction lead can move in one frame,
  and the host it is bound to once it has been reconnected.
\<close>

subsection \<open>Smoothing of corrections\<close>

lemma glide_step_abs:
  "\<bar>glide_step x\<bar> = min 8 (\<bar>x\<bar> * (3 / 10))" "0 \<le> x * glide_step x"
  "\<bar>x - glide_step x\<bar> = max (\<bar>x\<bar> - 8) (\<bar>x\<bar> * (7 / 10))" "0 \<le> x * (x - glide_step x)"
  by (auto simp: glide_step_def RECONCILE_MAX_GLIDE_PX_def RECONCILE_GLIDE_RATE_def abs_if min_def max_def
      zero_le_mult_iff split: if_splits)



subsection \<open>The prediction lead\<close>

text \<open>A loop each of whose rounds succeeds and raises a counter by one.\<close>

lemma fold_res_count:
  fixes count :: "'s \<Rightarrow> int"
  assumes "P s" and "\<And>a t. a \<in> set as \<Longrightarrow> P t \<Longrightarrow> \<exists>t'. f a t = Inr t' \<and> P t' \<and> count t' = count t + 1"
  shows "\<exists>s'. fold_res f as s = Inr s' \<and> P s' \<and> count s' = count s + int (length as)"
  using assms
proof (induction as arbitrary: s)
  case Nil
  then show ?case by simp
next
  case (Cons a as)
  obtain t where t: "f a s = Inr t" "P t" "count t = count s + 1"
    using Cons.prems by (meson list.set_intros(1))
  moreover have "\<exists>s'. fold_res f as t = Inr s' \<and> P s' \<and> count s' = count t + int (length as)"
    using Cons.IH [OF t(2)] Cons.prems(2) by (meson list.set_intros(2))
  ultimately show ?case by auto
qed

lemma predicted_tick:
  assumes "node_wf b n"
  shows "\<exists>m. engine_tick clk dt [(pid, inp)] None (node_predict rd inp dt n) = Inr m \<and> node_wf b m \<and>
    n_tick_adjustment m = n_tick_adjustment n \<and>
    engine_seq (node_engine m) = engine_seq (node_engine n) + 1"
proof -
  let ?n = "node_predict rd inp dt n"
  have wf: "node_wf b ?n" using assms by simp
  have same: "node_engine ?n = node_engine n" "n_tick_adjustment ?n = n_tick_adjustment n"
    by (simp_all add: node_predict_def split: node_predictor.split)
  obtain m where m: "engine_tick clk dt [(pid, inp)] None ?n = Inr m" "node_wf b m"
    using engine_tick_returns [OF wf, of None clk dt "[(pid, inp)]"] by (auto simp: returns_def valid_commands_def)
  obtain e where e: "tick clk dt [(pid, inp)] None (node_engine n) = Inr e" "m = on_engine (\<lambda>_. e) ?n"
    using m(1) by (auto simp: engine_tick_def rbind_Inr_iff same)
  have "engine_seq e = engine_seq (node_engine n) + 1"
    using tick_engine_returns [OF node_wfD(8) [OF assms], of None clk dt "[(pid, inp)]"] e(1)
    by (simp add: returns_def valid_commands_def)
  with m e(2) same show ?thesis
    by (simp add: on_engine_def)
qed

text \<open>The client's clock is steered one tick at a time: a frame predicts one tick plus the
  adjustment decided by the previous frame, so none, one or two, whatever the network does; the
  adjustment is used once, and the next one drops a tick only when more inputs are pending than the
  calibrated lead tolerates, adds one only when fewer are, and moves the lead only while
  calibrating.\<close>

theorem lead_is_steered_by_single_ticks:
  assumes "node_wf True n"
  shows "\<exists>m. run_predicted_ticks rds inp n = Inr m \<and>
    engine_seq (node_engine m) = engine_seq (node_engine n) + 1 + n_tick_adjustment n \<and>
    engine_seq (node_engine m) - engine_seq (node_engine n) \<in> {0, 1, 2} \<and> n_tick_adjustment m = 0 \<and>
    (let n' = adjust_prediction_lead m; lag = of_int (node_pending m) - n_lead_baseline m in
       n_tick_adjustment n' = (if lag > 3 then - 1 else if lag < - 3 then 1 else 0) \<and>
       (n_lead_baseline n' \<noteq> n_lead_baseline m \<longrightarrow> \<bar>lag\<bar> \<le> 3 \<and> n_calibration_remaining m > 0 \<and>
          \<bar>n_lead_baseline n' - n_lead_baseline m\<bar> = \<bar>lag\<bar> / 100))"
proof -
  let ?n = "n\<lparr>n_tick_adjustment := 0\<rparr>"
  have adj: "n_tick_adjustment n \<in> {- 1, 0, 1}"
    using node_wfD(7) [OF assms] by (auto simp: abs_le_iff)
  have wf: "node_wf True ?n" using assms by (simp add: node_wf_defs)
  let ?tick = "\<lambda>i n. engine_tick (rd_ticks (rds i) 0) TICK_INTERVAL [(n_local_player_id n, inp)] None
      (node_predict (rds i) inp TICK_INTERVAL n)"
  let ?P = "\<lambda>m. node_wf True m \<and> n_tick_adjustment m = 0"
  have "\<exists>t'. ?tick a t = Inr t' \<and> ?P t' \<and> engine_seq (node_engine t') = engine_seq (node_engine t) + 1"
    if "?P t" for a t
    using predicted_tick [of True t] that by metis
  then have "\<exists>m. fold_res ?tick [0..<nat (1 + n_tick_adjustment n)] ?n = Inr m \<and> ?P m \<and>
      engine_seq (node_engine m) = engine_seq (node_engine ?n) + int (length [0..<nat (1 + n_tick_adjustment n)])"
    by (intro fold_res_count) (use wf in simp_all)
  then obtain m where "run_predicted_ticks rds inp n = Inr m" "n_tick_adjustment m = 0"
      "engine_seq (node_engine m) = engine_seq (node_engine n) + int (length [0..<nat (1 + n_tick_adjustment n)])"
    by (auto simp: run_predicted_ticks_def Let_def)
  then show ?thesis
    using adj by (auto simp: adjust_prediction_lead_def Let_def PREDICTION_LEAD_DRIFT_TOLERANCE_def
        PREDICTION_LEAD_EWMA_ALPHA_def abs_mult)
qed

theorem lead_is_steered_by_single_ticks_witness:
  "\<exists>m. run_predicted_ticks (\<lambda>_. example_reading) no_input (example_peer\<lparr>n_tick_adjustment := 1\<rparr>) = Inr m \<and>
     engine_seq (node_engine m) = 2 \<and> n_tick_adjustment m = 0"
proof -
  have "node_wf True (example_peer\<lparr>n_tick_adjustment := 1\<rparr>)"
    using example_peer_wf by (simp add: node_wf_defs)
  from lead_is_steered_by_single_ticks [OF this, of "\<lambda>_. example_reading" no_input] show ?thesis
    by (auto simp: example_peer_def example_agents_def example_defs engine_seq_def)
qed

subsection \<open>A second failure\<close>

text \<open>The binding of a client to the host it was reconnected to.\<close>

definition bound_to :: "string \<Rightarrow> node \<Rightarrow> bool" where
  "bound_to h n \<longleftrightarrow> n_reconnected n \<and> n_remote_host n = h"

lemma bound_to_free [simp]:
  "bound_to h (n\<lparr>n_agents := a\<rparr>) = bound_to h n" "bound_to h (n\<lparr>n_roster := r\<rparr>) = bound_to h n"
  "bound_to h (n\<lparr>n_out := xs\<rparr>) = bound_to h n" "bound_to h (n\<lparr>n_coordinator := c\<rparr>) = bound_to h n"
  "bound_to h (n\<lparr>n_pending_acks := s\<rparr>) = bound_to h n" "bound_to h (n\<lparr>n_prediction := p\<rparr>) = bound_to h n"
  "bound_to h (n\<lparr>n_shadow_copies := d\<rparr>) = bound_to h n" "bound_to h (n\<lparr>n_watcher := w\<rparr>) = bound_to h n"
  "bound_to h (n\<lparr>n_last_snapshot_sequence := i\<rparr>) = bound_to h n"
  "bound_to h (n\<lparr>n_verify_deadline := t\<rparr>) = bound_to h n"
  "bound_to h (n\<lparr>n_following_ip := ip\<rparr>) = bound_to h n" "bound_to h (n\<lparr>n_following_since := t\<rparr>) = bound_to h n"
  "bound_to h (n\<lparr>n_role := x\<rparr>) = bound_to h n" "bound_to h (n\<lparr>n_last_input_time := d'\<rparr>) = bound_to h n"
  "bound_to h (n\<lparr>n_promotion_done := b\<rparr>) = bound_to h n" "bound_to h (n\<lparr>n_claim_deadline := t\<rparr>) = bound_to h n"
  "bound_to h (n\<lparr>n_rejoin_states := rs\<rparr>) = bound_to h n" "bound_to h (n\<lparr>n_election_triggered := b\<rparr>) = bound_to h n"
  "bound_to h (n\<lparr>n_received_snapshots := i\<rparr>) = bound_to h n" "bound_to h (n\<lparr>n_env_buffer := eb\<rparr>) = bound_to h n"
  "bound_to h (n\<lparr>n_input_sequence := i\<rparr>) = bound_to h n" "bound_to h (n\<lparr>n_sent_input_packets := i\<rparr>) = bound_to h n"
  "bound_to h (n\<lparr>n_tick_adjustment := i\<rparr>) = bound_to h n"
  "bound_to h (n\<lparr>n_cached_remote_inputs := ci\<rparr>) = bound_to h n"
  "bound_to h (n\<lparr>n_last_remote_input_sequence := li\<rparr>) = bound_to h n"
  by (simp_all add: bound_to_def)

lemma bound_to_ops [simp]:
  "bound_to h (on_engine f n) = bound_to h n" "bound_to h (on_world g n) = bound_to h n"
  "bound_to h (emit x n) = bound_to h n"
  "bound_to h (ensure_election_components n) = bound_to h n"
  "bound_to h (record_client_frame_interval t n) = bound_to h n"
  "bound_to h (node_predict rd inp dt n) = bound_to h n"
  "bound_to h (adjust_prediction_lead n) = bound_to h n"
  "bound_to h (on_host_identity_response t sid n) = bound_to h n"
  "bound_to h (snd (smoothed_local_visual_state pre n)) = bound_to h n"
  by (auto simp: bound_to_def on_engine_def on_world_def emit_def ensure_election_components_def
      record_client_frame_interval_def node_predict_def adjust_prediction_lead_def
      on_host_identity_response_def smoothed_local_visual_state_def Let_def
      split: option.split node_predictor.split prod.split)

lemma bound_to_evict [simp]: "bound_to h (evict_player pid n) = bound_to h n"
  by (simp add: evict_player_def Let_def split: option.split)

lemma bound_to_evictions [simp]:
  "bound_to h (evict_silent_peer ip n) = bound_to h n" "bound_to h (evict_crashed_host n) = bound_to h n"
  "bound_to h (restore_last_snapshot n) = bound_to h n"
  by (simp_all add: evict_silent_peer_def evict_crashed_host_def restore_last_snapshot_def
      bootstrap_from_snapshot_def split: option.split)

lemma bound_to_send [simp]: "bound_to h (send_election_message_udp m hosts n) = bound_to h n"
  unfolding send_election_message_udp_def
  by (rule fold_inv [where P = "\<lambda>x. bound_to h x = bound_to h n"]) (simp_all split: option.split)

lemma bound_to_folds [simp]:
  "bound_to h (fold evict_silent_peer ips n) = bound_to h n"
  "bound_to h (drain_lobby_messages msgs n) = bound_to h n"
  "bound_to h (update_shadow_copies now s n) = bound_to h n"
  unfolding drain_lobby_messages_def update_shadow_copies_def
  by (rule fold_inv [where P = "\<lambda>x. bound_to h x = bound_to h n"];
      simp add: apply_lobby_message_def Let_def split: message.split prod.split)+

text \<open>The handlers that may raise keep the binding when they return.\<close>

lemma promote_keeps_binding: "promote_to_host now n = Inr n' \<Longrightarrow> bound_to h n' = bound_to h n"
  by (auto simp: promote_to_host_def announce_promotion_def finish_promotion_def rbind_Inr_iff
      with_message_Inr Let_def split: if_splits)

lemma claim_keeps_binding: "on_new_host_claim_node now j ip n = Inr n' \<Longrightarrow> bound_to h n' = bound_to h n"
  by (auto simp: on_new_host_claim_node_def with_message_Inr Let_def
      split: if_splits option.splits prod.splits election_event.splits)

lemma ack_keeps_binding: "on_election_ack now ip n = Inr n' \<Longrightarrow> bound_to h n' = bound_to h n"
  using promote_keeps_binding by (fastforce simp: on_election_ack_def Let_def split: if_splits)

lemma reconnection_keeps_binding: "bound_to h n \<Longrightarrow> on_reconnection_ack ip p g n = n"
  by (simp add: on_reconnection_ack_def bound_to_def)

lemma event_keeps_binding:
  assumes "bound_to h n" and "apply_game_event (rd, msg) n = Inr n'"
  shows "bound_to h n'"
proof (cases msg)
  case (RosterUpdate r)
  have "bound_to h n'"
    using assms(2)
    unfolding RosterUpdate apply_game_event_def merge_roster_def Let_def prod.case message.case
    by (rule fold_res_inv [where P = "bound_to h"])
      (use assms(1) in \<open>auto simp: rbind_Inr_iff split: if_splits\<close>)
  then show ?thesis .
qed (use assms claim_keeps_binding ack_keeps_binding reconnection_keeps_binding in
    \<open>auto simp: apply_game_event_def split: if_splits\<close>)

lemma reconcile_keeps_binding: "node_reconcile clks s n = Inr n' \<Longrightarrow> bound_to h n' = bound_to h n"
  by (auto simp: node_reconcile_def rbind_Inr_iff split: node_predictor.splits)

lemma snapshot_keeps_binding: "apply_snapshot now rd s n = Inr n' \<Longrightarrow> bound_to h n' = bound_to h n"
  by (auto simp: apply_snapshot_def rbind_Inr_iff Let_def dest: reconcile_keeps_binding [where h = h]
      split: if_splits)

lemma packet_keeps_binding:
  assumes "bound_to h n" and "apply_packet now pk n = Inr n'"
  shows "bound_to h n'"
proof -
  obtain rd msg addr where pk: "pk = (rd, Inr msg, addr)"
    using assms(2) by (cases pk; cases "fst (snd pk)") (auto simp: apply_packet_def)
  show ?thesis
    using assms unfolding pk
    by (cases msg) (auto simp: apply_packet_def reconnection_keeps_binding
        dest: claim_keeps_binding ack_keeps_binding snapshot_keeps_binding)
qed

lemma probe_keeps_binding:
  "send_host_verify_probe now n = Inr n' \<Longrightarrow> bound_to h n' = bound_to h n"
  "tick_host_verify now w c n = Inr n' \<Longrightarrow> bound_to h n' = bound_to h n"
  by (auto simp: send_host_verify_probe_def resend_host_verify_probe_def tick_host_verify_def with_message_Inr
      bound_to_def emit_def split: if_splits)

lemma elect_keeps_binding:
  assumes "elect now c n = Inr n'"
  shows "bound_to h n' = bound_to h n"
proof -
  obtain event c' where tick: "coordinator_tick now c = Inr (event, c')"
    using assms by (auto simp: elect_def rbind_Inr_iff)
  have elected: "on_self_elected now m = Inr m' \<Longrightarrow> bound_to h m' = bound_to h m" for m m'
    using promote_keeps_binding by (auto simp: on_self_elected_def with_message_Inr Let_def split: if_splits)
  show ?thesis
  proof (cases event)
    case None
    then show ?thesis using assms by (auto simp: elect_def tick)
  next
    case (Some ev)
    then show ?thesis
      using assms elected by (cases ev) (fastforce simp: elect_def tick)+
  qed
qed

lemma deadline_keeps_binding: "tick_claim_deadline now n = Inr n' \<Longrightarrow> bound_to h n' = bound_to h n"
  by (auto simp: tick_claim_deadline_def Let_def dest!: promote_keeps_binding [where h = h] split: if_splits)

lemma fallback_keeps_binding:
  "bound_to h n \<Longrightarrow> tick_reconnection_fallback now found n = Inr n' \<Longrightarrow> bound_to h n'"
  by (auto simp: tick_reconnection_fallback_def bound_to_def split: option.splits)

lemma election_keeps_binding:
  assumes "bound_to h n" and "tick_election_state now found n = Inr n'"
  shows "bound_to h n'"
proof (cases "n_coordinator n = None \<or> n_watcher n = None")
  case True
  then show ?thesis
    using assms by (auto simp: tick_election_state_def split: option.splits)
next
  case False
  then obtain c w where cw: "n_coordinator n = Some c" "n_watcher n = Some w" by auto
  obtain n1 where n1: "bound_to h n1" "(if \<not> n_election_triggered n1 then Inr n1
          else case n_coordinator n1 of
            None \<Rightarrow> Inr n1
          | Some c1 \<Rightarrow>
              rbind (elect now c1 n1) (\<lambda>n2.
              rbind (tick_claim_deadline now n2) (\<lambda>n3.
              tick_reconnection_fallback now found n3))) = Inr n'"
    using assms probe_keeps_binding
    by (fastforce simp: tick_election_state_def cw rbind_Inr_iff split: if_splits)
  then show ?thesis
    by (auto simp: rbind_Inr_iff split: if_splits option.splits
        dest: elect_keeps_binding [where h = h] deadline_keeps_binding [where h = h] fallback_keeps_binding)
qed

text \<open>C38: a client that has once been reconnected to a new host stays bound to it whatever arrives: no
  later claim, acknowledgement, game event or fallback re-points it, in this frame or any later one,
  so when the second host fails too the client keeps sending its input to a dead address.\<close>

theorem second_migration_is_ignored:
  assumes "n_reconnected n" and "process_client_frame io inp n = Inr (w, n')"
  shows "n_reconnected n' \<and> n_remote_host n' = n_remote_host n"
proof -
  let ?h = "n_remote_host n"
  have start: "bound_to ?h n" using assms(1) by (simp add: bound_to_def)
  obtain n3 n4 n6 n7 n8 pre where steps:
      "send_input_packet inp (drain_lobby_messages (io_lobby io)
         (record_client_frame_interval (io_frame_at io) (ensure_election_components n))) = Inr n3"
      "run_predicted_ticks (io_predictions io) inp n3 = Inr n4"
      "drain_snapshot_packets (io_drain_at io) (io_packets io) (on_engine (\<lambda>e. e\<lparr>events := []\<rparr>) n4) = Inr n6"
      "drain_game_events (io_events io) n6 = Inr n7"
      "tick_election_state (io_election_at io) (io_probe io) n7 = Inr n8"
      "n' = snd (smoothed_local_visual_state pre (adjust_prediction_lead n8))"
    using assms(2)
    by (auto simp: process_client_frame_def Let_def rbind_Inr_iff case_prod_beta)
  have "bound_to ?h n3"
    using steps(1) start by (auto simp: send_input_packet_def with_message_Inr Let_def)
  then have "bound_to ?h n4"
    using steps(2) unfolding run_predicted_ticks_def Let_def
    by (elim fold_res_inv [where P = "bound_to ?h"]) (auto simp: engine_tick_def rbind_Inr_iff)
  then have "bound_to ?h n6"
    using steps(3) unfolding drain_snapshot_packets_def
    by (elim fold_res_inv [where P = "bound_to ?h"]) (auto dest: packet_keeps_binding)
  then have "bound_to ?h n7"
    using steps(4) unfolding drain_game_events_def
    by (elim fold_res_inv [where P = "bound_to ?h"]) (auto dest: event_keeps_binding)
  then have "bound_to ?h n8"
    by (rule election_keeps_binding [OF _ steps(5)])
  then have "bound_to ?h n'"
    by (simp add: steps(6))
  then show ?thesis by (simp add: bound_to_def)
qed

theorem second_migration_is_ignored_witness:
  "\<exists>w n'. process_client_frame (quiet_client\<lparr>io_packets := [(example_reading,
        Inr (ReconnectionAck ''10.0.0.3'' 50010 50003 ''s''), (''10.0.0.3'', 50010))]\<rparr>) no_input
      (example_peer\<lparr>n_reconnected := True\<rparr>) = Inr (w, n') \<and> n_remote_host n' = ''10.0.0.1''"
proof -
  let ?io = "quiet_client\<lparr>io_packets := [(example_reading,
        Inr (ReconnectionAck ''10.0.0.3'' 50010 50003 ''s''), (''10.0.0.3'', 50010))]\<rparr>"
  let ?n = "example_peer\<lparr>n_reconnected := True\<rparr>"
  have "node_wf True ?n" using example_peer_wf by (simp add: node_wf_defs)
  moreover have "good_client_io ?io"
    by (simp add: good_client_io_def quiet_client_def good_packet_def message_checks)
  ultimately obtain w n' where frame: "process_client_frame ?io no_input ?n = Inr (w, n')"
    using client_frame_returns [of ?n ?io no_input] by (auto simp: returns_def)
  have "n_reconnected ?n" by simp
  from second_migration_is_ignored [OF this frame] frame show ?thesis
    by (simp add: example_peer_def)
qed

end
