(* ===== verification/World_Codec.thy ===== *)
theory World_Codec
  imports World Roster Json
begin

text \<open>
  The dictionary form of the world (\<^verbatim>\<open>WorldState.to_dict\<close>, which is \<^verbatim>\<open>asdict\<close> with the
  contribution sets turned into lists) and its inverse \<^verbatim>\<open>WorldState.from_dict\<close>, with the
  keyword construction of every entity.  A set is listed in sorted order; the order of
  \<^verbatim>\<open>list(set)\<close> is not determined and nothing depends on it.
\<close>

subsection \<open>Entities\<close>

definition player_to_json :: "player \<Rightarrow> json" where
  "player_to_json p = JObj
     [(''player_id'', JStr (player_id p)), (''x'', JNum (pos_x p)), (''y'', JNum (pos_y p)),
      (''vx'', JNum (vx p)), (''vy'', JNum (vy p)), (''width'', JNum (width p)),
      (''height'', JNum (height p)), (''on_ground'', JBool (on_ground p)),
      (''is_crouching'', JBool (is_crouching p)), (''prev_x'', JNum (prev_x p)),
      (''prev_y'', JNum (prev_y p)), (''join_index'', enc_int (join_index p)),
      (''powerup_effect_expires_at'', enc_opt JNum (powerup_effect_expires_at p))]"

definition player_of_json :: "json \<Rightarrow> player result" where
  "player_of_json j =
     rbind (kwargs [''player_id'']
       [''x'', ''y'', ''vx'', ''vy'', ''width'', ''height'', ''on_ground'', ''is_crouching'',
        ''prev_x'', ''prev_y'', ''join_index'', ''powerup_effect_expires_at''] j) (\<lambda>d.
     rbind (item as_str ''player_id'' d) (\<lambda>pid.
     rbind (item_or as_num ''x'' 0 d) (\<lambda>x.
     rbind (item_or as_num ''y'' 0 d) (\<lambda>y.
     rbind (item_or as_num ''vx'' 0 d) (\<lambda>v.
     rbind (item_or as_num ''vy'' 0 d) (\<lambda>u.
     rbind (item_or as_num ''width'' PLAYER_WIDTH d) (\<lambda>w.
     rbind (item_or as_num ''height'' PLAYER_HEIGHT d) (\<lambda>h.
     rbind (item_or as_bool ''on_ground'' False d) (\<lambda>g.
     rbind (item_or as_bool ''is_crouching'' False d) (\<lambda>c.
     rbind (item_or as_num ''prev_x'' 0 d) (\<lambda>px.
     rbind (item_or as_num ''prev_y'' 0 d) (\<lambda>py.
     rbind (item_or as_int ''join_index'' 0 d) (\<lambda>ji.
     rbind (item_or (as_opt as_num) ''powerup_effect_expires_at'' None d) (\<lambda>e.
       Inr \<lparr>pos_x = x, pos_y = y, width = w, height = h, player_id = pid, vx = v, vy = u,
            on_ground = g, is_crouching = c, prev_x = px, prev_y = py, join_index = ji,
            powerup_effect_expires_at = e\<rparr>))))))))))))))"

definition block_to_json :: "block \<Rightarrow> json" where
  "block_to_json b = JObj
     [(''x'', JNum (pos_x b)), (''y'', JNum (pos_y b)), (''width'', JNum (width b)),
      (''height'', JNum (height b)), (''destroyed'', JBool (destroyed b))]"

definition block_of_json :: "json \<Rightarrow> block result" where
  "block_of_json j =
     rbind (kwargs [''x'', ''y''] [''width'', ''height'', ''destroyed''] j) (\<lambda>d.
     rbind (item as_num ''x'' d) (\<lambda>x.
     rbind (item as_num ''y'' d) (\<lambda>y.
     rbind (item_or as_num ''width'' 32 d) (\<lambda>w.
     rbind (item_or as_num ''height'' 32 d) (\<lambda>h.
     rbind (item_or as_bool ''destroyed'' False d) (\<lambda>ds.
       Inr \<lparr>pos_x = x, pos_y = y, width = w, height = h, destroyed = ds\<rparr>))))))"

definition powerup_to_json :: "powerup \<Rightarrow> json" where
  "powerup_to_json u = JObj
     [(''x'', JNum (pos_x u)), (''y'', JNum (pos_y u)), (''powerup_id'', JStr (powerup_id u)),
      (''width'', JNum (width u)), (''height'', JNum (height u)),
      (''collected'', JBool (collected u)), (''owner'', enc_opt JStr (owner u))]"

definition powerup_of_json :: "json \<Rightarrow> powerup result" where
  "powerup_of_json j =
     rbind (kwargs [''x'', ''y'', ''powerup_id''] [''width'', ''height'', ''collected'', ''owner''] j) (\<lambda>d.
     rbind (item as_num ''x'' d) (\<lambda>x.
     rbind (item as_num ''y'' d) (\<lambda>y.
     rbind (item as_str ''powerup_id'' d) (\<lambda>uid.
     rbind (item_or as_num ''width'' 32 d) (\<lambda>w.
     rbind (item_or as_num ''height'' 32 d) (\<lambda>h.
     rbind (item_or as_bool ''collected'' False d) (\<lambda>c.
     rbind (item_or (as_opt as_str) ''owner'' None d) (\<lambda>ow.
       Inr \<lparr>pos_x = x, pos_y = y, width = w, height = h, powerup_id = uid, collected = c,
            owner = ow\<rparr>))))))))"

definition gate_to_json :: "gate \<Rightarrow> json" where
  "gate_to_json g = JObj
     [(''x'', JNum (pos_x g)), (''y'', JNum (pos_y g)), (''gate_id'', JStr (gate_id g)),
      (''width'', JNum (width g)), (''height'', JNum (height g)), (''state'', JStr (gate_state g)),
      (''contributions'', enc_list JStr (sorted_list_of_fset (contributions g))),
      (''coins_required'', enc_int (coins_required g)),
      (''blocks_required'', enc_int (blocks_required g)),
      (''enemies_required'', enc_int (enemies_required g)), (''is_final'', JBool (is_final g))]"

text \<open>\<^verbatim>\<open>CooperativeGate(**{**v, "contributions": set(v["contributions"])})\<close>\<close>

definition gate_of_json :: "json \<Rightarrow> gate result" where
  "gate_of_json j =
     rbind (case j of JObj v \<Rightarrow> item as_str_set ''contributions'' v
            | _ \<Rightarrow> Inl (TypeError ''object is not a mapping'')) (\<lambda>cs.
     rbind (kwargs [''x'', ''y'', ''gate_id'']
       [''width'', ''height'', ''state'', ''contributions'', ''coins_required'', ''blocks_required'',
        ''enemies_required'', ''is_final''] j) (\<lambda>d.
     rbind (item as_num ''x'' d) (\<lambda>x.
     rbind (item as_num ''y'' d) (\<lambda>y.
     rbind (item as_str ''gate_id'' d) (\<lambda>gid.
     rbind (item_or as_num ''width'' 32 d) (\<lambda>w.
     rbind (item_or as_num ''height'' 32 d) (\<lambda>h.
     rbind (item_or as_str ''state'' ''closed'' d) (\<lambda>st.
     rbind (item_or as_int ''coins_required'' 0 d) (\<lambda>c.
     rbind (item_or as_int ''blocks_required'' 0 d) (\<lambda>b.
     rbind (item_or as_int ''enemies_required'' 0 d) (\<lambda>e.
     rbind (item_or as_bool ''is_final'' True d) (\<lambda>f.
       Inr \<lparr>pos_x = x, pos_y = y, width = w, height = h, gate_id = gid, gate_state = st,
            contributions = cs, coins_required = c, blocks_required = b, enemies_required = e,
            is_final = f\<rparr>))))))))))))"

definition enemy_to_json :: "enemy \<Rightarrow> json" where
  "enemy_to_json en = JObj
     [(''enemy_id'', JStr (enemy_id en)), (''x'', JNum (pos_x en)), (''y'', JNum (pos_y en)),
      (''width'', JNum (width en)), (''height'', JNum (height en)), (''vx'', JNum (enemy_vx en)),
      (''left_bound'', JNum (left_bound en)), (''right_bound'', JNum (right_bound en)),
      (''movement_speed'', enc_opt JNum (movement_speed en)),
      (''enemy_type'', JStr (enemy_type_value (enemy_type en)))]"

definition enemy_of_json :: "json \<Rightarrow> enemy result" where
  "enemy_of_json j =
     rbind (kwargs [''enemy_id'', ''x'', ''y'']
       [''width'', ''height'', ''vx'', ''left_bound'', ''right_bound'', ''movement_speed'',
        ''enemy_type''] j) (\<lambda>d.
     rbind (item as_str ''enemy_id'' d) (\<lambda>eid.
     rbind (item as_num ''x'' d) (\<lambda>x.
     rbind (item as_num ''y'' d) (\<lambda>y.
     rbind (item_or as_num ''width'' ENEMY_WIDTH d) (\<lambda>w.
     rbind (item_or as_num ''height'' ENEMY_HEIGHT d) (\<lambda>h.
     rbind (item_or as_num ''vx'' 50 d) (\<lambda>v.
     rbind (item_or as_num ''left_bound'' 0 d) (\<lambda>lb.
     rbind (item_or as_num ''right_bound'' 0 d) (\<lambda>rb.
     rbind (item_or (as_opt as_num) ''movement_speed'' None d) (\<lambda>sp.
     rbind (item_or as_str ''enemy_type'' (enemy_type_value KOOPA) d) (\<lambda>ty.
       mk_enemy eid x y w h v lb rb sp ty)))))))))))"

subsection \<open>The world\<close>

definition environment_to_json :: "environment \<Rightarrow> json" where
  "environment_to_json env = JObj
     [(''destructible_blocks'', enc_list block_to_json (destructible_blocks env)),
      (''power_ups'', enc_dict powerup_to_json (power_ups env)),
      (''enemies'', enc_dict enemy_to_json (enemies env)),
      (''cooperative_gates'', enc_dict gate_to_json (cooperative_gates env))]"

definition to_dict :: "world_state \<Rightarrow> json" where
  "to_dict w = JObj
     [(''sequence_number'', enc_int (sequence_number w)),
      (''characters'', enc_dict player_to_json (characters w)),
      (''environment'', environment_to_json (environment w)),
      (''coins_collected'', enc_int (coins_collected w)),
      (''coins_to_win'', enc_int (coins_to_win w)),
      (''blocks_destroyed'', enc_int (blocks_destroyed w)),
      (''blocks_to_win'', enc_int (blocks_to_win w)),
      (''enemies_defeated'', enc_int (enemies_defeated w)),
      (''enemies_to_win'', enc_int (enemies_to_win w)),
      (''initial_enemy_count'', enc_int (initial_enemy_count w)),
      (''victory'', JBool (victory w)),
      (''victory_player_id'', enc_opt JStr (victory_player_id w)),
      (''respawn_timers'', enc_dict JNum (respawn_timers w))]"

definition environment_of_json :: "obj \<Rightarrow> environment result" where
  "environment_of_json env =
     rbind (item (as_list block_of_json) ''destructible_blocks'' env) (\<lambda>bs.
     rbind (item (as_dict powerup_of_json) ''power_ups'' env) (\<lambda>us.
     rbind (item (as_dict gate_of_json) ''cooperative_gates'' env) (\<lambda>gs.
     rbind (item_or (as_dict enemy_of_json) ''enemies'' [] env) (\<lambda>es.
       Inr \<lparr>destructible_blocks = bs, power_ups = us, enemies = es, cooperative_gates = gs\<rparr>))))"

definition as_obj :: "json \<Rightarrow> obj result" where
  "as_obj j = (case j of JObj d \<Rightarrow> Inr d | _ \<Rightarrow> Inl (TypeError ''object is not subscriptable''))"

definition from_dict :: "obj \<Rightarrow> world_state result" where
  "from_dict data =
     rbind (item (as_dict player_of_json) ''characters'' data) (\<lambda>cs.
     rbind (item as_obj ''environment'' data) (\<lambda>env_data.
     rbind (environment_of_json env_data) (\<lambda>env.
     rbind (item as_int ''sequence_number'' data) (\<lambda>n.
     rbind (item_or as_int ''coins_collected'' 0 data) (\<lambda>cc.
     rbind (item_or as_int ''coins_to_win'' 5 data) (\<lambda>cw.
     rbind (item_or as_int ''blocks_destroyed'' 0 data) (\<lambda>bd.
     rbind (item_or as_int ''blocks_to_win'' 0 data) (\<lambda>bw.
     rbind (item_or as_int ''enemies_defeated'' 0 data) (\<lambda>ed.
     rbind (item_or as_int ''enemies_to_win'' 0 data) (\<lambda>ew.
     rbind (item_or as_int ''initial_enemy_count'' (int (length (enemies env))) data) (\<lambda>ic.
     rbind (item_or as_bool ''victory'' False data) (\<lambda>v.
     rbind (item_or (as_opt as_str) ''victory_player_id'' None data) (\<lambda>vp.
     rbind (item_or (as_dict as_num) ''respawn_timers'' [] data) (\<lambda>rt.
       Inr \<lparr>sequence_number = n, characters = cs, environment = env, coins_collected = cc,
            coins_to_win = cw, blocks_destroyed = bd, blocks_to_win = bw, enemies_defeated = ed,
            enemies_to_win = ew, initial_enemy_count = ic, victory = v, victory_player_id = vp,
            respawn_timers = rt\<rparr>))))))))))))))"

text \<open>
  The serializer fills in the missing parts of the environment first
  (\<^verbatim>\<open>_decode_world_state\<close>).
\<close>

definition get_or :: "string \<Rightarrow> json \<Rightarrow> obj \<Rightarrow> json" where
  "get_or k dflt d = (case map_of d k of None \<Rightarrow> dflt | Some j \<Rightarrow> j)"

definition decode_world_state :: "obj \<Rightarrow> world_state result" where
  "decode_world_state data =
     (case get_or ''environment'' (JObj []) data of
        JObj env \<Rightarrow>
          from_dict (AList.update ''environment''
            (JObj [(''destructible_blocks'', get_or ''destructible_blocks'' (JList []) env),
                   (''power_ups'', get_or ''power_ups'' (JObj []) env),
                   (''cooperative_gates'', get_or ''cooperative_gates'' (JObj []) env),
                   (''enemies'', get_or ''enemies'' (JObj []) env)]) data)
      | _ \<Rightarrow> Inl (AttributeError ''object has no attribute get''))"

subsection \<open>Round trips\<close>

lemma player_roundtrip: "player_of_json (player_to_json p) = Inr p"
  by (cases p) (simp add: player_of_json_def player_to_json_def kwargs_def codec_simps
      num.opt_read_encoded)

lemma block_roundtrip: "block_of_json (block_to_json b) = Inr b"
  by (cases b) (simp add: block_of_json_def block_to_json_def kwargs_def codec_simps)

lemma powerup_roundtrip: "powerup_of_json (powerup_to_json u) = Inr u"
  by (cases u) (simp add: powerup_of_json_def powerup_to_json_def kwargs_def codec_simps
      str.opt_read_encoded)

lemma gate_roundtrip: "gate_of_json (gate_to_json g) = Inr g"
  by (cases g) (simp add: gate_of_json_def gate_to_json_def kwargs_def codec_simps)

lemma enemy_roundtrip: "movement_speed en \<noteq> None \<Longrightarrow> enemy_of_json (enemy_to_json en) = Inr en"
  by (cases en) (auto simp: enemy_of_json_def enemy_to_json_def kwargs_def codec_simps
      num.opt_read_encoded mk_enemy_def)

interpretation player_codec: codec player_to_json player_of_json "\<lambda>_. True"
  by unfold_locales (rule player_roundtrip)

interpretation block_codec: codec block_to_json block_of_json "\<lambda>_. True"
  by unfold_locales (rule block_roundtrip)

interpretation powerup_codec: codec powerup_to_json powerup_of_json "\<lambda>_. True"
  by unfold_locales (rule powerup_roundtrip)

interpretation gate_codec: codec gate_to_json gate_of_json "\<lambda>_. True"
  by unfold_locales (rule gate_roundtrip)

interpretation enemy_codec: codec enemy_to_json enemy_of_json "\<lambda>en. movement_speed en \<noteq> None"
  by unfold_locales (rule enemy_roundtrip)

text \<open>
  Every enemy leaves its constructor with a movement speed; a world all of whose enemies have
  one survives the trip unchanged.
\<close>

definition encodable_world :: "world_state \<Rightarrow> bool" where
  "encodable_world w \<longleftrightarrow> (\<forall>en \<in> snd ` set (enemies (environment w)). movement_speed en \<noteq> None)"

lemmas container_codecs = player_codec.dict_read_encoded block_codec.list_read_encoded
  powerup_codec.dict_read_encoded gate_codec.dict_read_encoded enemy_codec.dict_read_encoded
  num.dict_read_encoded str.opt_read_encoded

lemma world_roundtrip:
  assumes "encodable_world w"
  shows "as_obj (to_dict w) = Inr d \<Longrightarrow> decode_world_state d = Inr w"
  using assms
  by (cases w; cases "environment w")
    (auto simp: to_dict_def as_obj_def decode_world_state_def environment_to_json_def get_or_def
      from_dict_def environment_of_json_def encodable_world_def codec_simps container_codecs)

end
