(* ===== verification/Schemas.thy ===== *)
theory Schemas
  imports Json Config
begin

text \<open>
  The validation schemas of \<^verbatim>\<open>shared/messages/schemas.py\<close>.  A schema is data: its fields in
  order, each with the type and the limits of its annotation and with its default.  \<open>fits\<close> says
  when a value satisfies an annotation as it stands, \<open>normal\<close> keeps the declared fields of a
  nested model and drops the others.

  The validator itself belongs to a library outside the repository, so it is a parameter: a
  function from a schema and the keyword arguments to the validated fields.  The locale
  \<open>validator\<close> states what the code relies on, as the library documents it: data that satisfies
  its schema is taken as it is, with defaults filled in and unknown fields dropped, and whatever
  is accepted has every declared field, of its declared type.  What happens to other data (it may
  be converted or rejected) is left open.
\<close>

datatype field_type =
    TStr nat
  | TInt "int option" "int option"
  | TBool
  | TDict
  | TOpt field_type
  | TList field_type nat "nat option"
  | TModel "(string \<times> field_type \<times> json option) list"

type_synonym schema = "(string \<times> field_type \<times> json option) list"

fun fits :: "field_type \<Rightarrow> json \<Rightarrow> bool" where
  "fits (TStr n) (JStr s) = (n \<le> length s)"
| "fits (TInt lo hi) (JNum x) =
     (is_integral x \<and> (case lo of None \<Rightarrow> True | Some l \<Rightarrow> of_int l \<le> x) \<and>
      (case hi of None \<Rightarrow> True | Some h \<Rightarrow> x \<le> of_int h))"
| "fits TBool (JBool b) = True"
| "fits TDict (JObj d) = True"
| "fits (TOpt t) j = (j = JNull \<or> fits t j)"
| "fits (TList t lo hi) (JList js) =
     (list_all (fits t) js \<and> lo \<le> length js \<and> (case hi of None \<Rightarrow> True | Some h \<Rightarrow> length js \<le> h))"
| "fits (TModel fs) (JObj d) =
     list_all (\<lambda>(k, t, dflt). case map_of d k of None \<Rightarrow> dflt \<noteq> None | Some j \<Rightarrow> fits t j) fs"
| "fits _ _ = False"

fun normal :: "field_type \<Rightarrow> json \<Rightarrow> json" where
  "normal (TOpt t) j = (if j = JNull then JNull else normal t j)"
| "normal (TList t _ _) (JList js) = JList (map (normal t) js)"
| "normal (TModel fs) (JObj d) =
     JObj (map (\<lambda>(k, t, dflt). (k, case map_of d k of None \<Rightarrow> the dflt | Some j \<Rightarrow> normal t j)) fs)"
| "normal _ j = j"

definition conforms :: "schema \<Rightarrow> obj \<Rightarrow> bool" where
  "conforms s d \<longleftrightarrow> fits (TModel s) (JObj d)"

definition project :: "schema \<Rightarrow> obj \<Rightarrow> obj" where
  "project s d =
     map (\<lambda>(k, t, dflt). (k, case map_of d k of None \<Rightarrow> the dflt | Some j \<Rightarrow> normal t j)) s"

text \<open>A schema is sensible when its defaults fit, at every depth.\<close>

fun sensible :: "field_type \<Rightarrow> bool" where
  "sensible (TOpt t) = sensible t"
| "sensible (TList t _ _) = sensible t"
| "sensible (TModel fs) \<longleftrightarrow>
     list_all (\<lambda>(k, t, dflt). sensible t \<and> (case dflt of None \<Rightarrow> True | Some j \<Rightarrow> fits t j)) fs \<and>
     distinct (map fst fs)"
| "sensible _ = True"

subsection \<open>The validator\<close>

type_synonym validation = "schema \<Rightarrow> obj \<Rightarrow> obj option"

locale validator =
  fixes validate :: validation
  assumes accepts: "conforms s d \<Longrightarrow> validate s d = Some (project s d)"
    and accepted: "sensible (TModel s) \<Longrightarrow> validate s d = Some v \<Longrightarrow> conforms s v \<and> fst ` set s \<subseteq> fst ` set v"
begin

lemma accepted_field:
  assumes "sensible (TModel s)" and "validate s d = Some v" and "(k, t, dflt) \<in> set s"
  obtains j where "map_of v k = Some j" and "fits t j"
proof -
  have "k \<in> fst ` set v"
    using accepted [OF assms(1,2)] assms(3) by force
  then obtain j where j: "map_of v k = Some j"
    by (cases "map_of v k") (simp_all add: map_of_eq_None_iff)
  have "conforms s v"
    using accepted [OF assms(1,2)] by blast
  then have "fits t j"
    using assms(3) j by (fastforce simp: conforms_def list_all_iff)
  with j show ?thesis by (rule that)
qed

end

text \<open>The strictest validator the documentation allows: no conversions.\<close>

definition strict_validate :: validation where
  "strict_validate s d = (if conforms s d then Some (project s d) else None)"

lemma map_of_project:
  assumes "(k, t, dflt) \<in> set fs" and "distinct (map fst fs)"
  shows "map_of (map (\<lambda>(k, t, dflt). (k, g k t dflt)) fs) k = Some (g k t dflt)"
  using assms by (induction fs) force+

lemma fits_normal: "sensible t \<Longrightarrow> fits t j \<Longrightarrow> fits t (normal t j)"
proof (induction t j rule: fits.induct)
  case (7 fs d)
  have "case map_of d k of None \<Rightarrow> dflt \<noteq> None | Some j \<Rightarrow> fits t j"
    if "(k, t, dflt) \<in> set fs" for k t dflt
    using 7(3) that by (auto simp: list_all_iff)
  moreover have "sensible t" "dflt = Some j \<Longrightarrow> fits t j" if "(k, t, dflt) \<in> set fs" for k t dflt j
    using 7(2) that by (auto simp: list_all_iff)
  ultimately have "fits t (case map_of d k of None \<Rightarrow> the dflt | Some j \<Rightarrow> normal t j)"
    if "(k, t, dflt) \<in> set fs" for k t dflt
    using that 7(1) [of "(k, t, dflt)" k "(t, dflt)" t dflt]
    by (cases "map_of d k"; cases dflt) fastforce+
  then show ?case
    using 7(2) map_of_project [where g = "\<lambda>k t dflt. case map_of d k of None \<Rightarrow> the dflt | Some j \<Rightarrow> normal t j"]
    by (fastforce simp: list_all_iff)
qed (auto simp: list_all_iff split: option.splits)

lemma project_normal: "JObj (project s d) = normal (TModel s) (JObj d)"
  by (simp add: project_def)

interpretation strict: validator strict_validate
proof
  show "conforms s d \<Longrightarrow> strict_validate s d = Some (project s d)" for s d
    by (simp add: strict_validate_def)
  show "conforms s v \<and> fst ` set s \<subseteq> fst ` set v"
    if "sensible (TModel s)" and "strict_validate s d = Some v" for s d v
  proof -
    have "conforms s d" and v: "v = project s d"
      using that(2) by (auto simp: strict_validate_def split: if_splits)
    then have "conforms s v"
      using fits_normal [OF that(1), of "JObj d"]
      by (simp only: conforms_def project_normal)
    then show ?thesis
      using v by (force simp: project_def)
  qed
qed

subsection \<open>The schemas\<close>

definition nonempty :: field_type where "nonempty = TStr 1"
definition port_number :: field_type where "port_number = TInt (Some 1024) (Some 65535)"
definition nonnegative :: field_type where "nonnegative = TInt (Some 0) None"
definition slot_index :: field_type where "slot_index = TInt (Some 0) (Some (MAX_PLAYERS - 1))"

definition PlayerInputSchema :: schema where
  "PlayerInputSchema =
    [(''player_id'', nonempty, None), (''sequence_number'', TInt None None, None),
     (''input_state'', TDict, Some (JObj [])),
     (''message_type'', TStr 0, Some (JStr ''player_input''))]"

definition WorldStateSchema :: schema where
  "WorldStateSchema =
    [(''sequence_number'', TInt None None, None), (''world_state'', TDict, None),
     (''message_type'', TStr 0, Some (JStr ''world_state''))]"

definition SessionCreateSchema :: schema where
  "SessionCreateSchema =
    [(''player_id'', nonempty, None), (''ip'', nonempty, None), (''udp_port'', port_number, None),
     (''message_type'', TStr 0, Some (JStr ''session_create''))]"

definition SessionJoinSchema :: schema where
  "SessionJoinSchema =
    [(''session_id'', nonempty, None), (''player_id'', nonempty, None), (''ip'', nonempty, None),
     (''port'', port_number, None), (''rejoin_join_index'', TOpt slot_index, Some JNull),
     (''message_type'', TStr 0, Some (JStr ''session_join''))]"

definition SessionRecreateSchema :: schema where
  "SessionRecreateSchema =
    [(''session_id'', nonempty, None), (''next_join_index'', nonnegative, None),
     (''host_ip'', nonempty, None), (''host_udp_port'', port_number, None),
     (''host_join_index'', slot_index, None),
     (''reserved_join_indices'', TList (TInt None None) 0 (Some (nat MAX_PLAYERS)), Some (JList [])),
     (''message_type'', TStr 0, Some (JStr ''session_recreate''))]"

definition SessionCreatedSchema :: schema where
  "SessionCreatedSchema =
    [(''session_id'', nonempty, None), (''join_index'', nonnegative, None),
     (''message_type'', TStr 0, Some (JStr ''session_created''))]"

definition SessionLeaveSchema :: schema where
  "SessionLeaveSchema =
    [(''session_id'', nonempty, None), (''join_index'', nonnegative, None),
     (''message_type'', TStr 0, Some (JStr ''session_leave''))]"

definition SessionClosedSchema :: schema where
  "SessionClosedSchema =
    [(''session_id'', nonempty, None), (''message_type'', TStr 0, Some (JStr ''session_closed''))]"

definition SessionJoinRejectedSchema :: schema where
  "SessionJoinRejectedSchema =
    [(''session_id'', nonempty, None), (''reason'', nonempty, None),
     (''message_type'', TStr 0, Some (JStr ''session_join_rejected''))]"

definition SessionJoinedSchema :: schema where
  "SessionJoinedSchema =
    [(''join_index'', nonnegative, None),
     (''message_type'', TStr 0, Some (JStr ''session_joined''))]"

definition RosterEntrySchema :: schema where
  "RosterEntrySchema =
    [(''player_id'', nonempty, None), (''host'', nonempty, None),
     (''udp_port'', port_number, None), (''join_index'', nonnegative, None),
     (''status'', TStr 0, None), (''is_host'', TBool, None)]"

definition RosterSchema :: schema where
  "RosterSchema =
    [(''players'', TList (TModel RosterEntrySchema) 0 None, None)]"

definition RosterUpdateSchema :: schema where
  "RosterUpdateSchema =
    [(''roster'', TModel RosterSchema, None),
     (''message_type'', TStr 0, Some (JStr ''roster_update''))]"

definition GameStartSchema :: schema where
  "GameStartSchema =
    [(''session_id'', nonempty, None), (''message_type'', TStr 0, Some (JStr ''game_start''))]"

definition InitialStateSyncSchema :: schema where
  "InitialStateSyncSchema =
    [(''world_state'', TDict, None),
     (''message_type'', TStr 0, Some (JStr ''initial_state_sync''))]"

definition BlockDestroyedMessageSchema :: schema where
  "BlockDestroyedMessageSchema =
    [(''position'', TList (TInt None None) 2 (Some 2), None),
     (''message_type'', TStr 0, Some (JStr ''block_destroyed_message''))]"

definition PowerUpCollectedMessageSchema :: schema where
  "PowerUpCollectedMessageSchema =
    [(''powerup_id'', nonempty, None), (''player_id'', nonempty, None),
     (''message_type'', TStr 0, Some (JStr ''powerup_collected_message''))]"

definition GateStateChangedMessageSchema :: schema where
  "GateStateChangedMessageSchema =
    [(''gate_id'', nonempty, None), (''new_state'', nonempty, None),
     (''message_type'', TStr 0, Some (JStr ''gate_state_changed_message''))]"

definition PlayerLeftSchema :: schema where
  "PlayerLeftSchema =
    [(''player_id'', nonempty, None), (''message_type'', TStr 0, Some (JStr ''player_left''))]"

definition PlayerDisconnectedSchema :: schema where
  "PlayerDisconnectedSchema =
    [(''player_id'', nonempty, None),
     (''message_type'', TStr 0, Some (JStr ''player_disconnected''))]"

definition PlayerDeathMessageSchema :: schema where
  "PlayerDeathMessageSchema =
    [(''player_id'', nonempty, None), (''enemy_id'', nonempty, None),
     (''message_type'', TStr 0, Some (JStr ''player_death_message''))]"

definition LevelResetMessageSchema :: schema where
  "LevelResetMessageSchema =
    [(''message_type'', TStr 0, Some (JStr ''level_reset_message''))]"

definition NewHostClaimSchema :: schema where
  "NewHostClaimSchema =
    [(''claimer_ip'', nonempty, None), (''claimer_join_index'', nonnegative, None),
     (''session_id'', nonempty, None), (''message_type'', TStr 0, Some (JStr ''new_host_claim''))]"

definition ElectionAckSchema :: schema where
  "ElectionAckSchema =
    [(''from_ip'', nonempty, None), (''session_id'', nonempty, None),
     (''message_type'', TStr 0, Some (JStr ''election_ack''))]"

definition ReconnectionAckSchema :: schema where
  "ReconnectionAckSchema =
    [(''new_host_ip'', nonempty, None), (''udp_port'', port_number, None),
     (''game_events_port'', port_number, None), (''session_id'', nonempty, None),
     (''message_type'', TStr 0, Some (JStr ''reconnection_ack''))]"

definition HostDiscoveryProbeSchema :: schema where
  "HostDiscoveryProbeSchema =
    [(''session_id'', nonempty, None), (''requester_ip'', nonempty, None),
     (''message_type'', TStr 0, Some (JStr ''host_discovery_probe''))]"

definition HostIdentityResponseSchema :: schema where
  "HostIdentityResponseSchema =
    [(''session_id'', nonempty, None), (''host_ip'', nonempty, None),
     (''message_type'', TStr 0, Some (JStr ''host_identity_response''))]"

lemmas field_types = nonempty_def port_number_def nonnegative_def slot_index_def MAX_PLAYERS_def

lemmas schema_defs =
  PlayerInputSchema_def WorldStateSchema_def SessionCreateSchema_def SessionJoinSchema_def
  SessionRecreateSchema_def SessionCreatedSchema_def SessionLeaveSchema_def
  SessionClosedSchema_def SessionJoinRejectedSchema_def SessionJoinedSchema_def
  RosterEntrySchema_def RosterSchema_def RosterUpdateSchema_def GameStartSchema_def
  InitialStateSyncSchema_def BlockDestroyedMessageSchema_def PowerUpCollectedMessageSchema_def
  GateStateChangedMessageSchema_def PlayerLeftSchema_def PlayerDisconnectedSchema_def
  PlayerDeathMessageSchema_def LevelResetMessageSchema_def NewHostClaimSchema_def
  ElectionAckSchema_def ReconnectionAckSchema_def HostDiscoveryProbeSchema_def
  HostIdentityResponseSchema_def

lemma schemas_sensible [simp]:
  "sensible (TModel PlayerInputSchema)"
  "sensible (TModel WorldStateSchema)"
  "sensible (TModel SessionCreateSchema)"
  "sensible (TModel SessionJoinSchema)"
  "sensible (TModel SessionRecreateSchema)"
  "sensible (TModel SessionCreatedSchema)"
  "sensible (TModel SessionLeaveSchema)"
  "sensible (TModel SessionClosedSchema)"
  "sensible (TModel SessionJoinRejectedSchema)"
  "sensible (TModel SessionJoinedSchema)"
  "sensible (TModel RosterEntrySchema)"
  "sensible (TModel RosterSchema)"
  "sensible (TModel RosterUpdateSchema)"
  "sensible (TModel GameStartSchema)"
  "sensible (TModel InitialStateSyncSchema)"
  "sensible (TModel BlockDestroyedMessageSchema)"
  "sensible (TModel PowerUpCollectedMessageSchema)"
  "sensible (TModel GateStateChangedMessageSchema)"
  "sensible (TModel PlayerLeftSchema)"
  "sensible (TModel PlayerDisconnectedSchema)"
  "sensible (TModel PlayerDeathMessageSchema)"
  "sensible (TModel LevelResetMessageSchema)"
  "sensible (TModel NewHostClaimSchema)"
  "sensible (TModel ElectionAckSchema)"
  "sensible (TModel ReconnectionAckSchema)"
  "sensible (TModel HostDiscoveryProbeSchema)"
  "sensible (TModel HostIdentityResponseSchema)"
  by (simp_all add: schema_defs field_types)

end
