(* ===== verification/Serializer.thy ===== *)
theory Serializer
  imports Messages World_Codec Schemas
begin

text \<open>
  \<^verbatim>\<open>network/serializer.py\<close>: the dictionary every message is sent as, and the decoders of
  the two transports, which pick the schema from the message type, have the data validated and
  rebuild the typed message.  The validator is a parameter (see the theory of the schemas).
\<close>

subsection \<open>Encoding\<close>

definition input_to_json :: "input_state \<Rightarrow> json" where
  "input_to_json i = JObj [(''left'', JBool (left i)), (''right'', JBool (right i)),
     (''jump'', JBool (jump i)), (''down'', JBool (down i))]"

definition entry_to_json :: "roster_entry \<Rightarrow> json" where
  "entry_to_json e = JObj
     [(''player_id'', JStr (entry_player_id e)), (''host'', JStr (entry_host e)),
      (''udp_port'', enc_int (entry_udp_port e)), (''join_index'', enc_int (entry_join_index e)),
      (''status'', JStr (connection_status_value (entry_status e))),
      (''is_host'', JBool (entry_is_host e))]"

fun fields :: "message \<Rightarrow> obj" where
  "fields (PlayerInputPacket pid n i) =
     [(''player_id'', JStr pid), (''sequence_number'', enc_int n), (''input_state'', input_to_json i)]"
| "fields (WorldStateSnapshot n w) =
     [(''sequence_number'', enc_int n), (''world_state'', to_dict w)]"
| "fields (InitialStateSync w) = [(''world_state'', to_dict w)]"
| "fields (HostDiscoveryProbe sid ip) = [(''session_id'', JStr sid), (''requester_ip'', JStr ip)]"
| "fields (HostIdentityResponse sid ip) = [(''session_id'', JStr sid), (''host_ip'', JStr ip)]"
| "fields (SessionCreate pid ip port) =
     [(''player_id'', JStr pid), (''ip'', JStr ip), (''udp_port'', enc_int port)]"
| "fields (SessionJoin sid pid ip port rejoin) =
     [(''session_id'', JStr sid), (''player_id'', JStr pid), (''ip'', JStr ip),
      (''port'', enc_int port), (''rejoin_join_index'', enc_opt enc_int rejoin)]"
| "fields (SessionRecreate sid nji ip port hji reserved) =
     [(''session_id'', JStr sid), (''next_join_index'', enc_int nji), (''host_ip'', JStr ip),
      (''host_udp_port'', enc_int port), (''host_join_index'', enc_int hji),
      (''reserved_join_indices'', enc_list enc_int reserved)]"
| "fields (SessionLeave sid ji) = [(''session_id'', JStr sid), (''join_index'', enc_int ji)]"
| "fields (GameStart sid) = [(''session_id'', JStr sid)]"
| "fields (SessionCreated sid ji) = [(''session_id'', JStr sid), (''join_index'', enc_int ji)]"
| "fields (SessionJoined ji) = [(''join_index'', enc_int ji)]"
| "fields (RosterUpdate r) = [(''roster'', JObj [(''players'', enc_list entry_to_json r)])]"
| "fields (SessionClosed sid) = [(''session_id'', JStr sid)]"
| "fields (SessionJoinRejected sid reason) = [(''session_id'', JStr sid), (''reason'', JStr reason)]"
| "fields (NewHostClaim ip ji sid) =
     [(''claimer_ip'', JStr ip), (''claimer_join_index'', enc_int ji), (''session_id'', JStr sid)]"
| "fields (ElectionAck ip sid) = [(''from_ip'', JStr ip), (''session_id'', JStr sid)]"
| "fields (ReconnectionAck ip port gport sid) =
     [(''new_host_ip'', JStr ip), (''udp_port'', enc_int port), (''game_events_port'', enc_int gport),
      (''session_id'', JStr sid)]"
| "fields (BlockDestroyedMessage pos) =
     [(''position'', enc_list JNum [fst pos, snd pos])]"
| "fields (PowerUpCollectedMessage uid pid) = [(''powerup_id'', JStr uid), (''player_id'', JStr pid)]"
| "fields (GateStateChangedMessage gid st) = [(''gate_id'', JStr gid), (''new_state'', JStr st)]"
| "fields (PlayerLeft pid) = [(''player_id'', JStr pid)]"
| "fields (PlayerDisconnected pid) = [(''player_id'', JStr pid)]"
| "fields (PlayerDeathMessage pid eid) = [(''player_id'', JStr pid), (''enemy_id'', JStr eid)]"
| "fields LevelResetMessage = []"

definition asdict :: "message \<Rightarrow> obj" where
  "asdict m = fields m @ [(''message_type'', JStr (message_type m))]"

definition encode_message :: "message \<Rightarrow> json" where
  "encode_message m = JObj (asdict m)"

definition encode_ws_message :: "message \<Rightarrow> obj" where
  "encode_ws_message m = asdict m"

subsection \<open>Decoding one message\<close>

definition input_of_json :: "json \<Rightarrow> input_state result" where
  "input_of_json j =
     rbind (kwargs [] [''left'', ''right'', ''jump'', ''down''] j) (\<lambda>d.
     rbind (item_or as_bool ''left'' False d) (\<lambda>l.
     rbind (item_or as_bool ''right'' False d) (\<lambda>r.
     rbind (item_or as_bool ''jump'' False d) (\<lambda>u.
     rbind (item_or as_bool ''down'' False d) (\<lambda>dn.
       Inr \<lparr>left = l, right = r, jump = u, down = dn\<rparr>)))))"

definition entry_of_json :: "json \<Rightarrow> roster_entry result" where
  "entry_of_json j =
     rbind (as_obj j) (\<lambda>d.
     rbind (item as_str ''player_id'' d) (\<lambda>pid.
     rbind (item as_str ''host'' d) (\<lambda>h.
     rbind (item as_int ''udp_port'' d) (\<lambda>p.
     rbind (item as_int ''join_index'' d) (\<lambda>ji.
     rbind (rbind (item as_str ''status'' d) connection_status_of) (\<lambda>st.
     rbind (item as_bool ''is_host'' d) (\<lambda>ih.
       validate_entry \<lparr>entry_player_id = pid, entry_host = h, entry_udp_port = p,
         entry_join_index = ji, entry_status = st, entry_is_host = ih\<rparr>)))))))"

definition roster_of_json :: "json \<Rightarrow> roster result" where
  "roster_of_json j =
     (case j of JList js \<Rightarrow> fold_res (\<lambda>j r. rbind (entry_of_json j) (\<lambda>e. roster_add e r)) js []
      | _ \<Rightarrow> Inl (TypeError ''object is not iterable''))"

definition decode_player_input :: "obj \<Rightarrow> message result" where
  "decode_player_input v =
     rbind (item as_str ''player_id'' v) (\<lambda>pid.
     rbind (item as_int ''sequence_number'' v) (\<lambda>n.
     rbind (item input_of_json ''input_state'' v) (\<lambda>i. mk_message (PlayerInputPacket pid n i))))"

definition decode_world_state_snapshot :: "obj \<Rightarrow> message result" where
  "decode_world_state_snapshot v =
     rbind (rbind (item as_obj ''world_state'' v) decode_world_state) (\<lambda>w.
     rbind (item as_int ''sequence_number'' v) (\<lambda>n. mk_message (WorldStateSnapshot n w)))"

definition decode_initial_state_sync :: "obj \<Rightarrow> message result" where
  "decode_initial_state_sync v =
     rbind (rbind (item as_obj ''world_state'' v) decode_world_state) (\<lambda>w.
       mk_message (InitialStateSync w))"

text \<open>The messages whose fields are two strings, or one.\<close>

definition two_strings :: "string \<Rightarrow> string \<Rightarrow> (string \<Rightarrow> string \<Rightarrow> message) \<Rightarrow> obj \<Rightarrow> message result" where
  "two_strings k1 k2 c v =
     rbind (item as_str k1 v) (\<lambda>a. rbind (item as_str k2 v) (\<lambda>b. mk_message (c a b)))"

definition one_string :: "string \<Rightarrow> (string \<Rightarrow> message) \<Rightarrow> obj \<Rightarrow> message result" where
  "one_string k c v = rbind (item as_str k v) (\<lambda>a. mk_message (c a))"

definition decode_new_host_claim :: "obj \<Rightarrow> message result" where
  "decode_new_host_claim v =
     rbind (item as_str ''claimer_ip'' v) (\<lambda>ip.
     rbind (item as_int ''claimer_join_index'' v) (\<lambda>ji.
     rbind (item as_str ''session_id'' v) (\<lambda>sid. mk_message (NewHostClaim ip ji sid))))"

definition decode_reconnection_ack :: "obj \<Rightarrow> message result" where
  "decode_reconnection_ack v =
     rbind (item as_str ''new_host_ip'' v) (\<lambda>ip.
     rbind (item as_int ''udp_port'' v) (\<lambda>p.
     rbind (item as_int ''game_events_port'' v) (\<lambda>g.
     rbind (item as_str ''session_id'' v) (\<lambda>sid. mk_message (ReconnectionAck ip p g sid)))))"

definition decode_session_create :: "obj \<Rightarrow> message result" where
  "decode_session_create v =
     rbind (item as_str ''player_id'' v) (\<lambda>pid.
     rbind (item as_str ''ip'' v) (\<lambda>ip.
     rbind (item as_int ''udp_port'' v) (\<lambda>p. mk_message (SessionCreate pid ip p))))"

definition decode_session_join :: "obj \<Rightarrow> message result" where
  "decode_session_join v =
     rbind (item as_str ''session_id'' v) (\<lambda>sid.
     rbind (item as_str ''player_id'' v) (\<lambda>pid.
     rbind (item as_str ''ip'' v) (\<lambda>ip.
     rbind (item as_int ''port'' v) (\<lambda>p.
     rbind (item (as_opt as_int) ''rejoin_join_index'' v) (\<lambda>r.
       mk_message (SessionJoin sid pid ip p r))))))"

definition decode_session_recreate :: "obj \<Rightarrow> message result" where
  "decode_session_recreate v =
     rbind (item as_str ''session_id'' v) (\<lambda>sid.
     rbind (item as_int ''next_join_index'' v) (\<lambda>n.
     rbind (item as_str ''host_ip'' v) (\<lambda>ip.
     rbind (item as_int ''host_udp_port'' v) (\<lambda>p.
     rbind (item as_int ''host_join_index'' v) (\<lambda>h.
     rbind (item (as_list as_int) ''reserved_join_indices'' v) (\<lambda>rs.
       mk_message (SessionRecreate sid n ip p h rs)))))))"

text \<open>The messages that carry a session and a join index.\<close>

definition session_and_index :: "(string \<Rightarrow> int \<Rightarrow> message) \<Rightarrow> obj \<Rightarrow> message result" where
  "session_and_index c v =
     rbind (item as_str ''session_id'' v) (\<lambda>sid.
     rbind (item as_int ''join_index'' v) (\<lambda>ji. mk_message (c sid ji)))"

definition decode_session_joined :: "obj \<Rightarrow> message result" where
  "decode_session_joined v =
     rbind (item as_int ''join_index'' v) (\<lambda>ji. mk_message (SessionJoined ji))"

definition decode_roster_update :: "obj \<Rightarrow> message result" where
  "decode_roster_update v =
     rbind (rbind (item as_obj ''roster'' v) (item roster_of_json ''players'')) (\<lambda>r.
       mk_message (RosterUpdate r))"

definition decode_block_destroyed :: "obj \<Rightarrow> message result" where
  "decode_block_destroyed v =
     rbind (item (as_list as_int) ''position'' v) (\<lambda>ps.
       case ps of [x, y] \<Rightarrow> mk_message (BlockDestroyedMessage (of_int x, of_int y))
       | _ \<Rightarrow> Inl (MessageValidationError ''Invalid position''))"

subsection \<open>Dispatch\<close>

text \<open>
  One branch per message type: its schema and the construction of the message from the
  validated fields.
\<close>

type_synonym branch = "string \<times> schema \<times> (obj \<Rightarrow> message result)"

definition election_branches :: "branch list" where
  "election_branches =
     [(''new_host_claim'', NewHostClaimSchema, decode_new_host_claim),
      (''election_ack'', ElectionAckSchema, two_strings ''from_ip'' ''session_id'' ElectionAck),
      (''reconnection_ack'', ReconnectionAckSchema, decode_reconnection_ack)]"

definition udp_branches :: "branch list" where
  "udp_branches =
     [(''player_input'', PlayerInputSchema, decode_player_input),
      (''world_state'', WorldStateSchema, decode_world_state_snapshot),
      (''host_discovery_probe'', HostDiscoveryProbeSchema,
        two_strings ''session_id'' ''requester_ip'' HostDiscoveryProbe),
      (''host_identity_response'', HostIdentityResponseSchema,
        two_strings ''session_id'' ''host_ip'' HostIdentityResponse)] @ election_branches"

definition ws_branches :: "branch list" where
  "ws_branches =
     [(''session_create'', SessionCreateSchema, decode_session_create),
      (''session_created'', SessionCreatedSchema, session_and_index SessionCreated),
      (''session_join'', SessionJoinSchema, decode_session_join),
      (''session_recreate'', SessionRecreateSchema, decode_session_recreate),
      (''session_leave'', SessionLeaveSchema, session_and_index SessionLeave),
      (''session_closed'', SessionClosedSchema, one_string ''session_id'' SessionClosed),
      (''session_join_rejected'', SessionJoinRejectedSchema,
        two_strings ''session_id'' ''reason'' SessionJoinRejected),
      (''session_joined'', SessionJoinedSchema, decode_session_joined),
      (''roster_update'', RosterUpdateSchema, decode_roster_update),
      (''game_start'', GameStartSchema, one_string ''session_id'' GameStart),
      (''initial_state_sync'', InitialStateSyncSchema, decode_initial_state_sync),
      (''block_destroyed_message'', BlockDestroyedMessageSchema, decode_block_destroyed),
      (''powerup_collected_message'', PowerUpCollectedMessageSchema,
        two_strings ''powerup_id'' ''player_id'' PowerUpCollectedMessage),
      (''player_death_message'', PlayerDeathMessageSchema,
        two_strings ''player_id'' ''enemy_id'' PlayerDeathMessage),
      (''gate_state_changed_message'', GateStateChangedMessageSchema,
        two_strings ''gate_id'' ''new_state'' GateStateChangedMessage),
      (''level_reset_message'', LevelResetMessageSchema, \<lambda>_. mk_message LevelResetMessage),
      (''player_left'', PlayerLeftSchema, one_string ''player_id'' PlayerLeft),
      (''player_disconnected'', PlayerDisconnectedSchema,
        one_string ''player_id'' PlayerDisconnected)] @ election_branches"

definition decode_with :: "branch list \<Rightarrow> string \<Rightarrow> validation \<Rightarrow> json \<Rightarrow> message result" where
  "decode_with branches transport validate j =
     (case j of
        JObj data \<Rightarrow>
          (case map_of data ''message_type'' of
             Some (JStr tag) \<Rightarrow>
               (case map_of branches tag of
                  None \<Rightarrow> Inl (DeserializationError (''Unsupported '' @ transport @ '' message type''))
                | Some (s, build) \<Rightarrow>
                    (case validate s data of
                       None \<Rightarrow> Inl (DeserializationError (''Invalid '' @ transport @ '' message format''))
                     | Some v \<Rightarrow> build v))
           | _ \<Rightarrow> Inl (DeserializationError (''Unsupported '' @ transport @ '' message type'')))
      | _ \<Rightarrow> Inl (AttributeError ''object has no attribute get''))"

definition decode_message :: "validation \<Rightarrow> json \<Rightarrow> message result" where
  "decode_message = decode_with udp_branches ''UDP''"

definition decode_ws_message :: "validation \<Rightarrow> json \<Rightarrow> message result" where
  "decode_ws_message = decode_with ws_branches ''WebSocket''"

end
