(* ===== verification/Serializer_Props.thy ===== *)
theory Serializer_Props
  imports Serializer
begin

text \<open>
  What the serializer guarantees: every message the code can build and its schema admits is
  decoded to itself on the other side, on both transports, and whatever is decoded is a message
  the transport carries and its constructor accepts.
\<close>

subsection \<open>Which messages travel where\<close>

definition udp_message :: "message \<Rightarrow> bool" where
  "udp_message m \<longleftrightarrow> message_type m \<in> fst ` set udp_branches"

definition ws_message :: "message \<Rightarrow> bool" where
  "ws_message m \<longleftrightarrow> message_type m \<in> fst ` set ws_branches"

text \<open>
  What a schema asks for beyond the constructor of its message: three lobby messages have no
  validation of their own, and the parts of a roster or a world are validated where they are built.
\<close>

fun wire_ok :: "message \<Rightarrow> bool" where
  "wire_ok (WorldStateSnapshot n w) = encodable_world w"
| "wire_ok (InitialStateSync w) = encodable_world w"
| "wire_ok (RosterUpdate r) = (\<forall>e \<in> set r. valid_entry e)"
| "wire_ok (SessionLeave sid ji) = (sid \<noteq> [] \<and> 0 \<le> ji)"
| "wire_ok (SessionClosed sid) = (sid \<noteq> [])"
| "wire_ok (SessionJoinRejected sid reason) = (sid \<noteq> [] \<and> reason \<noteq> [])"
| "wire_ok _ = True"

lemma asdict_tag [simp]: "map_of (asdict m) ''message_type'' = Some (JStr (message_type m))"
  by (cases m) (simp_all add: asdict_def)

subsection \<open>Parts\<close>

lemma input_roundtrip: "input_of_json (input_to_json i) = Inr i"
  by (cases i) (simp add: input_of_json_def input_to_json_def kwargs_def codec_simps)

lemma entry_roundtrip: "valid_entry e \<Longrightarrow> entry_of_json (entry_to_json e) = Inr e"
  by (cases e) (simp add: entry_of_json_def entry_to_json_def as_obj_def codec_simps)

interpretation input_codec: codec input_to_json input_of_json "\<lambda>_. True"
  by unfold_locales (rule input_roundtrip)

interpretation entry_codec: codec entry_to_json entry_of_json valid_entry
  by unfold_locales (rule entry_roundtrip)

lemma enc_int_fits [simp]:
  "fits (TInt lo hi) (enc_int i) \<longleftrightarrow>
     (\<forall>l. lo = Some l \<longrightarrow> l \<le> i) \<and> (\<forall>h. hi = Some h \<longrightarrow> i \<le> h)"
  by (cases lo; cases hi) (simp_all add: enc_int_def)

lemma enc_int_not_null [simp]: "enc_int i \<noteq> JNull" "enc_int i = JNull \<longleftrightarrow> False"
  by (simp_all add: enc_int_def)

lemma normal_enc_int [simp]: "normal (TInt lo hi) (enc_int i) = enc_int i"
  by (simp add: enc_int_def)

lemma fold_roster_add:
  assumes "distinct (map entry_join_index (r @ es))" and "\<forall>e \<in> set es. valid_entry e"
  shows "fold_res (\<lambda>j r. rbind (entry_of_json j) (\<lambda>e. roster_add e r)) (map entry_to_json es) r
    = Inr (r @ es)"
  using assms
proof (induction es arbitrary: r)
  case Nil
  then show ?case by simp
next
  case (Cons e es)
  have "roster_add e r = Inr (r @ [e])"
    using Cons.prems(1) by (auto simp: roster_add_iff)
  then show ?case
    using Cons.IH [of "r @ [e]"] Cons.prems by (simp add: entry_roundtrip)
qed

lemma roster_roundtrip:
  "distinct (map entry_join_index r) \<Longrightarrow> \<forall>e \<in> set r. valid_entry e \<Longrightarrow>
     roster_of_json (enc_list entry_to_json r) = Inr r"
  using fold_roster_add [of "[]" r] by (simp add: roster_of_json_def enc_list_def)

text \<open>Reserved indices are distinct slots, so there are never more of them than slots.\<close>

lemma distinct_slots_bound:
  assumes "distinct js" and "\<forall>j \<in> set js. 0 \<le> j \<and> j < MAX_PLAYERS"
  shows "length js \<le> nat MAX_PLAYERS"
proof -
  have "set js \<subseteq> {0..<MAX_PLAYERS}" using assms(2) by auto
  then have "card (set js) \<le> card {0..<MAX_PLAYERS}"
    by (rule card_mono [OF finite_atLeastLessThan_int])
  then show ?thesis
    using distinct_card [OF assms(1)] by simp
qed

subsection \<open>Round trip\<close>

lemmas branch_defs = udp_branches_def ws_branches_def election_branches_def

lemmas decoder_defs = decode_player_input_def decode_world_state_snapshot_def
  decode_initial_state_sync_def two_strings_def one_string_def decode_new_host_claim_def
  decode_reconnection_ack_def decode_session_create_def decode_session_join_def
  decode_session_recreate_def session_and_index_def decode_session_joined_def
  decode_roster_update_def decode_block_destroyed_def

definition branch_reads :: "message \<Rightarrow> schema \<Rightarrow> (obj \<Rightarrow> message result) \<Rightarrow> bool" where
  "branch_reads m s build \<longleftrightarrow> conforms s (asdict m) \<and> build (project s (asdict m)) = Inr m"

lemmas branch_simps = branch_reads_def conforms_def project_def asdict_def schema_defs field_types
  decoder_defs item_def

lemma entry_fits [simp]:
  "valid_entry e \<Longrightarrow> fits (TModel RosterEntrySchema) (entry_to_json e)"
  "normal (TModel RosterEntrySchema) (entry_to_json e) = entry_to_json e"
  by (auto simp: RosterEntrySchema_def entry_to_json_def field_types valid_entry_def Suc_le_eq)

lemma reads_player_input:
  "valid_message (PlayerInputPacket pid n i) \<Longrightarrow>
     branch_reads (PlayerInputPacket pid n i) PlayerInputSchema decode_player_input"
  by (auto simp: branch_simps message_checks input_roundtrip Suc_le_eq
      int.read_encoded) (simp add: input_to_json_def)

lemma reads_world:
  assumes "encodable_world w"
  shows "branch_reads (WorldStateSnapshot n w) WorldStateSchema decode_world_state_snapshot"
    and "branch_reads (InitialStateSync w) InitialStateSyncSchema decode_initial_state_sync"
proof -
  obtain d where d: "to_dict w = JObj d" by (simp add: to_dict_def)
  then have "decode_world_state d = Inr w"
    using world_roundtrip [OF assms, of d] by (simp add: as_obj_def)
  with d show "branch_reads (WorldStateSnapshot n w) WorldStateSchema decode_world_state_snapshot"
    and "branch_reads (InitialStateSync w) InitialStateSyncSchema decode_initial_state_sync"
    by (simp_all add: branch_simps int.read_encoded as_obj_def mk_message_Inr valid_message_def)
qed

lemma reads_session_join:
  "valid_message (SessionJoin sid pid ip port rejoin) \<Longrightarrow>
     branch_reads (SessionJoin sid pid ip port rejoin) SessionJoinSchema decode_session_join"
  by (cases rejoin)
    (auto simp: branch_simps valid_SessionJoin port_ok_def int.read_encoded Suc_le_eq as_opt_def
      mk_message_Inr MAX_PLAYERS_def)

lemma reads_session_recreate:
  assumes "valid_message (SessionRecreate sid nji ip port hji reserved)"
  shows "branch_reads (SessionRecreate sid nji ip port hji reserved) SessionRecreateSchema
    decode_session_recreate"
proof -
  note valid = assms [unfolded valid_SessionRecreate]
  have "length reserved \<le> nat MAX_PLAYERS"
    using distinct_slots_bound valid by blast
  moreover have "as_list as_int (enc_list enc_int reserved) = Inr reserved"
    by (simp add: int.list_read_encoded)
  moreover have "normal (TList (TInt None None) 0 k) (enc_list enc_int reserved) = enc_list enc_int reserved" for k
    by (simp add: enc_list_def)
  ultimately show ?thesis
    using valid assms by (simp add: branch_simps port_ok_def int.read_encoded Suc_le_eq)
      (simp add: enc_list_def list_all_iff)
qed

lemma reads_roster_update:
  assumes "valid_message (RosterUpdate r)" and "\<forall>e \<in> set r. valid_entry e"
  shows "branch_reads (RosterUpdate r) RosterUpdateSchema decode_roster_update"
proof -
  have "normal (TList (TModel RosterEntrySchema) 0 None) (enc_list entry_to_json r) = enc_list entry_to_json r"
    by (simp add: enc_list_def)
  moreover have "fits (TList (TModel RosterEntrySchema) 0 None) (enc_list entry_to_json r)"
    using assms(2) by (simp add: enc_list_def list_all_iff)
  moreover have "roster_of_json (enc_list entry_to_json r) = Inr r"
    using roster_roundtrip assms valid_RosterUpdate by blast
  ultimately show ?thesis
    using assms(1)
    by (simp add: branch_reads_def conforms_def project_def asdict_def RosterUpdateSchema_def
        RosterSchema_def decode_roster_update_def item_def as_obj_def)
qed

lemma reads_block_destroyed:
  assumes "valid_message (BlockDestroyedMessage pos)"
  shows "branch_reads (BlockDestroyedMessage pos) BlockDestroyedMessageSchema decode_block_destroyed"
proof -
  have "is_integral (fst pos)" "is_integral (snd pos)"
    using assms by (simp_all add: valid_message_def)
  then have "(of_int \<lfloor>fst pos\<rfloor>, of_int \<lfloor>snd pos\<rfloor>) = pos"
    by (simp add: is_integral_def prod_eq_iff)
  then show ?thesis
    using assms by (simp add: branch_simps enc_list_def valid_message_def is_integral_def)
qed

text \<open>The tables, looked up once.\<close>

lemma udp_branch [simp]:
  "map_of udp_branches ''player_input'' = Some (PlayerInputSchema, decode_player_input)"
  "map_of udp_branches ''world_state'' = Some (WorldStateSchema, decode_world_state_snapshot)"
  "map_of udp_branches ''host_discovery_probe'' = Some (HostDiscoveryProbeSchema, two_strings ''session_id'' ''requester_ip'' HostDiscoveryProbe)"
  "map_of udp_branches ''host_identity_response'' = Some (HostIdentityResponseSchema, two_strings ''session_id'' ''host_ip'' HostIdentityResponse)"
  "map_of udp_branches ''new_host_claim'' = Some (NewHostClaimSchema, decode_new_host_claim)"
  "map_of udp_branches ''election_ack'' = Some (ElectionAckSchema, two_strings ''from_ip'' ''session_id'' ElectionAck)"
  "map_of udp_branches ''reconnection_ack'' = Some (ReconnectionAckSchema, decode_reconnection_ack)"
  by (simp_all add: udp_branches_def election_branches_def)

lemma ws_branch [simp]:
  "map_of ws_branches ''session_create'' = Some (SessionCreateSchema, decode_session_create)"
  "map_of ws_branches ''session_created'' = Some (SessionCreatedSchema, session_and_index SessionCreated)"
  "map_of ws_branches ''session_join'' = Some (SessionJoinSchema, decode_session_join)"
  "map_of ws_branches ''session_recreate'' = Some (SessionRecreateSchema, decode_session_recreate)"
  "map_of ws_branches ''session_leave'' = Some (SessionLeaveSchema, session_and_index SessionLeave)"
  "map_of ws_branches ''session_closed'' = Some (SessionClosedSchema, one_string ''session_id'' SessionClosed)"
  "map_of ws_branches ''session_join_rejected'' = Some (SessionJoinRejectedSchema, two_strings ''session_id'' ''reason'' SessionJoinRejected)"
  "map_of ws_branches ''session_joined'' = Some (SessionJoinedSchema, decode_session_joined)"
  "map_of ws_branches ''roster_update'' = Some (RosterUpdateSchema, decode_roster_update)"
  "map_of ws_branches ''game_start'' = Some (GameStartSchema, one_string ''session_id'' GameStart)"
  "map_of ws_branches ''initial_state_sync'' = Some (InitialStateSyncSchema, decode_initial_state_sync)"
  "map_of ws_branches ''block_destroyed_message'' = Some (BlockDestroyedMessageSchema, decode_block_destroyed)"
  "map_of ws_branches ''powerup_collected_message'' = Some (PowerUpCollectedMessageSchema, two_strings ''powerup_id'' ''player_id'' PowerUpCollectedMessage)"
  "map_of ws_branches ''player_death_message'' = Some (PlayerDeathMessageSchema, two_strings ''player_id'' ''enemy_id'' PlayerDeathMessage)"
  "map_of ws_branches ''gate_state_changed_message'' = Some (GateStateChangedMessageSchema, two_strings ''gate_id'' ''new_state'' GateStateChangedMessage)"
  "map_of ws_branches ''level_reset_message'' = Some (LevelResetMessageSchema, \<lambda>_. mk_message LevelResetMessage)"
  "map_of ws_branches ''player_left'' = Some (PlayerLeftSchema, one_string ''player_id'' PlayerLeft)"
  "map_of ws_branches ''player_disconnected'' = Some (PlayerDisconnectedSchema, one_string ''player_id'' PlayerDisconnected)"
  "map_of ws_branches ''new_host_claim'' = Some (NewHostClaimSchema, decode_new_host_claim)"
  "map_of ws_branches ''election_ack'' = Some (ElectionAckSchema, two_strings ''from_ip'' ''session_id'' ElectionAck)"
  "map_of ws_branches ''reconnection_ack'' = Some (ReconnectionAckSchema, decode_reconnection_ack)"
  by (simp_all add: ws_branches_def election_branches_def)

lemma udp_no_branch [simp]:
  "map_of udp_branches ''session_create'' = None"
  "map_of udp_branches ''session_created'' = None"
  "map_of udp_branches ''session_join'' = None"
  "map_of udp_branches ''session_recreate'' = None"
  "map_of udp_branches ''session_leave'' = None"
  "map_of udp_branches ''session_closed'' = None"
  "map_of udp_branches ''session_join_rejected'' = None"
  "map_of udp_branches ''session_joined'' = None"
  "map_of udp_branches ''roster_update'' = None"
  "map_of udp_branches ''game_start'' = None"
  "map_of udp_branches ''initial_state_sync'' = None"
  "map_of udp_branches ''block_destroyed_message'' = None"
  "map_of udp_branches ''powerup_collected_message'' = None"
  "map_of udp_branches ''player_death_message'' = None"
  "map_of udp_branches ''gate_state_changed_message'' = None"
  "map_of udp_branches ''level_reset_message'' = None"
  "map_of udp_branches ''player_left'' = None"
  "map_of udp_branches ''player_disconnected'' = None"
  by (simp_all add: udp_branches_def election_branches_def)

lemma ws_no_branch [simp]:
  "map_of ws_branches ''player_input'' = None"
  "map_of ws_branches ''world_state'' = None"
  "map_of ws_branches ''host_discovery_probe'' = None"
  "map_of ws_branches ''host_identity_response'' = None"
  by (simp_all add: ws_branches_def election_branches_def)

lemma udp_message_iff: "udp_message m \<longleftrightarrow> map_of udp_branches (message_type m) \<noteq> None"
  by (simp add: udp_message_def map_of_eq_None_iff)

lemma ws_message_iff: "ws_message m \<longleftrightarrow> map_of ws_branches (message_type m) \<noteq> None"
  by (simp add: ws_message_def map_of_eq_None_iff)

text \<open>The declared type of the WebSocket decoder names exactly the messages its dispatch knows.\<close>

fun WsMessage :: "message \<Rightarrow> bool" where
  "WsMessage (SessionCreate _ _ _) = True"
| "WsMessage (SessionCreated _ _) = True"
| "WsMessage (SessionJoin _ _ _ _ _) = True"
| "WsMessage (SessionJoined _) = True"
| "WsMessage (SessionRecreate _ _ _ _ _ _) = True"
| "WsMessage (SessionClosed _) = True"
| "WsMessage (SessionLeave _ _) = True"
| "WsMessage (SessionJoinRejected _ _) = True"
| "WsMessage (RosterUpdate _) = True"
| "WsMessage (GameStart _) = True"
| "WsMessage (InitialStateSync _) = True"
| "WsMessage (BlockDestroyedMessage _) = True"
| "WsMessage (PowerUpCollectedMessage _ _) = True"
| "WsMessage (GateStateChangedMessage _ _) = True"
| "WsMessage (PlayerLeft _) = True"
| "WsMessage (PlayerDeathMessage _ _) = True"
| "WsMessage (PlayerDisconnected _) = True"
| "WsMessage LevelResetMessage = True"
| "WsMessage (NewHostClaim _ _ _) = True"
| "WsMessage (ElectionAck _ _) = True"
| "WsMessage (ReconnectionAck _ _ _ _) = True"
| "WsMessage _ = False"

lemma declared_messages: "WsMessage m \<longleftrightarrow> ws_message m"
  by (cases m) (simp_all add: ws_message_iff)

lemma branch_decodes:
  assumes "validator validate" and "map_of branches (message_type m) = Some (s, build)"
    and "branch_reads m s build"
  shows "decode_with branches transport validate (JObj (asdict m)) = Inr m"
proof -
  have "validate s (asdict m) = Some (project s (asdict m))"
    using assms(3) validator.accepts [OF assms(1)] by (simp add: branch_reads_def)
  then show ?thesis
    using assms(2,3) by (simp add: decode_with_def branch_reads_def)
qed

lemmas special_branches = reads_player_input reads_world reads_session_join reads_session_recreate
  reads_roster_update reads_block_destroyed

lemma udp_branch_reads:
  assumes "valid_message m" and "wire_ok m" and "udp_message m"
  shows "\<exists>s build. map_of udp_branches (message_type m) = Some (s, build) \<and> branch_reads m s build"
proof -
  show ?thesis
  proof (cases m)
    case (PlayerInputPacket pid n i)
    then show ?thesis using assms(1) by (simp add: special_branches)
  next
    case (WorldStateSnapshot n w)
    then show ?thesis using assms(2) by (simp add: special_branches)
  next
    case (HostDiscoveryProbe sid ip)
    then show ?thesis using assms(1) by (simp add: branch_simps message_checks Suc_le_eq)
  next
    case (HostIdentityResponse sid ip)
    then show ?thesis using assms(1) by (simp add: branch_simps message_checks Suc_le_eq)
  next
    case (NewHostClaim ip ji sid)
    then show ?thesis using assms(1)
      by (simp add: branch_simps message_checks int.read_encoded Suc_le_eq)
  next
    case (ElectionAck ip sid)
    then show ?thesis using assms(1) by (simp add: branch_simps message_checks Suc_le_eq)
  next
    case (ReconnectionAck ip p g sid)
    then show ?thesis using assms(1)
      by (simp add: branch_simps message_checks int.read_encoded Suc_le_eq)
  qed (use assms(3) in \<open>simp_all add: udp_message_iff\<close>)
qed

lemma ws_branch_reads:
  assumes "valid_message m" and "wire_ok m" and "ws_message m"
  shows "\<exists>s build. map_of ws_branches (message_type m) = Some (s, build) \<and> branch_reads m s build"
proof -
  show ?thesis
  proof (cases m)
    case (SessionJoin sid pid ip port rejoin)
    then show ?thesis using assms(1) by (simp add: special_branches)
  next
    case (SessionRecreate sid nji ip port hji reserved)
    then show ?thesis using assms(1) by (simp add: special_branches)
  next
    case (RosterUpdate r)
    then show ?thesis using assms(1,2) by (simp add: special_branches)
  next
    case (InitialStateSync w)
    then show ?thesis using assms(2) by (simp add: special_branches)
  next
    case (BlockDestroyedMessage pos)
    then show ?thesis using assms(1) by (simp add: special_branches)
  next
    case (SessionCreate pid ip port)
    then show ?thesis using assms(1)
      by (simp add: branch_simps message_checks int.read_encoded Suc_le_eq)
  next
    case (NewHostClaim ip ji sid)
    then show ?thesis using assms(1)
      by (simp add: branch_simps message_checks int.read_encoded Suc_le_eq)
  next
    case (ReconnectionAck ip p g sid)
    then show ?thesis using assms(1)
      by (simp add: branch_simps message_checks int.read_encoded Suc_le_eq)
  qed (use assms in \<open>simp_all add: ws_message_iff branch_simps message_checks int.read_encoded Suc_le_eq\<close>)
qed

lemma read_back:
  assumes "validator validate" and "valid_message m" and "wire_ok m"
  shows "(udp_message m \<longrightarrow> decode_message validate (encode_message m) = Inr m) \<and>
    (ws_message m \<longrightarrow> decode_ws_message validate (JObj (encode_ws_message m)) = Inr m) \<and>
    (udp_message m \<or> ws_message m)"
proof (intro conjI impI)
  show "udp_message m \<or> ws_message m"
    by (cases m) (simp_all add: udp_message_iff ws_message_iff)
  show "decode_message validate (encode_message m) = Inr m" if udp: "udp_message m"
  proof -
    from udp_branch_reads [OF assms(2,3) udp] obtain s build
      where "map_of udp_branches (message_type m) = Some (s, build)" "branch_reads m s build"
      by blast
    then show ?thesis
      unfolding decode_message_def encode_message_def by (rule branch_decodes [OF assms(1)])
  qed
  show "decode_ws_message validate (JObj (encode_ws_message m)) = Inr m" if ws: "ws_message m"
  proof -
    from ws_branch_reads [OF assms(2,3) ws] obtain s build
      where "map_of ws_branches (message_type m) = Some (s, build)" "branch_reads m s build"
      by blast
    then show ?thesis
      unfolding decode_ws_message_def encode_ws_message_def by (rule branch_decodes [OF assms(1)])
  qed
qed

text \<open>C8: every message that passes its constructor, and whose lobby fields its schema admits, is
  decoded by the receiver of its transport to exactly the message that was sent, the complete
  world of a snapshot and the roster of an update included.\<close>

theorem sent_messages_are_read_back:
  assumes "validator validate" and "valid_message m" and "wire_ok m"
  shows "(udp_message m \<longrightarrow> decode_message validate (encode_message m) = Inr m) \<and>
    (ws_message m \<longrightarrow> decode_ws_message validate (JObj (encode_ws_message m)) = Inr m) \<and>
    (udp_message m \<or> ws_message m)"
  by (rule read_back [OF assms])

definition example_world :: world_state where
  "example_world = new_world\<lparr>sequence_number := 7,
     characters := [(''player1'', new_player ''player1'' 100 (1 / 2) 0)],
     environment := \<lparr>destructible_blocks = [\<lparr>pos_x = 64, pos_y = 96, width = 32, height = 32, destroyed = True\<rparr>],
       power_ups = [], enemies = [(''e1'', \<lparr>pos_x = 400, pos_y = 50, width = 51, height = 51,
         enemy_id = ''e1'', enemy_vx = -50, left_bound = 300, right_bound = 600,
         movement_speed = Some 50, enemy_type = GOOMBA\<rparr>)],
       cooperative_gates = [(''g1'', \<lparr>pos_x = 0, pos_y = 0, width = 32, height = 32, gate_id = ''g1'',
         gate_state = ''closed'', contributions = {|''player1''|}, coins_required = 1,
         blocks_required = 0, enemies_required = 0, is_final = True\<rparr>)]\<rparr>,
     respawn_timers := [(''player2'', 3)]\<rparr>"

theorem sent_messages_are_read_back_witness:
  "decode_message strict_validate (encode_message (WorldStateSnapshot 12 example_world))
    = Inr (WorldStateSnapshot 12 example_world)"
  using sent_messages_are_read_back [OF strict.validator_axioms, of "WorldStateSnapshot 12 example_world"]
  by (simp add: valid_message_def encodable_world_def example_world_def udp_message_iff)

subsection \<open>What a receiver can be given\<close>

lemma mk_message_type: "mk_message m' = Inr m \<Longrightarrow> m = m' \<and> valid_message m"
  by (simp add: mk_message_Inr)

lemma enemy_of_json_speed: "enemy_of_json j = Inr en \<Longrightarrow> movement_speed en \<noteq> None"
  by (auto simp: enemy_of_json_def rbind_Inr_iff mk_enemy_def split: option.splits)

lemma as_dict_values:
  assumes "as_dict r j = Inr d" and "v \<in> snd ` set d"
  shows "\<exists>j. r j = Inr v"
proof -
  obtain kjs where "map_res (\<lambda>(k, j). rbind (r j) (\<lambda>x. Inr (k, x))) kjs = Inr d"
    using assms(1) by (cases j) auto
  then have rel: "list_all2 (\<lambda>(k, j) kv. r j = Inr (snd kv)) kjs d"
    by (auto simp: map_res_Inr_iff rbind_Inr_iff elim: list_all2_mono)
  obtain k where "(k, v) \<in> set d"
    using assms(2) by auto
  then obtain i where "i < length d" "d ! i = (k, v)"
    by (auto simp: in_set_conv_nth)
  then have "r (snd (kjs ! i)) = Inr v"
    using list_all2_nthD2 [OF rel, of i] by (simp add: case_prod_beta)
  then show ?thesis ..
qed

lemma decoded_world_encodable:
  assumes "decode_world_state d = Inr w"
  shows "encodable_world w"
proof -
  obtain data where "from_dict data = Inr w"
    using assms by (auto simp: decode_world_state_def split: json.splits)
  then obtain env_data where "environment_of_json env_data = Inr (environment w)"
    by (auto simp: from_dict_def rbind_Inr_iff)
  then have "enemies (environment w) = [] \<or>
      (\<exists>j. as_dict enemy_of_json j = Inr (enemies (environment w)))"
    by (cases "environment w")
      (auto simp: environment_of_json_def rbind_Inr_iff item_or_def split: option.splits)
  then show ?thesis
    using as_dict_values enemy_of_json_speed by (fastforce simp: encodable_world_def)
qed

lemma decoded_world_messages:
  "decode_world_state_snapshot v = Inr m \<Longrightarrow> \<exists>n w. m = WorldStateSnapshot n w \<and> encodable_world w"
  "decode_initial_state_sync v = Inr m \<Longrightarrow> \<exists>w. m = InitialStateSync w \<and> encodable_world w"
  by (auto simp: decode_world_state_snapshot_def decode_initial_state_sync_def rbind_Inr_iff
      mk_message_Inr dest: decoded_world_encodable)

lemma roster_of_json_entries:
  assumes "roster_of_json j = Inr r"
  shows "\<forall>e \<in> set r. valid_entry e"
proof -
  obtain js where "fold_res (\<lambda>j r. rbind (entry_of_json j) (\<lambda>e. roster_add e r)) js [] = Inr r"
    using assms by (auto simp: roster_of_json_def split: json.splits)
  then show ?thesis
    by (rule fold_res_inv)
      (auto simp: rbind_Inr_iff entry_of_json_def validate_entry_iff roster_add_iff)
qed

lemma decoded_roster: "decode_roster_update v = Inr m \<Longrightarrow>
    \<exists>r. m = RosterUpdate r \<and> valid_message m \<and> (\<forall>e \<in> set r. valid_entry e)"
  by (auto simp: decode_roster_update_def rbind_Inr_iff mk_message_Inr item_def
      dest: roster_of_json_entries split: option.splits)

text \<open>Construction: the message has the type of its branch and passed its constructor.\<close>

lemmas built = rbind_Inr_iff mk_message_Inr

lemma election_build_sound:
  assumes "(tag, s, build) \<in> set election_branches" and "build v = Inr m"
  shows "valid_message m \<and> message_type m = tag \<and> wire_ok m"
  using assms
  by (auto simp: election_branches_def two_strings_def decode_new_host_claim_def
      decode_reconnection_ack_def built)

lemma udp_build_sound:
  assumes "(tag, s, build) \<in> set udp_branches" and "build v = Inr m"
  shows "valid_message m \<and> message_type m = tag \<and> wire_ok m"
proof (cases "(tag, s, build) \<in> set election_branches")
  case True
  then show ?thesis using election_build_sound assms(2) by blast
next
  case False
  with assms show ?thesis
    by (auto simp: udp_branches_def two_strings_def decode_player_input_def built valid_message_def
        dest: decoded_world_messages)
qed

lemma sensible_types [simp]: "sensible nonempty" "sensible nonnegative"
  by (simp_all add: field_types)

lemma accepted_string:
  assumes "validator validate" and "sensible (TModel s)" and "validate s d = Some v"
    and "(k, nonempty, None) \<in> set s" and "item as_str k v = Inr x"
  shows "x \<noteq> []"
proof -
  obtain j where "map_of v k = Some j" "fits nonempty j"
    using validator.accepted_field [OF assms(1-4)] by blast
  then show ?thesis
    using assms(5) by (cases j) (auto simp: item_def nonempty_def)
qed

lemma accepted_index:
  assumes "validator validate" and "sensible (TModel s)" and "validate s d = Some v"
    and "(k, nonnegative, None) \<in> set s" and "item as_int k v = Inr i"
  shows "0 \<le> i"
proof -
  obtain j where "map_of v k = Some j" "fits nonnegative j"
    using validator.accepted_field [OF assms(1-4)] by blast
  then show ?thesis
    using assms(5) by (cases j) (auto simp: item_def nonnegative_def split: if_splits)
qed

lemma decoded_block:
  "decode_block_destroyed v = Inr m \<Longrightarrow> \<exists>pos. m = BlockDestroyedMessage pos \<and> valid_message m"
proof -
  assume "decode_block_destroyed v = Inr m"
  then obtain ps where "(case ps of [x, y] \<Rightarrow> mk_message (BlockDestroyedMessage (of_int x, of_int y))
      | _ \<Rightarrow> Inl (MessageValidationError ''Invalid position'')) = Inr m"
    by (auto simp: decode_block_destroyed_def rbind_Inr_iff)
  moreover from this obtain x y where "ps = [x, y]"
    by (cases ps; cases "tl ps"; cases "tl (tl ps)") auto
  ultimately show ?thesis
    by (auto simp: mk_message_Inr)
qed

lemma ws_build_sound:
  assumes "(tag, s, build) \<in> set ws_branches" and "build v = Inr m"
  shows "valid_message m \<and> message_type m = tag"
proof (cases "(tag, s, build) \<in> set election_branches")
  case True
  then show ?thesis using election_build_sound assms(2) by blast
next
  case False
  with assms show ?thesis
    by (auto simp: ws_branches_def two_strings_def one_string_def session_and_index_def
        decode_session_create_def decode_session_join_def decode_session_recreate_def
        decode_session_joined_def built valid_message_def
        dest!: decoded_world_messages decoded_roster decoded_block)
qed

lemma ws_build_wire_ok:
  assumes "validator validate" and "(tag, s, build) \<in> set ws_branches"
    and "validate s d = Some v" and "build v = Inr m"
  shows "wire_ok m"
proof -
  note accepted = accepted_string [OF assms(1) _ assms(3)] accepted_index [OF assms(1) _ assms(3)]
  have "message_type m = tag"
    using ws_build_sound [OF assms(2,4)] ..
  moreover from this have "ws_message m"
    using assms(2) by (force simp: ws_message_def)
  ultimately consider "tag = ''session_leave''" | "tag = ''session_closed''"
    | "tag = ''session_join_rejected''" | "tag = ''roster_update''" | "tag = ''initial_state_sync''"
    | "wire_ok m"
    by (cases m; auto simp: ws_message_iff)
  then show ?thesis
  proof cases
    case 1
    then have "s = SessionLeaveSchema" "build = session_and_index SessionLeave"
      using assms(2) by (auto simp: branch_defs)
    then show ?thesis
      using assms(4) accepted(1) [of "''session_id''"] accepted(2) [of "''join_index''"]
      by (auto simp: session_and_index_def built SessionLeaveSchema_def)
  next
    case 2
    then have "s = SessionClosedSchema" "build = one_string ''session_id'' SessionClosed"
      using assms(2) by (auto simp: branch_defs)
    then show ?thesis
      using assms(4) accepted(1) [of "''session_id''"]
      by (auto simp: one_string_def built SessionClosedSchema_def)
  next
    case 3
    then have "s = SessionJoinRejectedSchema"
      "build = two_strings ''session_id'' ''reason'' SessionJoinRejected"
      using assms(2) by (auto simp: branch_defs)
    then show ?thesis
      using assms(4) accepted(1) [of "''session_id''"] accepted(1) [of "''reason''"]
      by (auto simp: two_strings_def built SessionJoinRejectedSchema_def)
  next
    case 4
    then have "build = decode_roster_update"
      using assms(2) by (auto simp: branch_defs)
    then show ?thesis
      using assms(4) decoded_roster by fastforce
  next
    case 5
    then have "build = decode_initial_state_sync"
      using assms(2) by (auto simp: branch_defs)
    then show ?thesis
      using assms(4) decoded_world_messages(2) by fastforce
  qed
qed

lemma decode_with_result:
  "decode_with branches transport validate j = Inr m \<longleftrightarrow>
     (\<exists>d tag s build v. j = JObj d \<and> map_of d ''message_type'' = Some (JStr tag) \<and>
        map_of branches tag = Some (s, build) \<and> validate s d = Some v \<and> build v = Inr m)"
  by (auto simp: decode_with_def split: json.splits option.splits)

text \<open>C9: the messages a receiver can be handed, whatever arrives on the wire, are exactly those the
  sender's constructors and schemas admit: decoding never yields a message with an empty name, a
  port or an index out of range, an invalid roster or an incomplete enemy.\<close>

theorem wire_is_exact:
  assumes "validator validate"
  shows "((\<exists>j. decode_message validate j = Inr m) \<longleftrightarrow> udp_message m \<and> valid_message m \<and> wire_ok m) \<and>
    ((\<exists>j. decode_ws_message validate j = Inr m) \<longleftrightarrow> ws_message m \<and> valid_message m \<and> wire_ok m)"
proof (intro conjI iffI; (elim exE conjE)?)
  fix j
  assume "decode_message validate j = Inr m"
  then obtain tag s build v where branch: "(tag, s, build) \<in> set udp_branches" "build v = Inr m"
    by (auto simp: decode_message_def decode_with_result dest: map_of_SomeD)
  show "udp_message m" "valid_message m" "wire_ok m"
    using udp_build_sound [OF branch] branch(1) by (force simp: udp_message_def)+
next
  fix j
  assume "decode_ws_message validate j = Inr m"
  then obtain tag s build d v where branch: "(tag, s, build) \<in> set ws_branches"
      and data: "validate s d = Some v" "build v = Inr m"
    by (auto simp: decode_ws_message_def decode_with_result dest: map_of_SomeD)
  show "ws_message m" "valid_message m" "wire_ok m"
    using ws_build_sound [OF branch data(2)] ws_build_wire_ok [OF assms branch data] branch
    by (force simp: ws_message_def)+
next
  assume "udp_message m" "valid_message m" "wire_ok m"
  from udp_branch_reads [OF this(2,3,1)] show "\<exists>j. decode_message validate j = Inr m"
    unfolding decode_message_def by (blast intro: branch_decodes [OF assms])
next
  assume "ws_message m" "valid_message m" "wire_ok m"
  from ws_branch_reads [OF this(2,3,1)] show "\<exists>j. decode_ws_message validate j = Inr m"
    unfolding decode_ws_message_def by (blast intro: branch_decodes [OF assms])
qed

theorem wire_is_exact_witness:
  "(\<exists>j. decode_ws_message strict_validate j = Inr (SessionLeave ''s'' 2)) \<and>
   \<not> (\<exists>j. decode_ws_message strict_validate j = Inr (SessionLeave ''s'' (- 1)))"
proof -
  note ws = wire_is_exact [OF strict.validator_axioms, THEN conjunct2]
  show ?thesis
    unfolding ws by (simp add: valid_message_def ws_message_iff)
qed

end
