(* ===== verification/Replication.thy ===== *)
theory Replication
  imports Node_Props Serializer_Props
begin

text \<open>
  Host, wire and client put together: the world a host's frame ends with is what a client holds
  after it has received the snapshot of that frame.
\<close>

lemma shadow_fold_engine [simp]: "node_engine (update_shadow_copies now s n) = node_engine n"
  unfolding update_shadow_copies_def
  by (rule fold_inv [where P = "\<lambda>m. node_engine m = node_engine n"]) (simp_all add: Let_def split: prod.split)

text \<open>What a client takes over from a snapshot, whatever inputs it replays on top of it.\<close>

definition replicates :: "world_state \<Rightarrow> node \<Rightarrow> bool" where
  "replicates w c \<longleftrightarrow>
     dict_keys (characters (node_world c)) = dict_keys (characters w) \<and>
     dict_keys (enemies (environment (node_world c))) = dict_keys (enemies (environment w)) \<and>
     respawn_timers (node_world c) = respawn_timers w \<and>
     victory (node_world c) = victory w \<and> victory_player_id (node_world c) = victory_player_id w \<and>
     n_last_snapshot_sequence c = sequence_number w \<and>
     sequence_number (node_world c) = sequence_number w + node_pending c"

lemma node_reconcile_replicates:
  assumes "engine_wf (node_engine c)" and "world_wf (snapshot_world s)"
    and "\<not> is_authoritative (node_engine c)"
    and "snapshot_seq s = sequence_number (snapshot_world s)"
  shows "\<exists>m. node_reconcile clks s (c\<lparr>n_last_snapshot_sequence := snapshot_seq s\<rparr>) = Inr m \<and>
    replicates (snapshot_world s) m"
proof (cases "n_prediction c")
  case Noop_Predictor
  then show ?thesis
    using assms(4) by (simp add: node_reconcile_def replicates_def on_world_def on_engine_def node_pending_def)
next
  case (Predictor p)
  let ?w = "snapshot_world s"
  obtain e' p' where e': "reconcile clks s (node_engine c) p = Inr (e', p')"
      "evolves (adopt_snapshot ?w (node_engine c)) e'" "engine_seq e' = sequence_number ?w + pending_count p'"
    using reconcile_total [OF assms(1,2), of clks p] by (auto simp: pending_count_def)
  then have "replica_frame (adopt_snapshot ?w (node_engine c)) e'"
    using assms(3) by (simp add: evolves_def)
  then show ?thesis
    using e'(1,3) assms(4) Predictor
    by (simp add: node_reconcile_def replicates_def replica_frame_def on_engine_def node_pending_def
        engine_seq_def adopt_snapshot_def Let_def)
qed

lemma apply_snapshot_replicates:
  assumes "node_wf True c" and "world_good (snapshot_world s)"
    and "\<not> is_authoritative (node_engine c)" and "n_last_snapshot_sequence c < snapshot_seq s"
    and "snapshot_seq s = sequence_number (snapshot_world s)"
  shows "\<exists>c'. apply_snapshot now rd s c = Inr c' \<and> replicates (snapshot_world s) c'"
proof -
  obtain m where m: "node_reconcile (rd_ticks rd) s (c\<lparr>n_last_snapshot_sequence := snapshot_seq s\<rparr>) = Inr m"
      "replicates (snapshot_world s) m"
    using node_reconcile_replicates [of c s "rd_ticks rd"] assms(2,3,5) engine_goodD(1) node_wfD(8) [OF assms(1)]
    by (auto simp: world_good_def)
  have "n_prediction (update_shadow_copies t s m) = n_prediction m" for t
    unfolding update_shadow_copies_def
    by (rule fold_inv [where P = "\<lambda>x. n_prediction x = n_prediction m"]) (simp_all add: Let_def split: prod.split)
  then show ?thesis
    using m assms(4)
    by (simp add: apply_snapshot_def replicates_def shadow_fold_frame node_pending_def Let_def)
qed

lemma world_good_encodable: "world_good w \<Longrightarrow> encodable_world w"
  unfolding world_good_def named_world_def encodable_world_def by blast


definition example_replica :: node where
  "example_replica = on_engine (\<lambda>e. e\<lparr>is_authoritative := False\<rparr>) example_peer"

lemma example_replica_wf: "node_wf True example_replica"
  unfolding example_replica_def
  using node_wfD(8) [OF example_peer_wf] by (intro on_engine_wf [OF example_peer_wf]) simp_all

definition example_host :: node where
  "example_host = example_peer\<lparr>n_role := HOST, n_last_input_time := []\<rparr>"

lemma example_host_wf: "node_wf False example_host"
  unfolding example_host_def
  using node_wf_weaken [OF role_wf [OF example_peer_wf, of HOST], of False] by (simp add: node_wf_defs)

lemma send_events_roster:
  assumes "send_events n = Inr n'"
  shows "n_roster n' = n_roster n \<and> n_local_player_id n' = n_local_player_id n"
proof -
  obtain m where m: "fold_res send_game_event (events (node_engine n)) n = Inr m"
      "n' = on_engine (\<lambda>e. e\<lparr>events := []\<rparr>) m"
    using assms by (auto simp: send_events_def rbind_Inr_iff)
  have "n_roster m = n_roster n \<and> n_local_player_id m = n_local_player_id n"
    by (rule fold_res_inv [OF m(1)]) (auto simp: send_game_event_def with_message_Inr)
  then show ?thesis using m(2) by (simp add: on_engine_def)
qed

lemma send_snapshot_roster:
  "n_roster (send_world_state_snapshot n) = n_roster n \<and>
     n_local_player_id (send_world_state_snapshot n) = n_local_player_id n"
proof -
  have "n_roster (fold (\<lambda>e. emit (f e)) es n) = n_roster n \<and>
      n_local_player_id (fold (\<lambda>e. emit (f e)) es n) = n_local_player_id n" for f es
    by (rule fold_inv [where P = "\<lambda>m. n_roster m = n_roster n \<and> n_local_player_id m = n_local_player_id n"])
      simp_all
  then show ?thesis by (simp add: send_world_state_snapshot_def Let_def)
qed

lemma quiet_frame_roster:
  assumes "process_host_frame quiet_host inp n = Inr (w, n')" and "n_last_input_time n = []"
  shows "n_roster n' = n_roster n \<and> n_local_player_id n' = n_local_player_id n"
proof -
  let ?n1 = "record_host_frame_interval (ho_frame_at quiet_host) n"
  obtain n6 n7 n9 where n: "host_tick quiet_host inp (?n1\<lparr>n_host_input_window := n_host_input_window ?n1 + 0\<rparr>) = Inr n6"
      "send_events n6 = Inr n7" "maybe_broadcast_roster (send_world_state_snapshot n7) = Inr n9"
      "n' = maybe_log_host_diagnostics n9"
    using assms
    by (auto simp: process_host_frame_def quiet_host_def check_for_rejoining_players_def
        check_player_disconnections_def drain_remote_input_packets_def rbind_Inr_iff Let_def
        record_host_frame_interval_def)
  have "n_roster n6 = n_roster n \<and> n_local_player_id n6 = n_local_player_id n"
    using n(1) by (auto simp: host_tick_def rbind_Inr_iff record_host_frame_interval_def)
  moreover have "n_roster n9 = n_roster n7 \<and> n_local_player_id n9 = n_local_player_id n7"
    using n(3) send_snapshot_roster [of n7]
    by (auto simp: maybe_broadcast_roster_def with_message_Inr split: if_splits)
  moreover have "n_roster n' = n_roster n9 \<and> n_local_player_id n' = n_local_player_id n9"
    by (simp add: n(4) maybe_log_host_diagnostics_def)
  ultimately show ?thesis using send_events_roster [OF n(2)] by simp
qed


subsection \<open>Host migration\<close>

lemma resync_frame [simp]:
  "n_roster (resync_environment_from_buffer n) = n_roster n"
  "n_remote_host (resync_environment_from_buffer n) = n_remote_host n"
  "n_reconnected (resync_environment_from_buffer n) = n_reconnected n"
  "n_last_snapshot_sequence (resync_environment_from_buffer n) = n_last_snapshot_sequence n"
  by (simp_all add: resync_environment_from_buffer_def on_world_def on_engine_def Let_def
      split: option.split)

lemma repoint_frame [simp]:
  "n_remote_host (repoint_roster_at ip n) = n_remote_host n"
  "n_reconnected (repoint_roster_at ip n) = n_reconnected n"
  "n_last_snapshot_sequence (repoint_roster_at ip n) = n_last_snapshot_sequence n"
  by (simp_all add: repoint_roster_at_def evict_crashed_host_def evict_player_def on_world_def on_engine_def
      Let_def split: option.split)

lemma find_SomeD: "find P xs = Some y \<Longrightarrow> y \<in> set xs \<and> P y"
  by (induction xs) (auto split: if_splits)

lemma repoint_roster:
  assumes "e \<in> set (without_host n)" and "entry_host e = ip"
    and "\<forall>x \<in> set (without_host n). entry_host x = ip \<longrightarrow> entry_player_id x = pid"
  shows "n_roster (repoint_roster_at ip n) = promote_host pid (without_host n)"
proof -
  have roster: "n_roster (evict_crashed_host n) = without_host n"
    by (simp add: without_host_def split: option.split)
  obtain x where x: "find (\<lambda>e. entry_host e = ip) (roster_all (without_host n)) = Some x"
    using assms(1,2) by (cases "find (\<lambda>e. entry_host e = ip) (roster_all (without_host n))")
      (auto simp: find_None_iff roster_all_def)
  have "x \<in> set (without_host n)" "entry_host x = ip"
    using x find_SomeD by (fastforce simp: roster_all_def)+
  then have "entry_player_id x = pid"
    using assms(3) by blast
  with x show ?thesis
    by (simp add: repoint_roster_at_def Let_def roster del: evict_crashed_host_frame)
qed

definition follows :: "string \<Rightarrow> node \<Rightarrow> bool" where
  "follows ip n \<longleftrightarrow> n_remote_host n = ip \<and> n_reconnected n \<and> n_last_snapshot_sequence n = 0 \<and>
     n_coordinator n = None \<and> \<not> n_election_triggered n \<and> n_pending_acks n = {||} \<and> n_claim_deadline n = 0"

lemma without_host_roster: "n_roster n = n_roster n' \<Longrightarrow> without_host n = without_host n'"
  unfolding without_host_def by (rule option.case_cong) simp_all


definition example_survivor :: node where
  "example_survivor = example_peer\<lparr>n_local_player_id := ''player3'', n_local_ip := ''10.0.0.3'', n_join_index := 2\<rparr>"


end
