(* ===== verification/Readmission.thy ===== *)
theory Readmission
  imports Replication
begin

text \<open>
  The promoted host and its new lobby put together: the session the node re-creates readmits the
  players of the old one.
\<close>

text \<open>The slots of a session: the node's own and, apart from it, those of the others.\<close>

definition slots_wf :: "node \<Rightarrow> bool" where
  "slots_wf n \<longleftrightarrow> 0 \<le> n_join_index n \<and> n_join_index n < MAX_PLAYERS \<and>
     (\<forall>j \<in> set (reserved_indices n). 0 \<le> j \<and> j < MAX_PLAYERS \<and> j \<noteq> n_join_index n)"

lemma set_reserved_indices:
  "set (reserved_indices n) = entry_join_index ` set (other_entries n) \<union> fst ` set (n_rejoin_states n)"
  by (simp add: reserved_indices_def)

lemma valid_recreate:
  assumes "identity_wf n" and "roster_wf (n_roster n)" and "slots_wf n"
  shows "valid_message (recreate_message n)"
proof -
  have "0 \<le> (if roster_all (n_roster n) = [] then 0
      else Max (entry_join_index ` set (roster_all (n_roster n))) + 1)"
  proof (cases "roster_all (n_roster n)")
    case (Cons e es)
    then have "e \<in> set (n_roster n)" by (metis list.set_intros(1) roster_all_def set_sort)
    then have "0 \<le> entry_join_index e"
      using assms(2) by (simp add: roster_wf_def valid_entry_def)
    moreover have "entry_join_index e \<le> Max (entry_join_index ` set (roster_all (n_roster n)))"
      using Cons by (intro Max_ge) simp_all
    ultimately have "0 \<le> Max (entry_join_index ` set (roster_all (n_roster n)))"
      by linarith
    then show ?thesis by simp
  qed simp
  then show ?thesis
    using assms(1,3)
    by (auto simp: recreate_message_def Let_def valid_SessionRecreate identity_wf_def slots_wf_def port_ok_def
        HOST_UDP_PORT_def reserved_indices_def)
qed

text \<open>The record the new lobby starts with.\<close>

definition recreated :: "node \<Rightarrow> conn \<Rightarrow> session_record \<Rightarrow> bool" where
  "recreated n c s \<longleftrightarrow>
     map slot_roster_entry (entries s) =
       [\<lparr>entry_player_id = player_id_for (n_join_index n), entry_host = n_local_ip n,
         entry_udp_port = HOST_UDP_PORT, entry_join_index = n_join_index n, entry_status = CONNECTED,
         entry_is_host = True\<rparr>] \<and>
     connections s = [c] \<and> session_active s \<and> reserved_join_indices s = set (reserved_indices n)"

lemma recreate_session:
  assumes "lobby_wf (registry st)" and "valid_message (recreate_message n)"
  shows "\<exists>st1 s. handle_message c fresh (recreate_message n) st = (st1, None) \<and> lobby_wf (registry st1) \<and>
    map_of (registry st1) (n_session_id n) = Some s \<and> recreated n c s"
proof -
  obtain nji where m: "recreate_message n =
      SessionRecreate (n_session_id n) nji (n_local_ip n) HOST_UDP_PORT (n_join_index n) (reserved_indices n)"
    by (simp add: recreate_message_def Let_def)
  note v = assms(2) [unfolded m valid_SessionRecreate]
  let ?e = "\<lparr>entry_player_id = player_id_for (n_join_index n), entry_host = n_local_ip n,
      entry_udp_port = HOST_UDP_PORT, entry_join_index = n_join_index n, entry_status = CONNECTED,
      entry_is_host = True\<rparr>"
  have e: "validate_entry ?e = Inr ?e" "roster_add ?e [] = Inr [?e]"
    using v by (simp_all add: valid_entry_def port_ok_def roster_add_iff)
  have ack: "valid_message (SessionCreated (n_session_id n) 0)"
    using v by (simp add: message_checks)
  have "fine (handle_message c fresh (recreate_message n) st)"
    unfolding m by (rule handle_recreate_fine [OF assms(1)]) (use assms(2) in \<open>simp add: m\<close>)
  then show ?thesis
    by (auto simp: m e send_built_ok [OF ack] register_active_session_def AList.update_conv'
        connect_def add_connection_def recreated_def roster_all_def entry_slot_def slot_roster_entry_def)
qed

text \<open>C13: the session a promoted host re-creates takes its players back: what it tells its new lobby is
  a message the lobby decodes and accepts, the new session lists the promoted node as the host, and
  every survivor and every evicted player that then asks for its old index gets exactly that index,
  the running game, and a place in the roster the host is sent.\<close>

theorem migrated_session_readmits:
  assumes "validator validate" and "node_wf b n" and "slots_wf n" and "lobby_wf (registry st)"
    and "j \<in> entry_join_index ` set (other_entries n) \<or> j \<in> fst ` set (n_rejoin_states n)"
    and "ip \<noteq> []" and "port_ok port"
  shows "\<exists>n' m st1 st2 r. relaunch_lobby_for_rejoin Lobby_Ack n = Inr n' \<and> Send_Lobby m \<in> set (n_out n') \<and>
    decode_ws_message validate (JObj (encode_ws_message m)) = Inr m \<and>
    handle_message c fresh m st = (st1, None) \<and>
    handle_message c' fresh' (SessionJoin (n_session_id n) (player_id_for j) ip port (Some j)) st1 = (st2, None) \<and>
    {(c', SessionJoined j), (c', GameStart (n_session_id n)), (c, RosterUpdate r)} \<subseteq> set (sent st2) \<and>
    map (\<lambda>e. (entry_join_index e, entry_is_host e)) r = [(n_join_index n, True), (j, False)]"
proof -
  let ?m = "recreate_message n"
  have valid: "valid_message ?m"
    by (rule valid_recreate [OF node_wfD(3,2) [OF assms(2)] assms(3)])
  have emit: "recreate_message (emit x n) = ?m" for x
    by (simp add: recreate_message_def reserved_indices_def emit_def other_entries_def)
  obtain n' where n': "relaunch_lobby_for_rejoin Lobby_Ack n = Inr n'" "Send_Lobby ?m \<in> set (n_out n')"
    using valid by (simp add: relaunch_lobby_for_rejoin_def emit Let_def)
  have "ws_message ?m" "wire_ok ?m"
    by (simp_all add: recreate_message_def Let_def ws_message_iff)
  then have read: "decode_ws_message validate (JObj (encode_ws_message ?m)) = Inr ?m"
    using read_back [OF assms(1) valid] by blast
  obtain st1 s where st1: "handle_message c fresh ?m st = (st1, None)" "lobby_wf (registry st1)"
      "map_of (registry st1) (n_session_id n) = Some s" "recreated n c s"
    using recreate_session [OF assms(4) valid, of c fresh] by blast
  have j: "j \<in> reserved_join_indices s" "0 \<le> j" "j < MAX_PLAYERS"
    using st1(4) assms(3,5) by (auto simp: recreated_def slots_wf_def set_reserved_indices)
  have "valid_message (SessionJoin (n_session_id n) (player_id_for j) ip port (Some j))"
    using node_wfD(3) [OF assms(2)] assms(6,7) j by (simp add: valid_SessionJoin identity_wf_def)
  from reclaim_slot [OF st1(2,3) this j(1), of c' fresh'] obtain s' st2 where st2:
      "handle_message c' fresh' (SessionJoin (n_session_id n) (player_id_for j) ip port (Some j)) st1 = (st2, None)"
      "map_of (registry st2) (n_session_id n) = Some s'" "session_id st2 = Some (n_session_id n)"
      "entries s' = entries s @ [new_slot j ip port False]"
      "reserved_join_indices s' = reserved_join_indices s - {j}"
      "sent st2 = sent st1 @ [(c', SessionJoined j)]
        @ map (\<lambda>x. (x, RosterUpdate (map slot_roster_entry (entries s')))) (connections s @ [c'])
        @ (if session_active s then [(c', GameStart (n_session_id n))] else [])"
    by (elim exE conjE)
  let ?r = "map slot_roster_entry (entries s')"
  have "map (\<lambda>e. (entry_join_index e, entry_is_host e)) ?r = [(n_join_index n, True), (j, False)]"
  proof -
    have "map slot_roster_entry (entries s') = map slot_roster_entry (entries s) @ [slot_roster_entry (new_slot j ip port False)]"
      by (simp add: st2(4))
    then show ?thesis
      using st1(4) by (simp add: recreated_def slot_roster_entry_def new_slot_def del: map_map)
  qed
  moreover have "{(c', SessionJoined j), (c', GameStart (n_session_id n)), (c, RosterUpdate ?r)} \<subseteq> set (sent st2)"
    using st1(4) by (simp add: st2(6) recreated_def)
  ultimately show ?thesis
    by (intro exI [of _ n'] exI [of _ ?m] exI [of _ st1] exI [of _ st2] exI [of _ ?r] conjI n' read st1(1) st2(1))
qed

definition example_successor :: node where
  "example_successor = example_peer\<lparr>
     n_roster := [example_entry ''player2'' 1 True ''10.0.0.2'', example_entry ''player3'' 2 False ''10.0.0.3''],
     n_rejoin_states := [(0, new_player ''player1'' 0 0 0)]\<rparr>"

theorem migrated_session_readmits_witness:
  "\<exists>n' m st1 st2. relaunch_lobby_for_rejoin Lobby_Ack example_successor = Inr n' \<and>
    Send_Lobby m \<in> set (n_out n') \<and>
    handle_message 1 ''f'' m \<lparr>registry = [], session_id = None, sent = []\<rparr> = (st1, None) \<and>
    handle_message 2 ''g'' (SessionJoin ''s'' (player_id_for 0) ''10.0.0.1'' 50010 (Some 0)) st1 = (st2, None) \<and>
    (2, SessionJoined 0) \<in> set (sent st2)"
proof -
  have wf: "node_wf True example_successor"
    using example_peer_wf
    by (simp add: node_wf_defs example_successor_def example_entry_def roster_wf_def valid_entry_def)
  have sid: "n_session_id example_successor = ''s''"
    by (simp add: example_successor_def example_peer_def)
  have "other_entries example_successor = [example_entry ''player3'' 2 False ''10.0.0.3'']"
    by (simp add: other_entries_def roster_all_def example_entry_def example_successor_def example_peer_def)
  then have slots: "slots_wf example_successor"
    by (simp add: slots_wf_def set_reserved_indices MAX_PLAYERS_def example_entry_def)
      (simp add: example_successor_def example_peer_def)
  have crashed: "0 \<in> entry_join_index ` set (other_entries example_successor) \<or>
      0 \<in> fst ` set (n_rejoin_states example_successor)"
    by (simp add: example_successor_def)
  have lobby: "lobby_wf (registry \<lparr>registry = [], session_id = None, sent = []\<rparr>)"
    by simp
  have port: "port_ok 50010" by (simp add: port_ok_def)
  from migrated_session_readmits [OF strict.validator_axioms wf slots lobby crashed _ port, of "''10.0.0.1''" 1 "''f''" 2 "''g''"]
  show ?thesis
    unfolding sid by (simp only: list.distinct not_False_eq_True simp_thms insert_subset empty_subsetI) blast
qed

end
