(* ===== verification/Event_Server.thy ===== *)
theory Event_Server
  imports Config "HOL-Library.Multiset"
begin

text \<open>
  The in-game event relay: the WebSocket server (\<^verbatim>\<open>network/game_events/server.py\<close>) with its two
  brokers (\<^verbatim>\<open>GameEventBroker\<close> there and \<^verbatim>\<open>HttpGameEventBroker\<close> in
  \<^verbatim>\<open>network/game_events/broker.py\<close>).

  The server is one event loop.  A coroutine runs without interruption up to its next \<^verbatim>\<open>await\<close>, so
  the operations below are the stretches of code between two awaits: an endpoint up to its wait, the
  \<^verbatim>\<open>finally\<close> block of an endpoint, and the turns of a broadcast or heartbeat between two sends.  A
  broadcast iterates over the live list \<^verbatim>\<open>_connections\<close>: like Python's list iterator it holds an
  index into a list that other coroutines change while it is suspended.  A WebSocket is the natural
  number \<^verbatim>\<open>id(ws)\<close>; how a send ends is an argument.
\<close>

type_synonym ws = nat

definition GAME_EVENT_HEARTBEAT_INTERVAL :: flt where "GAME_EVENT_HEARTBEAT_INTERVAL = 5"

definition PING :: string where "PING = ''{\"type\":\"ping\"}''"

text \<open>A suspended \<^verbatim>\<open>_broadcast\<close> or heartbeat round: it waits for the send to \<open>bc_target\<close>.\<close>

record relay_round =
  bc_text :: string
  bc_index :: nat
  bc_target :: ws
  bc_dead :: "ws list"

record event_server =
  es_connections :: "ws list"
  es_players :: "(ws \<times> ident) list"
  es_events :: "(ws \<times> bool) list"
  es_disconnected :: "ident list"
  es_loop :: bool
  es_delivered :: "(ws \<times> string) list"

definition event_server_start :: event_server where
  "event_server_start = \<lparr>es_connections = [], es_players = [], es_events = [],
     es_disconnected = [], es_loop = False, es_delivered = []\<rparr>"

subsection \<open>Endpoints\<close>

definition endpoint_open :: "ws \<Rightarrow> ident \<Rightarrow> event_server \<Rightarrow> event_server" where
  "endpoint_open c pid s =
     (let s1 = s\<lparr>es_connections := es_connections s @ [c],
                 es_events := AList.update c False (es_events s)\<rparr>
      in if pid \<noteq> [] then s1\<lparr>es_players := AList.update c pid (es_players s1)\<rparr> else s1)"

definition endpoint_close :: "ws \<Rightarrow> event_server \<Rightarrow> event_server" where
  "endpoint_close c s =
     (let s1 = s\<lparr>es_events := AList.delete c (es_events s)\<rparr>;
          s2 = (if c \<in> set (es_connections s1)
                then s1\<lparr>es_connections := remove1 c (es_connections s1)\<rparr> else s1);
          pid = map_of (es_players s2) c;
          s3 = s2\<lparr>es_players := AList.delete c (es_players s2)\<rparr>
      in case pid of
           None \<Rightarrow> s3
         | Some p \<Rightarrow> if p \<noteq> [] then s3\<lparr>es_disconnected := es_disconnected s3 @ [p]\<rparr> else s3)"

subsection \<open>Broadcasts\<close>

text \<open>The last loop of a round: wake the endpoints of the connections whose send failed.\<close>

definition signal_dead :: "ws list \<Rightarrow> event_server \<Rightarrow> event_server" where
  "signal_dead dead s =
     fold (\<lambda>c s. case map_of (es_events s) c of
         None \<Rightarrow> s
       | Some _ \<Rightarrow> s\<lparr>es_events := AList.update c True (es_events s)\<rparr>) dead s"

text \<open>One step of the list iterator, up to the next send; \<open>None\<close> when the round is over.\<close>

definition next_target ::
    "string \<Rightarrow> nat \<Rightarrow> ws list \<Rightarrow> event_server \<Rightarrow> relay_round option \<times> event_server" where
  "next_target txt i dead s =
     (if i < length (es_connections s)
      then (Some \<lparr>bc_text = txt, bc_index = i + 1, bc_target = es_connections s ! i,
                  bc_dead = dead\<rparr>, s)
      else (None, signal_dead dead s))"

definition broadcast_start :: "string \<Rightarrow> event_server \<Rightarrow> relay_round option \<times> event_server" where
  "broadcast_start txt s = next_target txt 0 [] s"

text \<open>
  \<open>Send_Failed\<close> is one of the three exceptions the loop catches; any other one ends the coroutine.
\<close>

datatype send_outcome = Send_Done | Send_Failed | Send_Raised

definition broadcast_resume ::
    "send_outcome \<Rightarrow> relay_round \<Rightarrow> event_server \<Rightarrow> relay_round option \<times> event_server" where
  "broadcast_resume out b s =
     (case out of
        Send_Done \<Rightarrow> next_target (bc_text b) (bc_index b) (bc_dead b)
          (s\<lparr>es_delivered := es_delivered s @ [(bc_target b, bc_text b)]\<rparr>)
      | Send_Failed \<Rightarrow> next_target (bc_text b) (bc_index b) (bc_dead b @ [bc_target b]) s
      | Send_Raised \<Rightarrow> (None, s))"

definition heartbeat_start :: "event_server \<Rightarrow> relay_round option \<times> event_server" where
  "heartbeat_start s = next_target PING 0 [] s"

text \<open>\<^verbatim>\<open>send_game_event\<close>: without a running loop the event is dropped silently.\<close>

definition relay_send :: "string \<Rightarrow> event_server \<Rightarrow> relay_round option \<times> event_server" where
  "relay_send payload s = (if \<not> es_loop s then (None, s) else broadcast_start payload s)"

definition relay_disconnected :: "event_server \<Rightarrow> ident option \<times> event_server" where
  "relay_disconnected s =
     (case es_disconnected s of
        [] \<Rightarrow> (None, s)
      | p # ps \<Rightarrow> (Some p, s\<lparr>es_disconnected := ps\<rparr>))"

definition relay_reset :: "event_server \<Rightarrow> event_server" where
  "relay_reset s = s\<lparr>es_connections := [], es_players := [], es_events := [], es_disconnected := []\<rparr>"

definition relay_launch :: "event_server \<Rightarrow> event_server" where
  "relay_launch s = s\<lparr>es_loop := True\<rparr>"

subsection \<open>A round that nothing interrupts\<close>

lemma signal_dead_frame [simp]:
  "es_connections (signal_dead dead s) = es_connections s"
  "es_delivered (signal_dead dead s) = es_delivered s"
  "es_players (signal_dead dead s) = es_players s"
  "es_disconnected (signal_dead dead s) = es_disconnected s"
  unfolding signal_dead_def by (induction dead arbitrary: s) (simp_all split: option.split)

lemma signal_dead_events:
  "map_of (es_events (signal_dead dead s)) c =
     (if c \<in> set dead \<and> map_of (es_events s) c \<noteq> None then Some True
      else map_of (es_events s) c)"
  unfolding signal_dead_def
  by (induction dead arbitrary: s) (auto simp: AList.update_conv' split: option.split)

lemma signal_dead_dom:
  "map_of (es_events (signal_dead dead s)) c = None \<longleftrightarrow> map_of (es_events s) c = None"
  by (simp add: signal_dead_events)

lemma broadcast_resume_Some:
  assumes "broadcast_resume out b s = (Some b', s')"
  shows "es_connections s' = es_connections s" "bc_index b' = bc_index b + 1"
    "bc_index b < length (es_connections s)"
    "length (es_connections s') - bc_index b' < length (es_connections s) - bc_index b"
  using assms by (auto simp: broadcast_resume_def next_target_def split: send_outcome.splits if_splits)

function run_broadcast ::
    "(ws \<Rightarrow> send_outcome) \<Rightarrow> relay_round \<Rightarrow> event_server \<Rightarrow> event_server" where
  "run_broadcast out b s =
     (case broadcast_resume (out (bc_target b)) b s of
        (None, s') \<Rightarrow> s'
      | (Some b', s') \<Rightarrow> run_broadcast out b' s')"
  by pat_completeness auto

termination
  by (relation "measure (\<lambda>(out, b, s). length (es_connections s) - bc_index b)")
    (auto dest: broadcast_resume_Some(4) [OF sym])

declare run_broadcast.simps [simp del]

definition run_round :: "(ws \<Rightarrow> send_outcome) \<Rightarrow> string \<Rightarrow> event_server \<Rightarrow> event_server" where
  "run_round out txt s =
     (case broadcast_start txt s of (None, s') \<Rightarrow> s' | (Some b, s') \<Rightarrow> run_broadcast out b s')"

definition round_result ::
    "(ws \<Rightarrow> send_outcome) \<Rightarrow> string \<Rightarrow> ws list \<Rightarrow> ws list \<Rightarrow> event_server \<Rightarrow> event_server" where
  "round_result out txt dead rest s =
     signal_dead (dead @ filter (\<lambda>c. out c = Send_Failed) rest)
       (s\<lparr>es_delivered := es_delivered s @
            map (\<lambda>c. (c, txt)) (filter (\<lambda>c. out c = Send_Done) rest)\<rparr>)"

lemma run_broadcast_eq:
  assumes "\<forall>c \<in> set (bc_target b # drop (bc_index b) (es_connections s)). out c \<noteq> Send_Raised"
  shows "run_broadcast out b s = round_result out (bc_text b) (bc_dead b)
    (bc_target b # drop (bc_index b) (es_connections s)) s"
  using assms
proof (induction out b s rule: run_broadcast.induct)
  case (1 out b s)
  let ?i = "bc_index b" and ?cs = "es_connections s"
  have "out (bc_target b) = Send_Done \<or> out (bc_target b) = Send_Failed"
    using "1.prems" by (cases "out (bc_target b)") auto
  then show ?case
  proof (cases "?i < length ?cs")
    case False
    then show ?thesis
      using \<open>_ \<or> _\<close>
      by (subst run_broadcast.simps)
        (auto simp: broadcast_resume_def next_target_def round_result_def)
  next
    case True
    define sent_ok where "sent_ok = (out (bc_target b) = Send_Done)"
    define s' where "s' = (if sent_ok
      then s\<lparr>es_delivered := es_delivered s @ [(bc_target b, bc_text b)]\<rparr> else s)"
    define b' where "b' = \<lparr>bc_text = bc_text b, bc_index = ?i + 1, bc_target = ?cs ! ?i,
      bc_dead = (if sent_ok then bc_dead b else bc_dead b @ [bc_target b])\<rparr>"
    have r: "broadcast_resume (out (bc_target b)) b s = (Some b', s')"
      "es_connections s' = ?cs"
      using \<open>_ \<or> _\<close> True
      by (auto simp: broadcast_resume_def next_target_def b'_def s'_def sent_ok_def)
    have b': "bc_text b' = bc_text b" "bc_index b' = ?i + 1" "bc_target b' = ?cs ! ?i"
      "bc_dead b' = (if sent_ok then bc_dead b else bc_dead b @ [bc_target b])"
      by (simp_all add: b'_def)
    have rest: "drop ?i ?cs = bc_target b' # drop (bc_index b') (es_connections s')"
      using True r(2) b' by (simp add: Cons_nth_drop_Suc)
    have "run_broadcast out b s = run_broadcast out b' s'"
      by (subst run_broadcast.simps) (simp add: r(1))
    also have "\<dots> = round_result out (bc_text b') (bc_dead b') (drop ?i ?cs) s'"
      using "1.IH" [OF r(1) [symmetric] refl] "1.prems" by (simp add: rest)
    also have "\<dots> = round_result out (bc_text b) (bc_dead b) (bc_target b # drop ?i ?cs) s"
      using \<open>_ \<or> _\<close> by (auto simp: round_result_def b' s'_def sent_ok_def)
    finally show ?thesis .
  qed
qed

text \<open>A round that no other coroutine interrupts sends the text once to every connection, in
  the order they were accepted, wakes exactly the endpoints whose send failed, and changes nothing
  else.\<close>

theorem undisturbed_round_reaches_all:
  assumes "\<forall>c \<in> set (es_connections s). out c \<noteq> Send_Raised"
  shows "es_delivered (run_round out txt s) = es_delivered s @
      map (\<lambda>c. (c, txt)) (filter (\<lambda>c. out c = Send_Done) (es_connections s))"
    and "es_connections (run_round out txt s) = es_connections s"
    and "map_of (es_events (run_round out txt s)) c =
      (if c \<in> set (es_connections s) \<and> out c = Send_Failed \<and> map_of (es_events s) c \<noteq> None
       then Some True else map_of (es_events s) c)"
proof -
  have "run_round out txt s = round_result out txt [] (es_connections s) s"
  proof (cases "es_connections s")
    case Nil
    then show ?thesis
      by (simp add: run_round_def broadcast_start_def next_target_def round_result_def)
  next
    case (Cons c cs)
    then show ?thesis
      using assms
      by (simp add: run_round_def broadcast_start_def next_target_def run_broadcast_eq)
  qed
  then show "es_delivered (run_round out txt s) = es_delivered s @
      map (\<lambda>c. (c, txt)) (filter (\<lambda>c. out c = Send_Done) (es_connections s))"
    "es_connections (run_round out txt s) = es_connections s"
    "map_of (es_events (run_round out txt s)) c =
      (if c \<in> set (es_connections s) \<and> out c = Send_Failed \<and> map_of (es_events s) c \<noteq> None
       then Some True else map_of (es_events s) c)"
    by (simp_all add: round_result_def signal_dead_events)
qed

definition example_relay :: event_server where
  "example_relay = endpoint_open 9 ''player4'' (endpoint_open 8 ''player3''
     (endpoint_open 7 ''player2'' event_server_start))"

lemma example_relay_fields:
  "es_connections example_relay = [7, 8, 9]" "es_delivered example_relay = []"
  "es_events example_relay = [(7, False), (8, False), (9, False)]"
  by (simp_all add: example_relay_def endpoint_open_def event_server_start_def Let_def)

lemma undisturbed_round_reaches_all_witness:
  "es_delivered (run_round (\<lambda>c. if c = 8 then Send_Failed else Send_Done) ''hi'' example_relay)
     = [(7, ''hi''), (9, ''hi'')]"
  using undisturbed_round_reaches_all(1)
    [of example_relay "\<lambda>c. if c = 8 then Send_Failed else Send_Done" "''hi''"]
  by (simp add: example_relay_fields)

text \<open>C39: the iterator of a suspended round does not notice that the list shrinks behind it.  When
  the endpoint of a connection the round has already passed closes while the round waits for a
  send, the next connection is skipped: it stays connected, but the event is never sent to it,
  although every send succeeds.\<close>

theorem closing_endpoint_hides_a_connection:
  assumes "es_connections s = pre @ d # post" "distinct (es_connections s)"
    and "bc_index b = length pre" "bc_target b \<in> set pre" "c \<in> set pre"
  shows "es_delivered (run_broadcast (\<lambda>_. Send_Done) b (endpoint_close c s)) =
      es_delivered s @ map (\<lambda>w. (w, bc_text b)) (bc_target b # post)
    \<and> d \<in> set (es_connections (run_broadcast (\<lambda>_. Send_Done) b (endpoint_close c s)))
    \<and> d \<notin> set (bc_target b # post)"
proof -
  let ?s = "endpoint_close c s"
  have "es_connections ?s = remove1 c pre @ d # post" "es_delivered ?s = es_delivered s"
    using assms by (auto simp: endpoint_close_def Let_def remove1_append split: option.split)
  moreover have "length (remove1 c pre) = length pre - 1" "0 < length pre"
    using assms(5) by (auto simp: length_remove1)
  moreover from this have "length pre = Suc (length (remove1 c pre))"
    by linarith
  then have "drop (length pre) (remove1 c pre @ d # post) = post"
    by simp
  ultimately have "es_delivered (run_broadcast (\<lambda>_. Send_Done) b ?s) =
      es_delivered s @ map (\<lambda>w. (w, bc_text b)) (bc_target b # post)"
    "d \<in> set (es_connections (run_broadcast (\<lambda>_. Send_Done) b ?s))"
    using assms(3) by (simp_all add: run_broadcast_eq round_result_def filter_empty_conv)
  moreover have "d \<notin> set (bc_target b # post)"
    using assms by auto
  ultimately show ?thesis by blast
qed

lemma closing_endpoint_hides_a_connection_witness:
  "es_delivered (run_broadcast (\<lambda>_. Send_Done)
       \<lparr>bc_text = ''hi'', bc_index = 2, bc_target = 8, bc_dead = []\<rparr>
       (endpoint_close 7 example_relay)) = [(8, ''hi'')]"
  using closing_endpoint_hides_a_connection [of example_relay "[7, 8]" 9 "[]"
      "\<lparr>bc_text = ''hi'', bc_index = 2, bc_target = 8, bc_dead = []\<rparr>" 7]
  by (simp add: example_relay_fields)

subsection \<open>The event loop\<close>

text \<open>
  One step of the loop: an endpoint opens or closes (its event was set, or its task cancelled), an
  event arrives from the game or over HTTP, a heartbeat begins, a suspended round goes on, or the
  game polls for a disconnected player.  The label says which player joined or was reported.
\<close>

datatype relay_label = Joined ident | Reported ident | Internal

definition add_round :: "relay_round option \<Rightarrow> relay_round list \<Rightarrow> relay_round list" where
  "add_round r bs = (case r of None \<Rightarrow> bs | Some b \<Rightarrow> bs @ [b])"

inductive relay_step ::
    "event_server \<Rightarrow> relay_round list \<Rightarrow> relay_label \<Rightarrow> event_server \<Rightarrow> relay_round list \<Rightarrow> bool" where
  Open: "map_of (es_events s) c = None \<Longrightarrow>
    relay_step s bs (if pid = [] then Internal else Joined pid) (endpoint_open c pid s) bs"
| Close: "map_of (es_events s) c \<noteq> None \<Longrightarrow> relay_step s bs Internal (endpoint_close c s) bs"
| Launch: "relay_step s bs Internal (relay_launch s) bs"
| Send: "relay_send txt s = (r, s') \<Longrightarrow> relay_step s bs Internal s' (add_round r bs)"
| Post: "broadcast_start txt s = (r, s') \<Longrightarrow> relay_step s bs Internal s' (add_round r bs)"
| Beat: "heartbeat_start s = (r, s') \<Longrightarrow> relay_step s bs Internal s' (add_round r bs)"
| Resume: "broadcast_resume out b s = (r, s') \<Longrightarrow>
    relay_step s (xs @ b # ys) Internal s' (add_round r (xs @ ys))"
| Poll: "relay_disconnected s = (Some p, s') \<Longrightarrow> relay_step s bs (Reported p) s' bs"

inductive relay_run :: "relay_label list \<Rightarrow> event_server \<Rightarrow> relay_round list \<Rightarrow> bool" where
  start: "relay_run [] event_server_start []"
| step: "relay_run ls s bs \<Longrightarrow> relay_step s bs l s' bs' \<Longrightarrow> relay_run (ls @ [l]) s' bs'"

fun joined :: "relay_label \<Rightarrow> ident list" where
  "joined (Joined p) = [p]" | "joined _ = []"

fun reported :: "relay_label \<Rightarrow> ident list" where
  "reported (Reported p) = [p]" | "reported _ = []"

definition relay_wf :: "event_server \<Rightarrow> bool" where
  "relay_wf s \<longleftrightarrow> distinct (es_connections s) \<and> distinct (map fst (es_players s))
     \<and> (\<forall>c. map_of (es_events s) c \<noteq> None \<longleftrightarrow> c \<in> set (es_connections s))
     \<and> fst ` set (es_players s) \<subseteq> set (es_connections s)
     \<and> (\<forall>p \<in> snd ` set (es_players s). p \<noteq> [])"

text \<open>The players the server knows: those connected and those waiting to be reported.\<close>

definition known_players :: "event_server \<Rightarrow> ident multiset" where
  "known_players s = mset (map snd (es_players s)) + mset (es_disconnected s)"

definition same_endpoints :: "event_server \<Rightarrow> event_server \<Rightarrow> bool" where
  "same_endpoints s s' \<longleftrightarrow> es_connections s' = es_connections s \<and> es_players s' = es_players s
     \<and> es_disconnected s' = es_disconnected s \<and> (\<forall>c. map_of (es_events s') c = None \<longleftrightarrow> map_of (es_events s) c = None)"

lemma rounds_keep_endpoints:
  "next_target txt i dead s = (r, s') \<Longrightarrow> same_endpoints s s'"
  "broadcast_start txt s = (r, s') \<Longrightarrow> same_endpoints s s'"
  "heartbeat_start s = (r, s') \<Longrightarrow> same_endpoints s s'"
  "relay_send txt s = (r, s') \<Longrightarrow> same_endpoints s s'"
  "broadcast_resume out b s = (r, s') \<Longrightarrow> same_endpoints s s'"
  by (auto simp: same_endpoints_def next_target_def broadcast_start_def heartbeat_start_def
      relay_send_def broadcast_resume_def signal_dead_dom
      split: if_splits send_outcome.splits)

lemma relay_wf_same: "same_endpoints s s' \<Longrightarrow> relay_wf s \<Longrightarrow> relay_wf s'"
  by (simp add: same_endpoints_def relay_wf_def)

lemma known_players_same: "same_endpoints s s' \<Longrightarrow> known_players s' = known_players s"
  by (simp add: same_endpoints_def known_players_def)

lemma endpoint_open_wf:
  assumes "relay_wf s" "map_of (es_events s) c = None"
  shows "relay_wf (endpoint_open c pid s)"
    and "known_players (endpoint_open c pid s) = mset (if pid = [] then [] else [pid]) + known_players s"
proof -
  have c: "c \<notin> set (es_connections s)"
    using assms unfolding relay_wf_def by blast
  then have "c \<notin> fst ` set (es_players s)"
    using assms(1) unfolding relay_wf_def by blast
  note c = c this
  show "relay_wf (endpoint_open c pid s)"
    using assms c
    by (auto simp: relay_wf_def endpoint_open_def Let_def update_fresh AList.update_conv')
  show "known_players (endpoint_open c pid s) = mset (if pid = [] then [] else [pid]) + known_players s"
    using c by (simp add: known_players_def endpoint_open_def Let_def update_fresh)
qed

lemma mset_delete_key:
  "distinct (map fst xs) \<Longrightarrow> map_of xs k = Some v \<Longrightarrow>
     mset (map snd xs) = add_mset v (mset (map snd (AList.delete k xs)))"
  by (induction xs) (auto split: if_splits intro: rev_image_eqI)

lemma endpoint_close_wf:
  assumes "relay_wf s"
  shows "relay_wf (endpoint_close c s)" "known_players (endpoint_close c s) = known_players s"
proof -
  let ?s = "endpoint_close c s"
  have conns: "es_connections ?s = remove1 c (es_connections s)"
    and players: "es_players ?s = AList.delete c (es_players s)"
    and events: "es_events ?s = AList.delete c (es_events s)"
    by (auto simp: endpoint_close_def Let_def remove1_idem split: option.split)
  have "fst ` set (AList.delete c (es_players s)) \<subseteq> fst ` set (es_players s) - {c}"
    "set (AList.delete c (es_players s)) \<subseteq> set (es_players s)"
    using delete_notin_dom [of c "es_players s"] dom_delete_subset [of c "es_players s"]
    by (auto simp: AList.delete_eq)
  then show "relay_wf ?s"
    using assms
    by (auto simp: relay_wf_def conns players events AList.delete_conv' distinct_delete)
  show "known_players ?s = known_players s"
  proof (cases "map_of (es_players s) c")
    case None
    then have "c \<notin> fst ` set (es_players s)" by (simp add: map_of_eq_None_iff)
    then show ?thesis
      using None by (simp add: known_players_def endpoint_close_def Let_def)
  next
    case (Some p)
    then have "p \<noteq> []"
      using assms map_of_SomeD [OF Some] by (force simp: relay_wf_def)
    then show ?thesis
      using Some assms mset_delete_key [of "es_players s" c p]
      by (simp add: known_players_def endpoint_close_def Let_def relay_wf_def)
  qed
qed

lemma relay_step_inv:
  assumes "relay_step s bs l s' bs'" "relay_wf s"
  shows "relay_wf s' \<and> mset (joined l) + known_players s = mset (reported l) + known_players s'"
  using assms
proof cases
  case (Open c pid)
  then show ?thesis
    using endpoint_open_wf [OF assms(2)] by auto
next
  case (Close c)
  then show ?thesis using endpoint_close_wf [OF assms(2)] by simp
next
  case Launch
  then show ?thesis using assms(2) by (simp add: relay_launch_def relay_wf_def known_players_def)
next
  case (Poll p)
  then obtain ps where "es_disconnected s = p # ps" "s' = s\<lparr>es_disconnected := ps\<rparr>" "l = Reported p"
    by (auto simp: relay_disconnected_def split: list.splits)
  then show ?thesis using assms(2) by (simp add: relay_wf_def known_players_def)
qed (use assms(2) in \<open>auto dest!: rounds_keep_endpoints simp: known_players_same intro: relay_wf_same\<close>)

lemma relay_run_inv:
  "relay_run ls s bs \<Longrightarrow> relay_wf s
     \<and> mset (concat (map joined ls)) = known_players s + mset (concat (map reported ls))"
proof (induction rule: relay_run.induct)
  case start
  show ?case by (simp add: event_server_start_def relay_wf_def known_players_def)
next
  case (step ls s bs l s' bs')
  then show ?case
    using relay_step_inv [OF step.hyps(2)] by (simp add: add.commute add.left_commute)
qed

text \<open>C21: however the coroutines of the relay interleave, its three tables agree (each connection is
  listed once and has its event, every named player belongs to a connection), and no player is lost
  or reported twice: those that joined are those still connected, those waiting to be reported and
  those already reported, with multiplicity.\<close>

theorem relay_invariant:
  assumes "relay_run ls s bs"
  shows "distinct (es_connections s)
    \<and> (\<forall>c. map_of (es_events s) c \<noteq> None \<longleftrightarrow> c \<in> set (es_connections s))
    \<and> fst ` set (es_players s) \<subseteq> set (es_connections s)
    \<and> mset (concat (map joined ls)) = mset (map snd (es_players s)) + mset (es_disconnected s)
      + mset (concat (map reported ls))"
  using relay_run_inv [OF assms] by (auto simp: relay_wf_def known_players_def rev_image_eqI)

lemma relay_invariant_witness:
  "\<exists>s. relay_run [Joined ''player2'', Internal] s []
     \<and> mset [''player2''] = mset (map snd (es_players s)) + mset (es_disconnected s)"
proof -
  let ?s1 = "endpoint_open 7 ''player2'' event_server_start"
  have "relay_run ([] @ [Joined ''player2'']) ?s1 []"
    by (rule relay_run.step [OF relay_run.start])
      (use relay_step.Open [of event_server_start 7 "[]" "''player2''"] in
        \<open>simp add: event_server_start_def\<close>)
  moreover have "relay_step ?s1 [] Internal (endpoint_close 7 ?s1) []"
    by (rule relay_step.Close) (simp add: endpoint_open_def Let_def AList.update_conv')
  ultimately have "relay_run [Joined ''player2'', Internal] (endpoint_close 7 ?s1) []"
    using relay_run.step by fastforce
  with relay_invariant [OF this] show ?thesis by auto
qed

subsection \<open>The HTTP broker\<close>

text \<open>\<open>hb_posted\<close> lists the requests the worker made, with the address they went to.\<close>

record http_broker =
  hb_url :: "string \<times> int"
  hb_queue :: "string list"
  hb_alive :: bool
  hb_posted :: "((string \<times> int) \<times> string) list"

definition new_http_broker :: "string \<Rightarrow> int \<Rightarrow> http_broker" where
  "new_http_broker host port =
     \<lparr>hb_url = (host, port), hb_queue = [], hb_alive = True, hb_posted = []\<rparr>"

definition broker_send :: "string \<Rightarrow> http_broker \<Rightarrow> http_broker" where
  "broker_send payload b = b\<lparr>hb_queue := hb_queue b @ [payload]\<rparr>"

text \<open>One turn of the worker: a request that fails with an \<^verbatim>\<open>HTTPError\<close> is logged and forgotten, any
  other exception ends the thread.\<close>

datatype post_outcome = Post_Ok | Post_Http_Error | Post_Raised

definition broker_work :: "post_outcome \<Rightarrow> http_broker \<Rightarrow> http_broker" where
  "broker_work out b =
     (if \<not> hb_alive b then b
      else (case hb_queue b of
          [] \<Rightarrow> b
        | payload # rest \<Rightarrow>
            (let b1 = b\<lparr>hb_queue := rest, hb_posted := hb_posted b @ [(hb_url b, payload)]\<rparr>
             in if out = Post_Raised then b1\<lparr>hb_alive := False\<rparr> else b1)))"

definition broker_disconnected :: "http_broker \<Rightarrow> ident option" where
  "broker_disconnected b = None"

definition broker_reconnect :: "string \<Rightarrow> int \<Rightarrow> http_broker \<Rightarrow> http_broker" where
  "broker_reconnect host port b = b\<lparr>hb_url := (host, port)\<rparr>"

datatype broker_op = Op_Send string | Op_Work post_outcome | Op_Reconnect string int

fun broker_step :: "broker_op \<Rightarrow> http_broker \<Rightarrow> http_broker" where
  "broker_step (Op_Send payload) = broker_send payload"
| "broker_step (Op_Work out) = broker_work out"
| "broker_step (Op_Reconnect host port) = broker_reconnect host port"

definition op_payloads :: "broker_op \<Rightarrow> string list" where
  "op_payloads op = (case op of Op_Send p \<Rightarrow> [p] | _ \<Rightarrow> [])"

lemma broker_step_keeps:
  "map snd (hb_posted (broker_step op b)) @ hb_queue (broker_step op b)
     = map snd (hb_posted b) @ hb_queue b @ op_payloads op"
  by (cases op)
    (auto simp: broker_send_def broker_work_def broker_reconnect_def op_payloads_def Let_def
      split: list.split)

lemma broker_keeps_order_from:
  "map snd (hb_posted (fold broker_step ops b)) @ hb_queue (fold broker_step ops b)
     = map snd (hb_posted b) @ hb_queue b @ concat (map op_payloads ops)"
  by (induction ops arbitrary: b) (simp_all add: broker_step_keeps flip: append_assoc)

text \<open>The HTTP broker posts every event once at most and in the order the game sent them, across
  failed requests and changes of the relay's address: what was posted followed by what waits is
  what was sent.\<close>

theorem http_broker_keeps_order:
  "map snd (hb_posted (fold broker_step ops (new_http_broker host port)))
      @ hb_queue (fold broker_step ops (new_http_broker host port))
    = concat (map op_payloads ops)"
  by (simp add: broker_keeps_order_from new_http_broker_def)

end
