(* ===== verification/Session_File.thy ===== *)
theory Session_File
  imports Json Roster
begin

text \<open>
  The session metadata a node leaves on disk (\<^verbatim>\<open>shared/session_metadata.py\<close>), by which it finds its
  session again after a crash.  A file is absent, unreadable (an \<^verbatim>\<open>OSError\<close>, or contents that are
  not UTF-8 or not JSON), or holds a JSON value.
\<close>

record cached_peer =
  peer_player_id :: ident
  peer_ip :: string
  peer_join_index :: int

record session_metadata =
  md_session_id :: ident
  md_local_player_id :: ident
  md_peers :: "cached_peer list"
  md_join_index :: "int option"

datatype session_file = No_File | Unreadable | Holds json

subsection \<open>Writing and deleting\<close>

definition peer_to_json :: "cached_peer \<Rightarrow> json" where
  "peer_to_json p =
     JObj [(''player_id'', JStr (peer_player_id p)), (''ip'', JStr (peer_ip p)),
           (''join_index'', enc_int (peer_join_index p))]"

definition metadata_to_json :: "session_metadata \<Rightarrow> json" where
  "metadata_to_json m =
     JObj [(''session_id'', JStr (md_session_id m)),
           (''local_player_id'', JStr (md_local_player_id m)),
           (''peers'', enc_list peer_to_json (md_peers m)),
           (''join_index'', enc_opt enc_int (md_join_index m))]"

definition write_session_metadata :: "session_metadata \<Rightarrow> session_file" where
  "write_session_metadata m = Holds (metadata_to_json m)"

definition delete_session_metadata :: "session_file \<Rightarrow> session_file" where
  "delete_session_metadata f = No_File"

subsection \<open>Reading\<close>

text \<open>\<^verbatim>\<open>isinstance(x, int)\<close> holds for a boolean too; it then counts as 0 or 1.\<close>

fun int_like :: "json \<Rightarrow> int option" where
  "int_like (JNum x) = (if is_integral x then Some \<lfloor>x\<rfloor> else None)"
| "int_like (JBool b) = Some (if b then 1 else 0)"
| "int_like _ = None"

text \<open>\<^verbatim>\<open>d.get(k)\<close>\<close>

definition get_or_null :: "string \<Rightarrow> obj \<Rightarrow> json" where
  "get_or_null k d = (case map_of d k of None \<Rightarrow> JNull | Some j \<Rightarrow> j)"

text \<open>One turn of the loop over the peers; \<open>None\<close> is the early \<^verbatim>\<open>return None\<close>.\<close>

definition peer_of_json :: "json \<Rightarrow> cached_peer option" where
  "peer_of_json j =
     (case j of
        JObj d \<Rightarrow>
          (case (get_or_null ''player_id'' d, get_or_null ''ip'' d, int_like (get_or_null ''join_index'' d)) of
             (JStr pid, JStr ip, Some ji) \<Rightarrow>
               Some \<lparr>peer_player_id = pid, peer_ip = ip, peer_join_index = ji\<rparr>
           | _ \<Rightarrow> None)
      | _ \<Rightarrow> None)"

fun peers_of_json :: "json list \<Rightarrow> cached_peer list option" where
  "peers_of_json [] = Some []"
| "peers_of_json (j # js) =
     (case peer_of_json j of
        None \<Rightarrow> None
      | Some p \<Rightarrow> map_option ((#) p) (peers_of_json js))"

text \<open>The explicit join index: \<open>None\<close> rejects the file, \<open>Some None\<close> is an absent index.\<close>

definition explicit_join_index :: "json \<Rightarrow> int option option" where
  "explicit_join_index j =
     (case j of
        JNull \<Rightarrow> Some None
      | JNum x \<Rightarrow>
          (if is_integral x \<and> 0 \<le> \<lfloor>x\<rfloor> \<and> \<lfloor>x\<rfloor> < MAX_PLAYERS then Some (Some \<lfloor>x\<rfloor>) else None)
      | _ \<Rightarrow> None)"

text \<open>\<^verbatim>\<open>str.isdigit\<close>, for the ASCII strings of the model.\<close>

definition isdigit :: "string \<Rightarrow> bool" where
  "isdigit s \<longleftrightarrow> s \<noteq> [] \<and> (\<forall>c \<in> set s. CHR ''0'' \<le> c \<and> c \<le> CHR ''9'')"

definition PLAYER_PREFIX :: string where "PLAYER_PREFIX = ''player''"

definition derived_join_index :: "ident \<Rightarrow> int option" where
  "derived_join_index pid =
     (if take 6 pid \<noteq> PLAYER_PREFIX then None
      else
        let suffix = drop 6 pid in
        if isdigit suffix \<and> 0 < int (parse_nat suffix) \<and> int (parse_nat suffix) \<le> MAX_PLAYERS
        then Some (int (parse_nat suffix) - 1) else None)"

text \<open>
  \<^verbatim>\<open>read_session_metadata\<close>.  The \<^verbatim>\<open>except\<close> clause does not name \<^verbatim>\<open>AttributeError\<close>, which is what
  \<^verbatim>\<open>raw.get\<close> raises when the file holds a JSON value that is not an object.
\<close>

definition read_object :: "obj \<Rightarrow> session_metadata option" where
  "read_object raw =
     (case get_or_null ''peers'' raw of
        JList peers_raw \<Rightarrow>
          (case peers_of_json peers_raw of
             None \<Rightarrow> None
           | Some peers \<Rightarrow>
               (case (get_or_null ''session_id'' raw, get_or_null ''local_player_id'' raw) of
                  (JStr sid, JStr pid) \<Rightarrow>
                    (case explicit_join_index (get_or_null ''join_index'' raw) of
                       None \<Rightarrow> None
                     | Some explicit \<Rightarrow>
                         let ji = (if explicit = None then derived_join_index pid else explicit)
                         in if (\<exists>i. ji = Some i \<and> pid \<noteq> player_id_for i) then None
                            else Some \<lparr>md_session_id = sid, md_local_player_id = pid,
                                       md_peers = peers, md_join_index = ji\<rparr>)
                | _ \<Rightarrow> None))
      | _ \<Rightarrow> None)"

definition read_session_metadata :: "session_file \<Rightarrow> session_metadata option result" where
  "read_session_metadata f =
     (case f of
        No_File \<Rightarrow> Inr None
      | Unreadable \<Rightarrow> Inr None
      | Holds (JObj raw) \<Rightarrow> Inr (read_object raw)
      | Holds _ \<Rightarrow> Inl (AttributeError ''object has no attribute get''))"

subsection \<open>Canonical identities\<close>

definition canonical :: "session_metadata \<Rightarrow> bool" where
  "canonical m \<longleftrightarrow>
     (case md_join_index m of
        Some i \<Rightarrow> 0 \<le> i \<and> i < MAX_PLAYERS \<and> md_local_player_id m = player_id_for i
      | None \<Rightarrow> derived_join_index (md_local_player_id m) = None)"

lemma digit_char_range: "d < 10 \<Longrightarrow> CHR ''0'' \<le> digit_char d \<and> digit_char d \<le> CHR ''9''"
  by (simp add: digit_char_def less_eq_char_def)

lemma isdigit_str_nat: "isdigit (str_nat n)"
proof (induction n rule: str_nat.induct)
  case (1 n)
  then show ?case
    using digit_char_range [of n] digit_char_range [of "n mod 10"]
    by (subst str_nat.simps) (auto simp: isdigit_def str_nat.simps [of "n div 10"])
qed

lemma player_id_for_parts:
  "0 \<le> i \<Longrightarrow> take 6 (player_id_for i) = PLAYER_PREFIX \<and> drop 6 (player_id_for i) = str_nat (nat (i + 1))"
  by (simp add: player_id_for_def PLAYER_PREFIX_def str_int_def)

lemma derived_of_player_id:
  "0 \<le> i \<Longrightarrow> i < MAX_PLAYERS \<Longrightarrow> derived_join_index (player_id_for i) = Some i"
  using player_id_for_parts [of i]
  by (simp add: derived_join_index_def Let_def isdigit_str_nat MAX_PLAYERS_def)

lemma derived_in_range:
  "derived_join_index pid = Some i \<Longrightarrow> 0 \<le> i \<and> i < MAX_PLAYERS"
  by (auto simp: derived_join_index_def Let_def split: if_splits)

lemma peers_read_written: "peers_of_json (map peer_to_json ps) = Some ps"
  by (induction ps) (simp_all add: peer_of_json_def peer_to_json_def get_or_null_def enc_int_def)

lemma read_written:
  assumes "canonical m"
  shows "read_session_metadata (write_session_metadata m) = Inr (Some m)"
  using assms
  by (cases m; cases "md_join_index m")
    (simp_all add: write_session_metadata_def read_session_metadata_def metadata_to_json_def
        read_object_def get_or_null_def enc_list_def peers_read_written explicit_join_index_def
        enc_int_def canonical_def)

text \<open>Reading the file a node wrote gives its metadata back, provided its join index is one of
  the session's and belongs to its player id.\<close>

theorem metadata_is_read_back:
  assumes "canonical m"
  shows "read_session_metadata (write_session_metadata m) = Inr (Some m)"
  using assms by (rule read_written)

definition example_metadata :: session_metadata where
  "example_metadata = \<lparr>md_session_id = ''s1'', md_local_player_id = ''player2'',
     md_peers = [\<lparr>peer_player_id = ''player1'', peer_ip = ''10.0.0.1'', peer_join_index = 0\<rparr>],
     md_join_index = Some 1\<rparr>"

lemma player2: "player_id_for 1 = ''player2''"
  by code_simp

lemma example_metadata_canonical: "canonical example_metadata"
  by (simp add: example_metadata_def canonical_def MAX_PLAYERS_def player2)

lemma metadata_is_read_back_witness:
  "read_session_metadata (write_session_metadata example_metadata) = Inr (Some example_metadata)"
  using metadata_is_read_back [OF example_metadata_canonical] .

lemma explicit_in_range: "explicit_join_index j = Some (Some i) \<Longrightarrow> 0 \<le> i \<and> i < MAX_PLAYERS"
  by (auto simp: explicit_join_index_def split: json.splits if_splits)

lemma read_object_index:
  assumes "read_object raw = Some m"
  shows "\<exists>e j. explicit_join_index j = Some e
    \<and> md_join_index m = (if e = None then derived_join_index (md_local_player_id m) else e)
    \<and> (\<forall>i. md_join_index m = Some i \<longrightarrow> md_local_player_id m = player_id_for i)"
proof -
  obtain pr where 1: "get_or_null ''peers'' raw = JList pr"
    using assms by (cases "get_or_null ''peers'' raw") (simp_all add: read_object_def)
  obtain ps where 2: "peers_of_json pr = Some ps"
    using assms 1 by (cases "peers_of_json pr") (simp_all add: read_object_def)
  obtain sid where 3: "get_or_null ''session_id'' raw = JStr sid"
    using assms 1 2 by (cases "get_or_null ''session_id'' raw") (simp_all add: read_object_def)
  obtain pid where 4: "get_or_null ''local_player_id'' raw = JStr pid"
    using assms 1 2 3 by (cases "get_or_null ''local_player_id'' raw") (simp_all add: read_object_def)
  obtain e where 5: "explicit_join_index (get_or_null ''join_index'' raw) = Some e"
    using assms 1 2 3 4
    by (cases "explicit_join_index (get_or_null ''join_index'' raw)") (simp_all add: read_object_def)
  show ?thesis
    using assms 1 2 3 4 5
    by (intro exI [of _ e] exI [of _ "get_or_null ''join_index'' raw"])
      (auto simp: read_object_def Let_def split: if_splits)
qed

lemma read_identifies_owner:
  assumes "read_session_metadata f = Inr (Some m)"
  shows "case md_join_index m of
      Some i \<Rightarrow> 0 \<le> i \<and> i < MAX_PLAYERS \<and> md_local_player_id m = player_id_for i
    | None \<Rightarrow> \<forall>i. 0 \<le> i \<longrightarrow> i < MAX_PLAYERS \<longrightarrow> md_local_player_id m \<noteq> player_id_for i"
proof -
  obtain raw where raw: "f = Holds (JObj raw)" "read_object raw = Some m"
    using assms by (auto simp: read_session_metadata_def split: session_file.splits json.splits)
  obtain e j where e: "explicit_join_index j = Some e"
      "md_join_index m = (if e = None then derived_join_index (md_local_player_id m) else e)"
    and id: "md_join_index m = Some i \<Longrightarrow> md_local_player_id m = player_id_for i" for i
    using read_object_index [OF raw(2)] by blast
  show ?thesis
  proof (cases "md_join_index m")
    case None
    then show ?thesis
      using e(2) derived_of_player_id by (auto split: if_splits)
  next
    case (Some i)
    then have "0 \<le> i \<and> i < MAX_PLAYERS"
      using e explicit_in_range [of j] derived_in_range [of "md_local_player_id m"]
      by (auto split: if_splits)
    then show ?thesis using Some id [OF Some] by simp
  qed
qed

text \<open>Whatever a file holds, metadata read from it identifies its owner: the join index is in
  range and the player id is the one of that index, or there is no index and the player id is the
  one of no slot.\<close>

theorem read_metadata_is_canonical:
  assumes "read_session_metadata f = Inr (Some m)"
  shows "case md_join_index m of
      Some i \<Rightarrow> 0 \<le> i \<and> i < MAX_PLAYERS \<and> md_local_player_id m = player_id_for i
    | None \<Rightarrow> \<forall>i. 0 \<le> i \<longrightarrow> i < MAX_PLAYERS \<longrightarrow> md_local_player_id m \<noteq> player_id_for i"
  using assms by (rule read_identifies_owner)

lemma read_metadata_is_canonical_witness:
  "case md_join_index example_metadata of
      Some i \<Rightarrow> 0 \<le> i \<and> i < MAX_PLAYERS \<and> md_local_player_id example_metadata = player_id_for i
    | None \<Rightarrow> \<forall>i. 0 \<le> i \<longrightarrow> i < MAX_PLAYERS \<longrightarrow> md_local_player_id example_metadata \<noteq> player_id_for i"
proof -
  have "read_session_metadata (write_session_metadata example_metadata) = Inr (Some example_metadata)"
    by (simp add: example_metadata_def write_session_metadata_def read_session_metadata_def
        metadata_to_json_def peer_to_json_def peer_of_json_def read_object_def get_or_null_def
        enc_list_def enc_int_def explicit_join_index_def MAX_PLAYERS_def player2 is_integral_def)
  from read_metadata_is_canonical [OF this] show ?thesis .
qed

end
