(* ===== verification/Recovery.thy ===== *)
theory Recovery
  imports Node_Props Serializer_Props Session_File
begin

text \<open>
  Finding the way back into a session after a crash: what a node writes down when it enters the
  game (\<^verbatim>\<open>application/recovery/mixin.py\<close>), the probing of the cached peers
  (\<^verbatim>\<open>application/recovery/prober.py\<close>), and the two users of both, \<^verbatim>\<open>attempt_recovery\<close> and the
  recovery screen \<^verbatim>\<open>_try_recover_session\<close> of \<^verbatim>\<open>main.py\<close>.

  How a peer answers is an argument: no answer in time, bytes that are not JSON, or a JSON payload,
  which the serializer then decodes with the validator given.
\<close>

datatype probe_answer = No_Answer | Not_Json | Payload json

text \<open>The exception classes derived from \<^verbatim>\<open>ValueError\<close>.\<close>

fun is_value_error :: "py_error \<Rightarrow> bool" where
  "is_value_error (ValueError _) = True"
| "is_value_error (RosterValidationError _) = True"
| "is_value_error (MessageValidationError _) = True"
| "is_value_error (DeserializationError _) = True"
| "is_value_error _ = False"

fun probe_peers ::
    "validation \<Rightarrow> ident \<Rightarrow> (cached_peer \<Rightarrow> probe_answer) \<Rightarrow> cached_peer list \<Rightarrow> string option result" where
  "probe_peers validate sid answer [] = Inr None"
| "probe_peers validate sid answer (p # ps) =
     (case answer p of
        No_Answer \<Rightarrow> probe_peers validate sid answer ps
      | Not_Json \<Rightarrow> probe_peers validate sid answer ps
      | Payload j \<Rightarrow>
          (case decode_message validate j of
             Inl e \<Rightarrow> if is_value_error e then probe_peers validate sid answer ps else Inl e
           | Inr (HostIdentityResponse session host_ip) \<Rightarrow>
               if session \<noteq> sid then probe_peers validate sid answer ps else Inr (Some host_ip)
           | Inr _ \<Rightarrow> probe_peers validate sid answer ps))"

definition find_current_host ::
    "validation \<Rightarrow> ident \<Rightarrow> string \<Rightarrow> (cached_peer \<Rightarrow> probe_answer) \<Rightarrow> cached_peer list
       \<Rightarrow> string option result" where
  "find_current_host validate sid requester_ip answer peers =
     (if peers = [] then Inr None
      else rbind (mk_message (HostDiscoveryProbe sid requester_ip))
             (\<lambda>probe. probe_peers validate sid answer peers))"

subsection \<open>The node\<close>

definition peer_of_entry :: "roster_entry \<Rightarrow> cached_peer" where
  "peer_of_entry e = \<lparr>peer_player_id = entry_player_id e, peer_ip = entry_host e,
     peer_join_index = entry_join_index e\<rparr>"

definition node_metadata :: "node \<Rightarrow> session_metadata" where
  "node_metadata n = \<lparr>md_session_id = n_session_id n, md_local_player_id = n_local_player_id n,
     md_peers = map peer_of_entry
       (filter (\<lambda>e. entry_player_id e \<noteq> n_local_player_id n) (roster_all (n_roster n))),
     md_join_index = Some (n_join_index n)\<rparr>"

definition write_node_metadata :: "node \<Rightarrow> session_file" where
  "write_node_metadata n = write_session_metadata (node_metadata n)"

definition attempt_recovery ::
    "validation \<Rightarrow> (cached_peer \<Rightarrow> probe_answer) \<Rightarrow> session_file \<Rightarrow> node
       \<Rightarrow> (string option \<times> session_file \<times> node) result" where
  "attempt_recovery validate answer f n =
     (let n1 = n\<lparr>n_lifecycle := move_to_recovering (n_lifecycle n)\<rparr> in
      rbind (read_session_metadata f) (\<lambda>metadata.
        case metadata of
          None \<Rightarrow> Inr (None, f, n1)
        | Some m \<Rightarrow>
            if md_peers m = [] then Inr (None, delete_session_metadata f, n1)
            else rbind (find_current_host validate (md_session_id m) (n_local_ip n1) answer (md_peers m))
              (\<lambda>host.
                case host of
                  None \<Rightarrow> Inr (None, delete_session_metadata f, n1)
                | Some host_ip \<Rightarrow>
                    Inr (Some host_ip, f,
                         n1\<lparr>n_remote_host := host_ip, n_remote_port := HOST_UDP_PORT,
                            n_session_id := md_session_id m\<rparr>))))"

subsection \<open>The recovery screen\<close>

definition cached_roster :: "cached_peer list \<Rightarrow> roster result" where
  "cached_roster peers =
     roster_of (map (\<lambda>p. \<lparr>entry_player_id = peer_player_id p, entry_host = peer_ip p,
        entry_udp_port = HOST_UDP_PORT, entry_join_index = peer_join_index p,
        entry_status = CONNECTED, entry_is_host = False\<rparr>) peers)"

text \<open>
  \<open>first\<close> and \<open>frames\<close> are the answers of the screen (\<open>False\<close>: the user closed it), one for the
  frame before the probe and one for each frame drawn while it runs.  A probe that raises ends its
  thread without setting the event the loop waits for, so the loop goes on.
\<close>

datatype recovery_outcome = Recovered string ident | Not_Recovered | Still_Probing

definition try_recover_session ::
    "validation \<Rightarrow> (cached_peer \<Rightarrow> probe_answer) \<Rightarrow> string \<Rightarrow> bool \<Rightarrow> bool list \<Rightarrow> session_file
       \<Rightarrow> (recovery_outcome \<times> session_file) result" where
  "try_recover_session validate answer local_ip first frames f =
     rbind (read_session_metadata f) (\<lambda>metadata.
       case metadata of
         None \<Rightarrow> Inr (Not_Recovered, f)
       | Some m \<Rightarrow>
           rbind (cached_roster (md_peers m)) (\<lambda>roster.
             if \<not> first \<or> False \<in> set frames then Inr (Not_Recovered, f)
             else
               (case find_current_host validate (md_session_id m) local_ip answer (md_peers m) of
                  Inl e \<Rightarrow> Inr (Still_Probing, f)
                | Inr None \<Rightarrow> Inr (Not_Recovered, delete_session_metadata f)
                | Inr (Some host_ip) \<Rightarrow> Inr (Recovered host_ip (md_session_id m), f))))"

subsection \<open>Probing\<close>

text \<open>An answer the prober passes over.\<close>

definition passed_over :: "validation \<Rightarrow> ident \<Rightarrow> probe_answer \<Rightarrow> bool" where
  "passed_over validate sid a \<longleftrightarrow>
     (case a of
        No_Answer \<Rightarrow> True
      | Not_Json \<Rightarrow> True
      | Payload j \<Rightarrow>
          (case decode_message validate j of
             Inl e \<Rightarrow> is_value_error e
           | Inr m \<Rightarrow> (\<forall>host. m \<noteq> HostIdentityResponse sid host)))"

lemma probe_peers_append:
  assumes "\<forall>q \<in> set pre. passed_over validate sid (answer q)"
  shows "probe_peers validate sid answer (pre @ ps) = probe_peers validate sid answer ps"
  using assms
  by (induction pre)
    (auto simp: passed_over_def split: probe_answer.splits sum.splits message.splits)

lemma probe_peers_found:
  assumes "probe_peers validate sid answer ps = Inr (Some host)"
  shows "\<exists>p \<in> set ps. \<exists>j. answer p = Payload j \<and> decode_message validate j = Inr (HostIdentityResponse sid host)"
  using assms
  by (induction ps)
    (auto split: probe_answer.splits sum.splits message.splits if_splits)

lemma probe_peers_identity:
  assumes "validator validate" "valid_message (HostIdentityResponse sid host)"
    and "answer p = Payload (encode_message (HostIdentityResponse sid host))"
  shows "probe_peers validate sid answer (p # ps) = Inr (Some host)"
  using read_back [OF assms(1,2)] assms(3) by (simp add: udp_message_iff)

subsection \<open>Recovering\<close>

lemma node_metadata_canonical:
  assumes "0 \<le> n_join_index n" "n_join_index n < MAX_PLAYERS"
    and "n_local_player_id n = player_id_for (n_join_index n)"
  shows "canonical (node_metadata n)"
  using assms by (simp add: canonical_def node_metadata_def)

lemma cached_roster_of_node:
  assumes "roster_wf (n_roster n)"
  shows "\<exists>r. cached_roster (md_peers (node_metadata n)) = Inr r"
proof -
  let ?es = "filter (\<lambda>e. entry_player_id e \<noteq> n_local_player_id n) (roster_all (n_roster n))"
  let ?f = "\<lambda>e. \<lparr>entry_player_id = entry_player_id e, entry_host = entry_host e,
        entry_udp_port = HOST_UDP_PORT, entry_join_index = entry_join_index e,
        entry_status = CONNECTED, entry_is_host = False\<rparr>"
  have "distinct (map entry_join_index ?es)" "\<forall>e \<in> set ?es. valid_entry e"
    using assms by (auto simp: roster_wf_def roster_all_def distinct_map_filter distinct_map
        inj_on_def)
  then have "roster_wf (map ?f ?es)"
    by (auto simp: roster_wf_def comp_def valid_entry_def HOST_UDP_PORT_def)
  from roster_of_wf [OF this] show ?thesis
    by (simp add: cached_roster_def node_metadata_def peer_of_entry_def comp_def)
qed

lemma crashed_node_recovers:
  assumes validator: "validator validate"
    and crashed: "0 \<le> n_join_index n" "n_join_index n < MAX_PLAYERS"
      "n_local_player_id n = player_id_for (n_join_index n)" "roster_wf (n_roster n)"
    and restarted: "valid_message (HostDiscoveryProbe (n_session_id n) (n_local_ip r))"
    and peers: "md_peers (node_metadata n) = pre @ p # post"
      "\<forall>q \<in> set pre. passed_over validate (n_session_id n) (answer q)"
    and host: "drain_input_packet (rd, decode_message validate
        (encode_message (HostDiscoveryProbe (n_session_id n) (n_local_ip r))), addr) (h, 0)
        = Inr (emit (Send_Udp m (fst addr) (snd addr)) h, 0)"
      "answer p = Payload (encode_message m)"
  shows "attempt_recovery validate answer (write_node_metadata n) r =
      Inr (Some (n_local_ip h), write_node_metadata n,
           r\<lparr>n_lifecycle := move_to_recovering (n_lifecycle r), n_remote_host := n_local_ip h,
             n_remote_port := HOST_UDP_PORT, n_session_id := n_session_id n\<rparr>)"
    and "False \<notin> set frames \<Longrightarrow>
      try_recover_session validate answer (n_local_ip r) True frames (write_node_metadata n) =
        Inr (Recovered (n_local_ip h) (n_session_id n), write_node_metadata n)"
proof -
  have probe: "decode_message validate (encode_message (HostDiscoveryProbe (n_session_id n) (n_local_ip r)))
      = Inr (HostDiscoveryProbe (n_session_id n) (n_local_ip r))"
    using read_back [OF validator restarted] by (simp add: udp_message_iff)
  have m: "m = HostIdentityResponse (n_session_id n) (n_local_ip h)" "valid_message m"
    using host(1) by (auto simp: drain_input_packet_def probe emit_def rbind_Inr_iff mk_message_Inr
        split: if_splits dest!: arg_cong [of _ _ n_out])
  have found: "find_current_host validate (n_session_id n) (n_local_ip r) answer
      (md_peers (node_metadata n)) = Inr (Some (n_local_ip h))"
    using probe_peers_append [OF peers(2)] probe_peers_identity [OF validator m(2) [unfolded m(1)]]
      host(2) restarted
    by (simp add: find_current_host_def peers(1) m(1))
  have saved: "read_session_metadata (write_node_metadata n) = Inr (Some (node_metadata n))"
    unfolding write_node_metadata_def by (rule read_written [OF node_metadata_canonical [OF crashed(1-3)]])
  have sid: "md_session_id (node_metadata n) = n_session_id n"
    by (simp add: node_metadata_def)
  show "attempt_recovery validate answer (write_node_metadata n) r =
      Inr (Some (n_local_ip h), write_node_metadata n,
           r\<lparr>n_lifecycle := move_to_recovering (n_lifecycle r), n_remote_host := n_local_ip h,
             n_remote_port := HOST_UDP_PORT, n_session_id := n_session_id n\<rparr>)"
    using found sid peers(1) by (simp add: attempt_recovery_def saved Let_def)
  assume "False \<notin> set frames"
  then show "try_recover_session validate answer (n_local_ip r) True frames (write_node_metadata n) =
        Inr (Recovered (n_local_ip h) (n_session_id n), write_node_metadata n)"
    using found sid cached_roster_of_node [OF crashed(4)]
    by (auto simp: try_recover_session_def saved)
qed


text \<open>C0: \<open>attempt_recovery\<close> names a host only when a cached peer answered for the recorded session
  with exactly that address; when it gives up it leaves no file behind, unless the file was
  unusable in the first place, and then it stays.\<close>

theorem recovery_is_sound:
  assumes "attempt_recovery validate answer f n = Inr (host, f', n')"
  shows "lifecycle_state (n_lifecycle n') = RECOVERING"
    and "case host of
        None \<Rightarrow> f' = No_File \<or> f' = f \<and> read_session_metadata f = Inr None
      | Some ip \<Rightarrow> f' = f \<and> n_remote_host n' = ip \<and> (\<exists>m. read_session_metadata f = Inr (Some m)
          \<and> n_session_id n' = md_session_id m
          \<and> (\<exists>p \<in> set (md_peers m). \<exists>j. answer p = Payload j
              \<and> decode_message validate j = Inr (HostIdentityResponse (md_session_id m) ip)))"
proof -
  let ?n = "n\<lparr>n_lifecycle := move_to_recovering (n_lifecycle n)\<rparr>"
  obtain metadata where md: "read_session_metadata f = Inr metadata"
    using assms by (auto simp: attempt_recovery_def Let_def rbind_Inr_iff)
  consider (absent) "metadata = None" "host = None" "f' = f" "n' = ?n"
    | (lonely) "host = None" "f' = No_File" "n' = ?n"
    | (found) m ip where "metadata = Some m" "host = Some ip" "f' = f"
        "n' = ?n\<lparr>n_remote_host := ip, n_remote_port := HOST_UDP_PORT, n_session_id := md_session_id m\<rparr>"
        "probe_peers validate (md_session_id m) answer (md_peers m) = Inr (Some ip)"
  proof (cases metadata)
    case None
    then show thesis
      using assms md that(1) by (simp add: attempt_recovery_def Let_def)
  next
    case (Some m)
    show thesis
    proof (cases "find_current_host validate (md_session_id m) (n_local_ip n) answer (md_peers m)")
      case (Inl e)
      then show thesis
        using assms md Some that(2)
        by (auto simp: attempt_recovery_def Let_def delete_session_metadata_def split: if_splits)
    next
      case (Inr r)
      show thesis
      proof (cases "md_peers m = [] \<or> r = None")
        case True
        then show thesis
          using assms md Some Inr that(2)
          by (auto simp: attempt_recovery_def Let_def delete_session_metadata_def split: if_splits)
      next
        case False
        then show thesis
          using assms md Some Inr that(3) [of m]
          by (auto simp: attempt_recovery_def Let_def find_current_host_def rbind_Inr_iff)
      qed
    qed
  qed
  note outcome = this
  show "lifecycle_state (n_lifecycle n') = RECOVERING"
    using outcome by cases (simp_all add: move_to_recovering_def)
  show "case host of
        None \<Rightarrow> f' = No_File \<or> f' = f \<and> read_session_metadata f = Inr None
      | Some ip \<Rightarrow> f' = f \<and> n_remote_host n' = ip \<and> (\<exists>m. read_session_metadata f = Inr (Some m)
          \<and> n_session_id n' = md_session_id m
          \<and> (\<exists>p \<in> set (md_peers m). \<exists>j. answer p = Payload j
              \<and> decode_message validate j = Inr (HostIdentityResponse (md_session_id m) ip)))"
    using outcome by cases (use md in \<open>auto dest!: probe_peers_found\<close>)
qed

text \<open>One malformed datagram stops a recovery for good: when the first peer that answers sends
  JSON that is not an object, the exception is not one the prober catches, the probe's thread ends,
  and the recovery screen shows frame after frame without ever moving on.\<close>

theorem malformed_answer_stalls_recovery:
  assumes "read_session_metadata f = Inr (Some m)" "cached_roster (md_peers m) = Inr r"
    and "valid_message (HostDiscoveryProbe (md_session_id m) local_ip)"
    and "md_peers m = pre @ p # post" "\<forall>q \<in> set pre. passed_over validate (md_session_id m) (answer q)"
    and "answer p = Payload (JList js)"
    and "False \<notin> set frames"
  shows "try_recover_session validate answer local_ip True frames f = Inr (Still_Probing, f)"
proof -
  have "find_current_host validate (md_session_id m) local_ip answer (md_peers m)
      = Inl (AttributeError ''object has no attribute get'')"
    using probe_peers_append [OF assms(5)] assms(3,6)
    by (simp add: find_current_host_def assms(4) decode_message_def decode_with_def)
  then show ?thesis
    using assms(1,2,7) by (simp add: try_recover_session_def)
qed

subsection \<open>Witnesses\<close>


text \<open>
  \<open>player2\<close> crashed after the old host \<open>player1\<close> did; \<open>player3\<close> has been promoted since.
\<close>

definition example_answer :: "cached_peer \<Rightarrow> probe_answer" where
  "example_answer q =
     (if peer_ip q = ''10.0.0.1'' then No_Answer
      else Payload (encode_message (HostIdentityResponse ''s'' ''10.0.0.3'')))"

lemma example_peer_metadata:
  "md_peers (node_metadata example_peer) =
     [\<lparr>peer_player_id = ''player1'', peer_ip = ''10.0.0.1'', peer_join_index = 0\<rparr>]
     @ \<lparr>peer_player_id = ''player3'', peer_ip = ''10.0.0.3'', peer_join_index = 2\<rparr> # []"
  by (simp add: node_metadata_def example_peer_def roster_all_def example_entry_def peer_of_entry_def)


lemma recovery_is_sound_witness:
  "\<exists>f' n'. attempt_recovery strict_validate (\<lambda>_. No_Answer)
      (write_session_metadata (example_metadata)) example_peer = Inr (None, f', n')
    \<and> f' = No_File \<and> lifecycle_state (n_lifecycle n') = RECOVERING"
proof -
  have probe: "mk_message (HostDiscoveryProbe ''s1'' ''10.0.0.2'') = Inr (HostDiscoveryProbe ''s1'' ''10.0.0.2'')"
    by (simp add: mk_message_Inr valid_message_def require_def checks.simps)
  have "\<exists>f' n'. attempt_recovery strict_validate (\<lambda>_. No_Answer)
      (write_session_metadata example_metadata) example_peer = Inr (None, f', n')"
    using read_written [OF example_metadata_canonical] probe
    by (simp add: attempt_recovery_def example_metadata_def find_current_host_def)
      (simp add: example_peer_def)
  then obtain f' n' where r: "attempt_recovery strict_validate (\<lambda>_. No_Answer)
      (write_session_metadata example_metadata) example_peer = Inr (None, f', n')"
    by blast
  from recovery_is_sound [OF r] r show ?thesis
    by (auto simp: read_written [OF example_metadata_canonical])
qed

lemma malformed_answer_stalls_recovery_witness:
  "try_recover_session strict_validate (\<lambda>_. Payload (JList [])) ''10.0.0.2'' True (replicate 1000 True)
      (write_session_metadata example_metadata)
    = Inr (Still_Probing, write_session_metadata example_metadata)"
proof -
  have peers: "md_peers example_metadata =
      [] @ \<lparr>peer_player_id = ''player1'', peer_ip = ''10.0.0.1'', peer_join_index = 0\<rparr> # []"
    by (simp add: example_metadata_def)
  have roster: "\<exists>r. cached_roster (md_peers example_metadata) = Inr r"
    by (simp add: example_metadata_def cached_roster_def roster_of_def roster_add_def
        validate_entry_def HOST_UDP_PORT_def)
  have probe: "valid_message (HostDiscoveryProbe (md_session_id example_metadata) ''10.0.0.2'')"
    by (simp add: valid_message_def require_def checks.simps example_metadata_def)
  obtain r where r: "cached_roster (md_peers example_metadata) = Inr r"
    using roster by blast
  show ?thesis
    by (rule malformed_answer_stalls_recovery [OF read_written [OF example_metadata_canonical] r probe peers])
      simp_all
qed

end
