(* ===== verification/Connections.thy ===== *)
theory Connections
  imports Recovery
begin

text \<open>
  How a node reaches the lobby: the WebSocket client (\<^verbatim>\<open>network/transport/websocket.py\<close>), the UDP
  discovery (\<^verbatim>\<open>network/discovery.py\<close>) and the containers (\<^verbatim>\<open>network/lobby/container.py\<close>).
  Every answer of the network, of the operating system and of the container runtime is an argument.
\<close>

subsection \<open>The WebSocket client\<close>

text \<open>
  The receive loop of one connection.  A frame is JSON or not; a frame whose decoding raises one of
  the exceptions the loop names is skipped, any other exception ends the loop, and with it the
  thread, without a trace in the handler.
\<close>

datatype ws_frame = Garbage | Frame json

record ws_handler =
  ws_inbox :: "message list"
  ws_alive :: bool

definition skipped_error :: "py_error \<Rightarrow> bool" where
  "skipped_error e \<longleftrightarrow> is_value_error e \<or> (\<exists>s. e = TypeError s)"

fun receive_loop :: "validation \<Rightarrow> ws_frame list \<Rightarrow> ws_handler \<Rightarrow> ws_handler" where
  "receive_loop validate [] h = h"
| "receive_loop validate (Garbage # frames) h = receive_loop validate frames h"
| "receive_loop validate (Frame j # frames) h =
     (case decode_ws_message validate j of
        Inr m \<Rightarrow> receive_loop validate frames (h\<lparr>ws_inbox := ws_inbox h @ [m]\<rparr>)
      | Inl e \<Rightarrow> if skipped_error e then receive_loop validate frames h else h\<lparr>ws_alive := False\<rparr>)"

definition ws_poll :: "ws_handler \<Rightarrow> message option \<times> ws_handler" where
  "ws_poll h = (case ws_inbox h of [] \<Rightarrow> (None, h) | m # ms \<Rightarrow> (Some m, h\<lparr>ws_inbox := ms\<rparr>))"

text \<open>\<^verbatim>\<open>send\<close>: connected, and the encoded message.\<close>

definition ws_send :: "bool \<Rightarrow> message \<Rightarrow> json result" where
  "ws_send opened m =
     (if \<not> opened then Inl (RuntimeError ''WsHandler not connected'')
      else Inr (JObj (encode_ws_message m)))"

text \<open>
  \<^verbatim>\<open>connect\<close> waits for the receiving thread: it may report in time or not, with a connection or the
  exception that ended it (\<^verbatim>\<open>ConnectionError\<close> is an \<^verbatim>\<open>OSError\<close>).
\<close>

definition ws_connect :: "bool \<Rightarrow> py_error option \<Rightarrow> unit result" where
  "ws_connect ready connection_error =
     (if \<not> ready then Inl (TimeoutError ''Timed out connecting to lobby'')
      else case connection_error of
        Some e \<Rightarrow> Inl (OSError ''Could not connect to lobby'')
      | None \<Rightarrow> Inr ())"

text \<open>\<^verbatim>\<open>connect_with_retries\<close>: the outcome of each attempt, from the first; \<open>Inl\<close> is the exception.\<close>

fun connect_from :: "(nat \<Rightarrow> unit result) \<Rightarrow> nat \<Rightarrow> nat \<Rightarrow> unit result" where
  "connect_from trial attempt 0 = Inr ()"
| "connect_from trial attempt (Suc remaining) =
     (case trial attempt of
        Inr u \<Rightarrow> Inr ()
      | Inl e \<Rightarrow>
          if \<not> (\<exists>s. e = TimeoutError s \<or> e = OSError s) \<or> remaining = 0 then Inl e
          else connect_from trial (attempt + 1) remaining)"

definition CONNECT_ATTEMPTS :: nat where "CONNECT_ATTEMPTS = 10"

definition connect_with_retries :: "(nat \<Rightarrow> unit result) \<Rightarrow> unit result" where
  "connect_with_retries trial = connect_from trial 1 CONNECT_ATTEMPTS"

subsection \<open>Discovery\<close>

definition query_of :: "ident \<Rightarrow> string" where
  "query_of sid = ''WHO '' @ sid"

record discovery_service =
  announcing :: "(ident \<times> int) option"
  allowed_ips :: "string set option"

definition no_discovery :: discovery_service where
  "no_discovery = \<lparr>announcing = None, allowed_ips = None\<rparr>"

definition announce :: "ident \<Rightarrow> int \<Rightarrow> string list option \<Rightarrow> discovery_service \<Rightarrow> discovery_service" where
  "announce sid lobby_port ips d =
     d\<lparr>announcing := Some (sid, lobby_port), allowed_ips := map_option set ips\<rparr>"

definition set_allowed_ips :: "string list option \<Rightarrow> discovery_service \<Rightarrow> discovery_service" where
  "set_allowed_ips ips d = d\<lparr>allowed_ips := map_option set ips\<rparr>"

definition stop_discovery :: "discovery_service \<Rightarrow> discovery_service" where
  "stop_discovery d = d\<lparr>announcing := None, allowed_ips := None\<rparr>"

text \<open>One datagram at the announcing thread; \<open>Some\<close> is the reply it sends to the sender.\<close>

definition announce_reply :: "discovery_service \<Rightarrow> string \<Rightarrow> string \<Rightarrow> string option" where
  "announce_reply d query sender_ip =
     (case announcing d of
        None \<Rightarrow> None
      | Some (sid, lobby_port) \<Rightarrow>
          if query \<noteq> query_of sid then None
          else if (case allowed_ips d of None \<Rightarrow> False | Some ips \<Rightarrow> sender_ip \<notin> ips) then None
          else Some (str_int lobby_port))"

text \<open>\<^verbatim>\<open>int(s)\<close> of an ASCII string (the digit-grouping underscores of Python are left out).\<close>

definition is_blank :: "char \<Rightarrow> bool" where
  "is_blank c \<longleftrightarrow> c \<in> {CHR '' '', CHR 0x09, CHR 0x0A, CHR 0x0B, CHR 0x0C, CHR 0x0D, CHR 0x1C, CHR 0x1D, CHR 0x1E, CHR 0x1F}"

definition strip :: "string \<Rightarrow> string" where
  "strip s = rev (dropWhile is_blank (rev (dropWhile is_blank s)))"

definition int_of_string :: "string \<Rightarrow> int result" where
  "int_of_string s =
     (case strip s of
        [] \<Rightarrow> Inl (ValueError s)
      | c # cs \<Rightarrow>
          if c = CHR ''-'' \<and> isdigit cs then Inr (- int (parse_nat cs))
          else if c = CHR ''+'' \<and> isdigit cs then Inr (int (parse_nat cs))
          else if isdigit (c # cs) then Inr (int (parse_nat (c # cs)))
          else Inl (ValueError s))"

text \<open>
  \<^verbatim>\<open>discover\<close>: \<open>answer ip\<close> is what the broadcast from the local address \<open>ip\<close> brings in, the reply
  and its sender, if it brings one before the timeout.
\<close>

fun discover_from :: "(string \<Rightarrow> (string \<times> string) option) \<Rightarrow> string list \<Rightarrow> (string \<times> int) result" where
  "discover_from answer [] = Inl (TimeoutError ''discovery timed out on all local interfaces'')"
| "discover_from answer (ip # ips) =
     (case answer ip of
        None \<Rightarrow> discover_from answer ips
      | Some (reply, host_ip) \<Rightarrow> rbind (int_of_string reply) (\<lambda>port. Inr (host_ip, port)))"

definition discover :: "(string \<Rightarrow> (string \<times> string) option) \<Rightarrow> string list \<Rightarrow> (string \<times> int) result" where
  "discover answer local_ips = discover_from answer (if local_ips = [] then [''0.0.0.0''] else local_ips)"

subsection \<open>Containers\<close>

text \<open>\<^verbatim>\<open>_wait_until_removed\<close>: the clock and the exit code of \<^verbatim>\<open>docker inspect\<close> at each poll; \<open>None\<close>
  while it still polls.\<close>

definition REMOVAL_TIMEOUT_S :: flt where "REMOVAL_TIMEOUT_S = 5"

fun wait_until_removed :: "flt \<Rightarrow> (flt \<times> int) list \<Rightarrow> bool option" where
  "wait_until_removed deadline [] = None"
| "wait_until_removed deadline ((now, code) # polls) =
     (if \<not> now < deadline then Some False
      else if code \<noteq> 0 then Some True
      else wait_until_removed deadline polls)"

text \<open>
  The manager's loop over the two containers: \<open>running\<close> is what \<^verbatim>\<open>docker inspect\<close> says, \<open>code\<close> the
  exit code of \<^verbatim>\<open>docker run\<close>, which is called once the old container is gone or has had its time.
  The result lists the containers it started, also those before the one that fails.
\<close>

definition CONTAINERS :: "(string \<times> int) list" where
  "CONTAINERS = [(''smb-lobby'', LOBBY_WS_PORT), (''smb-gameevents'', GAME_EVENT_WS_PORT)]"

fun start_containers ::
    "(string \<Rightarrow> bool) \<Rightarrow> (string \<Rightarrow> int) \<Rightarrow> (string \<times> int) list \<Rightarrow> (string \<times> int) list \<times> unit result" where
  "start_containers running code [] = ([], Inr ())"
| "start_containers running code ((name, port) # cs) =
     (if running name then start_containers running code cs
      else if code name \<noteq> 0 then ([], Inl (RuntimeError (''docker run '' @ name)))
      else (case start_containers running code cs of (ns, r) \<Rightarrow> ((name, port) # ns, r)))"

definition stop_containers :: "(string \<Rightarrow> bool) \<Rightarrow> string \<Rightarrow> bool" where
  "stop_containers running = (\<lambda>name. running name \<and> name \<notin> fst ` set CONTAINERS)"

subsection \<open>Reception\<close>

text \<open>A frame that reaches the inbox or is skipped.\<close>

definition harmless :: "validation \<Rightarrow> ws_frame \<Rightarrow> bool" where
  "harmless validate f \<longleftrightarrow>
     (case f of
        Garbage \<Rightarrow> True
      | Frame j \<Rightarrow> (case decode_ws_message validate j of Inr m \<Rightarrow> True | Inl e \<Rightarrow> skipped_error e))"

definition messages_of :: "validation \<Rightarrow> ws_frame list \<Rightarrow> message list" where
  "messages_of validate frames =
     concat (map (\<lambda>f. case f of
        Garbage \<Rightarrow> []
      | Frame j \<Rightarrow> (case decode_ws_message validate j of Inr m \<Rightarrow> [m] | Inl e \<Rightarrow> [])) frames)"

lemma receive_harmless:
  "\<forall>f \<in> set frames. harmless validate f \<Longrightarrow>
     receive_loop validate (frames @ rest) h
       = receive_loop validate rest (h\<lparr>ws_inbox := ws_inbox h @ messages_of validate frames\<rparr>)"
proof (induction frames arbitrary: h)
  case Nil
  then show ?case by (simp add: messages_of_def)
next
  case (Cons f fs)
  then show ?case
    by (cases f) (auto simp: harmless_def messages_of_def split: sum.splits)
qed



text \<open>One malformed frame makes a client deaf: JSON that is not an object raises an exception the
  receive loop does not name, the loop ends, and nothing that follows reaches the inbox.\<close>

theorem malformed_frame_ends_reception:
  assumes "\<forall>f \<in> set before. harmless validate f"
  shows "receive_loop validate (before @ Frame (JList js) # after) \<lparr>ws_inbox = [], ws_alive = True\<rparr>
    = \<lparr>ws_inbox = messages_of validate before, ws_alive = False\<rparr>"
  by (simp add: receive_harmless [OF assms] decode_ws_message_def decode_with_def skipped_error_def)

lemma malformed_frame_ends_reception_witness:
  "receive_loop strict_validate [Garbage, Frame (JList []), Frame (JObj (encode_ws_message (GameStart ''s'')))]
     \<lparr>ws_inbox = [], ws_alive = True\<rparr> = \<lparr>ws_inbox = [], ws_alive = False\<rparr>"
  using malformed_frame_ends_reception [of "[Garbage]" strict_validate "[]"]
  by (simp add: messages_of_def harmless_def)

subsection \<open>Reaching the lobby\<close>

lemma connect_from_ok:
  assumes "0 < n" "i < n" "trial (attempt + i) = Inr ()"
    and "\<forall>j < i. \<exists>s. trial (attempt + j) = Inl (OSError s) \<or> trial (attempt + j) = Inl (TimeoutError s)"
  shows "connect_from trial attempt n = Inr ()"
  using assms
proof (induction n arbitrary: attempt i)
  case (Suc n)
  show ?case
  proof (cases i)
    case 0
    then show ?thesis using Suc.prems(3) by simp
  next
    case (Suc k)
    then obtain s where s: "trial attempt = Inl (OSError s) \<or> trial attempt = Inl (TimeoutError s)"
      using Suc.prems(4) by fastforce
    have "\<exists>s. trial (attempt + 1 + j) = Inl (OSError s) \<or> trial (attempt + 1 + j) = Inl (TimeoutError s)"
      if "j < k" for j
      using Suc.prems(4) [rule_format, of "Suc j"] Suc that by simp
    then have "connect_from trial (attempt + 1) n = Inr ()"
      by (intro Suc.IH [of k]) (use Suc Suc.prems in auto)
    then show ?thesis using s Suc Suc.prems(2) by auto
  qed
qed simp

lemma isdigit_not_sign: "isdigit s \<Longrightarrow> c \<in> set s \<Longrightarrow> c \<noteq> CHR ''-'' \<and> c \<noteq> CHR ''+''"
  by (auto simp: isdigit_def less_eq_char_def)

lemma isdigit_not_blank: "isdigit s \<Longrightarrow> c \<in> set s \<Longrightarrow> \<not> is_blank c"
  by (auto simp: isdigit_def is_blank_def less_eq_char_def)

lemma strip_no_blank: "\<forall>c \<in> set s. \<not> is_blank c \<Longrightarrow> strip s = s"
proof -
  have "dropWhile is_blank t = t" if "\<forall>c \<in> set t. \<not> is_blank c" for t
    using that by (cases t) auto
  from this [of s] this [of "rev s"] show "\<forall>c \<in> set s. \<not> is_blank c \<Longrightarrow> strip s = s"
    by (simp add: strip_def)
qed

lemma strip_digits: "isdigit s \<Longrightarrow> strip s = s"
  using strip_no_blank isdigit_not_blank by blast

lemma int_of_str_int: "0 \<le> i \<Longrightarrow> int_of_string (str_int i) = Inr i"
proof -
  assume i: "0 \<le> i"
  let ?s = "str_nat (nat i)"
  have s: "isdigit ?s" by (rule isdigit_str_nat)
  obtain c cs where c: "?s = c # cs" by (cases ?s) auto
  then have "c \<noteq> CHR ''-'' \<and> c \<noteq> CHR ''+''" using isdigit_not_sign [OF s] by auto
  then show ?thesis
    using i s c parse_str_nat [of "nat i"] by (simp add: int_of_string_def str_int_def strip_digits)
qed

text \<open>Discovery finds the announcing host: the first local interface whose broadcast is answered
  by a host that announces the session, and does not refuse the address, yields that host and its
  lobby port.\<close>

theorem discovery_finds_the_host:
  assumes "local_ips = pre @ ip # post" "\<forall>q \<in> set pre. answer q = None"
    and "announce_reply d (query_of sid) ip = Some reply" "announcing d = Some (sid, lobby_port)"
    and "answer ip = Some (reply, host_ip)" "0 \<le> lobby_port"
  shows "discover answer local_ips = Inr (host_ip, lobby_port)"
proof -
  have reply: "reply = str_int lobby_port"
    using assms(3,4) by (auto simp: announce_reply_def split: if_splits)
  have "discover_from answer (pre @ ip # post) = Inr (host_ip, lobby_port)"
    using assms(2) by (induction pre) (simp_all add: assms(5,6) reply int_of_str_int)
  then show ?thesis by (simp add: discover_def assms(1))
qed

lemma discovery_finds_the_host_witness:
  "discover (\<lambda>ip. if ip = ''10.0.0.2'' then Some (str_int LOBBY_WS_PORT, ''10.0.0.1'') else None)
     [''172.17.0.1'', ''10.0.0.2''] = Inr (''10.0.0.1'', LOBBY_WS_PORT)"
  by (rule discovery_finds_the_host [where pre = "[''172.17.0.1'']" and ip = "''10.0.0.2''" and post = "[]"
        and sid = "''s''" and d = "announce ''s'' LOBBY_WS_PORT None no_discovery" and reply = "str_int LOBBY_WS_PORT"])
    (simp_all add: announce_reply_def announce_def LOBBY_WS_PORT_def)

end
