(* ===== verification/Udp.thy ===== *)
theory Udp
  imports Config "HOL-Library.Multiset"
begin

text \<open>
  The UDP endpoint (\<^verbatim>\<open>network/transport/udp.py\<close>): one socket, random packet loss and an
  artificial send delay.

  What the operating system and the random generator answer are arguments: the port the socket is
  bound to, the number \<^verbatim>\<open>random()\<close> draws, the two clock readings of a send, and what
  \<^verbatim>\<open>recvfrom\<close> does.  Datagrams handed to \<^verbatim>\<open>sendto\<close> are appended to \<open>udp_wire\<close>.  The loop that
  empties the delay queue is a partial function, so that its termination is a theorem.
\<close>

type_synonym datagram = "string \<times> string \<times> int"

record queue_entry =
  qe_send_at :: flt
  qe_tie :: int
  qe_datagram :: datagram

record udp_handler =
  udp_host :: string
  udp_port :: int
  udp_drop_rate :: flt
  udp_max_packet_size :: int
  udp_latency_ms :: int
  udp_open :: bool
  udp_queue :: "queue_entry list"
  udp_counter :: int
  udp_wire :: "datagram list"

definition new_udp_handler :: "string \<Rightarrow> int \<Rightarrow> flt \<Rightarrow> int \<Rightarrow> int \<Rightarrow> udp_handler" where
  "new_udp_handler host port rate max_size latency =
     \<lparr>udp_host = host, udp_port = port, udp_drop_rate = rate, udp_max_packet_size = max_size,
      udp_latency_ms = latency, udp_open = False, udp_queue = [], udp_counter = 0,
      udp_wire = []\<rparr>"

subsection \<open>The delay queue\<close>

text \<open>
  \<^verbatim>\<open>heapq\<close> on \<^verbatim>\<open>_QueueEntry\<close> tuples.  The counter is unique, so the comparison of two entries never
  reaches the payload, and the queue is determined by its entries: it is kept as the sorted list.
\<close>

definition entry_less :: "queue_entry \<Rightarrow> queue_entry \<Rightarrow> bool" where
  "entry_less a b \<longleftrightarrow>
     qe_send_at a < qe_send_at b \<or> qe_send_at a = qe_send_at b \<and> qe_tie a < qe_tie b"

fun heap_push :: "queue_entry \<Rightarrow> queue_entry list \<Rightarrow> queue_entry list" where
  "heap_push e [] = [e]"
| "heap_push e (f # fs) = (if entry_less e f then e # f # fs else f # heap_push e fs)"

definition heap_top :: "queue_entry list \<Rightarrow> queue_entry option" where
  "heap_top q = (case q of [] \<Rightarrow> None | e # _ \<Rightarrow> Some e)"

definition heap_pop :: "queue_entry list \<Rightarrow> queue_entry list" where
  "heap_pop q = tl q"

subsection \<open>Operations\<close>

definition open_socket :: "int \<Rightarrow> udp_handler \<Rightarrow> udp_handler" where
  "open_socket bound h = (if udp_open h then h else h\<lparr>udp_port := bound, udp_open := True\<rparr>)"

definition close_socket :: "udp_handler \<Rightarrow> udp_handler" where
  "close_socket h = (if \<not> udp_open h then h else h\<lparr>udp_open := False\<rparr>)"

definition should_drop_packet :: "flt \<Rightarrow> udp_handler \<Rightarrow> bool" where
  "should_drop_packet draw h \<longleftrightarrow> draw < udp_drop_rate h"

definition sendto :: "datagram \<Rightarrow> udp_handler \<Rightarrow> udp_handler" where
  "sendto d h = h\<lparr>udp_wire := udp_wire h @ [d]\<rparr>"

text \<open>\<open>None\<close> would be a loop that never ends; \<open>Inl\<close> the failed assertion.\<close>

partial_function (option) flush_outgoing ::
    "flt \<Rightarrow> udp_handler \<Rightarrow> udp_handler result option" where
  "flush_outgoing now h =
     (case heap_top (udp_queue h) of
        None \<Rightarrow> Some (Inr h)
      | Some e \<Rightarrow>
          if qe_send_at e \<le> now then
            (if \<not> udp_open h then Some (Inl (AssertionError ''''))
             else flush_outgoing now
               (sendto (qe_datagram e) (h\<lparr>udp_queue := heap_pop (udp_queue h)\<rparr>)))
          else Some (Inr h))"

text \<open>What a send reads from outside: the bound port, the random draw and the two clock readings.\<close>

record send_reading =
  sr_bound :: int
  sr_draw :: flt
  sr_flush_at :: flt
  sr_stamp_at :: flt

definition enqueue :: "flt \<Rightarrow> datagram \<Rightarrow> udp_handler \<Rightarrow> udp_handler" where
  "enqueue stamp d h =
     (let counter = udp_counter h + 1 in
      h\<lparr>udp_counter := counter,
        udp_queue := heap_push
          \<lparr>qe_send_at = stamp + of_int (udp_latency_ms h) / 1000, qe_tie = counter,
           qe_datagram = d\<rparr> (udp_queue h)\<rparr>)"

definition send_packet_nowait ::
    "send_reading \<Rightarrow> datagram \<Rightarrow> udp_handler \<Rightarrow> udp_handler result option" where
  "send_packet_nowait r d h =
     (let h1 = open_socket (sr_bound r) h in
      if should_drop_packet (sr_draw r) h1 then Some (Inr h1)
      else if \<not> udp_open h1 then Some (Inl (AssertionError ''''))
      else if udp_latency_ms h1 = 0 then Some (Inr (sendto d h1))
      else map_option (\<lambda>m. rbind m (\<lambda>h2. Inr (enqueue (sr_stamp_at r) d h2)))
             (flush_outgoing (sr_flush_at r) h1))"

text \<open>
  \<open>recv\<close> is what \<^verbatim>\<open>recvfrom\<close> does with the buffer size: a datagram and its sender, or one of the two
  exceptions the code turns into \<^verbatim>\<open>None\<close>; any other one escapes.
\<close>

datatype recv_outcome =
    Received string "string \<times> int"
  | Would_Block
  | Connection_Reset
  | Recv_Failed py_error

definition receive_packet_nowait ::
    "int \<Rightarrow> (int \<Rightarrow> recv_outcome) \<Rightarrow> udp_handler
       \<Rightarrow> ((string \<times> string \<times> int) option \<times> udp_handler) result" where
  "receive_packet_nowait bound recv h =
     (let h1 = open_socket bound h in
      if \<not> udp_open h1 then Inl (AssertionError '''')
      else (case recv (udp_max_packet_size h1) of
          Received payload sender \<Rightarrow> Inr (Some (payload, sender), h1)
        | Would_Block \<Rightarrow> Inr (None, h1)
        | Connection_Reset \<Rightarrow> Inr (None, h1)
        | Recv_Failed e \<Rightarrow> Inl e))"

subsection \<open>The contract of a delay queue\<close>

text \<open>
  What the flush relies on: the top is a least entry, popping removes exactly it, pushing adds
  exactly the entry.
\<close>

locale delay_queue =
  fixes push :: "'e \<Rightarrow> 'q \<Rightarrow> 'q"
    and top :: "'q \<Rightarrow> 'e option"
    and pop :: "'q \<Rightarrow> 'q"
    and less :: "'e \<Rightarrow> 'e \<Rightarrow> bool"
    and entries :: "'q \<Rightarrow> 'e multiset"
    and ok :: "'q \<Rightarrow> bool"
  assumes top_None: "top q = None \<longleftrightarrow> entries q = {#}"
    and top_Some: "ok q \<Longrightarrow> top q = Some e \<Longrightarrow> e \<in># entries q \<and> (\<forall>f \<in># entries q. \<not> less f e)"
    and entries_pop: "top q = Some e \<Longrightarrow> entries (pop q) = entries q - {#e#}"
    and entries_push: "entries (push e q) = add_mset e (entries q)"
    and ok_pop: "ok q \<Longrightarrow> ok (pop q)"
    and ok_push: "ok q \<Longrightarrow> ok (push e q)"
begin

lemma pop_smaller: "ok q \<Longrightarrow> top q = Some e \<Longrightarrow> size (entries (pop q)) < size (entries q)"
  using top_Some [of q e] by (simp add: entries_pop size_Diff1_less)

lemma nothing_due:
  assumes "ok q" "top q = Some e" "\<not> due e" "f \<in># entries q"
    and "\<And>a b. \<not> less b a \<Longrightarrow> due b \<Longrightarrow> due a"
  shows "\<not> due f"
  using assms top_Some [of q e] by blast

end

definition heap_ok :: "queue_entry list \<Rightarrow> bool" where
  "heap_ok q \<longleftrightarrow> sorted_wrt (\<lambda>a b. \<not> entry_less b a) q"

lemma entry_less_trans: "\<not> entry_less b a \<Longrightarrow> \<not> entry_less c b \<Longrightarrow> \<not> entry_less c a"
  by (auto simp: entry_less_def)

lemma mset_heap_push: "mset (heap_push e q) = add_mset e (mset q)"
  by (induction q) auto

lemma set_heap_push: "set (heap_push e q) = insert e (set q)"
  by (induction q) auto

lemma heap_ok_push: "heap_ok q \<Longrightarrow> heap_ok (heap_push e q)"
proof (induction q)
  case Nil
  then show ?case by (simp add: heap_ok_def)
next
  case (Cons f fs)
  then show ?case
    by (auto simp: heap_ok_def set_heap_push entry_less_def)
qed

interpretation delays: delay_queue heap_push heap_top heap_pop entry_less mset heap_ok
proof unfold_locales
  fix q :: "queue_entry list" and e
  show "heap_top q = None \<longleftrightarrow> mset q = {#}"
    by (cases q) (simp_all add: heap_top_def)
  show "e \<in># mset q \<and> (\<forall>f \<in># mset q. \<not> entry_less f e)" if "heap_ok q" "heap_top q = Some e"
    using that by (cases q) (auto simp: heap_top_def heap_ok_def entry_less_def)
  show "mset (heap_pop q) = mset q - {#e#}" if "heap_top q = Some e"
    using that by (cases q) (simp_all add: heap_top_def heap_pop_def)
  show "mset (heap_push e q) = add_mset e (mset q)"
    by (rule mset_heap_push)
  show "heap_ok (heap_pop q)" if "heap_ok q"
    using that by (cases q) (simp_all add: heap_ok_def heap_pop_def)
  show "heap_ok (heap_push e q)" if "heap_ok q"
    using that by (rule heap_ok_push)
qed

lemmas flush_steps = flush_outgoing.simps

subsection \<open>The flush\<close>

lemma flush_outgoing_eq:
  assumes "udp_open h"
  shows "flush_outgoing now h =
    Some (Inr (h\<lparr>udp_queue := dropWhile (\<lambda>e. qe_send_at e \<le> now) (udp_queue h),
                 udp_wire := udp_wire h @
                   map qe_datagram (takeWhile (\<lambda>e. qe_send_at e \<le> now) (udp_queue h))\<rparr>))"
  using assms
proof (induction "udp_queue h" arbitrary: h)
  case Nil
  from Nil(1) [symmetric] show ?case
    by (subst flush_steps) (cases h, simp add: heap_top_def)
next
  case (Cons e es)
  let ?h = "sendto (qe_datagram e) (h\<lparr>udp_queue := heap_pop (udp_queue h)\<rparr>)"
  have q: "udp_queue h = e # es" by (rule Cons(2) [symmetric])
  show ?case
  proof (cases "qe_send_at e \<le> now")
    case True
    have "es = udp_queue ?h" "udp_open ?h"
      using q Cons.prems by (simp_all add: sendto_def heap_pop_def)
    from Cons(1) [OF this] True show ?thesis
      using q Cons.prems by (subst flush_steps) (simp add: heap_top_def heap_pop_def sendto_def)
  next
    case False
    then show ?thesis
      using q by (subst flush_steps) (cases h, simp add: heap_top_def)
  qed
qed

lemma heap_ok_dropWhile: "heap_ok q \<Longrightarrow> heap_ok (dropWhile P q)"
  unfolding heap_ok_def by (rule sorted_wrt_dropWhile)

lemma nothing_due_left:
  assumes "heap_ok q" "e \<in> set (dropWhile (\<lambda>e. qe_send_at e \<le> now) q)"
  shows "now < qe_send_at e"
proof -
  let ?rest = "dropWhile (\<lambda>e. qe_send_at e \<le> now) q"
  obtain f fs where f: "?rest = f # fs"
    using assms(2) by (cases ?rest) auto
  have ok: "heap_ok ?rest"
    using assms(1) by (rule heap_ok_dropWhile)
  have "\<not> qe_send_at f \<le> now"
    using hd_dropWhile [of "\<lambda>e. qe_send_at e \<le> now" q] f by simp
  then have "\<not> qe_send_at e \<le> now"
    using delays.nothing_due [OF ok, of f "\<lambda>e. qe_send_at e \<le> now" e] f assms(2)
    by (auto simp: heap_top_def entry_less_def)
  then show ?thesis by simp
qed

text \<open>C19: whatever is queued, the flush loop of an open endpoint returns: it hands the datagrams
  whose time has come to the socket, in the order of their times, and keeps exactly those whose
  time has not come.\<close>

theorem flush_returns:
  assumes "udp_open h" "heap_ok (udp_queue h)"
  shows "\<exists>h' due. flush_outgoing now h = Some (Inr h')
    \<and> udp_wire h' = udp_wire h @ map qe_datagram due
    \<and> mset due + mset (udp_queue h') = mset (udp_queue h)
    \<and> sorted (map qe_send_at due)
    \<and> (\<forall>e \<in> set due. qe_send_at e \<le> now)
    \<and> (\<forall>e \<in> set (udp_queue h'). now < qe_send_at e)"
proof (intro exI conjI)
  let ?P = "\<lambda>e. qe_send_at e \<le> now"
  show "flush_outgoing now h = Some (Inr (h\<lparr>udp_queue := dropWhile ?P (udp_queue h),
      udp_wire := udp_wire h @ map qe_datagram (takeWhile ?P (udp_queue h))\<rparr>))"
    by (rule flush_outgoing_eq [OF assms(1)])
  have "sorted_wrt (\<lambda>a b. \<not> entry_less b a) (takeWhile ?P (udp_queue h))"
    using assms(2) unfolding heap_ok_def by (rule sorted_wrt_takeWhile)
  then show "sorted (map qe_send_at (takeWhile ?P (udp_queue h)))"
    unfolding sorted_map by (rule sorted_wrt_mono_rel [rotated]) (auto simp: entry_less_def)
qed (use nothing_due_left [OF assms(2)] in \<open>auto simp flip: mset_append dest: set_takeWhileD\<close>)

definition example_udp :: udp_handler where
  "example_udp =
     (new_udp_handler ''127.0.0.1'' 50010 0 65535 100)\<lparr>udp_open := True, udp_counter := 2,
       udp_queue := [\<lparr>qe_send_at = 1, qe_tie = 1, qe_datagram = (''a'', ''10.0.0.2'', 50010)\<rparr>,
                     \<lparr>qe_send_at = 3, qe_tie = 2, qe_datagram = (''b'', ''10.0.0.2'', 50010)\<rparr>]\<rparr>"

lemma flush_returns_witness:
  "\<exists>h'. flush_outgoing 2 example_udp = Some (Inr h')
     \<and> (\<forall>e \<in> set (udp_queue h'). 2 < qe_send_at e)"
proof -
  have "udp_open example_udp" "heap_ok (udp_queue example_udp)"
    by (simp_all add: example_udp_def heap_ok_def entry_less_def)
  from flush_returns [OF this, of 2] show ?thesis by blast
qed

subsection \<open>The delay line\<close>

text \<open>
  What the endpoint promises without its heap and its counter: a first-in first-out line of
  datagrams with their times.
\<close>

record delay_line =
  dl_sent :: "datagram list"
  dl_waiting :: "(flt \<times> datagram) list"

definition dl_send :: "flt \<Rightarrow> int \<Rightarrow> send_reading \<Rightarrow> datagram \<Rightarrow> delay_line \<Rightarrow> delay_line" where
  "dl_send rate latency r d l =
     (if sr_draw r < rate then l
      else if latency = 0 then l\<lparr>dl_sent := dl_sent l @ [d]\<rparr>
      else \<lparr>dl_sent = dl_sent l @ map snd (takeWhile (\<lambda>w. fst w \<le> sr_flush_at r) (dl_waiting l)),
            dl_waiting = dropWhile (\<lambda>w. fst w \<le> sr_flush_at r) (dl_waiting l) @
              [(sr_stamp_at r + of_int latency / 1000, d)]\<rparr>)"

definition line_of :: "udp_handler \<Rightarrow> delay_line" where
  "line_of h = \<lparr>dl_sent = udp_wire h,
     dl_waiting = map (\<lambda>e. (qe_send_at e, qe_datagram e)) (udp_queue h)\<rparr>"

text \<open>\<open>t\<close> is the latest clock reading a datagram was stamped with.\<close>

definition udp_inv :: "flt \<Rightarrow> udp_handler \<Rightarrow> bool" where
  "udp_inv t h \<longleftrightarrow> heap_ok (udp_queue h)
     \<and> (\<forall>e \<in> set (udp_queue h). qe_tie e \<le> udp_counter h
          \<and> qe_send_at e \<le> t + of_int (udp_latency_ms h) / 1000)"

lemma heap_push_last: "\<forall>f \<in> set q. \<not> entry_less e f \<Longrightarrow> heap_push e q = q @ [e]"
  by (induction q) auto

lemma udp_inv_mono: "udp_inv t h \<Longrightarrow> t \<le> t' \<Longrightarrow> udp_inv t' h"
  by (force simp: udp_inv_def)

lemma line_dropWhile:
  "map (\<lambda>e. (qe_send_at e, qe_datagram e)) (dropWhile (\<lambda>e. qe_send_at e \<le> t) q)
     = dropWhile (\<lambda>w. fst w \<le> t) (map (\<lambda>e. (qe_send_at e, qe_datagram e)) q)"
  "map qe_datagram (takeWhile (\<lambda>e. qe_send_at e \<le> t) q)
     = map snd (takeWhile (\<lambda>w. fst w \<le> t) (map (\<lambda>e. (qe_send_at e, qe_datagram e)) q))"
  by (induction q) auto

lemma enqueue_line:
  assumes "udp_inv t h" "t \<le> stamp"
  shows "udp_queue (enqueue stamp d h) = udp_queue h @
      [\<lparr>qe_send_at = stamp + of_int (udp_latency_ms h) / 1000, qe_tie = udp_counter h + 1,
        qe_datagram = d\<rparr>]"
    and "udp_inv stamp (enqueue stamp d h)"
proof -
  let ?e = "\<lparr>qe_send_at = stamp + of_int (udp_latency_ms h) / 1000, qe_tie = udp_counter h + 1,
    qe_datagram = d\<rparr>"
  have "\<not> entry_less ?e f" if "f \<in> set (udp_queue h)" for f
    using assms that by (fastforce simp: udp_inv_def entry_less_def)
  then show q: "udp_queue (enqueue stamp d h) = udp_queue h @ [?e]"
    by (simp add: enqueue_def Let_def heap_push_last)
  have "heap_ok (udp_queue (enqueue stamp d h))"
    using assms(1) by (simp add: enqueue_def Let_def udp_inv_def heap_ok_push)
  then show "udp_inv stamp (enqueue stamp d h)"
    using udp_inv_mono [OF assms] q by (fastforce simp: udp_inv_def enqueue_def Let_def)
qed

lemma send_simulation:
  assumes "udp_inv t h" "t \<le> sr_stamp_at r"
  shows "\<exists>h'. send_packet_nowait r d h = Some (Inr h') \<and> udp_inv (sr_stamp_at r) h'
    \<and> udp_drop_rate h' = udp_drop_rate h \<and> udp_latency_ms h' = udp_latency_ms h
    \<and> line_of h' = dl_send (udp_drop_rate h) (udp_latency_ms h) r d (line_of h)"
proof -
  let ?h = "open_socket (sr_bound r) h"
  let ?P = "\<lambda>e. qe_send_at e \<le> sr_flush_at r"
  let ?f = "?h\<lparr>udp_queue := dropWhile ?P (udp_queue ?h),
    udp_wire := udp_wire ?h @ map qe_datagram (takeWhile ?P (udp_queue ?h))\<rparr>"
  have h: "udp_open ?h" "udp_queue ?h = udp_queue h" "udp_wire ?h = udp_wire h"
    "udp_latency_ms ?h = udp_latency_ms h" "udp_drop_rate ?h = udp_drop_rate h"
    "udp_counter ?h = udp_counter h"
    by (simp_all add: open_socket_def)
  have inv: "udp_inv t ?h" using assms(1) h by (simp add: udp_inv_def)
  then have inv_f: "udp_inv t ?f"
    using h heap_ok_dropWhile [of "udp_queue h" ?P]
    by (auto simp: udp_inv_def dest: set_dropWhileD)
  show ?thesis
    using h udp_inv_mono [OF inv assms(2)] enqueue_line [OF inv_f assms(2), of d]
    by (simp add: send_packet_nowait_def should_drop_packet_def Let_def flush_outgoing_eq
        dl_send_def line_of_def line_dropWhile sendto_def)
       (auto simp: udp_inv_def enqueue_def Let_def)
qed

text \<open>C20: with clock readings that do not run backwards, every send acts on an abstract
  first-in first-out delay line: a dropped datagram changes nothing, without latency it goes
  straight to the socket, otherwise the datagrams whose time has come leave in their order of
  arrival and the new one joins the end of the line with its time.\<close>

theorem sends_refine_delay_line:
  assumes "udp_inv t h" "t \<le> sr_stamp_at r"
  shows "\<exists>h'. send_packet_nowait r d h = Some (Inr h') \<and> udp_inv (sr_stamp_at r) h'
    \<and> line_of h' = dl_send (udp_drop_rate h) (udp_latency_ms h) r d (line_of h)"
  using send_simulation [OF assms] by blast

lemma sends_refine_delay_line_witness:
  "\<exists>h'. send_packet_nowait \<lparr>sr_bound = 50010, sr_draw = 1/2, sr_flush_at = 2, sr_stamp_at = 3\<rparr>
      (''c'', ''10.0.0.2'', 50010) example_udp = Some (Inr h')
    \<and> line_of h' = \<lparr>dl_sent = [(''a'', ''10.0.0.2'', 50010)],
        dl_waiting = [(3, ''b'', ''10.0.0.2'', 50010), (31/10, ''c'', ''10.0.0.2'', 50010)]\<rparr>"
proof -
  have "udp_inv 3 example_udp"
    by (simp add: example_udp_def udp_inv_def heap_ok_def entry_less_def new_udp_handler_def)
  from sends_refine_delay_line [OF this, where r = "\<lparr>sr_bound = 50010, sr_draw = 1/2,
      sr_flush_at = 2, sr_stamp_at = 3\<rparr>" and d = "(''c'', ''10.0.0.2'', 50010)"]
  show ?thesis
    by (auto simp: example_udp_def new_udp_handler_def dl_send_def line_of_def)
qed

text \<open>A run of sends on one endpoint.\<close>

fun send_in_turn :: "(send_reading \<times> datagram) list \<Rightarrow> udp_handler \<Rightarrow> udp_handler result option" where
  "send_in_turn [] h = Some (Inr h)"
| "send_in_turn ((r, d) # sends) h =
     (case send_packet_nowait r d h of
        None \<Rightarrow> None
      | Some (Inl e) \<Rightarrow> Some (Inl e)
      | Some (Inr h') \<Rightarrow> send_in_turn sends h')"

definition accepted :: "flt \<Rightarrow> (send_reading \<times> datagram) list \<Rightarrow> datagram list" where
  "accepted rate sends = map snd (filter (\<lambda>s. \<not> sr_draw (fst s) < rate) sends)"

lemma dl_send_contents:
  "dl_sent (dl_send rate latency r d l) @ map snd (dl_waiting (dl_send rate latency r d l)) =
     (if sr_draw r < rate then dl_sent l @ map snd (dl_waiting l)
      else if latency = 0 then dl_sent l @ [d] @ map snd (dl_waiting l)
      else dl_sent l @ map snd (dl_waiting l) @ [d])"
  by (simp add: dl_send_def) (metis append_assoc map_append takeWhile_dropWhile_id)

lemma dl_send_waits:
  "latency \<noteq> 0 \<Longrightarrow> dl_waiting l \<noteq> [] \<or> \<not> sr_draw r < rate \<Longrightarrow>
     dl_waiting (dl_send rate latency r d l) \<noteq> []"
  "dl_waiting l = [] \<Longrightarrow> dl_waiting (dl_send rate 0 r d l) = []"
  by (auto simp: dl_send_def)

lemma send_in_turn_run:
  assumes "udp_inv t h" "sorted (t # map (\<lambda>s. sr_stamp_at (fst s)) sends)"
    and "udp_latency_ms h = 0 \<longrightarrow> udp_queue h = []"
  shows "\<exists>h'. send_in_turn sends h = Some (Inr h')
    \<and> udp_wire h' @ map qe_datagram (udp_queue h')
        = udp_wire h @ map qe_datagram (udp_queue h) @ accepted (udp_drop_rate h) sends
    \<and> (udp_latency_ms h = 0 \<longrightarrow> udp_queue h' = [])
    \<and> (udp_latency_ms h \<noteq> 0 \<longrightarrow>
         udp_queue h \<noteq> [] \<or> accepted (udp_drop_rate h) sends \<noteq> [] \<longrightarrow> udp_queue h' \<noteq> [])"
  using assms
proof (induction sends arbitrary: t h)
  case Nil
  then show ?case by (simp add: accepted_def)
next
  case (Cons s sends)
  obtain r d where s: "s = (r, d)" by (cases s)
  have "t \<le> sr_stamp_at r" "sorted (sr_stamp_at r # map (\<lambda>s. sr_stamp_at (fst s)) sends)"
    using Cons.prems(2) s by simp_all
  then obtain h1 where h1: "send_packet_nowait r d h = Some (Inr h1)"
      "udp_inv (sr_stamp_at r) h1" "udp_drop_rate h1 = udp_drop_rate h"
      "udp_latency_ms h1 = udp_latency_ms h"
      "line_of h1 = dl_send (udp_drop_rate h) (udp_latency_ms h) r d (line_of h)"
    using send_simulation [OF Cons.prems(1), of r d] by blast
  define l where "l = line_of h"
  define l1 where "l1 = line_of h1"
  note l1 = h1(5) [folded l_def l1_def]
  have contents: "dl_sent (line_of g) @ map snd (dl_waiting (line_of g)) =
      udp_wire g @ map qe_datagram (udp_queue g)" for g
    by (simp add: line_of_def comp_def)
  have queue: "udp_queue g = [] \<longleftrightarrow> dl_waiting (line_of g) = []" for g
    by (simp add: line_of_def)
  note in_line = contents [of h, folded l_def] contents [of h1, folded l1_def]
    queue [of h, folded l_def] queue [of h1, folded l1_def]
  have empty: "udp_queue h1 = []" if "udp_latency_ms h = 0"
    using Cons.prems(3) that in_line(3,4) by (simp add: l1 dl_send_waits)
  obtain h' where h': "send_in_turn sends h1 = Some (Inr h')"
    "udp_wire h' @ map qe_datagram (udp_queue h')
       = udp_wire h1 @ map qe_datagram (udp_queue h1) @ accepted (udp_drop_rate h) sends"
    "udp_latency_ms h = 0 \<longrightarrow> udp_queue h' = []"
    "udp_latency_ms h \<noteq> 0 \<longrightarrow>
         udp_queue h1 \<noteq> [] \<or> accepted (udp_drop_rate h) sends \<noteq> [] \<longrightarrow> udp_queue h' \<noteq> []"
    using Cons.IH [OF h1(2) \<open>sorted (sr_stamp_at r # _)\<close>] h1(3,4) empty by auto
  moreover have "(udp_wire h1 @ map qe_datagram (udp_queue h1)) @ xs =
      (udp_wire h @ map qe_datagram (udp_queue h)) @
        (if sr_draw r < udp_drop_rate h then xs else d # xs)" for xs
    using in_line(3) Cons.prems(3) by (simp only: in_line(1,2) [symmetric])
      (simp add: l1 dl_send_contents split: if_splits)
  moreover have "udp_latency_ms h \<noteq> 0 \<longrightarrow>
      udp_queue h \<noteq> [] \<or> \<not> sr_draw r < udp_drop_rate h \<longrightarrow> udp_queue h1 \<noteq> []"
    using in_line(3,4) by (simp add: l1 dl_send_waits)
  ultimately show ?case
    by (auto simp: s h1(1) accepted_def split: if_splits)
qed

text \<open>A run of sends loses, repeats and reorders nothing but what the random draw dropped:
  what reached the socket, followed by what still waits, is the accepted datagrams in order.
  Without latency nothing waits; with latency the last accepted datagram always still waits, for
  the queue is only flushed by a later send.\<close>

theorem sends_keep_order:
  assumes "sorted (map (\<lambda>s. sr_stamp_at (fst s)) sends)"
  shows "\<exists>h. send_in_turn sends (new_udp_handler host port rate max_size latency) = Some (Inr h)
    \<and> udp_wire h @ map qe_datagram (udp_queue h) = accepted rate sends
    \<and> (latency = 0 \<longrightarrow> udp_queue h = [])
    \<and> (latency \<noteq> 0 \<longrightarrow> accepted rate sends \<noteq> [] \<longrightarrow> udp_queue h \<noteq> [])"
proof -
  let ?t = "case sends of [] \<Rightarrow> 0 | s # _ \<Rightarrow> sr_stamp_at (fst s)"
  let ?h = "new_udp_handler host port rate max_size latency"
  have "udp_inv ?t ?h"
    by (simp add: udp_inv_def heap_ok_def new_udp_handler_def)
  moreover have "sorted (?t # map (\<lambda>s. sr_stamp_at (fst s)) sends)"
    using assms by (cases sends) simp_all
  ultimately show ?thesis
    using send_in_turn_run [of ?t ?h sends] by (simp add: new_udp_handler_def)
qed

lemma sends_keep_order_witness:
  "\<exists>h. send_in_turn [(\<lparr>sr_bound = 50010, sr_draw = 0, sr_flush_at = 1, sr_stamp_at = 1\<rparr>,
        (''a'', ''10.0.0.2'', 50010))] (new_udp_handler ''127.0.0.1'' 50010 0 65535 100)
      = Some (Inr h) \<and> udp_queue h \<noteq> []"
  using sends_keep_order [where sends = "[(\<lparr>sr_bound = 50010, sr_draw = 0, sr_flush_at = 1,
      sr_stamp_at = 1\<rparr>, (''a'', ''10.0.0.2'', 50010))]" and host = "''127.0.0.1''"
      and port = 50010 and rate = 0 and max_size = 65535 and latency = 100]
  by (auto simp: accepted_def)

end
