(* ===== verification/Services.thy ===== *)
theory Services
  imports Event_Server Connections Udp
begin

text \<open>
  The services a node is built with (\<^verbatim>\<open>application/protocols.py\<close>): the protocols as locales, the
  no-op services and the real ones as their interpretations, and what the node relies on.  The loop
  over the broker's reports is translated as the loop it is; for every broker it returns and does
  what the list of reports says that the host's frame takes as an argument.

  Then the connections of a node to its relay and lobby, which it replaces after a migration
  (\<^verbatim>\<open>node_controller.py\<close>): what becomes of them depends on how the first attempt ends.
\<close>

subsection \<open>Brokers of game events\<close>

definition noop_broker_send :: "string \<Rightarrow> unit \<Rightarrow> unit" where
  "noop_broker_send payload b = b"

definition noop_broker_disconnected :: "unit \<Rightarrow> ident option \<times> unit" where
  "noop_broker_disconnected b = (None, b)"

definition noop_broker_launch :: "int \<Rightarrow> unit \<Rightarrow> unit" where
  "noop_broker_launch port b = b"

definition noop_broker_reconnect :: "string \<Rightarrow> int \<Rightarrow> unit \<Rightarrow> unit" where
  "noop_broker_reconnect host port b = b"

definition noop_broker_promote :: "int \<Rightarrow> unit \<Rightarrow> unit" where
  "noop_broker_promote port b = b"

text \<open>The HTTP broker starts nothing itself: its container is started by the manager.\<close>

definition http_broker_disconnected :: "http_broker \<Rightarrow> ident option \<times> http_broker" where
  "http_broker_disconnected b = (broker_disconnected b, b)"

definition http_broker_launch :: "int \<Rightarrow> http_broker \<Rightarrow> http_broker" where
  "http_broker_launch port b = b"

definition http_broker_promote :: "int \<Rightarrow> http_broker \<Rightarrow> http_broker" where
  "http_broker_promote port b = b"

text \<open>The broker of the relay inside the process; its clients reconnect by themselves.\<close>

definition inner_broker_send :: "string \<Rightarrow> event_server \<Rightarrow> event_server" where
  "inner_broker_send payload s = snd (relay_send payload s)"

definition inner_broker_launch :: "int \<Rightarrow> event_server \<Rightarrow> event_server" where
  "inner_broker_launch port s = relay_launch s"

definition inner_broker_reconnect :: "string \<Rightarrow> int \<Rightarrow> event_server \<Rightarrow> event_server" where
  "inner_broker_reconnect host port s = s"

definition inner_broker_promote :: "int \<Rightarrow> event_server \<Rightarrow> event_server" where
  "inner_broker_promote port s = relay_launch s"

text \<open>The first loop of \<^verbatim>\<open>_check_player_disconnections\<close>; \<open>None\<close> would be a loop that never ends.\<close>

partial_function (option) drop_reported ::
    "('b \<Rightarrow> ident option \<times> 'b) \<Rightarrow> (string \<Rightarrow> 'b \<Rightarrow> 'b) \<Rightarrow> (message \<Rightarrow> string) \<Rightarrow> 'b \<Rightarrow> node
       \<Rightarrow> (node result \<times> 'b) option" where
  "drop_reported poll post enc b n =
     (case poll b of
        (None, b1) \<Rightarrow> Some (Inr n, b1)
      | (Some pid, b1) \<Rightarrow>
          (case drop_player pid n of
             Inl e \<Rightarrow> Some (Inl e, b1)
           | Inr n1 \<Rightarrow> drop_reported poll post enc (post (enc (PlayerLeft pid)) b1) n1))"

text \<open>
  What a node relies on in a broker: \<open>waiting\<close> are the players whose loss it has not reported yet;
  a poll takes the first of them, and no other call adds or removes one.
\<close>

locale event_broker =
  fixes post :: "string \<Rightarrow> 'b \<Rightarrow> 'b"
    and poll :: "'b \<Rightarrow> ident option \<times> 'b"
    and start :: "int \<Rightarrow> 'b \<Rightarrow> 'b"
    and follow :: "string \<Rightarrow> int \<Rightarrow> 'b \<Rightarrow> 'b"
    and promote :: "int \<Rightarrow> 'b \<Rightarrow> 'b"
    and waiting :: "'b \<Rightarrow> ident list"
  assumes poll_first: "fst (poll b) = (case waiting b of [] \<Rightarrow> None | pid # _ \<Rightarrow> Some pid)"
    and poll_rest: "waiting (snd (poll b)) = tl (waiting b)"
    and quiet_post: "waiting (post payload b) = waiting b"
    and quiet_start: "waiting (start port b) = waiting b"
    and quiet_follow: "waiting (follow host port b) = waiting b"
    and quiet_promote: "waiting (promote port b) = waiting b"
begin

lemma drop_reported_list:
  "waiting b = pids \<Longrightarrow>
     \<exists>b'. drop_reported poll post enc b n = Some (fold_res drop_player pids n, b') \<and>
          (\<forall>n'. fold_res drop_player pids n = Inr n' \<longrightarrow> waiting b' = [])"
proof (induction pids arbitrary: b n)
  case Nil
  then obtain b1 where "poll b = (None, b1)" "waiting b1 = []"
    using poll_first [of b] poll_rest [of b] by (cases "poll b") simp_all
  then show ?case
    by (subst drop_reported.simps) simp
next
  case (Cons pid pids)
  then have poll: "poll b = (Some pid, snd (poll b))" and rest: "waiting (snd (poll b)) = pids"
    using poll_first [of b] poll_rest [of b] by (simp_all add: prod_eq_iff)
  show ?case
  proof (cases "drop_player pid n")
    case (Inl e)
    then show ?thesis
      by (subst drop_reported.simps, subst poll) (simp add: rest)
  next
    case (Inr n1)
    then show ?thesis
      using Cons.IH [of "post (enc (PlayerLeft pid)) (snd (poll b))" n1] rest
      by (subst drop_reported.simps, subst poll) (simp add: quiet_post)
  qed
qed

lemma drop_reported_is:
  "\<exists>b'. drop_reported poll post enc b n = Some (fold_res drop_player (waiting b) n, b')"
  using drop_reported_list [OF refl] by blast

end

interpretation noop_broker: event_broker noop_broker_send noop_broker_disconnected noop_broker_launch
    noop_broker_reconnect noop_broker_promote "\<lambda>_. []"
  by unfold_locales (simp_all add: noop_broker_disconnected_def)

interpretation http_broker: event_broker broker_send http_broker_disconnected http_broker_launch
    broker_reconnect http_broker_promote "\<lambda>_. []"
  by unfold_locales (simp_all add: http_broker_disconnected_def broker_disconnected_def)

interpretation inner_broker: event_broker inner_broker_send relay_disconnected inner_broker_launch
    inner_broker_reconnect inner_broker_promote es_disconnected
  by unfold_locales
    (simp_all add: inner_broker_send_def relay_send_def broadcast_start_def next_target_def relay_disconnected_def
      inner_broker_launch_def inner_broker_reconnect_def inner_broker_promote_def relay_launch_def
      split: list.split)

text \<open>The whole check against a broker, as the code runs it.\<close>

definition check_disconnections_with ::
    "('b \<Rightarrow> ident option \<times> 'b) \<Rightarrow> (string \<Rightarrow> 'b \<Rightarrow> 'b) \<Rightarrow> (message \<Rightarrow> string) \<Rightarrow> flt \<Rightarrow> 'b \<Rightarrow> node
       \<Rightarrow> node result option" where
  "check_disconnections_with poll post enc now b n =
     map_option (\<lambda>(r, b1). rbind r (check_player_disconnections [] now)) (drop_reported poll post enc b n)"

lemma check_splits:
  "rbind (fold_res drop_player pids n) (check_player_disconnections [] now) = check_player_disconnections pids now n"
  by (cases "fold_res drop_player pids n") (simp_all add: check_player_disconnections_def)

text \<open>C33: the check for lost players always returns, whichever broker the node was built with, and it is
  the check of the host's frame with the broker's reports: those of the relay inside the process in
  their order, and none with the HTTP broker or the no-op broker, where only missing input packets
  reveal a lost player.\<close>

theorem lost_players_by_broker:
  "check_disconnections_with relay_disconnected inner_broker_send enc now s n
     = Some (check_player_disconnections (es_disconnected s) now n) \<and>
   check_disconnections_with http_broker_disconnected broker_send enc now b n
     = Some (check_player_disconnections [] now n) \<and>
   check_disconnections_with noop_broker_disconnected noop_broker_send enc now () n
     = Some (check_player_disconnections [] now n)"
  using inner_broker.drop_reported_is [of enc s n] http_broker.drop_reported_is [of enc b n]
    noop_broker.drop_reported_is [of enc "()" n]
  by (auto simp: check_disconnections_with_def check_splits)

lemma lost_players_by_broker_frame:
  assumes "check_disconnections_with http_broker_disconnected broker_send enc now b n = Some (Inr n')"
    and "\<forall>(pid, t) \<in> set (n_last_input_time n). now - t \<le> UDP_INPUT_TIMEOUT"
    and "distinct (dict_keys (n_last_input_time n))"
  shows "n' = n"
proof -
  have step: "fold_res (\<lambda>pid n. case map_of (n_last_input_time n) pid of
           None \<Rightarrow> Inl (KeyError pid)
         | Some t \<Rightarrow> if now - t > UDP_INPUT_TIMEOUT then drop_player pid n else Inr n) pids n = Inr n"
    if "set pids \<subseteq> fst ` set (n_last_input_time n)" for pids
    using that
  proof (induction pids)
    case (Cons pid pids)
    then obtain t where t: "map_of (n_last_input_time n) pid = Some t"
      by (metis insert_subset list.set(2) map_of_eq_None_iff not_None_eq)
    then have "now - t \<le> UDP_INPUT_TIMEOUT"
      using assms(2) map_of_SomeD by fastforce
    then show ?case using Cons t by simp
  qed simp
  have "check_player_disconnections [] now n = Inr n"
    using step [of "dict_keys (n_last_input_time n)"] by (simp add: check_player_disconnections_def)
  then show ?thesis
    using assms(1) http_broker.drop_reported_is [of enc b n]
    by (auto simp: check_disconnections_with_def check_splits)
qed

subsection \<open>The other services\<close>

definition noop_lobby_launch :: "int \<Rightarrow> unit \<Rightarrow> unit" where
  "noop_lobby_launch port s = s"

definition noop_announce :: "ident \<Rightarrow> int \<Rightarrow> string list option \<Rightarrow> unit \<Rightarrow> unit" where
  "noop_announce sid lobby_port ips d = d"

definition noop_discover :: "ident \<Rightarrow> (string \<times> int) result" where
  "noop_discover sid = Inr (''127.0.0.1'', 50002)"

definition noop_set_allowed_ips :: "string list option \<Rightarrow> unit \<Rightarrow> unit" where
  "noop_set_allowed_ips ips d = d"

definition noop_stop_discovery :: "unit \<Rightarrow> unit" where
  "noop_stop_discovery d = d"

definition noop_find_current_host :: "ident \<Rightarrow> string \<Rightarrow> cached_peer list \<Rightarrow> string option result" where
  "noop_find_current_host sid requester_ip peers = Inr None"

definition noop_start_containers :: "(string \<times> int) list \<times> unit result" where
  "noop_start_containers = ([], Inr ())"

definition noop_stop_containers :: "unit \<Rightarrow> unit" where
  "noop_stop_containers s = s"

text \<open>
  What a host relies on when it announces its session: only who asks for this session is answered,
  and with its lobby port; after \<open>restrict\<close> nobody else, after \<open>stop\<close> nobody at all.
\<close>

locale announcer =
  fixes announce_session :: "ident \<Rightarrow> int \<Rightarrow> string list option \<Rightarrow> 'd \<Rightarrow> 'd"
    and restrict :: "string list option \<Rightarrow> 'd \<Rightarrow> 'd"
    and stop :: "'d \<Rightarrow> 'd"
    and reply :: "'d \<Rightarrow> string \<Rightarrow> string \<Rightarrow> string option"
  assumes announced: "reply (announce_session sid port ips d) query ip = Some r \<Longrightarrow>
      query = query_of sid \<and> r = str_int port \<and> (\<forall>allowed. ips = Some allowed \<longrightarrow> ip \<in> set allowed)"
    and restricted: "reply (restrict ips (announce_session sid port ips' d)) query ip = Some r \<Longrightarrow>
      query = query_of sid \<and> r = str_int port \<and> (\<forall>allowed. ips = Some allowed \<longrightarrow> ip \<in> set allowed)"
    and stopped: "reply (stop d) query ip = None"
begin

lemma strangers_unanswered:
  assumes "set allowed = discovery_allowed_ips n"
    and "ip \<notin> entry_host ` set (n_roster n)" "ip \<noteq> n_local_ip n"
  shows "reply (restrict (Some allowed) (announce_session sid port ips d)) query ip = None"
  using assms restricted [of "Some allowed" sid port ips d query ip]
  by (cases "reply (restrict (Some allowed) (announce_session sid port ips d)) query ip")
    (auto simp: discovery_allowed_ips_def split: if_splits)

end

interpretation udp_announcer: announcer announce set_allowed_ips stop_discovery announce_reply
  by unfold_locales
    (auto simp: announce_def set_allowed_ips_def stop_discovery_def announce_reply_def split: if_splits option.splits)

interpretation noop_announcer: announcer noop_announce noop_set_allowed_ips noop_stop_discovery "\<lambda>_ _ _. None"
  by unfold_locales simp_all

text \<open>Once the game has started, a host that uses discovery answers the machines of its own roster
  only, and them with the port of its lobby.\<close>

lemma discovery_is_private:
  assumes "set allowed = discovery_allowed_ips n"
    and "announce_reply (set_allowed_ips (Some allowed) (announce (n_session_id n) LOBBY_WS_PORT None d)) query ip
           = Some r"
  shows "query = query_of (n_session_id n) \<and> r = str_int LOBBY_WS_PORT
    \<and> (ip \<in> entry_host ` set (n_roster n) \<or> ip = n_local_ip n)"
  using udp_announcer.strangers_unanswered [OF assms(1)] udp_announcer.restricted [OF assms(2)] assms(2)
  by fastforce

subsection \<open>Connections replaced after a migration\<close>

text \<open>
  A client side connection: its address, what became of its thread, and the inbox.  \<open>Link_Trying\<close> is a
  connection attempt that still runs in its thread, \<open>Link_Down\<close> a thread that has returned.
\<close>

datatype link_state = Link_New | Link_Trying | Link_Up | Link_Down

record link =
  ln_host :: string
  ln_port :: int
  ln_path :: string
  ln_state :: link_state
  ln_inbox :: "message list"

definition make_ws_client :: "string \<Rightarrow> int \<Rightarrow> string \<Rightarrow> link" where
  "make_ws_client host port path =
     \<lparr>ln_host = host, ln_port = port, ln_path = path, ln_state = Link_New, ln_inbox = []\<rparr>"

definition LOBBY_WS_PATH :: string where "LOBBY_WS_PATH = ''/lobby''"

definition make_lobby_ws_client :: "string \<Rightarrow> int \<Rightarrow> link" where
  "make_lobby_ws_client host port = make_ws_client host port LOBBY_WS_PATH"

text \<open>\<^verbatim>\<open>connect\<close>: the thread is connected in time, ends with an exception, or is still trying.\<close>

datatype attempt_end = Accepted | Refused py_error | Slow

definition open_link :: "attempt_end \<Rightarrow> link \<Rightarrow> unit result \<times> link" where
  "open_link a l =
     (case a of
        Accepted \<Rightarrow> (ws_connect True None, l\<lparr>ln_state := Link_Up\<rparr>)
      | Refused e \<Rightarrow> (ws_connect True (Some e), l\<lparr>ln_state := Link_Down\<rparr>)
      | Slow \<Rightarrow> (ws_connect False None, l\<lparr>ln_state := Link_Trying\<rparr>))"

text \<open>Both handlers catch what \<^verbatim>\<open>connect\<close> raises and go on; the old connection is closed first.\<close>

definition reconnect_link :: "attempt_end \<Rightarrow> link \<Rightarrow> link result" where
  "reconnect_link a new =
     (case open_link a new of
        (Inr _, l) \<Rightarrow> Inr l
      | (Inl e, l) \<Rightarrow> if \<exists>s. e = TimeoutError s \<or> e = OSError s then Inr l else Inl e)"

definition reconnect_game_event_handler :: "attempt_end \<Rightarrow> string \<Rightarrow> int \<Rightarrow> string \<Rightarrow> link result" where
  "reconnect_game_event_handler a host port path = reconnect_link a (make_ws_client host port path)"

definition reconnect_lobby_ws_handler :: "attempt_end \<Rightarrow> string \<Rightarrow> link result" where
  "reconnect_lobby_ws_handler a host = reconnect_link a (make_lobby_ws_client host LOBBY_WS_PORT)"

text \<open>What happens to the connection later: the thread gets through or gives up, a message arrives,
  and the node polls.\<close>

datatype link_event = Got_Through | Gave_Up | Arrived message | Polled

fun link_step :: "link_event \<Rightarrow> link \<Rightarrow> link" where
  "link_step Got_Through l = (if ln_state l = Link_Trying then l\<lparr>ln_state := Link_Up\<rparr> else l)"
| "link_step Gave_Up l = (if ln_state l \<in> {Link_Trying, Link_Up} then l\<lparr>ln_state := Link_Down\<rparr> else l)"
| "link_step (Arrived m) l = (if ln_state l = Link_Up then l\<lparr>ln_inbox := ln_inbox l @ [m]\<rparr> else l)"
| "link_step Polled l = l\<lparr>ln_inbox := tl (ln_inbox l)\<rparr>"

lemma ended_link_stays:
  "ln_state l = Link_Down \<Longrightarrow> ln_inbox l = [] \<Longrightarrow>
     ln_state (fold link_step evs l) = Link_Down \<and> ln_inbox (fold link_step evs l) = []"
proof (induction evs arbitrary: l)
  case (Cons ev evs)
  then show ?case by (cases ev) simp_all
qed simp


text \<open>The socket of a promoted client: a new endpoint with the default settings, whatever the old one
  was given and still held back.\<close>

definition ARTIFICIAL_LATENCY_MS :: int where "ARTIFICIAL_LATENCY_MS = 0"

definition rebuild_udp_as_host :: "udp_handler \<Rightarrow> udp_handler \<times> udp_handler" where
  "rebuild_udp_as_host old =
     (close_socket old,
      new_udp_handler ''0.0.0.0'' HOST_UDP_PORT DEFAULT_PACKET_DROP_RATE UDP_MAX_PACKET_SIZE
        ARTIFICIAL_LATENCY_MS)"

lemma promotion_forgets_held_datagrams:
  "case rebuild_udp_as_host old of (before, after) \<Rightarrow>
     \<not> udp_open before \<and> udp_queue after = [] \<and> udp_drop_rate after = 0 \<and> udp_latency_ms after = 0"
  by (simp add: rebuild_udp_as_host_def new_udp_handler_def close_socket_def ARTIFICIAL_LATENCY_MS_def
      DEFAULT_PACKET_DROP_RATE_def)

text \<open>The optional presentation: the module is missing, has no application class, or has one.\<close>

datatype 'a app_module = No_Module | No_Class | Game_Class 'a

definition load_game_app_class :: "'a app_module \<Rightarrow> 'a option" where
  "load_game_app_class m = (case m of Game_Class c \<Rightarrow> Some c | _ \<Rightarrow> None)"

end
