(* ===== verification/Json_Text.thy ===== *)
theory Json_Text
  imports Json
begin

text \<open>
  The text of a payload: \<^verbatim>\<open>Serializer.encode\<close> and \<^verbatim>\<open>decode\<close> (\<^verbatim>\<open>network/serializer.py\<close>) with what they use of the
  standard library, \<^verbatim>\<open>json.dumps\<close> with its default separators and escapes and \<^verbatim>\<open>json.loads\<close> with its strict
  grammar.  A number is written in full: an integer as its digits, any other number as its decimal
  expansion, which is finite for every float and has at most \<open>FLOAT_PLACES\<close> places.  Python prints the
  \<^verbatim>\<open>repr\<close> of a float, which may be a shorter numeral of the same float and ends in \<^verbatim>\<open>.0\<close> where it is
  integral; integers and floats are one kind of number here, as everywhere in the model.  Characters are those of Isabelle, up to code 255.
\<close>

subsection \<open>Numbers\<close>

text \<open>The smallest positive float is \<open>2\<close> to the power \<open>-1074\<close>: every float has at most that many decimal places.\<close>

definition FLOAT_PLACES :: nat where "FLOAT_PLACES = 1074"

text \<open>The decimal digits of a fraction between 0 and 1, up to the last one that counts.\<close>

fun fraction_digits :: "nat \<Rightarrow> flt \<Rightarrow> string" where
  "fraction_digits 0 r = []"
| "fraction_digits (Suc n) r =
     (if r = 0 then [] else digit_char (nat \<lfloor>10 * r\<rfloor>) # fraction_digits n (10 * r - of_int \<lfloor>10 * r\<rfloor>))"

definition number_text :: "flt \<Rightarrow> string" where
  "number_text x =
     (if is_integral x then str_int \<lfloor>x\<rfloor>
      else (if x < 0 then ''-'' else []) @ str_nat (nat \<lfloor>\<bar>x\<bar>\<rfloor>) @ ''.''
             @ fraction_digits FLOAT_PLACES (\<bar>x\<bar> - of_int \<lfloor>\<bar>x\<bar>\<rfloor>))"

definition is_digit :: "char \<Rightarrow> bool" where
  "is_digit c \<longleftrightarrow> 48 \<le> (of_char c :: nat) \<and> (of_char c :: nat) \<le> 57"

text \<open>\<^verbatim>\<open>(-?(?:0|[1-9]\d*))(\.\d+)?([eE][-+]?\d+)?\<close>: sign and integer part, fraction, exponent.\<close>

definition whole_part :: "string \<Rightarrow> (nat \<times> string) option" where
  "whole_part s =
     (case s of
        [] \<Rightarrow> None
      | c # cs \<Rightarrow>
          if \<not> is_digit c then None
          else if c = CHR ''0'' then Some (0, cs)
          else Some (parse_nat (takeWhile is_digit s), dropWhile is_digit s))"

definition fraction_part :: "string \<Rightarrow> flt \<times> string" where
  "fraction_part s =
     (case s of
        c # cs \<Rightarrow>
          (let ds = takeWhile is_digit cs in
           if c = CHR ''.'' \<and> ds \<noteq> []
           then (of_nat (parse_nat ds) / 10 ^ length ds, dropWhile is_digit cs)
           else (0, s))
      | [] \<Rightarrow> (0, s))"

definition exponent_part :: "string \<Rightarrow> flt \<times> string" where
  "exponent_part s =
     (case s of
        c # cs \<Rightarrow>
          (let (negative, body) =
                 (case cs of
                    d # ds \<Rightarrow> if d = CHR ''-'' then (True, ds) else if d = CHR ''+'' then (False, ds) else (False, cs)
                  | [] \<Rightarrow> (False, cs));
               ds = takeWhile is_digit body
           in if (c = CHR ''e'' \<or> c = CHR ''E'') \<and> ds \<noteq> []
              then (if negative then 1 / 10 ^ parse_nat ds else 10 ^ parse_nat ds, dropWhile is_digit body)
              else (1, s))
      | [] \<Rightarrow> (1, s))"

definition read_number :: "string \<Rightarrow> (flt \<times> string) option" where
  "read_number s =
     (let (negative, body) = (case s of c # cs \<Rightarrow> if c = CHR ''-'' then (True, cs) else (False, s) | [] \<Rightarrow> (False, s))
      in case whole_part body of
           None \<Rightarrow> None
         | Some (w, s1) \<Rightarrow>
             (let (f, s2) = fraction_part s1; (e, s3) = exponent_part s2; v = (of_nat w + f) * e
              in Some (if negative then - v else v, s3)))"

subsection \<open>Strings\<close>

definition hex_digit :: "nat \<Rightarrow> char" where
  "hex_digit n = (if n < 10 then char_of (48 + n) else char_of (87 + n))"

definition escapes :: "(char \<times> char) list" where
  "escapes = [(CHR 0x22, CHR 0x22), (CHR 0x5C, CHR 0x5C), (CHR 0x0A, CHR ''n''), (CHR 0x0D, CHR ''r''),
     (CHR 0x09, CHR ''t''), (CHR 0x0C, CHR ''f''), (CHR 0x08, CHR ''b'')]"

definition escape_char :: "char \<Rightarrow> string" where
  "escape_char c =
     (case map_of escapes c of
        Some e \<Rightarrow> [CHR 0x5C, e]
      | None \<Rightarrow>
          (let n = (of_char c :: nat) in
           if n < 32 \<or> 126 < n
           then [CHR 0x5C, CHR ''u'', CHR ''0'', CHR ''0'', hex_digit (n div 16), hex_digit (n mod 16)]
           else [c]))"

abbreviation quote :: char where "quote \<equiv> CHR 0x22"

definition string_text :: "string \<Rightarrow> string" where
  "string_text s = quote # concat (map escape_char s) @ [quote]"

text \<open>The escapes a reader knows: those above and the solidus.\<close>

definition unescapes :: "(char \<times> char) list" where
  "unescapes = [(CHR 0x22, CHR 0x22), (CHR 0x5C, CHR 0x5C), (CHR ''/'', CHR ''/''), (CHR ''b'', CHR 0x08),
     (CHR ''f'', CHR 0x0C), (CHR ''n'', CHR 0x0A), (CHR ''r'', CHR 0x0D), (CHR ''t'', CHR 0x09)]"

definition hex_value :: "char \<Rightarrow> nat option" where
  "hex_value c =
     (let n = (of_char c :: nat) in
      if 48 \<le> n \<and> n \<le> 57 then Some (n - 48)
      else if 97 \<le> n \<and> n \<le> 102 then Some (n - 87)
      else if 65 \<le> n \<and> n \<le> 70 then Some (n - 55)
      else None)"

definition decode_error :: "string \<Rightarrow> 'a result" where
  "decode_error s = Inl (ValueError s)"

text \<open>The rest of a string after its opening quote.  A character outside the model's alphabet is
  \<open>IllTyped\<close>.\<close>

fun read_chars :: "string \<Rightarrow> (string \<times> string) result" where
  "read_chars [] = decode_error ''Unterminated string''"
| "read_chars (c # cs) =
     (if c = quote then Inr ([], cs)
      else if of_char c < (32 :: nat) then decode_error ''Invalid control character''
      else if c \<noteq> CHR 0x5C then rbind (read_chars cs) (\<lambda>(s, rest). Inr (c # s, rest))
      else
        (case cs of
           [] \<Rightarrow> decode_error ''Unterminated string''
         | e # es \<Rightarrow>
             (if e = CHR ''u'' then
                (case es of
                   a # b # x # y # rest \<Rightarrow>
                     (case (hex_value a, hex_value b, hex_value x, hex_value y) of
                        (Some p, Some q, Some r, Some t) \<Rightarrow>
                          (let code = ((p * 16 + q) * 16 + r) * 16 + t in
                           if code < 256
                           then rbind (read_chars rest) (\<lambda>(s, rest). Inr (char_of code # s, rest))
                           else Inl (IllTyped ''str''))
                      | _ \<Rightarrow> decode_error ''Invalid escape'')
                 | _ \<Rightarrow> decode_error ''Invalid escape'')
              else
                (case map_of unescapes e of
                   None \<Rightarrow> decode_error ''Invalid escape''
                 | Some d \<Rightarrow> rbind (read_chars es) (\<lambda>(s, rest). Inr (d # s, rest))))))"

subsection \<open>Values\<close>

fun join_texts :: "string list \<Rightarrow> string" where
  "join_texts [] = []"
| "join_texts [t] = t"
| "join_texts (t # ts) = t @ '', '' @ join_texts ts"

text \<open>\<^verbatim>\<open>json.dumps\<close>; sets have become lists before.\<close>

fun dumps :: "json \<Rightarrow> string" where
  "dumps JNull = ''null''"
| "dumps (JBool b) = (if b then ''true'' else ''false'')"
| "dumps (JNum x) = number_text x"
| "dumps (JStr s) = string_text s"
| "dumps (JList js) = ''['' @ join_texts (map dumps js) @ '']''"
| "dumps (JObj d) = ''{'' @ join_texts (map (\<lambda>(k, j). string_text k @ '': '' @ dumps j) d) @ ''}''"

definition is_space :: "char \<Rightarrow> bool" where
  "is_space c \<longleftrightarrow> (of_char c :: nat) \<in> {32, 9, 10, 13}"

definition skip :: "string \<Rightarrow> string" where
  "skip s = dropWhile is_space s"

definition literals :: "(string \<times> json) list" where
  "literals = [(''null'', JNull), (''true'', JBool True), (''false'', JBool False)]"

definition read_literal :: "string \<Rightarrow> (json \<times> string) result" where
  "read_literal s =
     (case find (\<lambda>(t, j). take (length t) s = t) literals of
        Some (t, j) \<Rightarrow> Inr (j, drop (length t) s)
      | None \<Rightarrow>
          (case read_number s of
             Some (x, rest) \<Rightarrow> Inr (JNum x, rest)
           | None \<Rightarrow>
               if list_ex (\<lambda>t. take (length t) s = t) [''NaN'', ''Infinity'', ''-Infinity'']
               then Inl (IllTyped ''float'') else decode_error ''Expecting value''))"

text \<open>The parser; \<open>fuel\<close> bounds the nesting and the number of items, and the length of the text is enough.\<close>

fun read_value :: "nat \<Rightarrow> string \<Rightarrow> (json \<times> string) result"
  and read_items :: "nat \<Rightarrow> string \<Rightarrow> (json list \<times> string) result"
  and read_members :: "nat \<Rightarrow> string \<Rightarrow> (obj \<times> string) result"
where
  "read_value 0 s = decode_error ''fuel''"
| "read_value (Suc n) s =
     (case s of
        [] \<Rightarrow> decode_error ''Expecting value''
      | c # cs \<Rightarrow>
          if c = quote then rbind (read_chars cs) (\<lambda>(t, rest). Inr (JStr t, rest))
          else if c = CHR ''['' then
            (case skip cs of
               d # ds \<Rightarrow> if d = CHR '']'' then Inr (JList [], ds)
                         else rbind (read_items n (d # ds)) (\<lambda>(js, rest). Inr (JList js, rest))
             | [] \<Rightarrow> decode_error ''Expecting value'')
          else if c = CHR ''{'' then
            (case skip cs of
               d # ds \<Rightarrow> if d = CHR ''}'' then Inr (JObj [], ds)
                         else rbind (read_members n (d # ds))
                                (\<lambda>(kvs, rest). Inr (JObj (fold (\<lambda>(k, j). AList.update k j) kvs []), rest))
             | [] \<Rightarrow> decode_error ''Expecting property name'')
          else read_literal s)"
| "read_items 0 s = decode_error ''fuel''"
| "read_items (Suc n) s =
     rbind (read_value n s) (\<lambda>(j, s1).
       case skip s1 of
         c # cs \<Rightarrow>
           if c = CHR '']'' then Inr ([j], cs)
           else if c = CHR '','' then rbind (read_items n (skip cs)) (\<lambda>(js, rest). Inr (j # js, rest))
           else decode_error ''Expecting , delimiter''
       | [] \<Rightarrow> decode_error ''Expecting , delimiter'')"
| "read_members 0 s = decode_error ''fuel''"
| "read_members (Suc n) s =
     (case s of
        c # cs \<Rightarrow>
          if c \<noteq> quote then decode_error ''Expecting property name''
          else rbind (read_chars cs) (\<lambda>(k, s1).
            case skip s1 of
              d # ds \<Rightarrow>
                if d \<noteq> CHR '':'' then decode_error ''Expecting : delimiter''
                else rbind (read_value n (skip ds)) (\<lambda>(j, s2).
                  case skip s2 of
                    x # xs \<Rightarrow>
                      if x = CHR ''}'' then Inr ([(k, j)], xs)
                      else if x = CHR '','' then
                        rbind (read_members n (skip xs)) (\<lambda>(kvs, rest). Inr ((k, j) # kvs, rest))
                      else decode_error ''Expecting , delimiter''
                  | [] \<Rightarrow> decode_error ''Expecting , delimiter'')
            | [] \<Rightarrow> decode_error ''Expecting : delimiter'')
      | [] \<Rightarrow> decode_error ''Expecting property name'')"

definition loads :: "string \<Rightarrow> json result" where
  "loads s =
     rbind (read_value (Suc (length s)) (skip s)) (\<lambda>(j, rest).
       if skip rest = [] then Inr j else decode_error ''Extra data'')"

subsection \<open>Numbers are read back\<close>

definition has_places :: "nat \<Rightarrow> flt \<Rightarrow> bool" where
  "has_places n x \<longleftrightarrow> is_integral (x * 10 ^ n)"

lemma is_integral_iff: "is_integral x \<longleftrightarrow> (\<exists>i. x = of_int i)"
  by (metis floor_of_int is_integral_def)

lemma is_integral_minus: "is_integral (- x) \<longleftrightarrow> is_integral x"
  unfolding is_integral_iff by (metis minus_minus of_int_minus)

lemma has_places_less: "has_places n x \<Longrightarrow> has_places n (x - of_int i)"
  unfolding has_places_def is_integral_iff left_diff_distrib by (metis of_int_diff of_int_mult of_int_numeral of_int_power)

lemma of_char_digit [simp]: "d < 10 \<Longrightarrow> of_char (digit_char d) = 48 + d"
  by (simp add: digit_char_def)

lemma is_digit_digit_char [simp]: "d < 10 \<Longrightarrow> is_digit (digit_char d)"
  by (simp add: is_digit_def)

lemma parse_nat_Cons: "parse_nat (c # s) = char_digit c * 10 ^ length s + parse_nat s"
proof -
  have from_start: "foldl (\<lambda>a c. 10 * a + char_digit c) a s = a * 10 ^ length s + foldl (\<lambda>a c. 10 * a + char_digit c) 0 s" for a
  proof (induction s arbitrary: a)
    case (Cons c s)
    show ?case
      using Cons.IH [of "10 * a + char_digit c"] Cons.IH [of "char_digit c"] by (simp add: algebra_simps)
  qed simp
  show ?thesis using from_start [of "char_digit c"] by (simp add: parse_nat_def)
qed

lemma str_nat_digits: "list_all is_digit (str_nat n)"
proof (induction n rule: str_nat.induct)
  case (1 n)
  then show ?case by (subst str_nat.simps) simp
qed

lemma str_nat_no_leading_zero: "0 < n \<Longrightarrow> of_char (hd (str_nat n)) \<noteq> (48 :: nat)"
proof (induction n rule: str_nat.induct)
  case (1 n)
  then show ?case by (subst str_nat.simps) (simp add: hd_append)
qed

lemma digits_stop:
  assumes "list_all is_digit ds" "rest = [] \<or> \<not> is_digit (hd rest)"
  shows "takeWhile is_digit (ds @ rest) = ds" "dropWhile is_digit (ds @ rest) = rest"
proof -
  have "takeWhile is_digit rest = []" "dropWhile is_digit rest = rest"
    using assms(2) by (cases rest; simp)+
  then show "takeWhile is_digit (ds @ rest) = ds" "dropWhile is_digit (ds @ rest) = rest"
    using assms(1) by (induction ds) simp_all
qed

lemma whole_part_str_nat:
  assumes "rest = [] \<or> \<not> is_digit (hd rest)"
  shows "whole_part (str_nat n @ rest) = Some (n, rest)"
proof (cases "n = 0")
  case True
  have "str_nat 0 = [digit_char 0]" by (subst str_nat.simps) simp
  moreover have "digit_char 0 = CHR ''0''" by code_simp
  ultimately show ?thesis using True by (simp add: whole_part_def is_digit_def)
next
  case False
  obtain c cs where c: "str_nat n = c # cs" by (metis str_nat_not_Nil neq_Nil_conv)
  have "is_digit c" "c \<noteq> CHR ''0''"
    using str_nat_digits [of n] str_nat_no_leading_zero [of n] False by (auto simp: c)
  then show ?thesis
    using digits_stop [OF str_nat_digits [of n] assms] by (simp add: whole_part_def c) (metis c parse_str_nat)
qed

lemma floor_fraction:
  fixes r :: flt
  assumes "0 \<le> r" "r < 1"
  shows "0 \<le> \<lfloor>10 * r\<rfloor>" "\<lfloor>10 * r\<rfloor> < 10" "0 \<le> 10 * r - of_int \<lfloor>10 * r\<rfloor>" "10 * r - of_int \<lfloor>10 * r\<rfloor> < 1"
  using assms by (simp_all add: floor_less_iff) linarith+

lemma has_places_tail:
  assumes "has_places (Suc n) r"
  shows "has_places n (10 * r - of_int d)"
proof -
  have "(10 * r - of_int d) * 10 ^ n = r * 10 ^ Suc n - of_int (d * 10 ^ n)"
    by (simp add: algebra_simps)
  moreover obtain i where "r * 10 ^ Suc n = of_int i"
    using assms unfolding has_places_def is_integral_def by metis
  ultimately have "(10 * r - of_int d) * 10 ^ n = of_int (i - d * 10 ^ n)" by simp
  then show ?thesis unfolding has_places_def by (simp only: is_integral_of_int)
qed

lemma fraction_digits_value:
  assumes "0 \<le> r" "r < 1" "has_places n r"
  shows "list_all is_digit (fraction_digits n r) \<and>
    of_nat (parse_nat (fraction_digits n r)) / 10 ^ length (fraction_digits n r) = r \<and>
    (r \<noteq> 0 \<longrightarrow> fraction_digits n r \<noteq> [])"
  using assms
proof (induction n arbitrary: r)
  case 0
  have "\<lfloor>r\<rfloor> = 0" using 0 by (simp add: floor_eq_iff)
  with 0 have "r = 0" by (simp add: has_places_def is_integral_def)
  then show ?case by (simp add: parse_nat_def)
next
  case (Suc n)
  let ?d = "\<lfloor>10 * r\<rfloor>" and ?r = "10 * r - of_int \<lfloor>10 * r\<rfloor>"
  note bounds = floor_fraction [OF Suc.prems(1,2)]
  have ih: "list_all is_digit (fraction_digits n ?r)"
    "of_nat (parse_nat (fraction_digits n ?r)) = ?r * 10 ^ length (fraction_digits n ?r)"
    using Suc.IH [OF bounds(3,4) has_places_tail [OF Suc.prems(3)]] by (simp_all add: field_simps)
  show ?case
  proof (cases "r = 0")
    case True
    then show ?thesis by (simp add: parse_nat_def)
  next
    case False
    have d: "nat ?d < 10" "(of_nat (nat ?d) :: flt) = of_int ?d" using bounds(1,2) by linarith+
    show ?thesis
      using False ih d by (simp add: parse_nat_Cons field_simps)
  qed
qed

definition number_stop :: "string \<Rightarrow> bool" where
  "number_stop rest \<longleftrightarrow> rest = [] \<or> hd rest \<in> {CHR '','', CHR '']'', CHR ''}''}"

lemma number_stop_digit: "number_stop rest \<Longrightarrow> rest = [] \<or> \<not> is_digit (hd rest)"
  by (auto simp: number_stop_def is_digit_def)

lemma number_stop_parts:
  assumes "number_stop rest"
  shows "exponent_part rest = (1, rest)" "fraction_part rest = (0, rest)"
  using assms by (cases rest; auto simp: number_stop_def exponent_part_def fraction_part_def Let_def split: prod.split)+

lemma read_unsigned:
  assumes "number_stop rest"
  shows "read_number (str_nat n @ rest) = Some (of_nat n, rest)"
    and "read_number (CHR ''-'' # str_nat n @ rest) = Some (- of_nat n, rest)"
proof -
  obtain c cs where c: "str_nat n = c # cs" "c \<noteq> CHR ''-''"
    by (metis hd_str_nat list.sel(1) str_nat_not_Nil neq_Nil_conv)
  note whole = whole_part_str_nat [OF number_stop_digit [OF assms], of n]
  show "read_number (str_nat n @ rest) = Some (of_nat n, rest)"
    using whole c by (simp add: read_number_def number_stop_parts [OF assms])
  show "read_number (CHR ''-'' # str_nat n @ rest) = Some (- of_nat n, rest)"
    using whole by (simp add: read_number_def number_stop_parts [OF assms])
qed

lemma read_decimal:
  assumes "number_stop rest" "list_all is_digit ds" "ds \<noteq> []"
  shows "read_number (str_nat w @ CHR ''.'' # ds @ rest)
      = Some (of_nat w + of_nat (parse_nat ds) / 10 ^ length ds, rest)"
    and "read_number (CHR ''-'' # str_nat w @ CHR ''.'' # ds @ rest)
      = Some (- (of_nat w + of_nat (parse_nat ds) / 10 ^ length ds), rest)"
proof -
  obtain c cs where c: "str_nat w = c # cs" "c \<noteq> CHR ''-''"
    by (metis hd_str_nat list.sel(1) str_nat_not_Nil neq_Nil_conv)
  have whole: "whole_part (str_nat w @ CHR ''.'' # ds @ rest) = Some (w, CHR ''.'' # ds @ rest)"
    by (rule whole_part_str_nat) (simp add: is_digit_def)
  have frac: "fraction_part (CHR ''.'' # ds @ rest) = (of_nat (parse_nat ds) / 10 ^ length ds, rest)"
    using digits_stop [OF assms(2) number_stop_digit [OF assms(1)]] assms(3)
    by (simp add: fraction_part_def Let_def)
  show "read_number (str_nat w @ CHR ''.'' # ds @ rest)
      = Some (of_nat w + of_nat (parse_nat ds) / 10 ^ length ds, rest)"
    using whole frac c by (simp add: read_number_def number_stop_parts [OF assms(1)])
  show "read_number (CHR ''-'' # str_nat w @ CHR ''.'' # ds @ rest)
      = Some (- (of_nat w + of_nat (parse_nat ds) / 10 ^ length ds), rest)"
    using whole frac by (simp add: read_number_def number_stop_parts [OF assms(1)])
qed

lemma read_number_text:
  assumes "has_places FLOAT_PLACES x" "number_stop rest"
  shows "read_number (number_text x @ rest) = Some (x, rest)"
proof (cases "is_integral x")
  case True
  then obtain i where i: "x = of_int i" by (metis is_integral_def)
  then show ?thesis
    using read_unsigned [OF assms(2), of "nat i"] read_unsigned [OF assms(2), of "nat (- i)"]
    by (simp add: number_text_def str_int_def)
next
  case False
  define y where "y = \<bar>x\<bar>"
  define r where "r = y - of_int \<lfloor>y\<rfloor>"
  define ds where "ds = fraction_digits FLOAT_PLACES r"
  have y: "0 \<le> y" "\<not> is_integral y" "has_places FLOAT_PLACES y"
    using False assms(1) by (auto simp: y_def abs_if has_places_def is_integral_minus)
  have r: "0 \<le> r" "r < 1" "r \<noteq> 0"
    using y(2) floor_correct [of y] by (auto simp: r_def is_integral_def)
  have "has_places FLOAT_PLACES r"
    using y(3) by (simp add: r_def has_places_less)
  with fraction_digits_value [OF r(1,2)] r(3)
  have ds: "list_all is_digit ds" "ds \<noteq> []" "of_nat (parse_nat ds) / 10 ^ length ds = r"
    by (auto simp: ds_def)
  have w: "of_nat (nat \<lfloor>y\<rfloor>) + r = y"
    using y(1) by (simp add: r_def)
  show ?thesis
    using read_decimal [OF assms(2) ds(1,2), of "nat \<lfloor>y\<rfloor>"] False w ds(3)
    by (auto simp: number_text_def y_def abs_if ds_def r_def split: if_splits)
qed

subsection \<open>Strings are read back\<close>

lemma hex_value_digit: "k < 16 \<Longrightarrow> hex_value (hex_digit k) = Some k"
  by (simp add: hex_value_def hex_digit_def Let_def)

lemma hex_value_zero: "hex_value (CHR ''0'') = Some 0"
  by (simp add: hex_value_def)

lemma read_chars_escape:
  "read_chars (escape_char c @ t) = rbind (read_chars t) (\<lambda>(s, rest). Inr (c # s, rest))"
proof (cases "map_of escapes c")
  case None
  let ?n = "of_char c :: nat"
  have c: "c \<noteq> CHR 0x22" "c \<noteq> CHR 0x5C"
    using None by (auto simp: escapes_def split: if_splits)
  have n: "?n < 256" "?n div 16 < 16" "(?n div 16) * 16 + ?n mod 16 = ?n" "char_of ?n = c"
    using nat_of_char_less_256 [of c] less_mult_imp_div_less [of ?n 16 16] by simp_all
  show ?thesis
    using None c n by (simp add: escape_char_def Let_def hex_value_zero hex_value_digit)
next
  case (Some e)
  then show ?thesis
    by (auto simp: escape_char_def escapes_def unescapes_def split: if_splits)
qed

lemma read_chars_text: "read_chars (concat (map escape_char s) @ quote # rest) = Inr (s, rest)"
  by (induction s) (simp_all add: read_chars_escape)

subsection \<open>Values are read back\<close>

text \<open>What Python can hold: the keys of a dictionary are distinct, and every number is a float.\<close>

fun json_ok :: "json \<Rightarrow> bool" where
  "json_ok (JNum x) = has_places FLOAT_PLACES x"
| "json_ok (JList js) = list_all json_ok js"
| "json_ok (JObj d) = (distinct (dict_keys d) \<and> list_all json_ok (dict_values d))"
| "json_ok _ = True"

lemma number_text_first: "\<exists>c cs. number_text x = c # cs \<and> (is_digit c \<or> c = CHR ''-'')"
proof -
  define starts where "starts s \<longleftrightarrow> (\<exists>c cs. s = c # cs \<and> (is_digit c \<or> c = CHR ''-''))" for s
  have "starts (str_nat n @ t)" for n t
    using str_nat_digits [of n] by (cases "str_nat n") (simp_all add: starts_def)
  moreover from this [of _ "[]"] have "starts (str_nat n)" for n by simp
  moreover have "starts (CHR ''-'' # t)" for t by (simp add: starts_def)
  ultimately have "starts (number_text x)"
    by (simp add: number_text_def str_int_def)
  then show ?thesis by (simp add: starts_def)
qed

lemma dumps_first: "\<exists>c cs. dumps j = c # cs \<and> \<not> is_space c \<and> c \<noteq> CHR '']'' \<and> c \<noteq> CHR ''}''"
proof (cases j)
  case (JNum x)
  obtain c cs where "number_text x = c # cs" "is_digit c \<or> c = CHR ''-''"
    using number_text_first by blast
  then show ?thesis by (auto simp: JNum is_digit_def is_space_def)
qed (auto simp: string_text_def is_space_def)

lemma skip_dumps [simp]: "skip (dumps j @ t) = dumps j @ t"
  using dumps_first [of j] by (auto simp: skip_def)

lemma skip_first: "\<not> is_space c \<Longrightarrow> skip (c # t) = c # t"
  by (simp add: skip_def)

lemma delimiters_not_space [simp]:
  "\<not> is_space (CHR '','')" "\<not> is_space (CHR '']'')" "\<not> is_space (CHR ''}'')" "\<not> is_space (CHR '':'')"
  "\<not> is_space quote" "is_space (CHR '' '')"
  by (simp_all add: is_space_def)

lemma number_stop_delimiters [simp]:
  "number_stop []" "number_stop (CHR '','' # t)" "number_stop (CHR '']'' # t)" "number_stop (CHR ''}'' # t)"
  by (simp_all add: number_stop_def)

lemma read_literal_number:
  assumes "has_places FLOAT_PLACES x" "number_stop rest"
  shows "read_value (Suc n) (number_text x @ rest) = Inr (JNum x, rest)"
proof -
  obtain c cs where c: "number_text x = c # cs" "is_digit c \<or> c = CHR ''-''"
    using number_text_first by blast
  have "c \<notin> set [quote, CHR ''['', CHR ''{'', CHR ''n'', CHR ''t'', CHR ''f'']"
    using c(2) by (auto simp: is_digit_def)
  then show ?thesis
    using read_number_text [OF assms] by (simp add: c(1) read_literal_def literals_def)
qed

lemma read_items_dumps:
  assumes "\<And>j n rest. j \<in> set js \<Longrightarrow> length (dumps j) \<le> n \<Longrightarrow> number_stop rest \<Longrightarrow>
      read_value n (dumps j @ rest) = Inr (j, rest)"
    and "js \<noteq> []" "length (join_texts (map dumps js)) < n"
  shows "read_items n (join_texts (map dumps js) @ CHR '']'' # rest) = Inr (js, rest)"
  using assms
proof (induction js arbitrary: n)
  case (Cons j js)
  then obtain m where n: "n = Suc m" by (cases n) simp_all
  show ?case
  proof (cases js)
    case Nil
    then show ?thesis
      using Cons.prems(1) [of j m "CHR '']'' # rest"] Cons.prems(3) by (simp add: n skip_first)
  next
    case (Cons k ks)
    let ?rest = "join_texts (map dumps js) @ CHR '']'' # rest"
    have first: "skip (CHR '' '' # ?rest) = ?rest"
      using skip_dumps [of k] Cons by (cases ks) (simp_all add: skip_def)
    have "read_items m ?rest = Inr (js, rest)"
      using Cons.prems by (intro Cons.IH) (auto simp: n Cons)
    moreover have "read_value m (dumps j @ CHR '','' # CHR '' '' # ?rest) = Inr (j, CHR '','' # CHR '' '' # ?rest)"
      using Cons.prems(1) [of j m] Cons.prems(3) by (simp add: n Cons)
    ultimately show ?thesis
      using first by (simp add: n Cons skip_first)
  qed
qed simp

abbreviation member_text :: "string \<times> json \<Rightarrow> string" where
  "member_text \<equiv> \<lambda>(k, j). string_text k @ '': '' @ dumps j"

lemma skip_member [simp]: "skip (member_text p @ t) = member_text p @ t"
  by (cases p) (simp add: string_text_def skip_first)

lemma read_member:
  assumes "read_value n (dumps j @ c # rest) = Inr (j, c # rest)" "\<not> is_space c"
  shows "read_members (Suc n) (member_text (k, j) @ c # rest)
    = (if c = CHR ''}'' then Inr ([(k, j)], rest)
       else if c = CHR '','' then rbind (read_members n (skip rest)) (\<lambda>(kvs, rest). Inr ((k, j) # kvs, rest))
       else decode_error ''Expecting , delimiter'')"
proof -
  have key: "read_chars (concat (map escape_char k) @ quote # t) = Inr (k, t)" for t
    by (rule read_chars_text)
  have "skip (CHR '' '' # dumps j @ c # rest) = dumps j @ c # rest"
    using skip_dumps [of j "c # rest"] by (simp add: skip_def)
  then show ?thesis
    using assms by (simp add: string_text_def key skip_first)
qed

lemma read_members_dumps:
  assumes "\<And>p n rest. p \<in> set d \<Longrightarrow> length (dumps (snd p)) \<le> n \<Longrightarrow> number_stop rest \<Longrightarrow>
      read_value n (dumps (snd p) @ rest) = Inr (snd p, rest)"
    and "d \<noteq> []" "length (join_texts (map member_text d)) < n"
  shows "read_members n (join_texts (map member_text d) @ CHR ''}'' # rest) = Inr (d, rest)"
  using assms
proof (induction d arbitrary: n)
  case (Cons p d)
  obtain k j where p: "p = (k, j)" by force
  from Cons.prems(3) obtain m where n: "n = Suc m" by (cases n) simp_all
  have len: "length (dumps j) \<le> m"
    using Cons.prems(3) by (cases d) (simp_all add: p n)
  show ?case
  proof (cases d)
    case Nil
    then show ?thesis
      using read_member [OF Cons.prems(1) [of p m "CHR ''}'' # rest", unfolded p snd_conv]] len
      by (simp add: n p)
  next
    case (Cons q ds)
    let ?rest = "join_texts (map member_text d) @ CHR ''}'' # rest"
    have first: "skip (CHR '' '' # ?rest) = ?rest"
      using skip_member [of q] Cons by (cases ds) (simp_all add: skip_def)
    have "read_members m ?rest = Inr (d, rest)"
      using Cons.prems by (intro Cons.IH) (auto simp: n Cons)
    then show ?thesis
      using read_member [OF Cons.prems(1) [of p m "CHR '','' # CHR '' '' # ?rest", unfolded p snd_conv]] len first
      by (simp add: n p Cons)
  qed
qed simp

lemma dict_of_pairs:
  assumes "distinct (dict_keys (acc @ d))"
  shows "fold (\<lambda>(k, j). AList.update k j) d acc = acc @ d"
  using assms
proof (induction d arbitrary: acc)
  case (Cons p d)
  obtain k j where p: "p = (k, j)" by force
  show ?case
    using Cons.IH [of "acc @ [(k, j)]"] Cons.prems by (simp add: p update_fresh)
qed simp

lemma read_value_dumps:
  assumes "json_ok j" "length (dumps j) \<le> n" "number_stop rest"
  shows "read_value n (dumps j @ rest) = Inr (j, rest)"
  using assms
proof (induction j arbitrary: n rest)
  case (JList js)
  then obtain m where n: "n = Suc m" by (cases n) simp_all
  show ?case
  proof (cases js)
    case Nil
    then show ?thesis by (simp add: n skip_first)
  next
    case (Cons k ks)
    have start: "skip (join_texts (map dumps js) @ CHR '']'' # rest) = join_texts (map dumps js) @ CHR '']'' # rest"
      using skip_dumps [of k] Cons by (cases ks) simp_all
    obtain c cs where c: "join_texts (map dumps js) @ CHR '']'' # rest = c # cs" "c \<noteq> CHR '']''"
      using dumps_first [of k] Cons by (cases ks) auto
    have "read_items m (join_texts (map dumps js) @ CHR '']'' # rest) = Inr (js, rest)"
      using JList by (intro read_items_dumps) (auto simp: n Cons list_all_iff)
    then show ?thesis using start c by (simp add: n)
  qed
next
  case (JObj d)
  then obtain m where n: "n = Suc m" by (cases n) simp_all
  show ?case
  proof (cases d)
    case Nil
    then show ?thesis by (simp add: n skip_first)
  next
    case (Cons q ds)
    have start: "skip (join_texts (map member_text d) @ CHR ''}'' # rest) = join_texts (map member_text d) @ CHR ''}'' # rest"
      using skip_member [of q] Cons by (cases ds) simp_all
    obtain c cs where c: "join_texts (map member_text d) @ CHR ''}'' # rest = c # cs" "c \<noteq> CHR ''}''"
      using Cons by (cases ds; cases q) (auto simp: string_text_def)
    have "read_members m (join_texts (map member_text d) @ CHR ''}'' # rest) = Inr (d, rest)"
    proof (rule read_members_dumps)
      show "read_value n' (dumps (snd p) @ rest') = Inr (snd p, rest')"
        if "p \<in> set d" "length (dumps (snd p)) \<le> n'" "number_stop rest'" for p n' rest'
        using JObj.IH [OF that(1), of "snd p" n' rest'] JObj.prems(1) that
        by (cases p) (auto simp: list_all_iff)
    qed (use JObj.prems(2) in \<open>simp_all add: n Cons\<close>)
    then show ?thesis using start c dict_of_pairs [of "[]" d] JObj.prems(1) by (simp add: n)
  qed
next
  case (JNum x)
  then obtain m where n: "n = Suc m"
    using number_text_first [of x] by (cases n) auto
  show ?case using JNum read_literal_number [of x rest m] by (simp add: n del: read_value.simps)
next
  case (JStr s)
  then obtain m where n: "n = Suc m" by (cases n) (simp_all add: string_text_def)
  show ?case by (simp add: n string_text_def read_chars_text)
next
  case (JBool b)
  then obtain m where n: "n = Suc m" by (cases n) (auto split: if_splits)
  show ?case by (simp add: n read_literal_def literals_def)
next
  case JNull
  then obtain m where n: "n = Suc m" by (cases n) simp_all
  show ?case by (simp add: n read_literal_def literals_def)
qed

subsection \<open>Encoding and decoding\<close>

text \<open>\<^verbatim>\<open>encode\<close>: a dataclass arrives as its dictionary; \<^verbatim>\<open>decode\<close>: the bytes of an ASCII text.\<close>

definition encode_text :: "json \<Rightarrow> string" where
  "encode_text payload = dumps payload"

definition decode_text :: "string \<Rightarrow> json result" where
  "decode_text txt = loads txt"

lemma text_read_back:
  assumes "json_ok payload"
  shows "decode_text (encode_text payload) = Inr payload"
  using read_value_dumps [OF assms, of "Suc (length (dumps payload))" "[]"] skip_dumps [of payload "[]"]
  by (simp add: decode_text_def encode_text_def loads_def skip_def)



end
