(* ===== verification/Wire_Text.thy ===== *)
theory Wire_Text
  imports Json_Text Serializer_Props
begin

text \<open>
  A message from end to end: the text its sender hands to the transport, and the message the receiver
  reads out of that text.  What the text round trip asks of a payload (distinct keys, numbers that are
  floats) is traced back to the worlds and messages the program holds.
\<close>

subsection \<open>Payloads whose numbers are floats\<close>

definition is_float :: "flt \<Rightarrow> bool" where
  "is_float x \<longleftrightarrow> has_places FLOAT_PLACES x"

lemma float_integral: "is_integral x \<Longrightarrow> is_float x"
  unfolding is_float_def has_places_def is_integral_iff by (metis of_int_mult of_int_numeral of_int_power)

lemma float_int [simp]: "is_float (of_int i)" "is_float 0" "is_float 1" "is_float (numeral k)" "is_float (- numeral k)"
  by (rule float_integral; simp add: is_integral_def)+

lemma json_ok_num [simp]: "json_ok (JNum x) \<longleftrightarrow> is_float x" "json_ok (enc_int i)"
  by (simp_all add: enc_int_def flip: is_float_def)

declare json_ok.simps(1) [simp del]

lemma json_ok_opt [simp]: "json_ok (enc_opt f x) \<longleftrightarrow> (\<forall>v. x = Some v \<longrightarrow> json_ok (f v))"
  by (cases x) simp_all

lemma json_ok_list [simp]: "json_ok (enc_list f xs) \<longleftrightarrow> (\<forall>x \<in> set xs. json_ok (f x))"
  by (simp add: enc_list_def list_all_iff)

lemma json_ok_dict [simp]:
  "json_ok (enc_dict f d) \<longleftrightarrow> distinct (dict_keys d) \<and> (\<forall>x \<in> snd ` set d. json_ok (f x))"
  by (auto simp: enc_dict_def list_all_iff set_map_vals)

definition float_box :: "'a body_scheme \<Rightarrow> bool" where
  "float_box b \<longleftrightarrow> is_float (pos_x b) \<and> is_float (pos_y b) \<and> is_float (width b) \<and> is_float (height b)"

definition float_player :: "player \<Rightarrow> bool" where
  "float_player p \<longleftrightarrow> float_box p \<and> is_float (vx p) \<and> is_float (vy p) \<and> is_float (prev_x p) \<and> is_float (prev_y p) \<and>
     pred_option is_float (powerup_effect_expires_at p)"

definition float_enemy :: "enemy \<Rightarrow> bool" where
  "float_enemy e \<longleftrightarrow> float_box e \<and> is_float (enemy_vx e) \<and> is_float (left_bound e) \<and> is_float (right_bound e) \<and>
     pred_option is_float (movement_speed e)"

text \<open>A world as Python can hold it.\<close>

definition float_world :: "world_state \<Rightarrow> bool" where
  "float_world w \<longleftrightarrow>
     (let env = environment w in
      list_all distinct [dict_keys (characters w), dict_keys (power_ups env), dict_keys (enemies env),
        dict_keys (cooperative_gates env), dict_keys (respawn_timers w)] \<and>
      list_all float_player (dict_values (characters w)) \<and> list_all float_box (destructible_blocks env) \<and>
      list_all float_box (dict_values (power_ups env)) \<and> list_all float_enemy (dict_values (enemies env)) \<and>
      list_all float_box (dict_values (cooperative_gates env)) \<and>
      list_all is_float (dict_values (respawn_timers w)))"

lemma json_ok_entities [simp]:
  "json_ok (player_to_json p) \<longleftrightarrow> float_player p"
  "json_ok (block_to_json b) \<longleftrightarrow> float_box b"
  "json_ok (powerup_to_json u) \<longleftrightarrow> float_box u"
  "json_ok (gate_to_json g) \<longleftrightarrow> float_box g"
  "json_ok (enemy_to_json e) \<longleftrightarrow> float_enemy e"
  by (auto simp: player_to_json_def block_to_json_def powerup_to_json_def gate_to_json_def enemy_to_json_def
      float_player_def float_enemy_def float_box_def pred_option_def)

lemma json_ok_world [simp]: "json_ok (to_dict w) \<longleftrightarrow> float_world w"
  by (auto simp: to_dict_def environment_to_json_def float_world_def Let_def list_all_iff)

text \<open>Only a message that carries a world can carry a number that is not an integer.\<close>

fun carries_floats :: "message \<Rightarrow> bool" where
  "carries_floats (WorldStateSnapshot n w) = float_world w"
| "carries_floats (InitialStateSync w) = float_world w"
| "carries_floats _ = True"

lemma json_ok_message:
  assumes "valid_message m" "carries_floats m"
  shows "json_ok (encode_message m)"
  using assms
  by (cases m) (auto simp: encode_message_def asdict_def input_to_json_def entry_to_json_def valid_message_def
      float_integral)

subsection \<open>From message to text to message\<close>

text \<open>C11: a message is not changed by its text: what the sender of either transport turns into JSON text
  the receiver parses, validates and rebuilds to exactly the message that was sent, the world of a snapshot
  with its dictionaries, its fractions and its missing values included.\<close>

theorem sent_text_is_read_back:
  assumes "validator validate" and "valid_message m" and "wire_ok m" and "carries_floats m"
  shows "(udp_message m \<longrightarrow> rbind (decode_text (encode_text (encode_message m))) (decode_message validate) = Inr m) \<and>
    (ws_message m \<longrightarrow>
      rbind (decode_text (encode_text (JObj (encode_ws_message m)))) (decode_ws_message validate) = Inr m)"
proof -
  have "JObj (encode_ws_message m) = encode_message m"
    by (simp add: encode_message_def encode_ws_message_def)
  then show ?thesis
    using read_back [OF assms(1-3)] text_read_back [OF json_ok_message [OF assms(2,4)]] by simp
qed

lemma float_half [simp]: "is_float (1 / 2)"
proof -
  have "has_places (1 + n) (1 / 2)" for n
  proof -
    have "1 / 2 * (10 :: flt) ^ (1 + n) = of_int (5 * 10 ^ n)" by (simp add: power_add)
    then show ?thesis by (simp only: has_places_def is_integral_of_int)
  qed
  from this [of 1073] show ?thesis by (simp add: is_float_def FLOAT_PLACES_def)
qed

theorem sent_text_is_read_back_witness:
  "rbind (decode_text (encode_text (encode_message (WorldStateSnapshot 12 example_world)))) (decode_message strict_validate)
    = Inr (WorldStateSnapshot 12 example_world)"
  using sent_text_is_read_back [OF strict.validator_axioms, of "WorldStateSnapshot 12 example_world"]
  by (simp add: valid_message_def encodable_world_def example_world_def udp_message_iff float_world_def
      float_player_def float_enemy_def float_box_def new_world_def new_player_def
      PLAYER_WIDTH_def PLAYER_HEIGHT_def)

end
