(* ===== verification/Session_Flow.thy ===== *)
theory Session_Flow
  imports Readmission Connections
begin

text \<open>
  A session from end to end: the lobby phases of \<^verbatim>\<open>application/lobby/coordinator.py\<close> as the node runs
  them, the runner of \<^verbatim>\<open>main.py\<close> that surrounds them with the lobby screen, and the loops of
  \<^verbatim>\<open>main.py\<close>: one run after another, and the way back to the menu.

  The state is the node, its metadata file and the host its lobby connection points at.  What the
  screen, the lobby and the network answer is an argument.
\<close>

record runtime =
  rt_node :: node
  rt_file :: session_file
  rt_lobby_host :: string

record lobby_io =
  li_entering :: bool
  li_creating :: bool
  li_server :: "unit result"
  li_discovered :: "(string \<times> int) result"
  li_socket :: "int result"
  li_connecting :: bool
  li_connected :: "unit result"
  li_sent :: "unit result"
  li_replies :: "message list"
  li_joined :: bool
  li_polls :: "(message option \<times> bool \<times> bool) list"
  li_broadcasting :: bool
  li_echo :: "message list"
  li_late :: "message list"
  li_now :: flt
  li_starting :: bool

subsection \<open>Composing the phases\<close>

text \<open>An exception, a cancelled screen or a loop that still waits ends the phase in the state reached.\<close>

definition lobby_bind ::
    "'a lobby_outcome \<times> 's \<Rightarrow> ('a \<Rightarrow> 's \<Rightarrow> 'b lobby_outcome \<times> 's) \<Rightarrow> 'b lobby_outcome \<times> 's" where
  "lobby_bind r k =
     (case r of
        (Done x, s) \<Rightarrow> k x s
      | (Failed e, s) \<Rightarrow> (Failed e, s)
      | (Waiting, s) \<Rightarrow> (Waiting, s))"

lemma lobby_bind_simps [simp]:
  "lobby_bind (Done x, s) k = k x s"
  "lobby_bind (Failed e, s) k = (Failed e, s)"
  "lobby_bind (Waiting, s) k = (Waiting, s)"
  by (simp_all add: lobby_bind_def)

lemma lobby_bind_Done:
  "lobby_bind r k = (Done y, s') \<longleftrightarrow> (\<exists>x s. r = (Done x, s) \<and> k x s = (Done y, s'))"
  by (auto simp: lobby_bind_def split: prod.splits lobby_outcome.splits)

text \<open>\<^verbatim>\<open>_notify_lobby_update\<close>: the screen may have been closed.\<close>

definition notify_lobby_update :: "bool \<Rightarrow> 's \<Rightarrow> unit lobby_outcome \<times> 's" where
  "notify_lobby_update continue s = (if continue then Done () else Failed Lobby_Cancelled, s)"

definition attempt :: "'a result \<Rightarrow> 's \<Rightarrow> 'a lobby_outcome \<times> 's" where
  "attempt r s = (case r of Inl e \<Rightarrow> Failed (Raised e) | Inr x \<Rightarrow> Done x, s)"

lemma notify_lobby_update_Done [simp]:
  "notify_lobby_update c s = (Done u, s') \<longleftrightarrow> c \<and> s' = s"
  by (auto simp: notify_lobby_update_def)

lemma attempt_Done [simp]: "attempt r s = (Done x, s') \<longleftrightarrow> r = Inr x \<and> s' = s"
  by (auto simp: attempt_def split: sum.splits)

definition on_node :: "(node \<Rightarrow> 'a lobby_outcome \<times> node) \<Rightarrow> runtime \<Rightarrow> 'a lobby_outcome \<times> runtime" where
  "on_node f rt = (case f (rt_node rt) of (r, n) \<Rightarrow> (r, rt\<lparr>rt_node := n\<rparr>))"

lemma on_node_Done:
  "on_node f rt = (Done x, rt') \<longleftrightarrow> (\<exists>n. f (rt_node rt) = (Done x, n) \<and> rt' = rt\<lparr>rt_node := n\<rparr>)"
  by (auto simp: on_node_def split: prod.splits)

definition effect_of :: "effect \<Rightarrow> runtime \<Rightarrow> runtime" where
  "effect_of x rt = rt\<lparr>rt_node := emit x (rt_node rt)\<rparr>"

subsection \<open>The host\<close>

definition is_session_created :: "message \<Rightarrow> bool" where
  "is_session_created m = (case m of SessionCreated _ _ \<Rightarrow> True | _ \<Rightarrow> False)"

definition adopt_session :: "message \<Rightarrow> node \<Rightarrow> node" where
  "adopt_session m n =
     (case m of SessionCreated sid ji \<Rightarrow> n\<lparr>n_session_id := sid, n_join_index := ji\<rparr> | _ \<Rightarrow> n)"

definition create_session_request :: "node \<Rightarrow> message result" where
  "create_session_request n =
     mk_message (SessionCreate (n_local_player_id n) (n_local_ip n) (n_udp_port n))"

definition open_session :: "lobby_io \<Rightarrow> runtime \<Rightarrow> unit lobby_outcome \<times> runtime" where
  "open_session io rt =
     lobby_bind (notify_lobby_update (li_creating io) rt) (\<lambda>_ rt.
     lobby_bind (attempt (li_server io) (effect_of
         (if n_use_discovery (rt_node rt) then Start_Containers else Launch_Lobby LOBBY_WS_PORT) rt)) (\<lambda>_ rt.
     lobby_bind (notify_lobby_update (li_connecting io) rt) (\<lambda>_ rt.
     lobby_bind (attempt (li_connected io) rt) (\<lambda>_ rt.
     lobby_bind (attempt (create_session_request (rt_node rt)) rt) (\<lambda>m rt.
     lobby_bind (attempt (li_sent io) (effect_of (Send_Lobby m) rt)) (\<lambda>_ rt.
     lobby_bind (on_node (poll_lobby is_session_created (li_replies io)) rt) (\<lambda>created rt.
     let n1 = adopt_session created (rt_node rt);
         n2 = (if n_use_discovery n1 then emit (Announce (n_session_id n1) LOBBY_WS_PORT) n1 else n1)
     in notify_lobby_update (li_joined io) (rt\<lparr>rt_node := n2\<rparr>))))))))"

definition host_lobby_phase :: "lobby_io \<Rightarrow> runtime \<Rightarrow> unit lobby_outcome \<times> runtime" where
  "host_lobby_phase io rt =
     lobby_bind (open_session io rt) (\<lambda>_ rt.
     lobby_bind (on_node (wait_for_start_request (li_polls io)) rt) (\<lambda>_ rt.
     let n = rt_node rt;
         rt1 = effect_of (if n_use_discovery n then Allow_Only (discovery_allowed_ips n) else Launch_Broker) rt
     in lobby_bind (on_node (broadcast_game_start (li_broadcasting io) (li_echo io) (li_late io)) rt1)
          (\<lambda>_ rt. (Done (), rt))))"

definition host_replay_wait :: "lobby_io \<Rightarrow> runtime \<Rightarrow> unit lobby_outcome \<times> runtime" where
  "host_replay_wait io rt =
     lobby_bind (on_node (wait_for_start_request (li_polls io)) rt) (\<lambda>_ rt.
     lobby_bind (on_node (broadcast_game_start (li_broadcasting io) (li_echo io) (li_late io)) rt)
       (\<lambda>_ rt. (Done (), rt)))"

subsection \<open>The client\<close>

definition is_session_joined :: "message \<Rightarrow> bool" where
  "is_session_joined m = (case m of SessionJoined _ \<Rightarrow> True | _ \<Rightarrow> False)"

definition client_polls :: "(message option \<times> bool \<times> bool) list \<Rightarrow> (message option \<times> bool) list" where
  "client_polls = map (\<lambda>(m, continue, _). (m, continue))"

definition take_slot :: "ident \<Rightarrow> message \<Rightarrow> node \<Rightarrow> node" where
  "take_slot sid m n = (case m of SessionJoined ji \<Rightarrow> adopt_join_index sid ji n | _ \<Rightarrow> n)"

text \<open>\<^verbatim>\<open>discover\<close> and \<^verbatim>\<open>_make_lobby_ws_client\<close>.\<close>

definition find_lobby :: "lobby_io \<Rightarrow> runtime \<Rightarrow> unit lobby_outcome \<times> runtime" where
  "find_lobby io rt =
     (if n_use_discovery (rt_node rt)
      then lobby_bind (attempt (li_discovered io) rt)
        (\<lambda>(host_ip, lobby_port) rt.
           (Done (), (effect_of (Connect_Lobby host_ip lobby_port) rt)\<lparr>rt_lobby_host := host_ip\<rparr>))
      else (Done (), rt))"

definition bind_socket :: "int \<Rightarrow> runtime \<Rightarrow> runtime" where
  "bind_socket port rt = rt\<lparr>rt_node := (emit (Bind_Udp port) (rt_node rt))\<lparr>n_udp_port := port\<rparr>\<rparr>"

definition request_slot :: "lobby_io \<Rightarrow> ident \<Rightarrow> runtime \<Rightarrow> unit lobby_outcome \<times> runtime" where
  "request_slot io sid rt =
     lobby_bind (notify_lobby_update (li_connecting io) rt) (\<lambda>_ rt.
     lobby_bind (find_lobby io rt) (\<lambda>_ rt.
     lobby_bind (attempt (li_socket io) rt) (\<lambda>port rt.
     lobby_bind (attempt (li_connected io) (bind_socket port rt)) (\<lambda>_ rt.
     lobby_bind (attempt (send_session_join sid (rt_node rt)) rt) (\<lambda>n rt.
     attempt (li_sent io) (rt\<lparr>rt_node := n\<rparr>))))))"

definition client_lobby_phase :: "lobby_io \<Rightarrow> ident \<Rightarrow> runtime \<Rightarrow> unit lobby_outcome \<times> runtime" where
  "client_lobby_phase io sid rt =
     lobby_bind (request_slot io sid rt) (\<lambda>_ rt.
     lobby_bind (on_node (poll_lobby is_session_joined (li_replies io)) rt) (\<lambda>joined rt.
     lobby_bind (notify_lobby_update (li_joined io) (rt\<lparr>rt_node := take_slot sid joined (rt_node rt)\<rparr>)) (\<lambda>_ rt.
     lobby_bind (on_node (wait_for_game_start True (client_polls (li_polls io))) rt)
       (\<lambda>_ rt. (Done (), rt)))))"

definition client_replay_wait :: "lobby_io \<Rightarrow> runtime \<Rightarrow> unit lobby_outcome \<times> runtime" where
  "client_replay_wait io rt =
     lobby_bind (on_node (wait_for_game_start False (client_polls (li_polls io))) rt)
       (\<lambda>_ rt. (Done (), rt))"

subsection \<open>Either\<close>

definition to_lobby :: "runtime \<Rightarrow> runtime" where
  "to_lobby rt =
     rt\<lparr>rt_node := (rt_node rt)\<lparr>n_lifecycle := move_to_lobby (n_lifecycle (rt_node rt))\<rparr>\<rparr>"

definition begin_game :: "(flt \<Rightarrow> string \<Rightarrow> node \<Rightarrow> node) \<Rightarrow> lobby_io \<Rightarrow> runtime \<Rightarrow> unit lobby_outcome \<times> runtime" where
  "begin_game enter io rt =
     (let n = enter (li_now io) (rt_lobby_host rt) (rt_node rt)
      in notify_lobby_update (li_starting io) (rt\<lparr>rt_node := n, rt_file := write_node_metadata n\<rparr>))"

definition lobby_phase :: "lobby_io \<Rightarrow> ident \<Rightarrow> runtime \<Rightarrow> unit lobby_outcome \<times> runtime" where
  "lobby_phase io sid rt =
     lobby_bind (notify_lobby_update (li_entering io) (to_lobby rt)) (\<lambda>_ rt.
     lobby_bind (if n_role (rt_node rt) = HOST then host_lobby_phase io rt else client_lobby_phase io sid rt)
       (\<lambda>_ rt. begin_game enter_game io rt))"

definition replay_lobby_phase :: "lobby_io \<Rightarrow> runtime \<Rightarrow> unit lobby_outcome \<times> runtime" where
  "replay_lobby_phase io rt =
     lobby_bind (notify_lobby_update (li_entering io) (to_lobby rt)) (\<lambda>_ rt.
     lobby_bind (if n_role (rt_node rt) = HOST then host_replay_wait io rt else client_replay_wait io rt)
       (\<lambda>_ rt. begin_game replay_game io rt))"

end
