(* ===== verification/Runner.thy ===== *)
theory Runner
  imports Session_Flow
begin

text \<open>
  The program around a session (\<^verbatim>\<open>main.py\<close>): how a run is prepared, the runner that shows the lobby
  screen and cleans up, the runs that follow one another, and the loop that returns to the menu.
\<close>

subsection \<open>Preparing a run\<close>

definition claim_slot :: "session_metadata \<Rightarrow> node \<Rightarrow> node" where
  "claim_slot m n =
     (let n1 = n\<lparr>n_rejoin_join_index := md_join_index m\<rparr>
      in case md_join_index m of
           None \<Rightarrow> n1
         | Some ji \<Rightarrow> n1\<lparr>n_join_index := ji, n_local_player_id := md_local_player_id m,
             n_prediction := (case n_prediction n1 of
                 Noop_Predictor \<Rightarrow> Noop_Predictor
               | Predictor p \<Rightarrow> Predictor (p\<lparr>pe_local_player_id := md_local_player_id m\<rparr>))\<rparr>)"

definition build_controller :: "player_role \<Rightarrow> bool \<Rightarrow> node \<Rightarrow> node" where
  "build_controller role discovery fresh = bootstrap role (fresh\<lparr>n_use_discovery := discovery\<rparr>)"

definition prepare ::
    "player_role \<Rightarrow> string option \<Rightarrow> string \<Rightarrow> ident \<Rightarrow> session_file \<Rightarrow> node \<Rightarrow> node result" where
  "prepare role host_ip local_ip sid f fresh =
     (let n = build_controller role (host_ip = None) fresh
      in rbind (if role = CLIENT \<and> sid \<noteq> [] then read_session_metadata f else Inr None) (\<lambda>metadata.
           Inr ((case metadata of
                   Some m \<Rightarrow> if md_session_id m = sid then claim_slot m n else n
                 | None \<Rightarrow> n)\<lparr>n_local_ip := local_ip\<rparr>)))"

text \<open>\<^verbatim>\<open>_detect_local_ip\<close>: what the socket says, if it says anything.\<close>

definition detect_local_ip :: "string result \<Rightarrow> string result" where
  "detect_local_ip name =
     (case name of
        Inr ip \<Rightarrow> Inr ip
      | Inl (OSError s) \<Rightarrow> Inr DEFAULT_HOST
      | Inl e \<Rightarrow> Inl e)"

text \<open>\<^verbatim>\<open>_drop_rate\<close>, on what \<^verbatim>\<open>float\<close> makes of the argument; infinite and undefined values fail the test too.\<close>

definition drop_rate :: "flt option \<Rightarrow> flt option" where
  "drop_rate f = (case f of None \<Rightarrow> None | Some x \<Rightarrow> if 0 \<le> x \<and> x \<le> 1 then Some x else None)"

definition prompt_client_join ::
    "bool \<Rightarrow> ident option \<Rightarrow> (string \<times> ident) option \<Rightarrow> (ident \<times> string option) option" where
  "prompt_client_join discovery session_answer details_answer =
     (if discovery then map_option (\<lambda>sid. (sid, None)) session_answer
      else map_option (\<lambda>(host_ip, sid). (sid, if host_ip = [] then None else Some host_ip)) details_answer)"

definition point_client_at :: "string option \<Rightarrow> runtime \<Rightarrow> runtime" where
  "point_client_at host_ip rt =
     (let h = (case host_ip of Some ip \<Rightarrow> if ip = [] then DEFAULT_HOST else ip | None \<Rightarrow> DEFAULT_HOST);
          n = emit (Connect_Lobby h LOBBY_WS_PORT) (rt_node rt)
      in rt\<lparr>rt_node := n\<lparr>n_remote_host := h\<rparr>, rt_lobby_host := h\<rparr>)"

subsection \<open>The runner\<close>

definition teardown :: "runtime \<Rightarrow> runtime" where
  "teardown rt =
     (let n1 = emit Close_Udp (emit Close_Events (emit Close_Lobby (leave_lobby (rt_node rt))));
          n2 = (if n_role n1 = HOST then emit Stop_Containers n1 else n1)
      in rt\<lparr>rt_node := n2, rt_file := delete_session_metadata (rt_file rt)\<rparr>)"

text \<open>
  What the screen and the network answer in one run, and the game that follows: the node it leaves
  behind and whether it ended with the victory.
\<close>

record round =
  rd_io :: lobby_io
  rd_events :: "unit result"
  rd_transition :: bool
  rd_leave_requested :: bool
  rd_closed :: bool
  rd_game :: "node \<Rightarrow> node \<times> bool"

datatype runner_result = Entered | Stopped | Return_To_Menu | Still_Waiting

definition runner_phase :: "player_role \<Rightarrow> ident \<Rightarrow> bool \<Rightarrow> round \<Rightarrow> runtime \<Rightarrow> unit lobby_outcome \<times> runtime" where
  "runner_phase startup_role sid is_replay r rt =
     (if is_replay then replay_lobby_phase (rd_io r) rt
      else lobby_bind (lobby_phase (rd_io r) sid rt) (\<lambda>_ rt.
        if startup_role = CLIENT then attempt (rd_events r) (effect_of Open_Events rt)
        else (Done (), rt)))"

definition enter_and_transition ::
    "player_role \<Rightarrow> ident \<Rightarrow> bool \<Rightarrow> round \<Rightarrow> runtime \<Rightarrow> runner_result \<times> runtime" where
  "enter_and_transition startup_role sid is_replay r rt =
     (case runner_phase startup_role sid is_replay r rt of
        (Done _, rt1) \<Rightarrow> if rd_transition r then (Entered, rt1) else (Stopped, teardown rt1)
      | (Failed Lobby_Cancelled, rt1) \<Rightarrow>
          (if rd_leave_requested r \<and> \<not> rd_closed r then Return_To_Menu else Stopped, teardown rt1)
      | (Failed (Join_Rejected why), rt1) \<Rightarrow>
          (Return_To_Menu, effect_of (Show_Error ''Cannot join this session'') (teardown rt1))
      | (Failed Session_Closed, rt1) \<Rightarrow> (Return_To_Menu, teardown rt1)
      | (Failed Lobby_Timeout, rt1) \<Rightarrow>
          (Stopped, effect_of (Show_Error ''Lobby connection failed'') (teardown rt1))
      | (Failed (Raised e), rt1) \<Rightarrow>
          (Stopped, effect_of (Show_Error ''Lobby connection failed'') (teardown rt1))
      | (Waiting, rt1) \<Rightarrow> (Still_Waiting, rt1))"

subsection \<open>Runs\<close>

text \<open>
  The loop of \<^verbatim>\<open>main\<close> over the runs of one session, of which the first is not a replay.  A clean
  quit stops the containers and deletes the metadata, whatever the role of the node.
\<close>

definition quit_cleanly :: "runtime \<Rightarrow> runtime" where
  "quit_cleanly rt =
     (effect_of Stop_Containers rt)\<lparr>rt_file := delete_session_metadata (rt_file rt)\<rparr>"

datatype program_result = Ended | Back_To_Menu | Cut_Off

fun run_rounds ::
    "player_role \<Rightarrow> ident \<Rightarrow> bool \<Rightarrow> round list \<Rightarrow> runtime \<Rightarrow> program_result \<times> runtime" where
  "run_rounds startup_role sid is_replay [] rt = (Cut_Off, rt)"
| "run_rounds startup_role sid is_replay (r # rs) rt =
     (case enter_and_transition startup_role sid is_replay r rt of
        (Entered, rt1) \<Rightarrow>
          (case rd_game r (rt_node rt1) of
             (n, victory_shown) \<Rightarrow>
               let rt2 = rt1\<lparr>rt_node := n\<rparr>
               in if victory_shown then run_rounds startup_role sid True rs rt2
                  else (Ended, quit_cleanly rt2))
      | (Stopped, rt1) \<Rightarrow> (Ended, rt1)
      | (Return_To_Menu, rt1) \<Rightarrow> (Back_To_Menu, rt1)
      | (Still_Waiting, rt1) \<Rightarrow> (Cut_Off, rt1))"

record launch =
  la_role :: player_role
  la_host_ip :: "string option"
  la_session_id :: ident
  la_session_answer :: "ident option"
  la_details_answer :: "(string \<times> ident) option"
  la_rounds :: "round list"

text \<open>\<^verbatim>\<open>main\<close> with \<^verbatim>\<open>run_app\<close>; the state starts with the metadata file that is there.\<close>

definition run_main :: "string \<Rightarrow> node \<Rightarrow> launch \<Rightarrow> session_file \<Rightarrow> (program_result \<times> runtime) result" where
  "run_main local_ip fresh l f =
     rbind (prepare (la_role l) (la_host_ip l) local_ip (la_session_id l) f fresh) (\<lambda>n.
       let rt = \<lparr>rt_node = n, rt_file = f, rt_lobby_host = DEFAULT_HOST\<rparr>;
           discovery = (la_host_ip l = None);
           joined = (if la_role l = CLIENT \<and> la_session_id l = []
             then prompt_client_join discovery (la_session_answer l) (la_details_answer l)
             else Some (la_session_id l, None))
       in case joined of
            None \<Rightarrow>
              Inr (Ended, (effect_of Close_Udp rt)\<lparr>rt_file := delete_session_metadata f\<rparr>)
          | Some (sid, joined_host_ip) \<Rightarrow>
              let host_ip = (case joined_host_ip of Some h \<Rightarrow> Some h | None \<Rightarrow> la_host_ip l);
                  rt1 = (if la_role l = CLIENT \<and> \<not> discovery then point_client_at host_ip rt else rt)
              in Inr (run_rounds (la_role l) sid False (la_rounds l) rt1))"

text \<open>
  The program: with a role pinned on the command line one run, otherwise recovery first, then the
  menu (\<open>None\<close>: the window was closed), again after every return to the menu.
\<close>

record turn =
  tu_answer :: "cached_peer \<Rightarrow> probe_answer"
  tu_first :: bool
  tu_frames :: "bool list"
  tu_menu :: "player_role option"
  tu_launch :: launch

definition chosen_launch :: "recovery_outcome \<Rightarrow> turn \<Rightarrow> launch option" where
  "chosen_launch recovered t =
     (case recovered of
        Recovered host_ip sid \<Rightarrow>
          Some ((tu_launch t)\<lparr>la_role := CLIENT, la_host_ip := Some host_ip, la_session_id := sid\<rparr>)
      | _ \<Rightarrow> map_option (\<lambda>role. (tu_launch t)\<lparr>la_role := role\<rparr>) (tu_menu t))"

fun menu_loop ::
    "validation \<Rightarrow> string \<Rightarrow> node \<Rightarrow> turn list \<Rightarrow> session_file \<Rightarrow> (program_result \<times> session_file) result" where
  "menu_loop validate local_ip fresh [] f = Inr (Cut_Off, f)"
| "menu_loop validate local_ip fresh (t # ts) f =
     rbind (try_recover_session validate (tu_answer t) local_ip (tu_first t) (tu_frames t) f)
       (\<lambda>(recovered, f1).
         if recovered = Still_Probing then Inr (Cut_Off, f1)
         else case chosen_launch recovered t of
           None \<Rightarrow> Inr (Ended, f1)
         | Some l \<Rightarrow>
             rbind (run_main local_ip fresh l f1) (\<lambda>(res, rt).
               if res = Back_To_Menu then menu_loop validate local_ip fresh ts (rt_file rt)
               else Inr (res, rt_file rt)))"

end
