(* ===== verification/Runner_Props.thy ===== *)
theory Runner_Props
  imports Runner
begin

text \<open>
  What the runner guarantees: which effects the phases of the lobby have, what is cleaned up when a
  session ends, and how a client comes into, or back into, a game.
\<close>

lemma answered [simp]:
  "notify_lobby_update True s = (Done (), s)"
  "attempt (Inr x) s = (Done x, s)"
  by (simp_all add: notify_lobby_update_def attempt_def)

subsection \<open>What the phases leave alone\<close>

text \<open>
  An effect that belongs to a teardown only.  A step of a phase keeps the role of the node and adds
  effects of the other kind.
\<close>

definition farewell :: "effect \<Rightarrow> bool" where
  "farewell x \<longleftrightarrow> x = Stop_Containers \<or> (\<exists>sid ji. x = Send_Lobby (SessionLeave sid ji))"

definition node_step :: "node \<Rightarrow> node \<Rightarrow> bool" where
  "node_step n n' \<longleftrightarrow> n_role n' = n_role n \<and>
     (\<exists>xs. n_out n' = n_out n @ xs \<and> (\<forall>x \<in> set xs. \<not> farewell x))"

definition phase_step :: "runtime \<Rightarrow> runtime \<Rightarrow> bool" where
  "phase_step rt rt' \<longleftrightarrow> node_step (rt_node rt) (rt_node rt')"

lemma node_step_refl [simp]: "node_step n n"
  by (simp add: node_step_def)

lemma node_step_trans: "node_step a b \<Longrightarrow> node_step b c \<Longrightarrow> node_step a c"
  by (fastforce simp: node_step_def)

lemma node_step_same: "n_role n' = n_role n \<Longrightarrow> n_out n' = n_out n \<Longrightarrow> node_step n n'"
  by (simp add: node_step_def)

lemma node_step_roster [simp]:
  "node_step (n\<lparr>n_roster := r\<rparr>) n' \<longleftrightarrow> node_step n n'"
  "node_step n (n'\<lparr>n_roster := r\<rparr>) \<longleftrightarrow> node_step n n'"
  "node_step n (n'\<lparr>n_session_id := sid\<rparr>) \<longleftrightarrow> node_step n n'"
  by (simp_all add: node_step_def)

lemma node_step_emit [simp]: "node_step n (emit x n) \<longleftrightarrow> \<not> farewell x"
  by (simp add: node_step_def emit_def)

lemma phase_step_refl [simp]: "phase_step rt rt"
  by (simp add: phase_step_def)

lemma phase_step_trans: "phase_step a b \<Longrightarrow> phase_step b c \<Longrightarrow> phase_step a c"
  by (auto simp: phase_step_def intro: node_step_trans)

lemma phase_step_effect [simp]: "phase_step rt (effect_of x rt) \<longleftrightarrow> \<not> farewell x"
  by (simp add: phase_step_def effect_of_def)

lemma lobby_bind_state:
  assumes "P s0 (snd r)" and "\<And>a b c. P a b \<Longrightarrow> P b c \<Longrightarrow> P a c"
    and "\<And>x s. r = (Done x, s) \<Longrightarrow> P s (snd (k x s))"
  shows "P s0 (snd (lobby_bind r k))"
  using assms by (cases r; cases "fst r") (auto simp: lobby_bind_def)

lemmas phase_bind = lobby_bind_state [where P = phase_step, OF _ phase_step_trans]

lemma phase_attempt: "phase_step s0 s \<Longrightarrow> phase_step s0 (snd (attempt r s))"
  by (simp add: attempt_def)

lemma phase_notify: "phase_step s0 s \<Longrightarrow> phase_step s0 (snd (notify_lobby_update c s))"
  by (simp add: notify_lobby_update_def)

lemma phase_on_node:
  "node_step (rt_node rt) (snd (f (rt_node rt))) \<Longrightarrow> phase_step rt (snd (on_node f rt))"
  by (auto simp: on_node_def phase_step_def split: prod.splits)

lemma step_poll_lobby: "node_step n (snd (poll_lobby expected msgs n))"
proof (induction msgs arbitrary: n)
  case (Cons m ms)
  have "node_step n (snd (poll_lobby expected ms (n\<lparr>n_roster := r\<rparr>)))" for r
    using Cons [of "n\<lparr>n_roster := r\<rparr>"] by simp
  with Cons show ?case by (cases m) (simp_all add: Let_def)
qed simp

lemma step_wait_for_game_start: "node_step n (snd (wait_for_game_start adopt polls n))"
proof (induction polls arbitrary: n)
  case (Cons p ps)
  obtain m c where p: "p = (m, c)" by (cases p)
  have "node_step n (snd (wait_for_game_start adopt ps (n\<lparr>n_roster := r\<rparr>)))" for r
    using Cons [of "n\<lparr>n_roster := r\<rparr>"] by simp
  with Cons show ?case by (cases m; cases "the m") (simp_all add: p Let_def)
qed simp

lemma step_wait_for_start_request: "node_step n (snd (wait_for_start_request polls n))"
proof (induction polls arbitrary: n)
  case (Cons p ps)
  obtain m c q where p: "p = (m, c, q)" by (cases p)
  have "node_step n (snd (wait_for_start_request ps (n\<lparr>n_roster := r\<rparr>)))" for r
    using Cons [of "n\<lparr>n_roster := r\<rparr>"] by simp
  with Cons show ?case by (cases m; cases "the m") (simp_all add: p Let_def)
qed simp

lemma step_adopt_rosters: "node_step n (adopt_rosters msgs n)"
proof (induction msgs arbitrary: n)
  case (Cons m ms)
  have "node_step n (adopt_rosters ms (n\<lparr>n_roster := r\<rparr>))" for r
    using Cons [of "n\<lparr>n_roster := r\<rparr>"] by simp
  with Cons show ?case by (cases m) (simp_all add: adopt_rosters_def)
qed (simp add: adopt_rosters_def)

lemma step_broadcast_game_start: "node_step n (snd (broadcast_game_start c polled late n))"
proof -
  have "node_step n (snd (poll_lobby is_game_start polled (emit (Send_Lobby m) n)))"
    if "mk_message (GameStart (n_session_id n)) = Inr m" for m
    using that by (intro node_step_trans [OF _ step_poll_lobby]) (auto simp: mk_message_Inr farewell_def)
  then show ?thesis
    by (auto simp: broadcast_game_start_def Let_def split: sum.splits prod.splits lobby_outcome.splits
        intro: node_step_trans [OF _ step_adopt_rosters])
qed

lemma fold_preserves: "(\<And>x s. g (f x s) = g s) \<Longrightarrow> g (fold f xs s) = g s"
  by (induction xs arbitrary: s) simp_all

lemma spawn_keeps:
  "n_role (case p of (x, y) \<Rightarrow> on_engine (f x y) n) = n_role n"
  "n_out (case p of (x, y) \<Rightarrow> on_engine (f x y) n) = n_out n"
  "n_local_player_id (case p of (x, y) \<Rightarrow> on_engine (f x y) n) = n_local_player_id n"
  "n_join_index (case p of (x, y) \<Rightarrow> on_engine (f x y) n) = n_join_index n"
  "n_session_id (case p of (x, y) \<Rightarrow> on_engine (f x y) n) = n_session_id n"
  "n_roster (case p of (x, y) \<Rightarrow> on_engine (f x y) n) = n_roster n"
  "n_lifecycle (case p of (x, y) \<Rightarrow> on_engine (f x y) n) = n_lifecycle n"
  "n_local_ip (case p of (x, y) \<Rightarrow> on_engine (f x y) n) = n_local_ip n"
  by (simp_all add: on_engine_def split: prod.splits)

lemma world_keeps:
  "n_role (on_world g n) = n_role n"
  "n_out (on_world g n) = n_out n"
  "n_local_player_id (on_world g n) = n_local_player_id n"
  "n_join_index (on_world g n) = n_join_index n"
  "n_session_id (on_world g n) = n_session_id n"
  "n_roster (on_world g n) = n_roster n"
  "n_lifecycle (on_world g n) = n_lifecycle n"
  "n_local_ip (on_world g n) = n_local_ip n"
  by (simp_all add: on_world_def on_engine_def)

lemmas spawns_keep = fold_preserves [of n_role] fold_preserves [of n_out] fold_preserves [of n_local_player_id] fold_preserves [of n_join_index] fold_preserves [of n_session_id] fold_preserves [of n_roster] fold_preserves [of n_lifecycle] fold_preserves [of n_local_ip] spawn_keeps world_keeps

lemma enter_game_keeps:
  "n_role (enter_game now h n) = n_role n"
  "n_local_player_id (enter_game now h n) = n_local_player_id n"
  "n_join_index (enter_game now h n) = n_join_index n"
  "n_session_id (enter_game now h n) = n_session_id n"
  "n_roster (enter_game now h n) = n_roster n"
  "n_local_ip (enter_game now h n) = n_local_ip n"
  by (simp_all add: enter_game_def rebuild_world_from_roster_def init_shadow_copies_def Let_def
      spawns_keep emit_def split: list.splits)

lemma enter_game_out:
  "n_out (enter_game now h n) = n_out n \<or> (\<exists>a b c. n_out (enter_game now h n) = n_out n @ [Connect_Events a b c])"
  by (auto simp add: enter_game_def rebuild_world_from_roster_def init_shadow_copies_def Let_def
      spawns_keep emit_def split: list.splits)

lemma enter_game_lifecycle: "n_lifecycle (enter_game now h n) = move_to_game (n_lifecycle n)"
  by (simp add: enter_game_def rebuild_world_from_roster_def init_shadow_copies_def Let_def
      spawns_keep emit_def split: list.splits)

lemma step_enter_game: "node_step n (enter_game now h n)"
  using enter_game_out [of now h n] by (auto simp: node_step_def enter_game_keeps farewell_def)

lemma step_replay_game: "node_step n (replay_game now h n)"
proof -
  have "node_step n (on_engine reset_for_new_run n)"
    by (simp add: node_step_def on_engine_def)
  then show ?thesis
    unfolding replay_game_def by (rule node_step_trans [OF _ step_enter_game])
qed

lemmas phase_rules = phase_bind phase_attempt phase_notify phase_on_node step_poll_lobby
  step_wait_for_game_start step_wait_for_start_request step_broadcast_game_start

lemma phase_set_node: "node_step (rt_node rt) n \<Longrightarrow> phase_step rt (rt\<lparr>rt_node := n\<rparr>)"
  by (simp add: phase_step_def)

lemma phase_open_session: "phase_step rt (snd (open_session io rt))"
proof -
  have server: "\<not> farewell (if d then Start_Containers else Launch_Lobby p)" for d p
    by (simp add: farewell_def)
  have request: "create_session_request n = Inr m \<Longrightarrow> \<not> farewell (Send_Lobby m)" for n m
    by (auto simp: create_session_request_def mk_message_Inr farewell_def)
  have created: "node_step n (let n1 = adopt_session m n in
      if n_use_discovery n1 then emit (Announce (n_session_id n1) LOBBY_WS_PORT) n1 else n1)" for m n
    by (cases m) (simp_all add: adopt_session_def Let_def node_step_def emit_def farewell_def)
  show ?thesis
    unfolding open_session_def
    by (intro phase_rules phase_set_node [THEN phase_notify])
      (use server request created [unfolded Let_def] in
        \<open>auto simp: phase_step_def effect_of_def Let_def notify_lobby_update_def\<close>)
qed

lemma phase_done: "phase_step s0 s \<Longrightarrow> phase_step s0 (snd (Done x, s))"
  by simp

lemma phase_host_lobby: "phase_step rt (snd (host_lobby_phase io rt))"
proof -
  have "phase_step rt (snd (on_node (broadcast_game_start a b c)
      (effect_of (if d then Allow_Only ips else Launch_Broker) rt)))" for a b c d ips rt
    by (rule phase_step_trans [of rt "effect_of (if d then Allow_Only ips else Launch_Broker) rt"])
      (auto simp: farewell_def intro!: phase_rules)
  then show ?thesis
    unfolding host_lobby_phase_def Let_def
    by (intro phase_rules phase_open_session phase_done phase_step_refl)
qed

lemma phase_host_replay: "phase_step rt (snd (host_replay_wait io rt))"
  unfolding host_replay_wait_def by (intro phase_rules phase_done phase_step_refl)

lemma phase_find_lobby: "phase_step rt (snd (find_lobby io rt))"
proof -
  have "phase_step s (snd (case x of (host_ip, lobby_port) \<Rightarrow>
      (Done (), (effect_of (Connect_Lobby host_ip lobby_port) s)\<lparr>rt_lobby_host := host_ip\<rparr>)))" for x s
    by (cases x) (simp add: phase_step_def effect_of_def farewell_def)
  then show ?thesis
    unfolding find_lobby_def by (auto intro!: phase_rules phase_done phase_step_refl split: if_splits)
qed

lemma phase_request_slot: "phase_step rt (snd (request_slot io sid rt))"
proof -
  have socket: "phase_step s (bind_socket port s)" for port s
    by (simp add: phase_step_def bind_socket_def node_step_def emit_def farewell_def)
  have join: "send_session_join sid (rt_node s) = Inr n \<Longrightarrow> phase_step s (s\<lparr>rt_node := n\<rparr>)" for n s
    by (auto simp: send_session_join_def with_message_def mk_message_Inr phase_step_def farewell_def
        rbind_Inr_iff)
  show ?thesis
    unfolding request_slot_def
    by (intro phase_rules phase_find_lobby phase_step_refl socket) (auto intro: join)
qed

lemma phase_client_lobby: "phase_step rt (snd (client_lobby_phase io sid rt))"
proof -
  have slot: "node_step n (take_slot sid m n)" for m n
    by (cases m) (simp_all add: take_slot_def adopt_join_index_def node_step_def)
  show ?thesis
    unfolding client_lobby_phase_def
    by (intro phase_rules phase_done phase_step_refl phase_request_slot phase_set_node slot)
qed

lemma phase_client_replay: "phase_step rt (snd (client_replay_wait io rt))"
  unfolding client_replay_wait_def by (intro phase_rules phase_done phase_step_refl)

lemma phase_to_lobby: "phase_step rt (to_lobby rt)"
  by (simp add: phase_step_def to_lobby_def node_step_def)

lemma phase_begin_game:
  "(\<And>now h n. node_step n (enter now h n)) \<Longrightarrow> phase_step rt (snd (begin_game enter io rt))"
  by (simp add: begin_game_def Let_def phase_step_def notify_lobby_update_def)

lemma phase_lobby: "phase_step rt (snd (lobby_phase io sid rt))"
  unfolding lobby_phase_def
  by (intro phase_rules phase_to_lobby)
    (auto intro!: phase_host_lobby phase_client_lobby phase_begin_game step_enter_game)

lemma phase_replay: "phase_step rt (snd (replay_lobby_phase io rt))"
  unfolding replay_lobby_phase_def
  by (intro phase_rules phase_to_lobby)
    (auto intro!: phase_host_replay phase_client_replay phase_begin_game step_replay_game)

lemma phase_runner: "phase_step rt (snd (runner_phase role sid is_replay r rt))"
proof -
  have "phase_step s (snd (if c then attempt (rd_events r) (effect_of Open_Events s) else (Done (), s)))" for c s
    by (simp add: attempt_def farewell_def)
  then show ?thesis
    unfolding runner_phase_def by (auto intro!: phase_replay phase_bind [OF phase_lobby])
qed

subsection \<open>The end of a session\<close>

lemma teardown_out:
  "n_out (rt_node (teardown rt)) = n_out (rt_node rt)
     @ (if n_session_id (rt_node rt) = [] then []
        else [Send_Lobby (SessionLeave (n_session_id (rt_node rt)) (n_join_index (rt_node rt)))])
     @ [Close_Lobby, Close_Events, Close_Udp]
     @ (if n_role (rt_node rt) = HOST then [Stop_Containers] else [])"
  "rt_file (teardown rt) = No_File"
  "n_role (rt_node (teardown rt)) = n_role (rt_node rt)"
  by (simp_all add: teardown_def leave_lobby_def emit_def Let_def delete_session_metadata_def)

lemma effect_of_simps [simp]:
  "n_out (rt_node (effect_of x rt)) = n_out (rt_node rt) @ [x]"
  "rt_file (effect_of x rt) = rt_file rt"
  by (simp_all add: effect_of_def emit_def)

text \<open>Every way the runner ends a session goes through the teardown, after the steps of the phase.\<close>

lemma runner_ends:
  assumes "enter_and_transition role sid is_replay r rt = (res, rt')" and "res \<in> {Stopped, Return_To_Menu}"
  obtains rt1 ys where "snd (runner_phase role sid is_replay r rt) = rt1"
    and "n_out (rt_node rt') = n_out (rt_node (teardown rt1)) @ ys" and "\<forall>y \<in> set ys. \<exists>t. y = Show_Error t"
    and "rt_file rt' = No_File"
proof -
  obtain o1 rt1 where o: "runner_phase role sid is_replay r rt = (o1, rt1)" by fastforce
  have "\<exists>ys. n_out (rt_node rt') = n_out (rt_node (teardown rt1)) @ ys \<and> (\<forall>y \<in> set ys. \<exists>t. y = Show_Error t)
      \<and> rt_file rt' = No_File"
    using assms by (auto simp: enter_and_transition_def o teardown_out(2)
        split: lobby_outcome.splits lobby_error.splits if_splits)
  with o that show thesis by auto
qed

text \<open>C22: a session that ends before its game is tidied up whatever ended it: the metadata is gone, the
  connections are closed, and the containers are stopped by the host and by nobody else.\<close>

theorem ended_session_is_tidied:
  assumes "enter_and_transition role sid is_replay r rt = (res, rt')" and "res \<in> {Stopped, Return_To_Menu}"
  shows "rt_file rt' = No_File \<and> (\<exists>done_now. n_out (rt_node rt') = n_out (rt_node rt) @ done_now
    \<and> {Close_Lobby, Close_Events, Close_Udp} \<subseteq> set done_now
    \<and> (Stop_Containers \<in> set done_now \<longleftrightarrow> n_role (rt_node rt) = HOST))"
proof -
  obtain rt1 ys where rt1: "snd (runner_phase role sid is_replay r rt) = rt1"
      "n_out (rt_node rt') = n_out (rt_node (teardown rt1)) @ ys" "\<forall>y \<in> set ys. \<exists>t. y = Show_Error t"
      "rt_file rt' = No_File"
    using runner_ends [OF assms] by metis
  obtain xs where "n_role (rt_node rt1) = n_role (rt_node rt)" "n_out (rt_node rt1) = n_out (rt_node rt) @ xs"
      "\<forall>x \<in> set xs. \<not> farewell x"
    using phase_runner [of rt role sid is_replay r] rt1(1) by (auto simp: phase_step_def node_step_def)
  then show ?thesis
    using rt1(2-4) by (auto simp: teardown_out farewell_def)
qed

subsection \<open>Departures\<close>

definition same_session :: "runtime \<Rightarrow> runtime \<Rightarrow> bool" where
  "same_session rt rt' \<longleftrightarrow> n_session_id (rt_node rt') = n_session_id (rt_node rt)"

lemmas session_bind = lobby_bind_state [where P = same_session]

lemma same_session_request: "same_session rt (snd (request_slot io sid rt))"
  by (auto simp: request_slot_def find_lobby_def same_session_def lobby_bind_def notify_lobby_update_def
      attempt_def send_session_join_def with_message_def bind_socket_def effect_of_def emit_def rbind_Inr_iff
      split: lobby_outcome.splits sum.splits prod.splits)

lemma poll_lobby_result:
  "n_session_id (snd (poll_lobby expected msgs n)) = n_session_id n"
  "fst (poll_lobby expected msgs n) = Done m \<Longrightarrow> m \<in> set msgs \<and> expected m"
  by (induction msgs arbitrary: n) (auto simp: Let_def split: message.splits if_splits)

text \<open>Without an acknowledged slot the phase does not complete, and the node has no session to leave.\<close>

lemma unacknowledged:
  assumes "n_role (rt_node rt) = CLIENT" and "\<forall>m \<in> set (li_replies (rd_io r)). \<not> is_session_joined m"
  shows "same_session rt (snd (runner_phase role sid False r rt))"
    and "fst (runner_phase role sid False r rt) \<noteq> Done u"
proof -
  have client: "same_session rt (snd (client_lobby_phase (rd_io r) sid rt)) \<and>
      fst (client_lobby_phase (rd_io r) sid rt) \<noteq> Done v" for rt v
  proof -
    obtain o1 rt1 where o: "request_slot (rd_io r) sid rt = (o1, rt1)" by fastforce
    obtain o2 n2 where poll: "poll_lobby is_session_joined (li_replies (rd_io r)) (rt_node rt1) = (o2, n2)"
      by fastforce
    have no_slot: "\<forall>m. o2 \<noteq> Done m"
      using poll_lobby_result(2) [of is_session_joined "li_replies (rd_io r)" "rt_node rt1"] assms(2) poll by auto
    have "n_session_id n2 = n_session_id (rt_node rt1)"
      using poll_lobby_result(1) [of is_session_joined "li_replies (rd_io r)" "rt_node rt1"] poll by simp
    then show ?thesis
      using same_session_request [of rt "rd_io r" sid] o no_slot
      by (cases o1; cases o2) (simp_all add: client_lobby_phase_def same_session_def on_node_def poll)
  qed
  have lobby: "same_session rt (snd (lobby_phase (rd_io r) sid rt)) \<and>
      fst (lobby_phase (rd_io r) sid rt) \<noteq> Done v" for v
    using client [of "to_lobby rt"] assms(1)
    by (auto simp: lobby_phase_def notify_lobby_update_def same_session_def to_lobby_def lobby_bind_def
        split: prod.splits lobby_outcome.splits)
  show "same_session rt (snd (runner_phase role sid False r rt))"
    and "fst (runner_phase role sid False r rt) \<noteq> Done u"
    using lobby by (auto simp: runner_phase_def lobby_bind_def split: prod.splits lobby_outcome.splits)
qed

text \<open>A client the lobby never gave a slot never enters the game, and never sends the departure
  that would free somebody else's slot.\<close>

theorem refused_client_frees_no_slot:
  assumes "n_role (rt_node rt) = CLIENT" and "n_session_id (rt_node rt) = []"
    and "\<forall>m \<in> set (li_replies (rd_io r)). \<not> is_session_joined m"
    and "enter_and_transition role sid False r rt = (res, rt')"
  shows "res \<noteq> Entered \<and> (\<exists>xs. n_out (rt_node rt') = n_out (rt_node rt) @ xs
    \<and> (\<forall>s ji. Send_Lobby (SessionLeave s ji) \<notin> set xs))"
proof -
  note away = unacknowledged [OF assms(1,3), where role = role and sid = sid]
  obtain o1 rt1 where o: "runner_phase role sid False r rt = (o1, rt1)" by fastforce
  have sid: "n_session_id (rt_node rt1) = []"
    using away(1) assms(2) by (simp add: same_session_def o)
  have no_game: "o1 \<noteq> Done u" for u using away(2) by (simp add: o)
  then have entered: "res \<noteq> Entered"
    using assms(4) by (auto simp: enter_and_transition_def o split: lobby_outcome.splits lobby_error.splits if_splits)
  obtain xs where xs: "n_out (rt_node rt1) = n_out (rt_node rt) @ xs" "\<forall>x \<in> set xs. \<not> farewell x"
    using phase_runner [of rt role sid False r] by (auto simp: o phase_step_def node_step_def)
  show ?thesis
  proof (cases "res = Still_Waiting")
    case True
    then have "rt' = rt1"
      using assms(4) by (auto simp: enter_and_transition_def o split: lobby_outcome.splits lobby_error.splits if_splits)
    with xs entered show ?thesis by (auto simp: farewell_def)
  next
    case False
    then have "res \<in> {Stopped, Return_To_Menu}" using entered by (cases res) auto
    from runner_ends [OF assms(4) this] obtain ys where
      "n_out (rt_node rt') = n_out (rt_node (teardown rt1)) @ ys" "\<forall>y \<in> set ys. \<exists>t. y = Show_Error t"
      using o by (metis snd_conv)
    with xs sid entered show ?thesis by (auto simp: teardown_out farewell_def)
  qed
qed

subsection \<open>The metadata of a finished program\<close>

lemma run_rounds_file:
  "run_rounds role sid is_replay rs rt = (res, rt') \<Longrightarrow> res \<noteq> Cut_Off \<Longrightarrow> rt_file rt' = No_File"
proof (induction rs arbitrary: is_replay rt)
  case (Cons r rs)
  obtain e rt1 where e: "enter_and_transition role sid is_replay r rt = (e, rt1)" by fastforce
  have "e \<in> {Stopped, Return_To_Menu} \<Longrightarrow> rt_file rt1 = No_File"
    using runner_ends [OF e] by blast
  then show ?case
    using Cons e
    by (auto simp: Let_def quit_cleanly_def delete_session_metadata_def
        split: runner_result.splits prod.splits if_splits)
qed simp

text \<open>C23: metadata is left behind by a crash only: whenever a run of the program comes to its end, by a
  clean quit, a cancelled prompt, a refused or a closed lobby, the file is gone, so the next start does
  not try to recover a session that was left on purpose.\<close>

theorem only_a_crash_leaves_metadata:
  assumes "run_main local_ip fresh l f = Inr (res, rt)" and "res \<noteq> Cut_Off"
  shows "rt_file rt = No_File \<and> try_recover_session validate answer ip first frames (rt_file rt) = Inr (Not_Recovered, No_File)"
proof -
  obtain n where n: "prepare (la_role l) (la_host_ip l) local_ip (la_session_id l) f fresh = Inr n"
    using assms(1) by (auto simp: run_main_def rbind_Inr_iff)
  obtain joined where joined: "joined = (if la_role l = CLIENT \<and> la_session_id l = []
      then prompt_client_join (la_host_ip l = None) (la_session_answer l) (la_details_answer l)
      else Some (la_session_id l, None))"
    by blast
  have "rt_file rt = No_File"
  proof (cases joined)
    case None
    then show ?thesis
      using assms(1) by (auto simp: run_main_def n joined [symmetric] Let_def delete_session_metadata_def)
  next
    case (Some p)
    then obtain rt1 where "run_rounds (la_role l) (fst p) False (la_rounds l) rt1 = (res, rt)"
      using assms(1) by (cases p) (simp add: run_main_def n joined [symmetric] Let_def)
    with assms(2) show ?thesis by (rule run_rounds_file [rotated])
  qed
  then show ?thesis by (simp add: try_recover_session_def read_session_metadata_def)
qed

subsection \<open>Entering the game\<close>

lemma adopted_roster:
  obtains r where "(case m of Some (RosterUpdate r) \<Rightarrow> n\<lparr>n_roster := r\<rparr> | _ \<Rightarrow> n) = n\<lparr>n_roster := r\<rparr>"
proof (cases "\<exists>r. m = Some (RosterUpdate r)")
  case False
  then have "(case m of Some (RosterUpdate r) \<Rightarrow> n\<lparr>n_roster := r\<rparr> | _ \<Rightarrow> n) = n"
    by (auto split: option.split message.split)
  also have "n = n\<lparr>n_roster := n_roster n\<rparr>" by simp
  finally show thesis by (rule that)
qed (auto intro: that)

lemma wait_for_game_start_Done:
  "wait_for_game_start True polls n = (Done x, n') \<Longrightarrow>
     \<exists>gs r. Some (GameStart gs) \<in> fst ` set polls \<and> n' = n\<lparr>n_session_id := gs, n_roster := r\<rparr>"
proof (induction polls arbitrary: n)
  case (Cons p ps)
  obtain m c where p: "p = (m, c)" by (cases p)
  show ?case
  proof (cases "\<exists>gs. m = Some (GameStart gs)")
    case True
    then obtain gs where m: "m = Some (GameStart gs)" by blast
    have "n' = n\<lparr>n_session_id := gs, n_roster := n_roster n\<rparr>"
      using Cons.prems by (auto simp: p m Let_def split: if_splits)
    then show ?thesis by (intro exI [of _ gs] exI [of _ "n_roster n"]) (simp add: p m)
  next
    case False
    define n1 where "n1 = (case m of Some (RosterUpdate r) \<Rightarrow> n\<lparr>n_roster := r\<rparr> | _ \<Rightarrow> n)"
    have "fst (wait_for_game_start True (p # ps) n) = Failed Session_Closed \<or>
        wait_for_game_start True (p # ps) n
          = (if c then wait_for_game_start True ps n1 else (Failed Lobby_Cancelled, n1))"
    proof (cases m)
      case (Some m')
      with False show ?thesis by (cases m') (simp_all add: p n1_def)
    qed (simp add: p n1_def)
    then have go: "wait_for_game_start True ps n1 = (Done x, n')"
      using Cons.prems by (cases c) auto
    obtain r where "n1 = n\<lparr>n_roster := r\<rparr>"
      by (rule adopted_roster [of n m]) (simp add: n1_def)
    with go have "wait_for_game_start True ps (n\<lparr>n_roster := r\<rparr>) = (Done x, n')" by simp
    from Cons.IH [OF this] show ?thesis by auto
  qed
qed simp

lemma poll_lobby_Done:
  "poll_lobby expected msgs n = (Done m, n') \<Longrightarrow> m \<in> set msgs \<and> expected m \<and> (\<exists>r. n' = n\<lparr>n_roster := r\<rparr>)"
proof (induction msgs arbitrary: n)
  case (Cons m1 ms)
  define n1 where "n1 = (case m1 of RosterUpdate r \<Rightarrow> n\<lparr>n_roster := r\<rparr> | _ \<Rightarrow> n)"
  obtain r where n1: "n1 = n\<lparr>n_roster := r\<rparr>"
    by (rule adopted_roster [of n "Some m1"]) (simp add: n1_def)
  have "m = m1 \<and> expected m1 \<and> n' = n1 \<or> poll_lobby expected ms n1 = (Done m, n')"
    using Cons.prems by (cases m1) (simp_all add: n1_def Let_def split: if_splits)
  then show ?case
    using Cons.IH [of n1] by (elim disjE) (auto simp: n1)
qed simp

lemma client_polls_msgs [simp]: "fst ` set (client_polls ps) = fst ` set ps"
  by (force simp: client_polls_def)

lemma client_lobby_Done:
  assumes "client_lobby_phase io sid rt = (Done u, rt')"
  shows "\<exists>ji gs. SessionJoined ji \<in> set (li_replies io) \<and> Some (GameStart gs) \<in> fst ` set (li_polls io) \<and>
    n_join_index (rt_node rt') = ji \<and> n_local_player_id (rt_node rt') = player_id_for ji \<and>
    n_session_id (rt_node rt') = gs"
proof -
  obtain rt1 m rt2 rt3 x where rt1: "request_slot io sid rt = (Done (), rt1)"
      and m: "on_node (poll_lobby is_session_joined (li_replies io)) rt1 = (Done m, rt2)"
      and w: "on_node (wait_for_game_start True (client_polls (li_polls io)))
        (rt2\<lparr>rt_node := take_slot sid m (rt_node rt2)\<rparr>) = (Done x, rt')"
    using assms unfolding client_lobby_phase_def lobby_bind_Done notify_lobby_update_Done
    by (elim exE conjE) simp
  obtain n2 where m': "poll_lobby is_session_joined (li_replies io) (rt_node rt1) = (Done m, n2)"
    using m unfolding on_node_Done by blast
  obtain ji where ji: "m = SessionJoined ji" "SessionJoined ji \<in> set (li_replies io)"
    using poll_lobby_Done [OF m'] by (cases m) (simp_all add: is_session_joined_def)
  let ?n = "take_slot sid m (rt_node rt2)"
  have "wait_for_game_start True (client_polls (li_polls io)) ?n = (Done x, rt_node rt')"
    using w by (auto simp: on_node_Done)
  from wait_for_game_start_Done [OF this] obtain gs r where "Some (GameStart gs) \<in> fst ` set (li_polls io)"
      "rt_node rt' = ?n\<lparr>n_session_id := gs, n_roster := r\<rparr>"
    by auto
  with ji show ?thesis
    by (intro exI [of _ ji] exI [of _ gs]) (simp add: take_slot_def adopt_join_index_def)
qed

text \<open>A client that enters a game plays in the slot the lobby gave it, in the session whose start it
  was told, and the metadata it leaves for a later recovery can be read back and names that slot.\<close>

theorem client_plays_the_slot_it_was_given:
  assumes "n_role (rt_node rt) = CLIENT" and "lobby_phase io sid rt = (Done u, rt')"
    and "\<forall>ji. SessionJoined ji \<in> set (li_replies io) \<longrightarrow> 0 \<le> ji \<and> ji < MAX_PLAYERS"
  shows "\<exists>ji gs. SessionJoined ji \<in> set (li_replies io) \<and> Some (GameStart gs) \<in> fst ` set (li_polls io) \<and>
    lifecycle_state (n_lifecycle (rt_node rt')) = IN_GAME \<and>
    n_local_player_id (rt_node rt') = player_id_for ji \<and>
    read_session_metadata (rt_file rt') = Inr (Some (node_metadata (rt_node rt'))) \<and>
    md_session_id (node_metadata (rt_node rt')) = gs \<and> md_join_index (node_metadata (rt_node rt')) = Some ji"
proof -
  obtain rt1 where c: "client_lobby_phase io sid (to_lobby rt) = (Done (), rt1)"
      and rt': "begin_game enter_game io rt1 = (Done u, rt')"
    using assms(1,2) by (auto simp: lobby_phase_def lobby_bind_Done to_lobby_def split: if_splits)
  let ?n = "enter_game (li_now io) (rt_lobby_host rt1) (rt_node rt1)"
  have n: "rt_node rt' = ?n" "rt_file rt' = write_node_metadata ?n"
    using rt' by (auto simp: begin_game_def Let_def)
  obtain ji gs where ji: "SessionJoined ji \<in> set (li_replies io)" "Some (GameStart gs) \<in> fst ` set (li_polls io)"
      "n_join_index ?n = ji" "n_local_player_id ?n = player_id_for ji" "n_session_id ?n = gs"
    using client_lobby_Done [OF c] by (auto simp: enter_game_keeps)
  have "0 \<le> ji" "ji < MAX_PLAYERS"
    using assms(3) ji(1) by auto
  then have "read_session_metadata (write_node_metadata ?n) = Inr (Some (node_metadata ?n))"
    unfolding write_node_metadata_def
    by (intro read_written node_metadata_canonical) (use ji in auto)
  with ji n show ?thesis
    by (auto simp: enter_game_lifecycle move_to_game_def node_metadata_def)
qed

subsection \<open>Coming back\<close>

lemma bootstrap_keeps [simp]:
  "n_role (bootstrap role n) = role"
  "n_use_discovery (bootstrap role n) = n_use_discovery n"
  by (auto simp: bootstrap_def bootstrap_world_def configure_role_def on_engine_def Let_def
      split: option.splits prod.splits display.splits)

lemma prepared:
  assumes "prepare CLIENT (Some host) ip sid f fresh = Inr n" "sid \<noteq> []"
    and "read_session_metadata f = Inr (Some m)" "md_session_id m = sid" "md_join_index m = Some j"
  shows "n_role n = CLIENT" "\<not> n_use_discovery n" "n_local_ip n = ip"
    "n_rejoin_join_index n = Some j" "n_local_player_id n = md_local_player_id m"
  using assms(1)
  by (auto simp: prepare_def assms(2-5) claim_slot_def build_controller_def Let_def)

text \<open>Every answer of the screen and of the network is the good one, and the socket is bound to the port.\<close>

definition undisturbed :: "lobby_io \<Rightarrow> int \<Rightarrow> bool" where
  "undisturbed io port \<longleftrightarrow> li_entering io \<and> li_connecting io \<and> li_connected io = Inr () \<and>
     li_socket io = Inr port \<and> li_sent io = Inr () \<and> li_joined io \<and> li_starting io \<and>
     (\<forall>(m, c, q) \<in> set (li_polls io). c)"

definition messages_to :: "conn \<Rightarrow> (conn \<times> message) list \<Rightarrow> message list" where
  "messages_to c out = map snd (filter (\<lambda>p. fst p = c) out)"

lemma messages_to_simps [simp]:
  "messages_to c [] = []"
  "messages_to c ((d, m) # out) = (if d = c then m # messages_to c out else messages_to c out)"
  "messages_to c (out @ out') = messages_to c out @ messages_to c out'"
  by (simp_all add: messages_to_def)

lemma messages_to_others: "c \<notin> set cs \<Longrightarrow> messages_to c (map (\<lambda>x. (x, m)) cs) = []"
  by (induction cs) simp_all

lemma two_polls:
  assumes "map fst ps = [Some a, Some b]" "\<forall>(m, c, q) \<in> set ps. c"
  shows "client_polls ps = [(Some a, True), (Some b, True)]"
  using assms by (auto simp: client_polls_def)

lemma reentry:
  assumes "lobby_wf (registry st)" and "map_of (registry st) sid = Some s" and "session_active s"
    and "j \<in> reserved_join_indices s" and "c \<notin> set (connections s)"
    and "read_session_metadata f = Inr (Some m)" and "md_session_id m = sid" and "md_join_index m = Some j"
    and "sid \<noteq> []" and "ip \<noteq> []" and "port_ok port" and "undisturbed io port"
    and "prepare CLIENT (Some host) ip sid f fresh = Inr n"
    and "rt = point_client_at (Some host) \<lparr>rt_node = n, rt_file = f, rt_lobby_host = DEFAULT_HOST\<rparr>"
    and "request = SessionJoin sid (player_id_for j) ip port (Some j)"
    and "handle_message c fr request st = (st', err)"
    and "messages_to c (drop (length (sent st)) (sent st')) = first # others"
    and "li_replies io = [first]" and "map fst (li_polls io) = map Some others"
  shows "\<exists>rt'. lobby_phase io sid rt = (Done (), rt') \<and> Send_Lobby request \<in> set (n_out (rt_node rt')) \<and>
    n_join_index (rt_node rt') = j \<and> n_local_player_id (rt_node rt') = player_id_for j \<and>
    n_session_id (rt_node rt') = sid \<and> lifecycle_state (n_lifecycle (rt_node rt')) = IN_GAME \<and>
    j \<in> entry_join_index ` set (n_roster (rt_node rt'))"
proof -
  have owner: "0 \<le> j" "j < MAX_PLAYERS" "md_local_player_id m = player_id_for j"
    using read_identifies_owner [OF assms(6)] assms(8) by auto
  have valid: "valid_message request"
    using assms(9-11) owner by (simp add: assms(15) valid_SessionJoin)
  from reclaim_slot [OF assms(1,2) valid [unfolded assms(15)] assms(4), of c fr] obtain s' st1 where st1:
      "handle_message c fr (SessionJoin sid (player_id_for j) ip port (Some j)) st = (st1, None)"
      "map_of (registry st1) sid = Some s'" "session_id st1 = Some sid"
      "entries s' = entries s @ [new_slot j ip port False]"
      "reserved_join_indices s' = reserved_join_indices s - {j}"
      "sent st1 = sent st @ [(c, SessionJoined j)]
        @ map (\<lambda>x. (x, RosterUpdate (map slot_roster_entry (entries s')))) (connections s @ [c])
        @ (if session_active s then [(c, GameStart sid)] else [])"
    by (elim exE conjE)
  let ?r = "map slot_roster_entry (entries s')"
  have inbox: "first = SessionJoined j" "others = [RosterUpdate ?r, GameStart sid]"
    using assms(3,16,17) st1(1) messages_to_others [OF assms(5)] by (simp_all add: assms(15) st1(6))
  have polls: "client_polls (li_polls io) = [(Some (RosterUpdate ?r), True), (Some (GameStart sid), True)]"
    by (rule two_polls) (use assms(12,19) inbox in \<open>auto simp: undisturbed_def\<close>)
  note n = prepared [OF assms(13,9,6,7,8)]
  obtain rt1 where join: "request_slot io sid (to_lobby rt) = (Done (), rt1)"
      and rt1: "Send_Lobby request \<in> set (n_out (rt_node rt1))"
    using assms(12) valid n owner
    by (simp add: request_slot_def undisturbed_def find_lobby_def bind_socket_def to_lobby_def assms(14,15)
        point_client_at_def send_session_join_def emit_def Let_def)
  define n2 where "n2 = (take_slot sid (SessionJoined j) (rt_node rt1))\<lparr>n_roster := ?r, n_session_id := sid\<rparr>"
  have "client_lobby_phase io sid (to_lobby rt) = (Done (), rt1\<lparr>rt_node := n2\<rparr>)"
    using assms(12)
    by (simp add: client_lobby_phase_def join on_node_def assms(18) inbox is_session_joined_def polls
        undisturbed_def n2_def Let_def)
  moreover have "n_role (rt_node rt) \<noteq> HOST"
    using n(1) by (simp add: assms(14) point_client_at_def emit_def Let_def)
  moreover obtain rt' where rt': "begin_game enter_game io (rt1\<lparr>rt_node := n2\<rparr>) = (Done (), rt')"
      "rt_node rt' = enter_game (li_now io) (rt_lobby_host rt1) n2"
    using assms(12) by (simp add: begin_game_def undisturbed_def Let_def)
  ultimately have "lobby_phase io sid rt = (Done (), rt')"
    using assms(12)
    by (simp add: lobby_phase_def undisturbed_def notify_lobby_update_def) (simp add: to_lobby_def)
  moreover have "Send_Lobby request \<in> set (n_out n2)"
    using rt1 by (simp add: n2_def take_slot_def adopt_join_index_def)
  moreover have "j \<in> entry_join_index ` set ?r"
    by (simp add: st1(4) slot_roster_entry_def new_slot_def)
  ultimately show ?thesis
    using enter_game_out [of "li_now io" "rt_lobby_host rt1" n2]
    by (intro exI [of _ rt'])
      (auto simp: rt'(2) enter_game_keeps enter_game_lifecycle move_to_game_def n2_def take_slot_def
        adopt_join_index_def)
qed

text \<open>C6: a client that crashed comes back into its running game: started again, it asks for the slot of
  its metadata, the lobby that still reserves the slot accepts the request, and the lobby's answers take
  the client through its lobby phase into the game, as the player it was.\<close>

theorem recovered_client_reenters_its_game:
  assumes "lobby_wf (registry st)" and "map_of (registry st) sid = Some s" and "session_active s"
    and "j \<in> reserved_join_indices s" and "c \<notin> set (connections s)"
    and "read_session_metadata f = Inr (Some m)" and "md_session_id m = sid" and "md_join_index m = Some j"
    and "sid \<noteq> []" and "ip \<noteq> []" and "port_ok port" and "undisturbed io port"
    and "prepare CLIENT (Some host) ip sid f fresh = Inr n"
    and "rt = point_client_at (Some host) \<lparr>rt_node = n, rt_file = f, rt_lobby_host = DEFAULT_HOST\<rparr>"
    and "request = SessionJoin sid (player_id_for j) ip port (Some j)"
    and "handle_message c fr request st = (st', err)"
    and "messages_to c (drop (length (sent st)) (sent st')) = first # others"
    and "li_replies io = [first]" and "map fst (li_polls io) = map Some others"
  shows "\<exists>rt'. lobby_phase io sid rt = (Done (), rt') \<and> Send_Lobby request \<in> set (n_out (rt_node rt')) \<and>
    n_join_index (rt_node rt') = j \<and> n_local_player_id (rt_node rt') = player_id_for j \<and>
    n_session_id (rt_node rt') = sid \<and> lifecycle_state (n_lifecycle (rt_node rt')) = IN_GAME \<and>
    j \<in> entry_join_index ` set (n_roster (rt_node rt'))"
  by (rule reentry [OF assms])

subsection \<open>Examples\<close>

definition example_io :: lobby_io where
  "example_io = \<lparr>li_entering = True, li_creating = True, li_server = Inr (), li_discovered = Inr (''10.0.0.1'', 50001),
     li_socket = Inr 50010, li_connecting = True, li_connected = Inr (), li_sent = Inr (),
     li_replies = [SessionJoined 1], li_joined = True,
     li_polls = [(Some (RosterUpdate [slot_roster_entry (new_slot 1 ''10.0.0.2'' 50010 False)]), True, False),
       (Some (GameStart ''s1''), True, False)],
     li_broadcasting = True, li_echo = [], li_late = [], li_now = 0, li_starting = True\<rparr>"

definition example_session :: session_record where
  "example_session = \<lparr>entries = [], connections = [], session_active = True,
     next_join_index = 2, reserved_join_indices = {1}\<rparr>"

definition restart_lobby :: endpoint where
  "restart_lobby = \<lparr>registry = [(''s1'', example_session)], session_id = None, sent = []\<rparr>"

definition restart_request :: message where
  "restart_request = SessionJoin ''s1'' (player_id_for 1) ''10.0.0.2'' 50010 (Some 1)"

definition example_round :: "lobby_io \<Rightarrow> round" where
  "example_round io = \<lparr>rd_io = io, rd_events = Inr (), rd_transition = True, rd_leave_requested = True,
     rd_closed = False, rd_game = (\<lambda>n. (n, False))\<rparr>"

definition example_restart :: runtime where
  "example_restart = point_client_at (Some ''10.0.0.1'')
     \<lparr>rt_node = (claim_slot example_metadata (build_controller CLIENT False example_peer))\<lparr>n_local_ip := ''10.0.0.2''\<rparr>,
      rt_file = write_session_metadata example_metadata, rt_lobby_host = DEFAULT_HOST\<rparr>"

lemma example_prepared:
  "prepare CLIENT (Some ''10.0.0.1'') ''10.0.0.2'' ''s1'' (write_session_metadata example_metadata) example_peer
    = Inr ((claim_slot example_metadata (build_controller CLIENT False example_peer))\<lparr>n_local_ip := ''10.0.0.2''\<rparr>)"
  by (simp add: prepare_def read_written [OF example_metadata_canonical]) (simp add: example_metadata_def)

lemma restart_lobby_facts:
  "lobby_wf (registry restart_lobby)" "map_of (registry restart_lobby) ''s1'' = Some example_session"
  "session_active example_session" "1 \<in> reserved_join_indices example_session"
  "7 \<notin> set (connections example_session)"
  by (simp_all add: restart_lobby_def example_session_def lobby_wf_def session_wf_def MAX_PLAYERS_def)

lemma example_metadata_facts:
  "md_session_id example_metadata = ''s1''" "md_join_index example_metadata = Some 1"
  by (simp_all add: example_metadata_def)

lemma example_handled:
  obtains st' where "handle_message 7 ''f'' restart_request restart_lobby = (st', None)"
    and "messages_to 7 (drop (length (sent restart_lobby)) (sent st')) = SessionJoined 1 #
      [RosterUpdate [slot_roster_entry (new_slot 1 ''10.0.0.2'' 50010 False)], GameStart ''s1'']"
proof -
  have "valid_message (SessionJoin ''s1'' (player_id_for 1) ''10.0.0.2'' 50010 (Some 1))"
    by (simp add: valid_SessionJoin port_ok_def MAX_PLAYERS_def)
  from reclaim_slot [OF restart_lobby_facts(1,2) this restart_lobby_facts(4), of 7 "''f''"] that
  show thesis
    by (auto simp: restart_request_def example_session_def restart_lobby_def)
qed

lemma example_io_facts:
  "undisturbed example_io 50010" "li_replies example_io = [SessionJoined 1]"
  "map fst (li_polls example_io) = map Some
     [RosterUpdate [slot_roster_entry (new_slot 1 ''10.0.0.2'' 50010 False)], GameStart ''s1'']"
  "port_ok 50010" "''s1'' \<noteq> []" "''10.0.0.2'' \<noteq> []"
  by (simp_all add: example_io_def undisturbed_def port_ok_def)

lemmas example_facts = restart_lobby_facts read_written [OF example_metadata_canonical] example_metadata_facts
  example_io_facts(5,6,4,1) example_prepared example_restart_def restart_request_def

lemma recovered_client_reenters_its_game_witness:
  "\<exists>rt'. lobby_phase example_io ''s1'' example_restart = (Done (), rt') \<and>
     Send_Lobby restart_request \<in> set (n_out (rt_node rt')) \<and>
     n_join_index (rt_node rt') = 1 \<and> n_local_player_id (rt_node rt') = player_id_for 1 \<and>
     n_session_id (rt_node rt') = ''s1'' \<and> lifecycle_state (n_lifecycle (rt_node rt')) = IN_GAME \<and>
     1 \<in> entry_join_index ` set (n_roster (rt_node rt'))"
proof -
  obtain st' where st': "handle_message 7 ''f'' restart_request restart_lobby = (st', None)"
      "messages_to 7 (drop (length (sent restart_lobby)) (sent st')) = SessionJoined 1 #
      [RosterUpdate [slot_roster_entry (new_slot 1 ''10.0.0.2'' 50010 False)], GameStart ''s1'']"
    by (rule example_handled)
  show ?thesis
    by (rule recovered_client_reenters_its_game [OF example_facts st' example_io_facts(2,3)])
qed

lemma example_phase:
  obtains rt' where "lobby_phase example_io ''s1'' example_restart = (Done (), rt')"
    and "n_join_index (rt_node rt') = 1"
proof -
  obtain st' where st': "handle_message 7 ''f'' restart_request restart_lobby = (st', None)"
      "messages_to 7 (drop (length (sent restart_lobby)) (sent st')) = SessionJoined 1 #
      [RosterUpdate [slot_roster_entry (new_slot 1 ''10.0.0.2'' 50010 False)], GameStart ''s1'']"
    by (rule example_handled)
  show thesis
    using reentry [OF example_facts st' example_io_facts(2,3)] that by blast
qed

lemma restart_client: "n_role (rt_node example_restart) = CLIENT"
  by (simp add: example_restart_def point_client_at_def claim_slot_def build_controller_def emit_def
      Let_def example_metadata_def)

lemma client_plays_the_slot_it_was_given_witness:
  "\<exists>rt'. lobby_phase example_io ''s1'' example_restart = (Done (), rt') \<and>
     lifecycle_state (n_lifecycle (rt_node rt')) = IN_GAME \<and> n_local_player_id (rt_node rt') = player_id_for 1 \<and>
     read_session_metadata (rt_file rt') = Inr (Some (node_metadata (rt_node rt')))"
proof -
  obtain rt' where rt': "lobby_phase example_io ''s1'' example_restart = (Done (), rt')" by (rule example_phase)
  have "\<forall>ji. SessionJoined ji \<in> set (li_replies example_io) \<longrightarrow> 0 \<le> ji \<and> ji < MAX_PLAYERS"
    by (simp add: example_io_def MAX_PLAYERS_def)
  from client_plays_the_slot_it_was_given [OF restart_client rt' this] rt' show ?thesis
    by (auto simp: example_io_def)
qed

text \<open>The screen is closed at once, and the lobby refuses the join.\<close>

lemma ended_session_is_tidied_witness:
  "\<exists>rt'. enter_and_transition CLIENT ''s1'' False (example_round (example_io\<lparr>li_entering := False\<rparr>)) example_restart
      = (Return_To_Menu, rt') \<and> rt_file rt' = No_File"
proof -
  obtain rt' where rt': "enter_and_transition CLIENT ''s1'' False
      (example_round (example_io\<lparr>li_entering := False\<rparr>)) example_restart = (Return_To_Menu, rt')"
    by (simp add: enter_and_transition_def runner_phase_def lobby_phase_def example_round_def example_io_def
        notify_lobby_update_def)
  from ended_session_is_tidied [OF this] rt' show ?thesis by simp
qed

lemma refused_client_frees_no_slot_witness:
  "\<exists>res rt'. enter_and_transition CLIENT ''s1'' False
      (example_round (example_io\<lparr>li_replies := [SessionJoinRejected ''s1'' ''full'']\<rparr>))
      (example_restart\<lparr>rt_node := (rt_node example_restart)\<lparr>n_session_id := []\<rparr>\<rparr>) = (res, rt') \<and> res \<noteq> Entered"
proof -
  obtain res rt' where rt': "enter_and_transition CLIENT ''s1'' False
      (example_round (example_io\<lparr>li_replies := [SessionJoinRejected ''s1'' ''full'']\<rparr>))
      (example_restart\<lparr>rt_node := (rt_node example_restart)\<lparr>n_session_id := []\<rparr>\<rparr>) = (res, rt')"
    by fastforce
  have "res \<noteq> Entered"
    using refused_client_frees_no_slot [OF _ _ _ rt'] restart_client
    by (simp add: example_round_def is_session_joined_def)
  with rt' show ?thesis by blast
qed

lemma only_a_crash_leaves_metadata_witness:
  "\<exists>rt. run_main ''10.0.0.2'' example_peer
      \<lparr>la_role = CLIENT, la_host_ip = Some ''10.0.0.1'', la_session_id = ''s1'', la_session_answer = None,
       la_details_answer = None, la_rounds = [example_round (example_io\<lparr>li_entering := False\<rparr>)]\<rparr>
      (write_session_metadata example_metadata) = Inr (Back_To_Menu, rt) \<and> rt_file rt = No_File"
proof -
  obtain rt where rt: "run_main ''10.0.0.2'' example_peer
      \<lparr>la_role = CLIENT, la_host_ip = Some ''10.0.0.1'', la_session_id = ''s1'', la_session_answer = None,
       la_details_answer = None, la_rounds = [example_round (example_io\<lparr>li_entering := False\<rparr>)]\<rparr>
      (write_session_metadata example_metadata) = Inr (Back_To_Menu, rt)"
    by (simp add: run_main_def example_prepared enter_and_transition_def runner_phase_def lobby_phase_def
        example_round_def example_io_def notify_lobby_update_def Let_def)
  from only_a_crash_leaves_metadata [OF this] rt show ?thesis by simp
qed

text \<open>A client that quits its game cleanly stops the containers, which other nodes of the same machine
  may still use and which the teardown of a client leaves alone: the clean quit does not look at the
  role.\<close>

theorem clean_quit_of_a_client_stops_the_containers:
  assumes "enter_and_transition CLIENT sid False r rt = (Entered, rt1)" and "rd_game r (rt_node rt1) = (n, False)"
    and "n_role n = CLIENT"
  shows "\<exists>rt'. run_rounds CLIENT sid False (r # rs) rt = (Ended, rt') \<and>
    n_out (rt_node rt') = n_out n @ [Stop_Containers] \<and>
    (\<exists>xs. n_out (rt_node (teardown (rt1\<lparr>rt_node := n\<rparr>))) = n_out n @ xs \<and> Stop_Containers \<notin> set xs)"
  using assms by (simp add: quit_cleanly_def teardown_out)

lemma clean_quit_of_a_client_stops_the_containers_witness:
  "\<exists>rt'. run_rounds CLIENT ''s1'' False [example_round example_io] example_restart = (Ended, rt') \<and>
     last (n_out (rt_node rt')) = Stop_Containers"
proof -
  obtain rt1 where rt1: "lobby_phase example_io ''s1'' example_restart = (Done (), rt1)" by (rule example_phase)
  have e: "enter_and_transition CLIENT ''s1'' False (example_round example_io) example_restart
      = (Entered, effect_of Open_Events rt1)"
    by (simp add: enter_and_transition_def runner_phase_def rt1 example_round_def)
  have "n_role (rt_node (effect_of Open_Events rt1)) = CLIENT"
    using phase_lobby [of example_restart example_io "''s1''"] restart_client
    by (simp add: rt1 phase_step_def node_step_def effect_of_def emit_def)
  moreover have "rd_game (example_round example_io) n = (n, False)" for n
    by (simp add: example_round_def)
  ultimately show ?thesis
    using clean_quit_of_a_client_stops_the_containers [OF e, of _ "[]"] by auto
qed

end
