(* ===== verification/Render_Frame.thy ===== *)
theory Render_Frame
  imports Engine
begin

text \<open>
  What the presentation is given and where it looks: the render DTOs and \<^verbatim>\<open>build_render_frame\<close>
  (\<^verbatim>\<open>application/dto.py\<close>), the camera (\<^verbatim>\<open>presentation/renderer/camera.py\<close>), the keyboard
  (\<^verbatim>\<open>presentation/input_handler.py\<close>) and the game loop of \<^verbatim>\<open>presentation/app.py\<close>.
  The wall clock, the pressed keys and the window events are arguments.
\<close>

subsection \<open>Frames\<close>

record render_character = body +
  rc_player_id :: ident
  rc_vx :: flt
  rc_vy :: flt
  rc_on_ground :: bool
  rc_is_crouching :: bool
  rc_join_index :: int
  rc_powerup_effect_active :: bool

record render_block = body +
  rb_destroyed :: bool

record render_powerup = body +
  ru_powerup_id :: ident
  ru_collected :: bool

record render_gate = body +
  rg_gate_id :: ident
  rg_state :: string
  rg_is_final :: bool

record render_enemy = body +
  re_enemy_id :: ident
  re_enemy_type :: string

type_synonym render_platform = body

record render_decoration = body +
  rd_kind :: string

record render_frame =
  fr_sequence_number :: int
  fr_characters :: "render_character dict"
  fr_respawning :: "ident set"
  fr_platforms :: "render_platform list"
  fr_decorations :: "render_decoration list"
  fr_blocks :: "render_block list"
  fr_power_ups :: "render_powerup dict"
  fr_gates :: "render_gate dict"
  fr_enemies :: "render_enemy dict"
  fr_coins_collected :: int
  fr_coins_to_win :: int
  fr_blocks_destroyed :: int
  fr_blocks_to_win :: int
  fr_enemies_defeated :: int
  fr_enemies_to_win :: int
  fr_victory :: bool
  fr_focus_player_id :: "ident option"
  fr_world_width :: int
  fr_world_height :: int

definition render_character_of :: "flt \<Rightarrow> player \<Rightarrow> render_character" where
  "render_character_of now p =
     \<lparr>pos_x = pos_x p, pos_y = pos_y p, width = width p, height = height p,
      rc_player_id = player_id p, rc_vx = vx p, rc_vy = vy p, rc_on_ground = on_ground p,
      rc_is_crouching = is_crouching p, rc_join_index = join_index p,
      rc_powerup_effect_active =
        (case powerup_effect_expires_at p of None \<Rightarrow> False | Some t \<Rightarrow> t > now)\<rparr>"

definition render_platform_of :: "platform \<Rightarrow> render_platform" where
  "render_platform_of p =
     \<lparr>pos_x = pos_x p, pos_y = pos_y p, width = width p, height = height p\<rparr>"

definition render_decoration_of :: "decoration \<Rightarrow> render_decoration" where
  "render_decoration_of d =
     \<lparr>pos_x = pos_x d, pos_y = pos_y d, width = width d, height = height d,
      rd_kind = decoration_kind d\<rparr>"

definition render_block_of :: "block \<Rightarrow> render_block" where
  "render_block_of b =
     \<lparr>pos_x = pos_x b, pos_y = pos_y b, width = width b, height = height b,
      rb_destroyed = destroyed b\<rparr>"

definition render_powerup_of :: "powerup \<Rightarrow> render_powerup" where
  "render_powerup_of u =
     \<lparr>pos_x = pos_x u, pos_y = pos_y u, width = width u, height = height u,
      ru_powerup_id = powerup_id u, ru_collected = collected u\<rparr>"

definition render_gate_of :: "gate \<Rightarrow> render_gate" where
  "render_gate_of g =
     \<lparr>pos_x = pos_x g, pos_y = pos_y g, width = width g, height = height g,
      rg_gate_id = gate_id g, rg_state = gate_state g, rg_is_final = is_final g\<rparr>"

definition render_enemy_of :: "enemy \<Rightarrow> render_enemy" where
  "render_enemy_of e =
     \<lparr>pos_x = pos_x e, pos_y = pos_y e, width = width e, height = height e,
      re_enemy_id = enemy_id e, re_enemy_type = enemy_type_value (enemy_type e)\<rparr>"

definition build_render_frame ::
    "flt \<Rightarrow> world_state \<Rightarrow> platform list \<Rightarrow> decoration list \<Rightarrow> ident option \<Rightarrow> int \<Rightarrow> int \<Rightarrow> render_frame" where
  "build_render_frame now w ps ds focus ww wh =
     \<lparr>fr_sequence_number = sequence_number w,
      fr_characters = map_vals (render_character_of now) (characters w),
      fr_respawning = fst ` set (respawn_timers w),
      fr_platforms = map render_platform_of ps,
      fr_decorations = map render_decoration_of ds,
      fr_blocks = map render_block_of (destructible_blocks (environment w)),
      fr_power_ups = map_vals render_powerup_of (power_ups (environment w)),
      fr_gates = map_vals render_gate_of (cooperative_gates (environment w)),
      fr_enemies = map_vals render_enemy_of (enemies (environment w)),
      fr_coins_collected = coins_collected w, fr_coins_to_win = coins_to_win w,
      fr_blocks_destroyed = blocks_destroyed w, fr_blocks_to_win = blocks_to_win w,
      fr_enemies_defeated = enemies_defeated w, fr_enemies_to_win = enemies_to_win w,
      fr_victory = victory w, fr_focus_player_id = focus,
      fr_world_width = ww, fr_world_height = wh\<rparr>"

subsection \<open>The camera\<close>

text \<open>\<^verbatim>\<open>round\<close> of Python: to the nearest integer, ties to the even one.\<close>

definition py_round :: "flt \<Rightarrow> int" where
  "py_round x =
     (let f = \<lfloor>x\<rfloor>; d = x - of_int f in
      if d < 1 / 2 then f else if d > 1 / 2 then f + 1 else if even f then f else f + 1)"

text \<open>A \<^verbatim>\<open>pygame.Rect\<close> has integer coordinates; numbers given to it are truncated.\<close>

record rect =
  rect_x :: int
  rect_y :: int
  rect_w :: int
  rect_h :: int

definition rect_of :: "'a body_scheme \<Rightarrow> rect" where
  "rect_of b = \<lparr>rect_x = py_int (pos_x b), rect_y = py_int (pos_y b),
     rect_w = py_int (width b), rect_h = py_int (height b)\<rparr>"

abbreviation rect_right :: "rect \<Rightarrow> int" where "rect_right r \<equiv> rect_x r + rect_w r"
abbreviation rect_bottom :: "rect \<Rightarrow> int" where "rect_bottom r \<equiv> rect_y r + rect_h r"

text \<open>One turn of the loops of \<^verbatim>\<open>world_bounds\<close>: grow the bounds to the far corner of a body.\<close>

definition grow_bounds :: "'a body_scheme \<Rightarrow> int \<times> int \<Rightarrow> int \<times> int" where
  "grow_bounds b m = (max (fst m) (py_int (pos_x b + width b)), max (snd m) (py_int (pos_y b + height b)))"

definition world_bounds :: "int \<Rightarrow> int \<Rightarrow> render_frame \<Rightarrow> rect list \<Rightarrow> int \<times> int" where
  "world_bounds win_w win_h f rects =
     (if fr_world_width f \<noteq> 0 \<and> fr_world_height f \<noteq> 0
      then (max win_w (fr_world_width f), max win_h (fr_world_height f))
      else
        let m0 = (win_w, win_h);
            m1 = fold (\<lambda>r m. (max (fst m) (rect_right r), max (snd m) (rect_bottom r))) rects m0;
            m2 = fold grow_bounds (map snd (fr_characters f)) m1;
            m3 = fold grow_bounds (fr_blocks f) m2;
            m4 = fold grow_bounds (map snd (fr_power_ups f)) m3;
            m5 = fold grow_bounds (map snd (fr_gates f)) m4
        in fold grow_bounds (map snd (fr_enemies f)) m5)"

text \<open>One axis of the offset: centre the target, but stay inside the world.\<close>

definition axis_offset :: "flt \<Rightarrow> int \<Rightarrow> int \<Rightarrow> int" where
  "axis_offset centre window extent =
     (let target = centre - of_int window / 2;
          limit = max 0 (extent - window)
      in py_round (max 0 (min target (of_int limit))))"

definition camera_offset :: "int \<Rightarrow> int \<Rightarrow> int \<times> int \<Rightarrow> render_frame \<Rightarrow> rect list \<Rightarrow> int \<times> int" where
  "camera_offset win_w win_h last_offset f rects =
     (case fr_focus_player_id f of
        None \<Rightarrow> (0, 0)
      | Some pid \<Rightarrow>
          (case map_of (fr_characters f) pid of
             None \<Rightarrow> last_offset
           | Some focus \<Rightarrow>
               let (ww, wh) = world_bounds win_w win_h f rects
               in (axis_offset (pos_x focus + width focus / 2) win_w ww,
                   axis_offset (pos_y focus + height focus / 2) win_h wh)))"

lemma py_round_near: "\<bar>of_int (py_round x) - x\<bar> \<le> 1 / 2"
proof -
  have "of_int \<lfloor>x\<rfloor> \<le> x" "x < of_int \<lfloor>x\<rfloor> + 1"
    using floor_correct [of x] by simp_all
  then show ?thesis
    by (auto simp: py_round_def Let_def abs_le_iff)
qed

lemma py_round_between:
  assumes "of_int a \<le> x" "x \<le> of_int b"
  shows "a \<le> py_round x \<and> py_round x \<le> b"
proof -
  have "of_int a - 1 / 2 \<le> (of_int (py_round x) :: flt)" "of_int (py_round x) \<le> (of_int b + 1 / 2 :: flt)"
    using py_round_near [of x] assms by linarith+
  then have "of_int a < (of_int (py_round x + 1) :: flt)" "of_int (py_round x) < (of_int (b + 1) :: flt)"
    by simp_all
  then show ?thesis
    by (simp_all only: of_int_less_iff) simp
qed

lemma axis_offset_bounds:
  assumes "window \<le> extent"
  shows "0 \<le> axis_offset centre window extent \<and> axis_offset centre window extent \<le> extent - window"
  unfolding axis_offset_def Let_def
  by (rule py_round_between) (use assms in auto)

lemma axis_offset_shows_centre:
  assumes "1 \<le> window" "window \<le> extent" "0 \<le> centre" "centre \<le> of_int extent"
  shows "0 \<le> centre - of_int (axis_offset centre window extent)
    \<and> centre - of_int (axis_offset centre window extent) \<le> of_int window"
proof -
  let ?t = "centre - of_int window / 2" and ?l = "of_int (extent - window) :: flt"
  have l: "max 0 (extent - window) = extent - window" "0 \<le> ?l" using assms(2) by simp_all
  have o: "\<bar>of_int (axis_offset centre window extent) - max 0 (min ?t ?l)\<bar> \<le> 1 / 2"
    unfolding axis_offset_def Let_def l(1) by (rule py_round_near)
  have w: "1 \<le> (of_int window :: flt)" using assms(1) by simp
  consider "?t \<le> 0" | "0 \<le> ?t" "?t \<le> ?l" | "?l \<le> ?t" using l(2) by linarith
  then show ?thesis
  proof cases
    case 1
    then have "axis_offset centre window extent = 0"
      using l by (simp add: axis_offset_def Let_def py_round_def max_def min_def)
    then show ?thesis using 1 assms(3) w by simp
  next
    case 2
    then have "\<bar>of_int (axis_offset centre window extent) - ?t\<bar> \<le> 1 / 2"
      using o by (simp add: min_def max_def)
    then show ?thesis using w unfolding abs_le_iff by linarith
  next
    case 3
    then have "axis_offset centre window extent = extent - window"
      using l by (simp add: axis_offset_def Let_def py_round_def max_def min_def)
    then show ?thesis using 3 assms w by simp
  qed
qed

lemma fold_grows:
  fixes m :: "int \<times> int"
  assumes "\<And>x m. fst m \<le> fst (g x m) \<and> snd m \<le> snd (g x m)"
  shows "fst m \<le> fst (fold g xs m) \<and> snd m \<le> snd (fold g xs m)"
proof (induction xs arbitrary: m)
  case (Cons x xs)
  have "fst (g x m) \<le> fst (fold g xs (g x m)) \<and> snd (g x m) \<le> snd (fold g xs (g x m))"
    by (rule Cons.IH)
  then show ?case using assms [of m x] by (auto intro: order_trans)
qed simp

lemma world_bounds_cover:
  "win_w \<le> fst (world_bounds win_w win_h f rects) \<and> win_h \<le> snd (world_bounds win_w win_h f rects)"
proof -
  have grow: "fst m \<le> fst (grow_bounds b m) \<and> snd m \<le> snd (grow_bounds b m)"
    for b :: "'a body_scheme" and m
    by (simp add: grow_bounds_def)
  have grows: "fst m \<le> fst (fold grow_bounds bs m) \<and> snd m \<le> snd (fold grow_bounds bs m)"
    for bs :: "'a body_scheme list" and m
    by (rule fold_grows) (rule grow)
  have rects: "fst m \<le> fst (fold (\<lambda>r m. (max (fst m) (rect_right r), max (snd m) (rect_bottom r))) rects m)
    \<and> snd m \<le> snd (fold (\<lambda>r m. (max (fst m) (rect_right r), max (snd m) (rect_bottom r))) rects m)" for m
    by (rule fold_grows) simp
  show ?thesis
  proof (cases "fr_world_width f \<noteq> 0 \<and> fr_world_height f \<noteq> 0")
    case True
    then show ?thesis by (simp add: world_bounds_def)
  next
    case False
    let ?m1 = "fold (\<lambda>r m. (max (fst m) (rect_right r), max (snd m) (rect_bottom r))) rects (win_w, win_h)"
    let ?m2 = "fold grow_bounds (map snd (fr_characters f)) ?m1"
    let ?m3 = "fold grow_bounds (fr_blocks f) ?m2"
    let ?m4 = "fold grow_bounds (map snd (fr_power_ups f)) ?m3"
    let ?m5 = "fold grow_bounds (map snd (fr_gates f)) ?m4"
    have "world_bounds win_w win_h f rects = fold grow_bounds (map snd (fr_enemies f)) ?m5"
      using False by (auto simp: world_bounds_def Let_def)
    then show ?thesis
      using rects [of "(win_w, win_h)"] grows [of ?m1 "map snd (fr_characters f)"]
        grows [of ?m2 "fr_blocks f"] grows [of ?m3 "map snd (fr_power_ups f)"]
        grows [of ?m4 "map snd (fr_gates f)"] grows [of ?m5 "map snd (fr_enemies f)"]
      by (auto intro: order_trans)
  qed
qed

text \<open>The camera never looks outside the world, and as long as the centre of the player in focus
  lies in the world, it is on the screen.\<close>

theorem camera_shows_the_player:
  assumes "1 \<le> win_w" "1 \<le> win_h"
    and "fr_focus_player_id f = Some pid" "map_of (fr_characters f) pid = Some c"
    and "camera_offset win_w win_h last_offset f rects = (ox, oy)"
    and "world_bounds win_w win_h f rects = (ww, wh)"
  shows "0 \<le> ox \<and> ox \<le> ww - win_w \<and> 0 \<le> oy \<and> oy \<le> wh - win_h"
    and "\<lbrakk>0 \<le> pos_x c + width c / 2; pos_x c + width c / 2 \<le> of_int ww;
          0 \<le> pos_y c + height c / 2; pos_y c + height c / 2 \<le> of_int wh\<rbrakk> \<Longrightarrow>
      of_int ox \<le> pos_x c + width c / 2 \<and> pos_x c + width c / 2 \<le> of_int (ox + win_w) \<and>
      of_int oy \<le> pos_y c + height c / 2 \<and> pos_y c + height c / 2 \<le> of_int (oy + win_h)"
proof -
  have o: "ox = axis_offset (pos_x c + width c / 2) win_w ww"
    "oy = axis_offset (pos_y c + height c / 2) win_h wh"
    using assms(3-6) by (simp_all add: camera_offset_def)
  have cover: "win_w \<le> ww" "win_h \<le> wh"
    using world_bounds_cover [of win_w win_h f rects] assms(6) by simp_all
  show "0 \<le> ox \<and> ox \<le> ww - win_w \<and> 0 \<le> oy \<and> oy \<le> wh - win_h"
    using axis_offset_bounds [OF cover(1)] axis_offset_bounds [OF cover(2)] o by simp
  assume "0 \<le> pos_x c + width c / 2" "pos_x c + width c / 2 \<le> of_int ww"
    "0 \<le> pos_y c + height c / 2" "pos_y c + height c / 2 \<le> of_int wh"
  then show "of_int ox \<le> pos_x c + width c / 2 \<and> pos_x c + width c / 2 \<le> of_int (ox + win_w) \<and>
      of_int oy \<le> pos_y c + height c / 2 \<and> pos_y c + height c / 2 \<le> of_int (oy + win_h)"
    using axis_offset_shows_centre [OF assms(1) cover(1), of "pos_x c + width c / 2"]
      axis_offset_shows_centre [OF assms(2) cover(2), of "pos_y c + height c / 2"] o
    by simp
qed

definition example_frame :: render_frame where
  "example_frame = build_render_frame 0
     (new_world\<lparr>characters := [(''player1'', new_player ''player1'' 2000 500 0)]\<rparr>) [] []
     (Some ''player1'') 3000 720"

lemma camera_shows_the_player_witness:
  "fst (camera_offset 960 720 (0, 0) example_frame []) \<le> 2040"
proof -
  have frame: "fr_focus_player_id example_frame = Some ''player1''"
    "map_of (fr_characters example_frame) ''player1''
       = Some (render_character_of 0 (new_player ''player1'' 2000 500 0))"
    "world_bounds 960 720 example_frame [] = (3000, 720)"
    by (simp_all add: example_frame_def build_render_frame_def world_bounds_def)
  obtain ox oy where o: "camera_offset 960 720 (0, 0) example_frame [] = (ox, oy)"
    by force
  show ?thesis
    using camera_shows_the_player(1) [OF _ _ frame(1,2) o frame(3)] o by simp
qed

subsection \<open>Input\<close>

datatype key = K_LEFT | K_a | K_RIGHT | K_d | K_UP | K_w | K_DOWN | K_s

definition read_input :: "(key \<Rightarrow> bool) \<Rightarrow> input_state" where
  "read_input keys =
     \<lparr>left = keys K_LEFT \<or> keys K_a, right = keys K_RIGHT \<or> keys K_d,
      jump = keys K_UP \<or> keys K_w, down = keys K_DOWN \<or> keys K_s\<rparr>"

subsection \<open>The game loop\<close>

text \<open>
  One turn of \<^verbatim>\<open>GameApp.run\<close>: whether the window was closed, whether the frame shows a victory,
  and the reading of the clock.  \<open>None\<close>: the loop is still running after these turns.
\<close>

definition VICTORY_OVERLAY_DURATION_S :: flt where "VICTORY_OVERLAY_DURATION_S = 3"

record app_turn =
  at_quit :: bool
  at_victory :: bool
  at_now :: flt

fun app_run :: "flt option \<Rightarrow> app_turn list \<Rightarrow> string option" where
  "app_run since [] = None"
| "app_run since (t # ts) =
     (if at_quit t then Some ''quit''
      else if at_victory t then
        (case since of
           None \<Rightarrow> app_run (Some (at_now t)) ts
         | Some s \<Rightarrow>
             if at_now t - s \<ge> VICTORY_OVERLAY_DURATION_S then Some ''victory''
             else app_run since ts)
      else app_run None ts)"

text \<open>A stretch of turns that shows the victory for the whole duration of the overlay.\<close>

definition overlay_shown :: "app_turn list \<Rightarrow> bool" where
  "overlay_shown ts \<longleftrightarrow> (\<exists>pre first mid final post. ts = pre @ first # mid @ final # post
     \<and> (\<forall>t \<in> set (first # mid @ [final]). at_victory t)
     \<and> at_now final - at_now first \<ge> VICTORY_OVERLAY_DURATION_S)"

lemma overlay_shown_Cons: "overlay_shown ts \<Longrightarrow> overlay_shown (t # ts)"
  unfolding overlay_shown_def by (metis append_Cons)

lemma app_run_victory:
  assumes "app_run since ts = Some ''victory''"
  shows "overlay_shown ts \<or> (\<exists>s mid final post. since = Some s \<and> ts = mid @ final # post
    \<and> (\<forall>t \<in> set (mid @ [final]). at_victory t) \<and> at_now final - s \<ge> VICTORY_OVERLAY_DURATION_S)"
  using assms
proof (induction since ts rule: app_run.induct)
  case (1 since)
  then show ?case by simp
next
  case (2 since t ts)
  show ?case
  proof (cases "at_victory t")
    case False
    then show ?thesis
      using 2 overlay_shown_Cons by (auto split: if_splits)
  next
    case True
    show ?thesis
    proof (cases since)
      case None
      then have "app_run (Some (at_now t)) ts = Some ''victory''"
        using 2(4) True by (auto split: if_splits)
      with 2(1) [OF _ True None] 2(4) have "overlay_shown ts \<or> (\<exists>mid final post. ts = mid @ final # post
          \<and> (\<forall>t \<in> set (mid @ [final]). at_victory t) \<and> at_now final - at_now t \<ge> VICTORY_OVERLAY_DURATION_S)"
        by (auto split: if_splits)
      then show ?thesis
      proof
        assume "overlay_shown ts"
        then show ?thesis by (simp add: overlay_shown_Cons)
      next
        assume "\<exists>mid final post. ts = mid @ final # post
          \<and> (\<forall>t \<in> set (mid @ [final]). at_victory t) \<and> at_now final - at_now t \<ge> VICTORY_OVERLAY_DURATION_S"
        then have "overlay_shown (t # ts)"
          unfolding overlay_shown_def using True by (elim exE conjE) (rule exI [of _ "[]"], auto)
        then show ?thesis ..
      qed
    next
      case (Some s)
      show ?thesis
      proof (cases "at_now t - s \<ge> VICTORY_OVERLAY_DURATION_S")
        case True
        then show ?thesis
          using Some \<open>at_victory t\<close> by (intro disjI2 exI [of _ s] exI [of _ "[]"]) auto
      next
        case False
        then have "app_run since ts = Some ''victory''"
          using 2(4) True Some by (auto split: if_splits)
        with 2(2) [OF _ True Some False] 2(4) have "overlay_shown ts \<or> (\<exists>mid final post. ts = mid @ final # post
          \<and> (\<forall>t \<in> set (mid @ [final]). at_victory t) \<and> at_now final - s \<ge> VICTORY_OVERLAY_DURATION_S)"
          using Some by (auto split: if_splits)
        then show ?thesis
        proof
          assume "overlay_shown ts"
          then show ?thesis by (simp add: overlay_shown_Cons)
        next
          assume "\<exists>mid final post. ts = mid @ final # post
            \<and> (\<forall>t \<in> set (mid @ [final]). at_victory t) \<and> at_now final - s \<ge> VICTORY_OVERLAY_DURATION_S"
          then obtain mid final post where "ts = mid @ final # post"
            "\<forall>t \<in> set (mid @ [final]). at_victory t" "at_now final - s \<ge> VICTORY_OVERLAY_DURATION_S"
            by blast
          then show ?thesis
            using Some \<open>at_victory t\<close> by (intro disjI2 exI [of _ s] exI [of _ "t # mid"]) auto
        qed
      qed
    qed
  qed
qed

lemma app_run_final:
  "at_victory t \<Longrightarrow> \<not> at_quit t \<Longrightarrow> VICTORY_OVERLAY_DURATION_S \<le> at_now t - s \<Longrightarrow>
     app_run (Some s) (t # post) = Some ''victory''"
  by (subst app_run.simps) simp

lemma app_run_waits:
  "at_victory t \<Longrightarrow> \<not> at_quit t \<Longrightarrow> app_run (Some s) ts = Some ''victory'' \<Longrightarrow>
     app_run (Some s) (t # ts) = Some ''victory''"
  by (subst app_run.simps) simp

lemma app_run_reaches_victory:
  assumes "app_run (Some s) ts = Some ''victory''"
  shows "\<forall>t \<in> set xs. at_victory t \<and> \<not> at_quit t \<Longrightarrow> app_run (Some s) (xs @ ts) = Some ''victory''"
proof (induction xs)
  case Nil
  show ?case unfolding append_Nil by (rule assms)
next
  case (Cons t xs)
  have t: "at_victory t" "\<not> at_quit t" and "\<forall>t \<in> set xs. at_victory t \<and> \<not> at_quit t"
    using Cons.prems by (meson list.set_intros)+
  then show ?case
    unfolding append_Cons by (intro app_run_waits Cons.IH)
qed

text \<open>The game loop leaves for the lobby only after the victory overlay has been on screen,
  without interruption, for its whole duration; and once it has been, with the window open, the
  loop does leave.\<close>

theorem victory_overlay_lasts:
  shows "app_run None ts = Some ''victory'' \<Longrightarrow> overlay_shown ts"
    and "\<lbrakk>\<forall>t \<in> set (first # mid @ [final]). at_victory t \<and> \<not> at_quit t;
          at_now final - at_now first \<ge> VICTORY_OVERLAY_DURATION_S\<rbrakk> \<Longrightarrow>
      app_run None (first # mid @ final # post) = Some ''victory''"
proof -
  show "overlay_shown ts" if "app_run None ts = Some ''victory''"
    using app_run_victory [OF that] by blast
  assume shown: "\<forall>t \<in> set (first # mid @ [final]). at_victory t \<and> \<not> at_quit t"
    "at_now final - at_now first \<ge> VICTORY_OVERLAY_DURATION_S"
  then have "app_run (Some (at_now first)) (mid @ final # post) = Some ''victory''"
    by (intro app_run_reaches_victory app_run_final) auto
  then show "app_run None (first # mid @ final # post) = Some ''victory''"
    using shown(1) by (subst app_run.simps) simp
qed

lemma victory_overlay_lasts_witness:
  "app_run None (map (\<lambda>i. \<lparr>at_quit = False, at_victory = True, at_now = i\<rparr>) [0, 1, 2, 3]) = Some ''victory''"
  using victory_overlay_lasts(2) [of "\<lparr>at_quit = False, at_victory = True, at_now = 0\<rparr>"
      "map (\<lambda>i. \<lparr>at_quit = False, at_victory = True, at_now = i\<rparr>) [1, 2]"
      "\<lparr>at_quit = False, at_victory = True, at_now = 3\<rparr>" "[]"]
  by (simp add: VICTORY_OVERLAY_DURATION_S_def)

text \<open>The frame given to the renderer shows the world as it is: the same players, power-ups, gates
  and enemies under the same identifiers and in the same order, each where and as large as it is, the
  same counters, and a power-up glow exactly while the effect lasts.\<close>

theorem frame_shows_the_world:
  assumes "f = build_render_frame now w ps ds focus ww wh"
  shows "map fst (fr_characters f) = map fst (characters w)"
    and "map_of (characters w) pid = Some p \<Longrightarrow> \<exists>c. map_of (fr_characters f) pid = Some c
      \<and> body.truncate c = body.truncate p \<and> rc_player_id c = player_id p
      \<and> rc_powerup_effect_active c = (\<exists>t. powerup_effect_expires_at p = Some t \<and> now < t)"
    and "map fst (fr_enemies f) = map fst (enemies (environment w))"
    and "map_of (enemies (environment w)) eid = Some e \<Longrightarrow> \<exists>r. map_of (fr_enemies f) eid = Some r
      \<and> body.truncate r = body.truncate e \<and> enemy_type_of (re_enemy_type r) = Inr (enemy_type e)"
    and "length (fr_blocks f) = length (destructible_blocks (environment w))"
    and "fr_respawning f = dom (map_of (respawn_timers w))"
  using assms
  by (auto simp: build_render_frame_def map_of_map_vals render_character_of_def render_enemy_of_def
      body.truncate_def dom_map_of_conv_image_fst split: option.splits)

lemma frame_shows_the_world_witness:
  "map fst (fr_characters example_frame) = [''player1'']"
  using frame_shows_the_world(1) [OF example_frame_def] by simp

end
