(* ===== verification/Renderer.thy ===== *)
theory Renderer
  imports Render_Frame
begin

text \<open>
  The renderer (\<^verbatim>\<open>presentation/renderer/\<close>): the state it keeps between frames (effects with their
  start times, what it saw last, where players face, the toasts already shown) and the drawing
  commands of one frame, as a list.  Surfaces are named by what the code builds them from; whether
  an image file could be loaded and the overlap test of two rectangles belong to the graphics
  library and are arguments.  One reading of the millisecond clock serves a whole frame.
\<close>

datatype sprite =
    Tile int int
  | Plain_Fill int int
  | Decoration_Sprite string int int
  | Env_Sprite string string int int
  | Player_Sprite ident int string int int int int
  | Ring int int
  | Checkpoint_Panel
  | Counter_Panel "string list"
  | Victory_Panel

record draw =
  dr_sprite :: sprite
  dr_pos :: "int \<times> int"
  dr_alpha :: int

record death_effect =
  de_character :: render_character
  de_started_at :: int

record renderer =
  rn_width :: int
  rn_height :: int
  rn_facing :: "int dict"
  rn_collected :: "bool dict"
  rn_collecting :: "int dict"
  rn_last :: "render_character dict"
  rn_deaths :: "death_effect dict"
  rn_offset :: "int \<times> int"
  rn_toasts :: "int dict"
  rn_toast_shown :: "ident set"

definition new_renderer :: "int \<Rightarrow> int \<Rightarrow> renderer" where
  "new_renderer w h = \<lparr>rn_width = w, rn_height = h, rn_facing = [], rn_collected = [],
     rn_collecting = [], rn_last = [], rn_deaths = [], rn_offset = (0, 0), rn_toasts = [],
     rn_toast_shown = {}\<rparr>"

definition POWERUP_COLLECTION_EFFECT_MS :: int where "POWERUP_COLLECTION_EFFECT_MS = 420"
definition PLAYER_DEATH_EFFECT_MS :: int where "PLAYER_DEATH_EFFECT_MS = 900"
definition PLAYER_DEATH_RISE_PX :: flt where "PLAYER_DEATH_RISE_PX = 72"
definition PLAYER_DEATH_FALL_PX :: flt where "PLAYER_DEATH_FALL_PX = 120"
definition CHECKPOINT_TOAST_MS :: int where "CHECKPOINT_TOAST_MS = 2500"
definition CHECKPOINT_TOAST_FADE_START :: flt where "CHECKPOINT_TOAST_FADE_START = 7 / 10"
definition DISPLAY_TILE_SIZE :: int where "DISPLAY_TILE_SIZE = 30"
definition BACKGROUND_DECORATION_KINDS :: "string set" where
  "BACKGROUND_DECORATION_KINDS = {''cloud'', ''bush'', ''hill''}"
definition FOREGROUND_DECORATION_KINDS :: "string set" where
  "FOREGROUND_DECORATION_KINDS = {''pipe''}"

subsection \<open>Sprites\<close>

definition to_screen :: "flt \<Rightarrow> flt \<Rightarrow> int \<times> int \<Rightarrow> int \<times> int" where
  "to_screen x y off = (py_round x - fst off, py_round y - snd off)"

definition resolve_facing :: "render_character \<Rightarrow> renderer \<Rightarrow> int \<times> renderer" where
  "resolve_facing c r =
     (let facing =
            (if rc_vx c > 0 then 1 else if rc_vx c < 0 then - 1
             else case map_of (rn_facing r) (rc_player_id c) of None \<Rightarrow> 1 | Some f \<Rightarrow> f)
      in (facing, r\<lparr>rn_facing := AList.update (rc_player_id c) facing (rn_facing r)\<rparr>))"

definition animation_state :: "render_character \<Rightarrow> string" where
  "animation_state c =
     (if \<not> rc_on_ground c then ''jump'' else if rc_is_crouching c then ''duck''
      else if \<bar>rc_vx c\<bar> > 1 then ''walk'' else ''idle'')"

definition animation_frame :: "int \<Rightarrow> string \<Rightarrow> int" where
  "animation_frame now st = (if st = ''walk'' then (now div 140) mod 2 else 0)"

definition get_player_sprite :: "int \<Rightarrow> render_character \<Rightarrow> renderer \<Rightarrow> sprite \<times> renderer" where
  "get_player_sprite now c r =
     (let st = animation_state c; (facing, r1) = resolve_facing c r
      in (Player_Sprite (rc_player_id c) (rc_join_index c) st (animation_frame now st) (py_int (width c))
            (py_int (height c)) facing, r1))"

definition player_blink_alpha :: "render_character \<Rightarrow> int \<Rightarrow> int" where
  "player_blink_alpha c now =
     (if \<not> rc_powerup_effect_active c then 255 else if (now div 180) mod 2 = 0 then 255 else 90)"

definition powerup_sprite_state :: "ident \<Rightarrow> string" where
  "powerup_sprite_state uid =
     (if take 5 uid = ''coin-'' then ''coin''
      else if take 7 uid = ''flower-'' then ''flower''
      else if take 9 uid = ''mushroom-'' then ''mushroom'' else ''star'')"

subsection \<open>Deaths\<close>

definition sync_player_death_effects :: "render_frame \<Rightarrow> int \<Rightarrow> renderer \<Rightarrow> renderer" where
  "sync_player_death_effects f now r =
     (let r1 = fold (\<lambda>pid r.
            if pid \<in> set (dict_keys (fr_characters f)) \<or> pid \<in> set (dict_keys (rn_deaths r)) then r
            else case map_of (rn_last r) pid of
                None \<Rightarrow> r
              | Some c \<Rightarrow> r\<lparr>rn_deaths := AList.update pid
                  \<lparr>de_character = c, de_started_at = now\<rparr> (rn_deaths r)\<rparr>)
          (sorted_list_of_set (fr_respawning f)) r
      in r1\<lparr>rn_deaths := filter (\<lambda>(pid, e).
             \<not> (pid \<in> set (dict_keys (fr_characters f)) \<and> pid \<notin> fr_respawning f)) (rn_deaths r1)\<rparr>)"

definition fade_alpha :: "flt \<Rightarrow> int" where
  "fade_alpha progress = max 0 (min 255 (py_round (255 * (1 - progress))))"

definition render_death :: "int \<Rightarrow> int \<times> int \<Rightarrow> ident \<times> death_effect \<Rightarrow> draw list \<times> renderer \<Rightarrow> draw list \<times> renderer" where
  "render_death now off = (\<lambda>(pid, e) (ds, r).
     let progress = of_int (now - de_started_at e) / of_int PLAYER_DEATH_EFFECT_MS in
     if progress \<ge> 1 then (ds, r\<lparr>rn_deaths := AList.delete pid (rn_deaths r)\<rparr>)
     else
       let c = (de_character e)\<lparr>rc_vx := 0, rc_vy := 0, rc_on_ground := False\<rparr>;
           (sprite, r1) = get_player_sprite now c r;
           vertical_offset = - PLAYER_DEATH_RISE_PX * (1 - (2 * progress - 1) ^ 2)
             + PLAYER_DEATH_FALL_PX * progress ^ 2
       in (ds @ [\<lparr>dr_sprite = sprite, dr_pos = to_screen (pos_x c) (pos_y c + vertical_offset) off,
                  dr_alpha = fade_alpha progress\<rparr>], r1))"

definition render_player_death_effects :: "int \<Rightarrow> int \<times> int \<Rightarrow> draw list \<times> renderer \<Rightarrow> draw list \<times> renderer" where
  "render_player_death_effects now off s = fold (render_death now off) (rn_deaths (snd s)) s"

definition remember_rendered_characters :: "render_frame \<Rightarrow> renderer \<Rightarrow> renderer" where
  "remember_rendered_characters f r = r\<lparr>rn_last := fr_characters f\<rparr>"

subsection \<open>Power-ups\<close>

definition render_collection :: "render_frame \<Rightarrow> int \<Rightarrow> int \<times> int \<Rightarrow> ident \<times> int
    \<Rightarrow> draw list \<times> renderer \<Rightarrow> draw list \<times> renderer" where
  "render_collection f now off = (\<lambda>(uid, started_at) (ds, r).
     case map_of (fr_power_ups f) uid of
       None \<Rightarrow> (ds, r\<lparr>rn_collecting := AList.delete uid (rn_collecting r)\<rparr>)
     | Some u \<Rightarrow>
         let progress = of_int (now - started_at) / of_int POWERUP_COLLECTION_EFFECT_MS in
         if progress \<ge> 1 then (ds, r\<lparr>rn_collecting := AList.delete uid (rn_collecting r)\<rparr>)
         else
           let scale = 1 + progress * (55 / 100);
               w = max 1 (py_round (width u * scale));
               h = max 1 (py_round (height u * scale));
               x = py_round (pos_x u + width u / 2 - of_int w / 2);
               y = py_round (pos_y u - progress * 34);
               radius = py_round (max (width u) (height u) * (55 / 100 + progress * (8 / 10)));
               extent = radius * 2 + 4;
               ring_x = py_round (pos_x u + width u / 2 - of_int extent / 2);
               ring_y = py_round (pos_y u + height u / 2 - of_int extent / 2)
           in (ds @ [\<lparr>dr_sprite = Ring radius (max 2 (py_round (4 * (1 - progress)))),
                      dr_pos = to_screen (of_int ring_x) (of_int ring_y) off,
                      dr_alpha = py_round (of_int (fade_alpha progress) * (65 / 100))\<rparr>,
                     \<lparr>dr_sprite = Env_Sprite ''powerup'' (powerup_sprite_state (ru_powerup_id u)) w h,
                      dr_pos = to_screen (of_int x) (of_int y) off, dr_alpha = fade_alpha progress\<rparr>], r))"

definition render_powerup_collection_effects ::
    "render_frame \<Rightarrow> int \<Rightarrow> int \<times> int \<Rightarrow> draw list \<times> renderer \<Rightarrow> draw list \<times> renderer" where
  "render_powerup_collection_effects f now off s = fold (render_collection f now off) (rn_collecting (snd s)) s"

subsection \<open>The environment\<close>

definition body_draw :: "string \<Rightarrow> string \<Rightarrow> int \<times> int \<Rightarrow> 'a body_scheme \<Rightarrow> draw" where
  "body_draw kind st off b =
     \<lparr>dr_sprite = Env_Sprite kind st (py_int (width b)) (py_int (height b)),
      dr_pos = to_screen (pos_x b) (pos_y b) off, dr_alpha = 255\<rparr>"

definition render_power_up :: "int \<Rightarrow> int \<times> int \<Rightarrow> render_powerup \<Rightarrow> draw list \<times> renderer \<Rightarrow> draw list \<times> renderer" where
  "render_power_up now off u = (\<lambda>(ds, r).
     let uid = ru_powerup_id u;
         previous = (case map_of (rn_collected r) uid of None \<Rightarrow> ru_collected u | Some b \<Rightarrow> b);
         r1 = (if ru_collected u \<and> \<not> previous
               then r\<lparr>rn_collecting := AList.update uid now (rn_collecting r)\<rparr> else r);
         r2 = r1\<lparr>rn_collected := AList.update uid (ru_collected u) (rn_collected r1)\<rparr>
     in if ru_collected u then (ds, r2)
        else (ds @ [body_draw ''powerup'' (powerup_sprite_state uid) off u], r2))"

definition render_environment :: "render_frame \<Rightarrow> int \<Rightarrow> int \<times> int \<Rightarrow> draw list \<times> renderer \<Rightarrow> draw list \<times> renderer" where
  "render_environment f now off s =
     (let blocks = map (body_draw ''block'' ''intact'' off) (filter (\<lambda>b. \<not> rb_destroyed b) (fr_blocks f));
          (ds, r) = fold (render_power_up now off) (map snd (fr_power_ups f)) (fst s @ blocks, snd s);
          seen = ru_powerup_id ` set (map snd (fr_power_ups f));
          gone = set (dict_keys (rn_collected r)) - seen;
          r1 = r\<lparr>rn_collected := filter (\<lambda>(k, v). k \<notin> gone) (rn_collected r),
                 rn_collecting := filter (\<lambda>(k, v). k \<notin> gone) (rn_collecting r)\<rparr>
      in (ds @ map (\<lambda>g. body_draw ''gate'' (rg_state g) off g) (map snd (fr_gates f))
             @ map (\<lambda>e. body_draw ''enemy'' (re_enemy_type e) off e) (map snd (fr_enemies f)), r1))"

text \<open>\<^verbatim>\<open>range(lo, hi, step)\<close>\<close>

definition py_range :: "int \<Rightarrow> int \<Rightarrow> int \<Rightarrow> int list" where
  "py_range lo hi step = map (\<lambda>i. lo + int i * step) [0..<nat ((hi - lo + step - 1) div step)]"

text \<open>The tiles of one platform, as rectangles of the world.\<close>

definition platform_tiles :: "rect \<Rightarrow> rect list" where
  "platform_tiles p =
     concat (map (\<lambda>y. map (\<lambda>x.
         \<lparr>rect_x = x, rect_y = y, rect_w = min DISPLAY_TILE_SIZE (rect_right p - x),
          rect_h = min DISPLAY_TILE_SIZE (rect_bottom p - y)\<rparr>)
       (py_range (rect_x p) (rect_right p) DISPLAY_TILE_SIZE))
     (py_range (rect_y p) (rect_bottom p) DISPLAY_TILE_SIZE))"

definition viewport :: "renderer \<Rightarrow> int \<times> int \<Rightarrow> rect" where
  "viewport r off = \<lparr>rect_x = fst off, rect_y = snd off, rect_w = rn_width r, rect_h = rn_height r\<rparr>"

definition render_platforms ::
    "(rect \<Rightarrow> rect \<Rightarrow> bool) \<Rightarrow> bool \<Rightarrow> renderer \<Rightarrow> rect list \<Rightarrow> int \<times> int \<Rightarrow> draw list" where
  "render_platforms meets has_tile r rects off =
     concat (map (\<lambda>p.
         if \<not> meets (viewport r off) p then []
         else if \<not> has_tile then
           [\<lparr>dr_sprite = Plain_Fill (rect_w p) (rect_h p),
             dr_pos = (rect_x p - fst off, rect_y p - snd off), dr_alpha = 255\<rparr>]
         else map (\<lambda>t. \<lparr>dr_sprite = Tile (rect_w t) (rect_h t),
             dr_pos = (rect_x t - fst off, rect_y t - snd off), dr_alpha = 255\<rparr>) (platform_tiles p)) rects)"

definition DECORATION_KINDS :: "string set" where
  "DECORATION_KINDS = {''cloud'', ''bush'', ''hill'', ''pipe''}"

definition render_decoration_layer ::
    "(rect \<Rightarrow> rect \<Rightarrow> bool) \<Rightarrow> bool \<Rightarrow> renderer \<Rightarrow> render_frame \<Rightarrow> int \<times> int \<Rightarrow> string set \<Rightarrow> draw list" where
  "render_decoration_layer meets has_sheet r f off kinds =
     concat (map (\<lambda>d.
         if rd_kind d \<notin> kinds then []
         else if \<not> meets (viewport r off) (rect_of d) then []
         else if rd_kind d \<notin> DECORATION_KINDS \<or> \<not> has_sheet then []
         else [\<lparr>dr_sprite = Decoration_Sprite (rd_kind d) (py_int (width d)) (py_int (height d)),
                dr_pos = to_screen (pos_x d) (pos_y d) off, dr_alpha = 255\<rparr>]) (fr_decorations f))"

subsection \<open>Counters and toasts\<close>

definition character_touches_gate :: "render_character \<Rightarrow> render_gate \<Rightarrow> bool" where
  "character_touches_gate c g \<longleftrightarrow>
     pos_x c < pos_x g + width g \<and> pos_x c + width c > pos_x g \<and>
     pos_y c < pos_y g + height g \<and> pos_y c + height c > pos_y g"

definition counter_lines :: "render_frame \<Rightarrow> string list" where
  "counter_lines f =
     [''Coins: '' @ str_int (fr_coins_collected f) @ ''/'' @ str_int (fr_coins_to_win f),
      ''Blocks: '' @ str_int (fr_blocks_destroyed f) @ ''/'' @ str_int (fr_blocks_to_win f),
      ''Enemies: '' @ str_int (fr_enemies_defeated f) @ ''/'' @ str_int (fr_enemies_to_win f)]"

definition sync_checkpoint_toast :: "render_frame \<Rightarrow> int \<Rightarrow> render_gate \<Rightarrow> renderer \<Rightarrow> renderer" where
  "sync_checkpoint_toast f now g r =
     (if rg_is_final g \<or> rg_state g \<noteq> ''open'' \<or> rg_gate_id g \<in> rn_toast_shown r then r
      else if \<exists>c \<in> set (map snd (fr_characters f)). character_touches_gate c g
      then r\<lparr>rn_toasts := AList.update (rg_gate_id g) now (rn_toasts r),
             rn_toast_shown := insert (rg_gate_id g) (rn_toast_shown r)\<rparr>
      else r)"

definition sync_checkpoint_toasts :: "render_frame \<Rightarrow> int \<Rightarrow> renderer \<Rightarrow> renderer" where
  "sync_checkpoint_toasts f now r = fold (sync_checkpoint_toast f now) (map snd (fr_gates f)) r"

definition render_toast :: "int \<Rightarrow> ident \<times> int \<Rightarrow> draw list \<times> renderer \<Rightarrow> draw list \<times> renderer" where
  "render_toast now = (\<lambda>(gid, started_at) (ds, r).
     let progress = of_int (now - started_at) / of_int CHECKPOINT_TOAST_MS in
     if progress \<ge> 1 then (ds, r\<lparr>rn_toasts := AList.delete gid (rn_toasts r)\<rparr>)
     else
       let alpha = (if progress > CHECKPOINT_TOAST_FADE_START
             then py_round (255 * (1 - (progress - CHECKPOINT_TOAST_FADE_START)
                                         / (1 - CHECKPOINT_TOAST_FADE_START)))
             else 255)
       in (ds @ [\<lparr>dr_sprite = Checkpoint_Panel, dr_pos = (rn_width r div 2, 60), dr_alpha = alpha\<rparr>], r))"

definition render_checkpoint_toasts :: "int \<Rightarrow> draw list \<times> renderer \<Rightarrow> draw list \<times> renderer" where
  "render_checkpoint_toasts now s = fold (render_toast now) (rn_toasts (snd s)) s"

subsection \<open>A frame\<close>

definition render_player :: "int \<Rightarrow> int \<times> int \<Rightarrow> render_character \<Rightarrow> draw list \<times> renderer \<Rightarrow> draw list \<times> renderer" where
  "render_player now off c = (\<lambda>(ds, r).
     let (sprite, r1) = get_player_sprite now c r
     in (ds @ [\<lparr>dr_sprite = sprite, dr_pos = to_screen (pos_x c) (pos_y c) off,
                dr_alpha = (if rc_powerup_effect_active c then player_blink_alpha c now else 255)\<rparr>], r1))"

definition draw_order :: "render_character list \<Rightarrow> render_character list" where
  "draw_order cs = sort_key pos_y (sort_key rc_player_id cs)"

definition render ::
    "(rect \<Rightarrow> rect \<Rightarrow> bool) \<Rightarrow> bool \<Rightarrow> int \<Rightarrow> render_frame \<Rightarrow> renderer \<Rightarrow> draw list \<times> renderer" where
  "render meets has_sheet now f r =
     (let r1 = sync_player_death_effects f now r;
          rects = map rect_of (fr_platforms f);
          off = camera_offset (rn_width r1) (rn_height r1) (rn_offset r1) f rects;
          r2 = r1\<lparr>rn_offset := off\<rparr>;
          background = render_decoration_layer meets has_sheet r2 f off BACKGROUND_DECORATION_KINDS
            @ render_platforms meets has_sheet r2 rects off
            @ render_decoration_layer meets has_sheet r2 f off FOREGROUND_DECORATION_KINDS;
          s3 = render_environment f now off (background, r2);
          s4 = render_powerup_collection_effects f now off s3;
          s5 = render_player_death_effects now off s4;
          s6 = fold (render_player now off) (draw_order (map snd (fr_characters f))) s5;
          r7 = remember_rendered_characters f (snd s6);
          counters = fst s6 @ [\<lparr>dr_sprite = Counter_Panel (counter_lines f), dr_pos = (rn_width r7, 16),
                                 dr_alpha = 160\<rparr>];
          s8 = render_checkpoint_toasts now (counters, sync_checkpoint_toasts f now r7)
      in if fr_victory f
         then (fst s8 @ [\<lparr>dr_sprite = Victory_Panel, dr_pos = (0, 0), dr_alpha = 180\<rparr>], snd s8)
         else s8)"

subsection \<open>Tiling\<close>

definition rect_points :: "rect \<Rightarrow> (int \<times> int) set" where
  "rect_points r = {(x, y). rect_x r \<le> x \<and> x < rect_right r \<and> rect_y r \<le> y \<and> y < rect_bottom r}"

lemma le_div_iff:
  fixes k a step :: int
  assumes "0 < step"
  shows "k \<le> a div step \<longleftrightarrow> k * step \<le> a"
proof
  assume "k \<le> a div step"
  then have "k * step \<le> a div step * step"
    using assms by (simp add: mult_right_mono)
  also have "\<dots> \<le> a"
    using assms by (simp add: minus_mod_eq_div_mult [symmetric])
  finally show "k * step \<le> a" .
next
  assume "k * step \<le> a"
  then have "(k * step) div step \<le> a div step"
    using assms by (rule zdiv_mono1)
  then show "k \<le> a div step" using assms by simp
qed

lemma py_range_set:
  assumes "0 < step"
  shows "x \<in> set (py_range lo hi step) \<longleftrightarrow> lo \<le> x \<and> x < hi \<and> step dvd (x - lo)"
proof -
  have less: "i < nat ((hi - lo + step - 1) div step) \<longleftrightarrow> lo + int i * step < hi" for i
  proof -
    have "i < nat ((hi - lo + step - 1) div step) \<longleftrightarrow> int i + 1 \<le> (hi - lo + step - 1) div step"
      by (auto simp: zless_nat_eq_int_zless)
    also have "\<dots> \<longleftrightarrow> (int i + 1) * step \<le> hi - lo + step - 1"
      by (rule le_div_iff [OF assms])
    also have "\<dots> \<longleftrightarrow> lo + int i * step < hi"
      by (auto simp: algebra_simps)
    finally show ?thesis .
  qed
  show ?thesis
  proof
    assume "x \<in> set (py_range lo hi step)"
    then obtain i where "x = lo + int i * step" "i \<in> set [0..<nat ((hi - lo + step - 1) div step)]"
      unfolding py_range_def set_map by blast
    then show "lo \<le> x \<and> x < hi \<and> step dvd (x - lo)"
      using assms by (auto simp: less)
  next
    assume x: "lo \<le> x \<and> x < hi \<and> step dvd (x - lo)"
    then obtain k where k: "x - lo = step * k" by blast
    then have "0 \<le> k" using x assms by (metis diff_ge_0_iff_ge zero_le_mult_iff not_le)
    then have "x = lo + int (nat k) * step" using k by (simp add: algebra_simps)
    then show "x \<in> set (py_range lo hi step)"
      using x by (auto simp: py_range_def less image_iff intro!: bexI [of _ "nat k"])
  qed
qed

lemma py_range_cell:
  assumes "0 < step" "lo \<le> x" "x < hi"
  shows "\<exists>c \<in> set (py_range lo hi step). c \<le> x \<and> x < c + step"
proof
  let ?m = "(x - lo) mod step"
  have m: "0 \<le> ?m" "?m < step" "?m \<le> x - lo"
    using assms by (simp_all add: zmod_le_nonneg_dividend)
  then show "x - ?m \<le> x \<and> x < x - ?m + step" by simp
  have "step dvd (x - lo - ?m)" by (rule dvd_minus_mod)
  then have "step dvd (x - ?m - lo)" by (simp add: algebra_simps)
  then show "x - ?m \<in> set (py_range lo hi step)"
    using m(1,3) assms(2,3) by (subst py_range_set [OF assms(1)]) linarith
qed

lemma tile_size: "0 < DISPLAY_TILE_SIZE"
  by (simp add: DISPLAY_TILE_SIZE_def)

lemma tiles_cover: "(\<Union>t \<in> set (platform_tiles p). rect_points t) = rect_points p"
proof (rule set_eqI, rule iffI)
  fix pt
  assume "pt \<in> (\<Union>t \<in> set (platform_tiles p). rect_points t)"
  then show "pt \<in> rect_points p"
    using tile_size by (auto simp: platform_tiles_def rect_points_def py_range_set)
next
  fix pt
  assume "pt \<in> rect_points p"
  then obtain x y where xy: "pt = (x, y)" "rect_x p \<le> x" "x < rect_right p" "rect_y p \<le> y" "y < rect_bottom p"
    by (auto simp: rect_points_def)
  obtain cx where cx: "cx \<in> set (py_range (rect_x p) (rect_right p) DISPLAY_TILE_SIZE)"
    "cx \<le> x" "x < cx + DISPLAY_TILE_SIZE"
    using py_range_cell [OF tile_size xy(2,3)] by blast
  obtain cy where cy: "cy \<in> set (py_range (rect_y p) (rect_bottom p) DISPLAY_TILE_SIZE)"
    "cy \<le> y" "y < cy + DISPLAY_TILE_SIZE"
    using py_range_cell [OF tile_size xy(4,5)] by blast
  let ?t = "\<lparr>rect_x = cx, rect_y = cy, rect_w = min DISPLAY_TILE_SIZE (rect_right p - cx),
    rect_h = min DISPLAY_TILE_SIZE (rect_bottom p - cy)\<rparr>"
  have "?t \<in> set (platform_tiles p)"
    using cx(1) cy(1) by (auto simp: platform_tiles_def)
  moreover have "pt \<in> rect_points ?t"
    using xy cx cy by (auto simp: rect_points_def)
  ultimately show "pt \<in> (\<Union>t \<in> set (platform_tiles p). rect_points t)" by blast
qed

lemma concat_pieces: "set (concat (map f xs)) = (\<Union>x \<in> set xs. set (concat (map f [x])))"
  by simp

text \<open>The screen pixels a platform command paints.\<close>

definition painted :: "draw \<Rightarrow> (int \<times> int) set" where
  "painted d =
     (case dr_sprite d of
        Tile w h \<Rightarrow> rect_points \<lparr>rect_x = fst (dr_pos d), rect_y = snd (dr_pos d), rect_w = w, rect_h = h\<rparr>
      | Plain_Fill w h \<Rightarrow>
          rect_points \<lparr>rect_x = fst (dr_pos d), rect_y = snd (dr_pos d), rect_w = w, rect_h = h\<rparr>
      | _ \<Rightarrow> {})"

lemma shifted_points:
  "(x, y) \<in> rect_points \<lparr>rect_x = rect_x p - ox, rect_y = rect_y p - oy, rect_w = rect_w p, rect_h = rect_h p\<rparr>
     \<longleftrightarrow> (x + ox, y + oy) \<in> rect_points p"
  by (auto simp: rect_points_def)

text \<open>C34: neither the culling to the viewport nor the tiling of a platform changes the picture: when
  the overlap test of the graphics library is true exactly for rectangles with a common pixel, a
  pixel of the screen is painted by a platform command if and only if it belongs to a platform.\<close>

theorem platforms_are_painted_exactly:
  assumes "\<forall>a b. meets a b \<longleftrightarrow> rect_points a \<inter> rect_points b \<noteq> {}"
    and "0 \<le> x" "x < rn_width r" "0 \<le> y" "y < rn_height r"
  shows "(\<exists>d \<in> set (render_platforms meets has_tile r rects off). (x, y) \<in> painted d)
    \<longleftrightarrow> (\<exists>p \<in> set rects. (x + fst off, y + snd off) \<in> rect_points p)"
proof -
  have visible: "meets (viewport r off) p" if "(x + fst off, y + snd off) \<in> rect_points p" for p
  proof -
    have "(x + fst off, y + snd off) \<in> rect_points (viewport r off)"
      using assms(2-5) by (simp add: viewport_def rect_points_def)
    then show ?thesis using assms(1) that by blast
  qed
  have "(\<exists>d \<in> set (render_platforms meets has_tile r [p] off). (x, y) \<in> painted d)
      \<longleftrightarrow> (x + fst off, y + snd off) \<in> rect_points p" for p
  proof (cases "meets (viewport r off) p")
    case False
    then show ?thesis using visible [of p] by (auto simp: render_platforms_def)
  next
    case True
    have "(\<exists>t \<in> set (platform_tiles p). (x + fst off, y + snd off) \<in> rect_points t)
        \<longleftrightarrow> (x + fst off, y + snd off) \<in> rect_points p"
      using tiles_cover [of p] by blast
    then show ?thesis
      using True by (simp add: render_platforms_def painted_def shifted_points)
  qed
  note one = this
  have "set (render_platforms meets has_tile r rects off) =
      (\<Union>p \<in> set rects. set (render_platforms meets has_tile r [p] off))"
    unfolding render_platforms_def by (rule concat_pieces)
  then show ?thesis using one by blast
qed

lemma platforms_are_painted_exactly_witness:
  "\<exists>d \<in> set (render_platforms (\<lambda>a b. rect_points a \<inter> rect_points b \<noteq> {}) True (new_renderer 960 720)
      [\<lparr>rect_x = 0, rect_y = 600, rect_w = 3000, rect_h = 45\<rparr>] (100, 0)). (50, 640) \<in> painted d"
proof -
  have "\<exists>p \<in> set [\<lparr>rect_x = 0, rect_y = 600, rect_w = 3000, rect_h = 45\<rparr>].
      (50 + fst (100, 0), 640 + snd (100, 0)) \<in> rect_points p"
    by (simp add: rect_points_def)
  then show ?thesis
    using platforms_are_painted_exactly [of "\<lambda>a b. rect_points a \<inter> rect_points b \<noteq> {}" 50
        "new_renderer 960 720" 640 True "[\<lparr>rect_x = 0, rect_y = 600, rect_w = 3000, rect_h = 45\<rparr>]" "(100, 0)"]
    by (simp add: new_renderer_def)
qed

subsection \<open>Effects\<close>

text \<open>
  What holds of the drawing state after every frame: no effect has outlived its duration at time
  \<open>now\<close>.
\<close>

definition effects_fresh :: "int \<Rightarrow> renderer \<Rightarrow> bool" where
  "effects_fresh now r \<longleftrightarrow>
     (\<forall>(pid, e) \<in> set (rn_deaths r). now - de_started_at e < PLAYER_DEATH_EFFECT_MS)
   \<and> (\<forall>(uid, t) \<in> set (rn_collecting r). now - t < POWERUP_COLLECTION_EFFECT_MS)
   \<and> (\<forall>(gid, t) \<in> set (rn_toasts r). now - t < CHECKPOINT_TOAST_MS)"

definition alphas_ok :: "draw list \<Rightarrow> bool" where
  "alphas_ok ds \<longleftrightarrow> (\<forall>d \<in> set ds. 0 \<le> dr_alpha d \<and> dr_alpha d \<le> 255)"

lemma alphas_ok_simps [simp]:
  "alphas_ok []" "alphas_ok (ds @ es) \<longleftrightarrow> alphas_ok ds \<and> alphas_ok es"
  "alphas_ok (d # ds) \<longleftrightarrow> (0 \<le> dr_alpha d \<and> dr_alpha d \<le> 255) \<and> alphas_ok ds"
  by (auto simp: alphas_ok_def)

lemma progress_done: "0 < limit \<Longrightarrow> of_int (now - t) / of_int limit \<ge> (1 :: flt) \<longleftrightarrow> limit \<le> now - t"
  by (simp add: le_divide_eq_1_pos flip: of_int_diff)

lemma get_player_sprite_frame:
  assumes "get_player_sprite now c r = (sp, r')"
  shows "\<exists>facing. r' = r\<lparr>rn_facing := facing\<rparr>"
  using assms by (auto simp: get_player_sprite_def resolve_facing_def Let_def split: prod.splits)

lemma fade_alpha_ok: "0 \<le> fade_alpha p" "fade_alpha p \<le> 255"
  by (simp_all add: fade_alpha_def)

text \<open>A loop over a snapshot of a table that deletes the entries whose time is up.\<close>

lemma fold_deletes:
  assumes body: "\<And>k v ds r. \<exists>facing es. f (k, v) (ds, r) =
      (ds @ es, if gone k v then del k r else upd facing r) \<and> alphas_ok es"
    and table: "\<And>k r. tab (del k r) = AList.delete k (tab r)" "\<And>x r. tab (upd x r) = tab r"
  shows "tab (snd (fold f xs (ds, r))) = filter (\<lambda>(k, v). k \<notin> {k. \<exists>v. (k, v) \<in> set xs \<and> gone k v}) (tab r)
    \<and> (alphas_ok ds \<longrightarrow> alphas_ok (fst (fold f xs (ds, r))))"
proof (induction xs arbitrary: ds r)
  case Nil
  then show ?case by simp
next
  case (Cons x xs)
  obtain k v where x: "x = (k, v)" by force
  obtain facing es where b: "f (k, v) (ds, r) = (ds @ es, if gone k v then del k r else upd facing r)"
    "alphas_ok es"
    using body by blast
  let ?r = "if gone k v then del k r else upd facing r"
  have "tab ?r = filter (\<lambda>(k', v'). \<not> (k' = k \<and> gone k v)) (tab r)"
    by (auto simp: table AList.delete_eq intro!: filter_cong)
  then show ?case
    using Cons.IH [of "ds @ es" ?r] b
    by (auto simp: x filter_filter split_def intro!: filter_cong)
qed

lemma render_death_body:
  "\<exists>facing es. render_death now off (k, e) (ds, r) =
     (ds @ es, if PLAYER_DEATH_EFFECT_MS \<le> now - de_started_at e
        then r\<lparr>rn_deaths := AList.delete k (rn_deaths r)\<rparr> else r\<lparr>rn_facing := facing\<rparr>) \<and> alphas_ok es"
proof (cases "PLAYER_DEATH_EFFECT_MS \<le> now - de_started_at e")
  case True
  then show ?thesis
    using progress_done [of PLAYER_DEATH_EFFECT_MS now "de_started_at e"]
    by (intro exI [of _ "[]"] exI) (simp add: render_death_def PLAYER_DEATH_EFFECT_MS_def)
next
  case False
  let ?c = "(de_character e)\<lparr>rc_vx := 0, rc_vy := 0, rc_on_ground := False\<rparr>"
  obtain sp r1 where sp: "get_player_sprite now ?c r = (sp, r1)" by force
  then obtain facing where "r1 = r\<lparr>rn_facing := facing\<rparr>"
    using get_player_sprite_frame by blast
  moreover have "\<not> of_int (now - de_started_at e) / of_int PLAYER_DEATH_EFFECT_MS \<ge> (1 :: flt)"
    using False progress_done [of PLAYER_DEATH_EFFECT_MS now "de_started_at e"]
    by (simp add: PLAYER_DEATH_EFFECT_MS_def)
  ultimately show ?thesis
    using False sp
    by (intro exI [of _ facing]) (simp add: render_death_def Let_def fade_alpha_ok)
qed

lemma render_deaths_fresh:
  assumes "render_player_death_effects now off (ds, r) = (ds', r')"
  shows "\<forall>(pid, e) \<in> set (rn_deaths r'). now - de_started_at e < PLAYER_DEATH_EFFECT_MS"
    and "alphas_ok ds \<Longrightarrow> alphas_ok ds'"
proof -
  note loop = fold_deletes [where f = "render_death now off" and tab = rn_deaths
      and gone = "\<lambda>k e. PLAYER_DEATH_EFFECT_MS \<le> now - de_started_at e"
      and del = "\<lambda>k r. r\<lparr>rn_deaths := AList.delete k (rn_deaths r)\<rparr>"
      and upd = "\<lambda>facing r. r\<lparr>rn_facing := facing\<rparr>" and xs = "rn_deaths r" and ds = ds and r = r,
      OF render_death_body]
  show "\<forall>(pid, e) \<in> set (rn_deaths r'). now - de_started_at e < PLAYER_DEATH_EFFECT_MS"
    using loop assms by (auto simp: render_player_death_effects_def not_le)
  show "alphas_ok ds \<Longrightarrow> alphas_ok ds'"
    using loop assms by (auto simp: render_player_death_effects_def)
qed

lemma render_collection_body:
  "\<exists>u es. render_collection f now off (k, t) (ds, r) =
     (ds @ es, if map_of (fr_power_ups f) k = None \<or> POWERUP_COLLECTION_EFFECT_MS \<le> now - t
        then r\<lparr>rn_collecting := AList.delete k (rn_collecting r)\<rparr> else r) \<and> alphas_ok es"
proof (cases "map_of (fr_power_ups f) k")
  case None
  then show ?thesis by (intro exI [of _ "[]"] exI) (simp add: render_collection_def)
next
  case (Some u)
  have ring: "0 \<le> py_round (of_int (fade_alpha p) * (65 / 100)) \<and> py_round (of_int (fade_alpha p) * (65 / 100)) \<le> 255" for p
  proof (rule py_round_between)
    have "(0 :: flt) \<le> of_int (fade_alpha p)" "of_int (fade_alpha p) \<le> (255 :: flt)"
      using fade_alpha_ok [of p] by simp_all
    then show "of_int 0 \<le> of_int (fade_alpha p) * (65 / 100 :: flt)"
      "of_int (fade_alpha p) * (65 / 100 :: flt) \<le> of_int 255"
      by simp_all
  qed
  show ?thesis
  proof (cases "POWERUP_COLLECTION_EFFECT_MS \<le> now - t")
    case True
    then show ?thesis
      using Some progress_done [of POWERUP_COLLECTION_EFFECT_MS now t]
      by (intro exI [of _ "[]"] exI) (simp add: render_collection_def POWERUP_COLLECTION_EFFECT_MS_def)
  next
    case False
    then have "\<not> of_int (now - t) / of_int POWERUP_COLLECTION_EFFECT_MS \<ge> (1 :: flt)"
      using progress_done [of POWERUP_COLLECTION_EFFECT_MS now t]
      by (simp add: POWERUP_COLLECTION_EFFECT_MS_def)
    then show ?thesis
      using Some False ring by (simp add: render_collection_def Let_def fade_alpha_ok)
  qed
qed

lemma render_collections_fresh:
  assumes "render_powerup_collection_effects f now off (ds, r) = (ds', r')"
  shows "\<forall>(uid, t) \<in> set (rn_collecting r'). now - t < POWERUP_COLLECTION_EFFECT_MS"
    and "alphas_ok ds \<Longrightarrow> alphas_ok ds'"
proof -
  note loop = fold_deletes [where f = "render_collection f now off" and tab = rn_collecting
      and gone = "\<lambda>k t. map_of (fr_power_ups f) k = None \<or> POWERUP_COLLECTION_EFFECT_MS \<le> now - t"
      and del = "\<lambda>k r. r\<lparr>rn_collecting := AList.delete k (rn_collecting r)\<rparr>"
      and upd = "\<lambda>(u :: unit) r. r" and xs = "rn_collecting r" and ds = ds and r = r]
  have "rn_collecting (snd (fold (render_collection f now off) (rn_collecting r) (ds, r))) =
     filter (\<lambda>(k, v). k \<notin> {k. \<exists>v. (k, v) \<in> set (rn_collecting r) \<and>
       (map_of (fr_power_ups f) k = None \<or> POWERUP_COLLECTION_EFFECT_MS \<le> now - v)}) (rn_collecting r)
    \<and> (alphas_ok ds \<longrightarrow> alphas_ok (fst (fold (render_collection f now off) (rn_collecting r) (ds, r))))"
    by (rule loop) (use render_collection_body in \<open>simp_all\<close>)
  then show "\<forall>(uid, t) \<in> set (rn_collecting r'). now - t < POWERUP_COLLECTION_EFFECT_MS"
    "alphas_ok ds \<Longrightarrow> alphas_ok ds'"
    using assms by (auto simp: render_powerup_collection_effects_def not_le)
qed

lemma toast_alpha:
  fixes p :: flt
  assumes "7 / 10 < p" "p < 1"
  shows "0 \<le> py_round (255 * (1 - (p - 7 / 10) / (1 - 7 / 10))) \<and>
    py_round (255 * (1 - (p - 7 / 10) / (1 - 7 / 10))) \<le> 255"
  by (rule py_round_between) (use assms in \<open>simp_all add: field_simps\<close>)

lemma render_toast_body:
  "\<exists>u es. render_toast now (k, t) (ds, r) =
     (ds @ es, if CHECKPOINT_TOAST_MS \<le> now - t
        then r\<lparr>rn_toasts := AList.delete k (rn_toasts r)\<rparr> else r) \<and> alphas_ok es"
proof (cases "CHECKPOINT_TOAST_MS \<le> now - t")
  case True
  then show ?thesis
    using progress_done [of CHECKPOINT_TOAST_MS now t]
    by (intro exI [of _ "[]"] exI) (simp add: render_toast_def CHECKPOINT_TOAST_MS_def)
next
  case False
  let ?p = "of_int (now - t) / of_int CHECKPOINT_TOAST_MS :: flt"
  have p: "\<not> ?p \<ge> 1"
    using False progress_done [of CHECKPOINT_TOAST_MS now t] by (simp add: CHECKPOINT_TOAST_MS_def)
  have "?p > 7 / 10 \<Longrightarrow> 0 \<le> py_round (255 * (1 - (?p - 7 / 10) / (1 - 7 / 10))) \<and>
      py_round (255 * (1 - (?p - 7 / 10) / (1 - 7 / 10))) \<le> 255"
    using toast_alpha [of ?p] p by linarith
  then show ?thesis
    using p False by (simp add: render_toast_def Let_def CHECKPOINT_TOAST_FADE_START_def)
qed

lemma render_toasts_fresh:
  assumes "render_checkpoint_toasts now (ds, r) = (ds', r')"
  shows "\<forall>(gid, t) \<in> set (rn_toasts r'). now - t < CHECKPOINT_TOAST_MS"
    and "alphas_ok ds \<Longrightarrow> alphas_ok ds'"
proof -
  note loop = fold_deletes [where f = "render_toast now" and tab = rn_toasts
      and gone = "\<lambda>k t. CHECKPOINT_TOAST_MS \<le> now - t"
      and del = "\<lambda>k r. r\<lparr>rn_toasts := AList.delete k (rn_toasts r)\<rparr>"
      and upd = "\<lambda>(u :: unit) r. r" and xs = "rn_toasts r" and ds = ds and r = r]
  have "rn_toasts (snd (fold (render_toast now) (rn_toasts r) (ds, r))) =
     filter (\<lambda>(k, v). k \<notin> {k. \<exists>v. (k, v) \<in> set (rn_toasts r) \<and> CHECKPOINT_TOAST_MS \<le> now - v}) (rn_toasts r)
    \<and> (alphas_ok ds \<longrightarrow> alphas_ok (fst (fold (render_toast now) (rn_toasts r) (ds, r))))"
    by (rule loop) (use render_toast_body in \<open>simp_all\<close>)
  then show "\<forall>(gid, t) \<in> set (rn_toasts r'). now - t < CHECKPOINT_TOAST_MS"
    "alphas_ok ds \<Longrightarrow> alphas_ok ds'"
    using assms by (auto simp: render_checkpoint_toasts_def not_le)
qed

text \<open>The other phases leave the tables of the effects alone.\<close>

lemma fold_keeps:
  assumes "\<And>x ds r. tab (snd (f x (ds, r))) = tab r \<and> (alphas_ok ds \<longrightarrow> alphas_ok (fst (f x (ds, r))))"
  shows "tab (snd (fold f xs s)) = tab (snd s) \<and> (alphas_ok (fst s) \<longrightarrow> alphas_ok (fst (fold f xs s)))"
proof (induction xs arbitrary: s)
  case (Cons x xs)
  obtain ds r where s: "s = (ds, r)" by force
  show ?case using Cons.IH [of "f x (ds, r)"] assms [of x ds r] by (simp add: s)
qed simp

lemma render_player_keeps:
  "(rn_deaths (snd (render_player now off c (ds, r))), rn_collecting (snd (render_player now off c (ds, r))),
     rn_toasts (snd (render_player now off c (ds, r)))) = (rn_deaths r, rn_collecting r, rn_toasts r)
   \<and> (alphas_ok ds \<longrightarrow> alphas_ok (fst (render_player now off c (ds, r))))"
proof -
  obtain sp r1 where sp: "get_player_sprite now c r = (sp, r1)" by force
  then obtain facing where "r1 = r\<lparr>rn_facing := facing\<rparr>"
    using get_player_sprite_frame by blast
  then show ?thesis
    using sp by (simp add: render_player_def player_blink_alpha_def)
qed

lemma render_death_keeps:
  "(rn_collecting (snd (render_death now off x (ds, r))), rn_toasts (snd (render_death now off x (ds, r))))
     = (rn_collecting r, rn_toasts r)
   \<and> (alphas_ok ds \<longrightarrow> alphas_ok (fst (render_death now off x (ds, r))))"
proof -
  obtain k e where x: "x = (k, e)" by force
  obtain facing es where "render_death now off x (ds, r) =
     (ds @ es, if PLAYER_DEATH_EFFECT_MS \<le> now - de_started_at e
        then r\<lparr>rn_deaths := AList.delete k (rn_deaths r)\<rparr> else r\<lparr>rn_facing := facing\<rparr>) \<and> alphas_ok es"
    unfolding x using render_death_body by blast
  then show ?thesis by auto
qed

lemma sync_toast_keeps:
  "rn_deaths (sync_checkpoint_toasts f now r) = rn_deaths r"
  "rn_collecting (sync_checkpoint_toasts f now r) = rn_collecting r"
proof -
  have "rn_deaths (fold (sync_checkpoint_toast f now) gs r) = rn_deaths r
      \<and> rn_collecting (fold (sync_checkpoint_toast f now) gs r) = rn_collecting r" for gs
    by (induction gs arbitrary: r) (simp_all add: sync_checkpoint_toast_def)
  then show "rn_deaths (sync_checkpoint_toasts f now r) = rn_deaths r"
    "rn_collecting (sync_checkpoint_toasts f now r) = rn_collecting r"
    by (simp_all add: sync_checkpoint_toasts_def)
qed

lemma render_toast_keeps:
  "(rn_deaths (snd (render_toast now x (ds, r))), rn_collecting (snd (render_toast now x (ds, r))))
     = (rn_deaths r, rn_collecting r)"
  by (cases x) (simp add: render_toast_def Let_def)

lemma environment_alphas: "alphas_ok (fst s) \<Longrightarrow> alphas_ok (fst (render_environment f now off s))"
proof -
  assume ok: "alphas_ok (fst s)"
  have bodies: "alphas_ok (map (\<lambda>g. body_draw ''gate'' (rg_state g) off g) (map snd (fr_gates f)))"
    "alphas_ok (map (\<lambda>e. body_draw ''enemy'' (re_enemy_type e) off e) (map snd (fr_enemies f)))"
    by (simp_all add: alphas_ok_def body_draw_def)
  let ?blocks = "map (body_draw ''block'' ''intact'' off) (filter (\<lambda>b. \<not> rb_destroyed b) (fr_blocks f))"
  have blocks: "alphas_ok ?blocks"
    by (simp add: alphas_ok_def body_draw_def)
  have "alphas_ok (fst (fold (render_power_up now off) us (ds, r)))" if "alphas_ok ds" for us ds r
    using fold_keeps [of "\<lambda>_. ()" "render_power_up now off" us "(ds, r)"] that
    by (simp add: render_power_up_def Let_def body_draw_def)
  from this [of "fst s @ ?blocks" "map snd (fr_power_ups f)" "snd s"] ok blocks bodies show ?thesis
    by (auto simp: render_environment_def Let_def split: prod.splits)
qed

text \<open>Whatever the state of the renderer and whatever the frame, after drawing it no transient
  effect has outlived its duration (deaths 900 ms, collected power-ups 420 ms, checkpoint toasts
  2500 ms), and every command was drawn with an opacity a surface accepts.\<close>

theorem effects_expire:
  "effects_fresh now (snd (render meets has_sheet now f r)) \<and>
   alphas_ok (fst (render meets has_sheet now f r))"
proof -
  define r1 where "r1 = sync_player_death_effects f now r"
  define rects where "rects = map rect_of (fr_platforms f)"
  define off where "off = camera_offset (rn_width r1) (rn_height r1) (rn_offset r1) f rects"
  define r2 where "r2 = r1\<lparr>rn_offset := off\<rparr>"
  define bg where "bg = render_decoration_layer meets has_sheet r2 f off BACKGROUND_DECORATION_KINDS
    @ render_platforms meets has_sheet r2 rects off
    @ render_decoration_layer meets has_sheet r2 f off FOREGROUND_DECORATION_KINDS"
  obtain d3 r3 where s3: "render_environment f now off (bg, r2) = (d3, r3)" by force
  obtain d4 r4 where s4: "render_powerup_collection_effects f now off (d3, r3) = (d4, r4)" by force
  obtain d5 r5 where s5: "render_player_death_effects now off (d4, r4) = (d5, r5)" by force
  obtain d6 r6 where s6: "fold (render_player now off) (draw_order (map snd (fr_characters f))) (d5, r5) = (d6, r6)"
    by force
  define r7 where "r7 = remember_rendered_characters f r6"
  define d7 where "d7 = d6 @ [\<lparr>dr_sprite = Counter_Panel (counter_lines f), dr_pos = (rn_width r7, 16),
    dr_alpha = 160\<rparr>]"
  obtain d8 r8 where s8: "render_checkpoint_toasts now (d7, sync_checkpoint_toasts f now r7) = (d8, r8)" by force
  have render: "snd (render meets has_sheet now f r) = r8"
    "fst (render meets has_sheet now f r) = d8 @ (if fr_victory f
       then [\<lparr>dr_sprite = Victory_Panel, dr_pos = (0, 0), dr_alpha = 180\<rparr>] else [])"
    using s3 s4 s5 s6 s8
    by (simp_all add: render_def Let_def flip: r1_def rects_def off_def r2_def bg_def r7_def d7_def)
  have "alphas_ok bg"
    by (auto simp: bg_def alphas_ok_def render_decoration_layer_def render_platforms_def split: if_splits)
  then have a5: "alphas_ok d5"
    using environment_alphas [of "(bg, r2)" f now off] s3 render_collections_fresh(2) [OF s4]
      render_deaths_fresh(2) [OF s5] by simp
  have players: "(rn_deaths r6, rn_collecting r6, rn_toasts r6) = (rn_deaths r5, rn_collecting r5, rn_toasts r5)
      \<and> (alphas_ok d5 \<longrightarrow> alphas_ok d6)"
    using fold_keeps [of "\<lambda>r. (rn_deaths r, rn_collecting r, rn_toasts r)" "render_player now off"
        "draw_order (map snd (fr_characters f))" "(d5, r5)"] render_player_keeps s6 by simp
  have deaths: "rn_collecting r5 = rn_collecting r4"
    using fold_keeps [of "\<lambda>r. (rn_collecting r, rn_toasts r)" "render_death now off" "rn_deaths r4" "(d4, r4)"]
      render_death_keeps s5 by (simp add: render_player_death_effects_def)
  have toasts: "(rn_deaths r8, rn_collecting r8) = (rn_deaths r7, rn_collecting r7)"
  proof -
    have "(rn_deaths (snd (fold (render_toast now) ts (ds, q))), rn_collecting (snd (fold (render_toast now) ts (ds, q))))
        = (rn_deaths q, rn_collecting q)" for ts ds q
    proof (induction ts arbitrary: ds q)
      case (Cons t ts)
      then show ?case using render_toast_keeps [of now t ds q] by (cases "render_toast now t (ds, q)") simp
    qed simp
    then show ?thesis
      using s8 by (metis render_checkpoint_toasts_def snd_conv sync_toast_keeps)
  qed
  have "effects_fresh now r8"
    using render_toasts_fresh(1) [OF s8] render_deaths_fresh(1) [OF s5] render_collections_fresh(1) [OF s4]
      players deaths toasts
    by (simp add: effects_fresh_def r7_def remember_rendered_characters_def)
  moreover have "alphas_ok d8"
    using render_toasts_fresh(2) [OF s8] players a5 by (simp add: d7_def)
  ultimately show ?thesis
    by (simp add: render)
qed

end
