(* ===== verification/Sprites.thy ===== *)
theory Sprites
  imports Renderer
begin

text \<open>
  The images of the renderer (\<^verbatim>\<open>presentation/renderer/assets.py\<close> and the sprite part of
  \<^verbatim>\<open>world.py\<close>): the figures drawn when a sheet of images is missing, the regions cut out of the
  sheets, and the four dictionaries that remember what was built before.  A picture is the recipe
  the code follows; what the image library answers for a file is the argument \<open>lib\<close>.

  The locale \<open>memo\<close> is the contract of a lookup that remembers: it answers what the plain
  construction gives.  It holds of every cache of the renderer, of the player sprites as long as
  the name of a player determines its join index.
\<close>

subsection \<open>Pictures\<close>

type_synonym colour = "int list"

datatype figure =
    Rect_Fill colour rect int
  | Rect_Frame colour rect int int
  | Stroke colour "int \<times> int" "int \<times> int" int
  | Disc colour "int \<times> int" int
  | Oval colour rect
  | Polygon colour "(int \<times> int) list"

datatype 's picture =
    Blank int int
  | Sheet_Part 's rect int int
  | Mirrored "'s picture"
  | Scaled "'s picture" int int
  | Drawn "'s picture" "figure list"

abbreviation (input) rect_at :: "int \<Rightarrow> int \<Rightarrow> int \<Rightarrow> int \<Rightarrow> rect" where
  "rect_at x y w h \<equiv> \<lparr>rect_x = x, rect_y = y, rect_w = w, rect_h = h\<rparr>"

text \<open>\<^verbatim>\<open>rect.inflate(-dx, -dy)\<close>, and the default corner radius of \<^verbatim>\<open>pygame.draw.rect\<close>.\<close>

definition shrunk :: "rect \<Rightarrow> int \<Rightarrow> int \<Rightarrow> rect" where
  "shrunk r dx dy = rect_at (rect_x r + dx div 2) (rect_y r + dy div 2) (rect_w r - dx) (rect_h r - dy)"

abbreviation (input) square_corners :: int where "square_corners \<equiv> - 1"

definition shade :: "colour \<Rightarrow> int \<Rightarrow> colour" where
  "shade c delta = map (\<lambda>channel. max 0 (min 255 (channel + delta))) c"

subsection \<open>Figures drawn by hand\<close>

text \<open>The inner function \<^verbatim>\<open>rect\<close> of \<^verbatim>\<open>_draw_sprite_frame\<close>: a box in fractions of the surface.\<close>

definition box_part :: "int \<Rightarrow> int \<Rightarrow> flt \<Rightarrow> flt \<Rightarrow> flt \<Rightarrow> flt \<Rightarrow> colour \<Rightarrow> figure" where
  "box_part w h rx ry rw rh col =
     Rect_Fill col (rect_at (py_round (rx * of_int w)) (py_round (ry * of_int h))
       (max 1 (py_round (rw * of_int w))) (max 1 (py_round (rh * of_int h)))) square_corners"

definition draw_sprite_frame :: "int \<Rightarrow> int \<Rightarrow> string \<Rightarrow> int \<Rightarrow> colour \<Rightarrow> figure list" where
  "draw_sprite_frame w h st frame body_color =
     (let skin = [247, 214, 177]; hat = shade body_color (- 25); shirt = shade body_color 20;
          overalls = shade body_color (- 50); boots = [102, 68, 32]; eye = [20, 20, 20];
          leg_offset = (if st = ''walk'' \<and> frame = 1 then 4/100 else if st = ''walk'' then - 4/100 else 0);
          arm_offset = (if st = ''walk'' \<and> frame = 1 then - 4/100 else if st = ''walk'' then 4/100 else 0);
          jump_raise = (if st = ''jump'' then - 3/100 else 0);
          duck_drop = (if st = ''duck'' then 18/100 else 0);
          y = jump_raise + duck_drop
      in [box_part w h (28/100) (7/100 + y) (44/100) (12/100) hat,
          box_part w h (23/100) (17/100 + y) (54/100) (6/100) hat,
          box_part w h (32/100) (23/100 + y) (36/100) (18/100) skin,
          box_part w h (6/10) (29/100 + y) (5/100) (5/100) eye,
          box_part w h (35/100) (42/100 + y) (3/10) (12/100) shirt,
          box_part w h (26/100) (42/100 + arm_offset + y) (8/100) (22/100) shirt,
          box_part w h (66/100) (42/100 - arm_offset + y) (8/100) (22/100) shirt,
          box_part w h (32/100) (54/100 + y) (36/100) (16/100) overalls,
          box_part w h (39/100) (56/100 + y) (6/100) (14/100) shirt,
          box_part w h (55/100) (56/100 + y) (6/100) (14/100) shirt,
          box_part w h (34/100) (7/10 + leg_offset + y) (12/100) (16/100) boots,
          box_part w h (54/100) (7/10 - leg_offset + y) (12/100) (16/100) boots])"

definition faced :: "int \<Rightarrow> 's picture \<Rightarrow> 's picture" where
  "faced facing p = (if facing < 0 then Mirrored p else p)"

definition build_sprite :: "colour \<Rightarrow> string \<Rightarrow> int \<Rightarrow> int \<Rightarrow> int \<Rightarrow> int \<Rightarrow> 's picture" where
  "build_sprite body_color st frame w h facing =
     (let shadow = rect_at (w div 5) (h - max 4 (h div 10)) (w * 3 div 5) (max 4 (h div 12))
      in faced facing
           (Drawn (Blank w h) (Oval [0, 0, 0, 60] shadow # draw_sprite_frame w h st frame body_color)))"

definition draw_block_surface :: "int \<Rightarrow> int \<Rightarrow> figure list" where
  "draw_block_surface w h =
     (let body = [177, 100, 46]; mortar = [118, 62, 28]; highlight = [224, 160, 98]
      in [Rect_Fill body (rect_at 0 0 w h) (max 2 (w div 10)),
          Rect_Frame mortar (rect_at 0 0 w h) (max 2 (w div 9)) square_corners,
          Stroke mortar (w div 2, 3) (w div 2, h - 3) (max 2 (w div 12)),
          Stroke mortar (3, h div 2) (w - 3, h div 2) (max 2 (h div 12)),
          Stroke highlight (5, 5) (w - 5, 5) (max 1 (h div 14))])"

definition star_points :: "(flt \<times> flt) list" where
  "star_points =
     [(50/100, 12/100), (60/100, 38/100), (88/100, 38/100), (66/100, 56/100), (76/100, 86/100),
      (50/100, 68/100), (24/100, 86/100), (34/100, 56/100), (12/100, 38/100), (40/100, 38/100)]"

definition draw_powerup_surface :: "int \<Rightarrow> int \<Rightarrow> figure list" where
  "draw_powerup_surface w h =
     (let center = (w div 2, h div 2); radius = max 6 (min w h div 2 - 3)
      in [Disc [255, 227, 107, 90] center radius,
          Polygon [255, 217, 52]
            (map (\<lambda>(x, y). (py_round (of_int w * x), py_round (of_int h * y))) star_points),
          Disc [255, 247, 205] (py_round (of_int w * (43/100)), py_round (of_int h * (32/100)))
            (max 2 (w div 10))])"

definition draw_gate_surface :: "int \<Rightarrow> int \<Rightarrow> string \<Rightarrow> figure list" where
  "draw_gate_surface w h st =
     (let accent = (if st = ''closed'' then [212, 233, 248] else [215, 255, 220]);
          fill = (if st = ''open'' then [116, 195, 122] else [79, 127, 173]);
          panel_width = max 4 (w div 5);
          inner = shrunk (rect_at 0 0 w h) (max 4 (w div 5)) (max 4 (h div 8));
          cx = rect_x inner + rect_w inner div 2; cy = rect_y inner + rect_h inner div 2;
          opening = rect_at (cx - panel_width div 2) (rect_y inner) panel_width (rect_h inner)
      in [Rect_Fill [92, 65, 40] (rect_at 0 0 w h) (max 2 (w div 10)),
          Rect_Fill fill inner (max 2 (w div 12)),
          Rect_Frame accent inner (max 2 (w div 12)) (max 2 (w div 12))] @
         (if st = ''open''
          then [Rect_Fill [30, 30, 30, 0] opening square_corners,
                Rect_Fill [35, 45, 58] (shrunk opening 2 0) square_corners]
          else [Disc [255, 236, 135] (cx, cy) (max 3 (min w h div 9))]))"

subsection \<open>Sheets\<close>

text \<open>What the image library answers: whether the file exists, the loaded image or an error, whether
  it has no alpha channel, the image with its black background keyed out, and the conversion to the
  format of the display.\<close>

record 's image_lib =
  lib_exists :: "string \<Rightarrow> bool"
  lib_load :: "string \<Rightarrow> 's option"
  lib_opaque :: "'s \<Rightarrow> bool"
  lib_key_black :: "'s \<Rightarrow> 's option"
  lib_convert :: "'s \<Rightarrow> 's option"
  lib_copy :: "'s \<Rightarrow> 's"

definition read_sheet :: "'s image_lib \<Rightarrow> string \<Rightarrow> 's option" where
  "read_sheet lib filename =
     (if \<not> lib_exists lib filename then None
      else case lib_load lib filename of
          None \<Rightarrow> None
        | Some raw \<Rightarrow>
            (case if lib_opaque lib raw then lib_key_black lib raw else Some raw of
               None \<Rightarrow> None
             | Some sheet \<Rightarrow>
                 Some (case lib_convert lib sheet of Some s \<Rightarrow> s | None \<Rightarrow> lib_copy lib sheet)))"

type_synonym asset_key = "string \<times> rect \<times> int \<times> int"
type_synonym env_key = "string \<times> string \<times> int \<times> int"
type_synonym body_key = "colour \<times> string \<times> int \<times> int \<times> int \<times> int"

record 's caches =
  sheet_cache :: "(string \<times> 's option) list"
  asset_cache :: "(asset_key \<times> 's picture) list"
  env_cache :: "(env_key \<times> 's picture) list"
  body_cache :: "(body_key \<times> 's picture) list"

definition new_caches :: "'s caches" where
  "new_caches = \<lparr>sheet_cache = [], asset_cache = [], env_cache = [], body_cache = []\<rparr>"

definition load_asset_sheet :: "'s image_lib \<Rightarrow> string \<Rightarrow> 's caches \<Rightarrow> 's option \<times> 's caches" where
  "load_asset_sheet lib filename c =
     (case map_of (sheet_cache c) filename of
        Some sheet \<Rightarrow> (sheet, c)
      | None \<Rightarrow>
          (let sheet = read_sheet lib filename
           in (sheet, c\<lparr>sheet_cache := AList.update filename sheet (sheet_cache c)\<rparr>)))"

definition get_asset_sprite :: "'s image_lib \<Rightarrow> asset_key \<Rightarrow> 's caches \<Rightarrow> 's picture option \<times> 's caches" where
  "get_asset_sprite lib = (\<lambda>(filename, rect, w, h) c.
     case map_of (asset_cache c) (filename, rect, w, h) of
       Some cached \<Rightarrow> (Some cached, c)
     | None \<Rightarrow>
         (case load_asset_sheet lib filename c of
            (None, c1) \<Rightarrow> (None, c1)
          | (Some sheet, c1) \<Rightarrow>
              (let scaled = Sheet_Part sheet rect w h
               in (Some scaled,
                   c1\<lparr>asset_cache := AList.update (filename, rect, w, h) scaled (asset_cache c1)\<rparr>))))"

subsection \<open>The environment\<close>

definition MARIO_FRAME_SIZE :: int where "MARIO_FRAME_SIZE = 32"
definition TILE_SIZE :: int where "TILE_SIZE = 16"

definition PLAYER_SPRITE_SHEETS :: "(string \<times> int \<times> int) list" where
  "PLAYER_SPRITE_SHEETS =
     [(''Mario.png'', MARIO_FRAME_SIZE, 8), (''luigi.png'', MARIO_FRAME_SIZE, 8),
      (''wario.png'', MARIO_FRAME_SIZE, 8), (''waluigi.png'', MARIO_FRAME_SIZE, 8)]"

definition DECORATION_SOURCE_RECTS :: "rect dict" where
  "DECORATION_SOURCE_RECTS =
     [(''cloud'', rect_at 89 32 37 22), (''bush'', rect_at 8 96 32 16),
      (''hill'', rect_at 48 77 80 35), (''pipe'', rect_at 96 0 32 32)]"

definition powerup_source_rect :: "string \<Rightarrow> rect" where
  "powerup_source_rect st =
     (let rects = [(''coin'', rect_at 0 TILE_SIZE TILE_SIZE TILE_SIZE),
                   (''flower'', rect_at (TILE_SIZE * 2) 0 TILE_SIZE TILE_SIZE),
                   (''mushroom'', rect_at 0 0 TILE_SIZE TILE_SIZE),
                   (''star'', rect_at (TILE_SIZE * 3) 0 TILE_SIZE TILE_SIZE)]
      in case map_of rects st of Some r \<Rightarrow> r | None \<Rightarrow> rect_at (TILE_SIZE * 3) 0 TILE_SIZE TILE_SIZE)"

definition gate_door :: "int \<Rightarrow> int \<Rightarrow> figure list" where
  "gate_door w h =
     (let door = rect_at (py_int (of_int w * (36/100))) (py_int (of_int h * (58/100)))
                   (py_int (of_int w * (28/100))) (py_int (of_int h * (36/100)))
      in [Rect_Fill [91, 55, 30] door square_corners,
          Rect_Frame [36, 24, 18] door (max 1 (w div 18)) square_corners])"

definition build_environment_asset_sprite ::
    "'s image_lib \<Rightarrow> env_key \<Rightarrow> 's caches \<Rightarrow> 's picture option result \<times> 's caches" where
  "build_environment_asset_sprite lib = (\<lambda>(kind, st, w, h) c.
     if kind = ''block'' then
       map_prod Inr id (get_asset_sprite lib
         (''OverWorld.png'', rect_at (TILE_SIZE * 3) 0 TILE_SIZE TILE_SIZE, w, h) c)
     else if kind = ''powerup'' then
       map_prod Inr id (get_asset_sprite lib (''Items.png'', powerup_source_rect st, w, h) c)
     else if kind = ''gate'' then
       (case get_asset_sprite lib (''Castle.png'', rect_at 0 0 80 80, w, h) c of
          (None, c1) \<Rightarrow> (Inr None, c1)
        | (Some sprite, c1) \<Rightarrow>
            (Inr (Some (if st = ''closed'' then Drawn sprite (gate_door w h) else sprite)), c1))
     else if kind = ''enemy'' then
       (case map_of [(''koopa'', rect_at 100 6 18 25), (''goomba'', rect_at 4 6 18 25)] st of
          None \<Rightarrow> (Inl (KeyError st), c)
        | Some source \<Rightarrow> map_prod Inr id (get_asset_sprite lib (''Enemies.png'', source, w, h) c))
     else (Inr None, c))"

definition environment_fallback :: "env_key \<Rightarrow> 's picture" where
  "environment_fallback = (\<lambda>(kind, st, w, h).
     if kind = ''block'' then Drawn (Blank w h) (draw_block_surface w h)
     else if kind = ''powerup'' then Drawn (Blank w h) (draw_powerup_surface w h)
     else if kind = ''gate'' then Drawn (Blank w h) (draw_gate_surface w h st)
     else Blank w h)"

definition get_environment_sprite ::
    "'s image_lib \<Rightarrow> env_key \<Rightarrow> 's caches \<Rightarrow> 's picture result \<times> 's caches" where
  "get_environment_sprite lib k c =
     (case map_of (env_cache c) k of
        Some cached \<Rightarrow> (Inr cached, c)
      | None \<Rightarrow>
          (case build_environment_asset_sprite lib k c of
             (Inl e, c1) \<Rightarrow> (Inl e, c1)
           | (Inr built, c1) \<Rightarrow>
               (let sprite = (case built of Some p \<Rightarrow> p | None \<Rightarrow> environment_fallback k)
                in (Inr sprite, c1\<lparr>env_cache := AList.update k sprite (env_cache c1)\<rparr>))))"

definition get_decoration_sprite ::
    "'s image_lib \<Rightarrow> string \<Rightarrow> int \<Rightarrow> int \<Rightarrow> 's caches \<Rightarrow> 's picture option \<times> 's caches" where
  "get_decoration_sprite lib kind w h c =
     (case map_of DECORATION_SOURCE_RECTS kind of
        None \<Rightarrow> (None, c)
      | Some rect \<Rightarrow> get_asset_sprite lib (''OverWorld.png'', rect, w, h) c)"

text \<open>The tile of \<^verbatim>\<open>render_platforms\<close>; a partial one is scaled again for each use.\<close>

definition get_platform_tile ::
    "'s image_lib \<Rightarrow> int \<Rightarrow> int \<Rightarrow> 's caches \<Rightarrow> 's picture option \<times> 's caches" where
  "get_platform_tile lib w h c =
     map_prod (map_option (\<lambda>tile. if w = DISPLAY_TILE_SIZE \<and> h = DISPLAY_TILE_SIZE then tile
                                  else Scaled tile w h)) id
       (get_asset_sprite lib (''OverWorld.png'', rect_at TILE_SIZE 0 TILE_SIZE TILE_SIZE,
          DISPLAY_TILE_SIZE, DISPLAY_TILE_SIZE) c)"

subsection \<open>Players\<close>

definition player_palette :: "colour dict" where
  "player_palette =
     [(''player1'', [220, 50, 50]), (''player2'', [50, 90, 220]),
      (''player3'', [50, 180, 50]), (''player4'', [200, 150, 50])]"

definition body_colour :: "ident \<Rightarrow> colour" where
  "body_colour pid = (case map_of player_palette pid of Some col \<Rightarrow> col | None \<Rightarrow> [220, 50, 50])"

definition frame_index :: "int \<Rightarrow> string \<Rightarrow> int \<Rightarrow> int" where
  "frame_index base st frame =
     (if st = ''jump'' then base + 5 else if st = ''duck'' then base + 6
      else if st = ''walk'' then base + 1 + frame else base)"

definition build_player_asset_sprite ::
    "'s image_lib \<Rightarrow> int \<Rightarrow> string \<Rightarrow> int \<Rightarrow> int \<Rightarrow> int \<Rightarrow> int \<Rightarrow> 's caches \<Rightarrow> 's picture option \<times> 's caches" where
  "build_player_asset_sprite lib ji st frame w h facing c =
     (let (filename, frame_size, base_frame) = PLAYER_SPRITE_SHEETS ! nat (ji mod 4)
      in map_prod (map_option (faced facing)) id
           (get_asset_sprite lib
             (filename, rect_at (frame_index base_frame st frame * frame_size) 0 frame_size frame_size,
              w, h) c))"

definition get_cached_player_sprite ::
    "'s image_lib \<Rightarrow> ident \<Rightarrow> int \<Rightarrow> string \<Rightarrow> int \<Rightarrow> int \<Rightarrow> int \<Rightarrow> int \<Rightarrow> 's caches \<Rightarrow> 's picture \<times> 's caches" where
  "get_cached_player_sprite lib pid ji st frame w h facing c =
     (let key = (body_colour pid, st, frame, w, h, facing)
      in case map_of (body_cache c) key of
           Some cached \<Rightarrow> (cached, c)
         | None \<Rightarrow>
             (let (asset, c1) = build_player_asset_sprite lib ji st frame w h facing c;
                  sprite = (case asset of Some p \<Rightarrow> p
                            | None \<Rightarrow> build_sprite (body_colour pid) st frame w h facing)
              in (sprite, c1\<lparr>body_cache := AList.update key sprite (body_cache c1)\<rparr>)))"

subsection \<open>The pictures of the drawing commands\<close>

text \<open>What a drawing command asks the sprite system for; panels and rings are drawn directly.  A
  platform or decoration whose sheet is missing has no picture.\<close>

fun fetch :: "'s image_lib \<Rightarrow> sprite \<Rightarrow> 's caches \<Rightarrow> 's picture option result \<times> 's caches" where
  "fetch lib (Tile w h) c = map_prod Inr id (get_platform_tile lib w h c)"
| "fetch lib (Decoration_Sprite kind w h) c = map_prod Inr id (get_decoration_sprite lib kind w h c)"
| "fetch lib (Env_Sprite kind st w h) c =
     map_prod (map_sum id Some) id (get_environment_sprite lib (kind, st, w, h) c)"
| "fetch lib (Player_Sprite pid ji st frame w h facing) c =
     map_prod (Inr \<circ> Some) id (get_cached_player_sprite lib pid ji st frame w h facing c)"
| "fetch lib _ c = (Inr None, c)"

text \<open>The same without remembering anything.\<close>

definition plain_asset :: "'s image_lib \<Rightarrow> asset_key \<Rightarrow> 's picture option" where
  "plain_asset lib = (\<lambda>(filename, rect, w, h).
     map_option (\<lambda>sheet. Sheet_Part sheet rect w h) (read_sheet lib filename))"

definition plain_environment :: "'s image_lib \<Rightarrow> env_key \<Rightarrow> 's picture result" where
  "plain_environment lib k =
     map_sum id (\<lambda>built. case built of Some p \<Rightarrow> p | None \<Rightarrow> environment_fallback k)
       (fst (build_environment_asset_sprite lib k new_caches))"

definition plain_player ::
    "'s image_lib \<Rightarrow> colour \<Rightarrow> int \<Rightarrow> string \<Rightarrow> int \<Rightarrow> int \<Rightarrow> int \<Rightarrow> int \<Rightarrow> 's picture" where
  "plain_player lib col ji st frame w h facing =
     (case fst (build_player_asset_sprite lib ji st frame w h facing new_caches) of
        Some p \<Rightarrow> p | None \<Rightarrow> build_sprite col st frame w h facing)"

fun plain :: "'s image_lib \<Rightarrow> sprite \<Rightarrow> 's picture option result" where
  "plain lib (Tile w h) = Inr (fst (get_platform_tile lib w h new_caches))"
| "plain lib (Decoration_Sprite kind w h) = Inr (fst (get_decoration_sprite lib kind w h new_caches))"
| "plain lib (Env_Sprite kind st w h) = map_sum id Some (plain_environment lib (kind, st, w, h))"
| "plain lib (Player_Sprite pid ji st frame w h facing) =
     Inr (Some (plain_player lib (body_colour pid) ji st frame w h facing))"
| "plain lib _ = Inr None"

subsection \<open>Lookups that remember\<close>

fun serve :: "('k \<Rightarrow> 'c \<Rightarrow> 'v \<times> 'c) \<Rightarrow> 'k list \<Rightarrow> 'c \<Rightarrow> 'v list \<times> 'c" where
  "serve run [] c = ([], c)"
| "serve run (k # ks) c =
     (let (v, c1) = run k c; (vs, c2) = serve run ks c1 in (v # vs, c2))"

locale memo =
  fixes run :: "'k \<Rightarrow> 'c \<Rightarrow> 'v \<times> 'c"
    and exact :: "'k \<Rightarrow> 'v"
    and sound :: "'c \<Rightarrow> bool"
    and valid :: "'k \<Rightarrow> bool"
  assumes answer: "sound c \<Longrightarrow> valid k \<Longrightarrow> fst (run k c) = exact k"
    and stays: "sound c \<Longrightarrow> valid k \<Longrightarrow> sound (snd (run k c))"
begin

lemma run_exact: "sound c \<Longrightarrow> valid k \<Longrightarrow> run k c = (v, c') \<Longrightarrow> v = exact k \<and> sound c'"
  using answer [of c k] stays [of c k] by simp

lemma serve_exact:
  "sound c \<Longrightarrow> list_all valid ks \<Longrightarrow>
     fst (serve run ks c) = map exact ks \<and> sound (snd (serve run ks c))"
  by (induction ks arbitrary: c) (auto simp: split_beta answer stays)

end

text \<open>What the dictionaries hold is what would be built afresh; the sprite of a player is looked up
  by its colour, so it has to be right for every player of that colour.\<close>

definition caches_ok :: "'s image_lib \<Rightarrow> 's caches \<Rightarrow> bool" where
  "caches_ok lib c \<longleftrightarrow>
     (\<forall>f s. map_of (sheet_cache c) f = Some s \<longrightarrow> s = read_sheet lib f) \<and>
     (\<forall>k p. map_of (asset_cache c) k = Some p \<longrightarrow> plain_asset lib k = Some p) \<and>
     (\<forall>k p. map_of (env_cache c) k = Some p \<longrightarrow> plain_environment lib k = Inr p) \<and>
     (\<forall>ji st frame w h facing p.
        map_of (body_cache c) (body_colour (player_id_for ji), st, frame, w, h, facing) = Some p \<and>
        0 \<le> ji \<and> ji < 4 \<longrightarrow>
        p = plain_player lib (body_colour (player_id_for ji)) ji st frame w h facing)"

lemma new_caches_ok [simp]: "caches_ok lib new_caches"
  by (simp add: caches_ok_def new_caches_def)

lemma caches_okD:
  assumes "caches_ok lib c"
  shows "map_of (sheet_cache c) f = Some s \<Longrightarrow> s = read_sheet lib f"
    and "map_of (asset_cache c) k = Some p \<Longrightarrow> plain_asset lib k = Some p"
    and "map_of (env_cache c) e = Some p \<Longrightarrow> plain_environment lib e = Inr p"
    and "map_of (body_cache c) (body_colour (player_id_for ji), st, frame, w, h, facing) = Some p \<Longrightarrow>
      0 \<le> ji \<Longrightarrow> ji < 4 \<Longrightarrow> p = plain_player lib (body_colour (player_id_for ji)) ji st frame w h facing"
  using assms unfolding caches_ok_def by blast+

lemma caches_okI:
  assumes "caches_ok lib c"
  shows "s = read_sheet lib f \<Longrightarrow> caches_ok lib (c\<lparr>sheet_cache := AList.update f s (sheet_cache c)\<rparr>)"
    and "plain_asset lib k = Some p \<Longrightarrow> caches_ok lib (c\<lparr>asset_cache := AList.update k p (asset_cache c)\<rparr>)"
    and "plain_environment lib e = Inr p \<Longrightarrow> caches_ok lib (c\<lparr>env_cache := AList.update e p (env_cache c)\<rparr>)"
  using assms unfolding caches_ok_def by (simp_all add: update_conv')

lemma load_asset_sheet_ok:
  assumes "caches_ok lib c"
  shows "fst (load_asset_sheet lib f c) = read_sheet lib f \<and> caches_ok lib (snd (load_asset_sheet lib f c))"
  using assms caches_okD(1) [OF assms] by (simp add: load_asset_sheet_def Let_def caches_okI split: option.split)

lemma get_asset_sprite_ok:
  assumes "caches_ok lib c"
  shows "fst (get_asset_sprite lib k c) = plain_asset lib k \<and> caches_ok lib (snd (get_asset_sprite lib k c))"
proof -
  obtain f rect w h where k: "k = (f, rect, w, h)" by (cases k)
  obtain c1 where load: "load_asset_sheet lib f c = (read_sheet lib f, c1)" and c1: "caches_ok lib c1"
    using load_asset_sheet_ok [OF assms, of f] by (metis prod.collapse)
  show ?thesis
  proof (cases "map_of (asset_cache c) k")
    case None
    then show ?thesis
      using c1 by (cases "read_sheet lib f")
        (simp_all add: get_asset_sprite_def k load Let_def plain_asset_def caches_okI(2))
  next
    case (Some p)
    then show ?thesis using assms caches_okD(2) [OF assms Some] by (simp add: get_asset_sprite_def k)
  qed
qed

interpretation assets: memo "get_asset_sprite lib" "plain_asset lib" "caches_ok lib" "\<lambda>_. True" for lib
  by unfold_locales (simp_all add: get_asset_sprite_ok)

lemma get_asset_sprite_cases:
  assumes "caches_ok lib c"
  obtains c1 where "get_asset_sprite lib k c = (plain_asset lib k, c1)" "caches_ok lib c1"
  using get_asset_sprite_ok [OF assms, of k] by (metis prod.collapse)

lemma build_environment_ok:
  assumes "caches_ok lib c"
  shows "fst (build_environment_asset_sprite lib k c) = fst (build_environment_asset_sprite lib k new_caches)
       \<and> caches_ok lib (snd (build_environment_asset_sprite lib k c))"
proof -
  obtain kind st w h where k: "k = (kind, st, w, h)" by (cases k)
  let ?castle = "(''Castle.png'', rect_at 0 0 80 80, w, h)"
  obtain c1 where c1: "get_asset_sprite lib ?castle c = (plain_asset lib ?castle, c1)" "caches_ok lib c1"
    using get_asset_sprite_cases [OF assms] .
  obtain c2 where c2: "get_asset_sprite lib ?castle new_caches = (plain_asset lib ?castle, c2)"
    using get_asset_sprite_cases [OF new_caches_ok] .
  show ?thesis
  proof (cases "kind = ''gate''")
    case True
    then show ?thesis
      using c1 c2 by (cases "plain_asset lib ?castle") (simp_all add: build_environment_asset_sprite_def k)
  next
    case False
    then show ?thesis
      using assms by (simp add: build_environment_asset_sprite_def k get_asset_sprite_ok split: option.split)
  qed
qed

interpretation environment: memo "get_environment_sprite lib" "plain_environment lib" "caches_ok lib" "\<lambda>_. True"
  for lib
proof unfold_locales
  fix c k
  assume ok: "caches_ok lib c"
  define b where "b = fst (build_environment_asset_sprite lib k new_caches)"
  obtain c1 where run: "build_environment_asset_sprite lib k c = (b, c1)" and c1: "caches_ok lib c1"
    using build_environment_ok [OF ok, of k] unfolding b_def by (metis prod.collapse)
  have plain: "plain_environment lib k
      = map_sum id (\<lambda>built. case built of Some p \<Rightarrow> p | None \<Rightarrow> environment_fallback k) b"
    by (simp add: plain_environment_def b_def)
  have "fst (get_environment_sprite lib k c) = plain_environment lib k
      \<and> caches_ok lib (snd (get_environment_sprite lib k c))"
  proof (cases "map_of (env_cache c) k")
    case None
    then show ?thesis
      using c1 plain by (cases b) (simp_all add: get_environment_sprite_def run Let_def caches_okI(3))
  next
    case (Some p)
    then show ?thesis using ok caches_okD(3) [OF ok Some] by (simp add: get_environment_sprite_def)
  qed
  then show "fst (get_environment_sprite lib k c) = plain_environment lib k"
    and "caches_ok lib (snd (get_environment_sprite lib k c))" by simp_all
qed

subsection \<open>Players and the whole screen\<close>

text \<open>A player whose name is the one of its join index, as the lobby hands them out.\<close>

definition well_named :: "ident \<Rightarrow> int \<Rightarrow> bool" where
  "well_named pid ji \<longleftrightarrow> pid = player_id_for ji \<and> 0 \<le> ji \<and> ji < 4"

lemma body_colour_inj:
  assumes "0 \<le> i" "i < 4" "0 \<le> j" "j < 4" "body_colour (player_id_for i) = body_colour (player_id_for j)"
  shows "i = j"
proof -
  have "i \<in> {0, 1, 2, 3}" "j \<in> {0, 1, 2, 3}" using assms(1-4) by auto
  then show ?thesis
    using assms(5) by (auto simp: player_ids body_colour_def player_palette_def)
qed

lemma build_player_asset_ok:
  assumes "caches_ok lib c"
  shows "fst (build_player_asset_sprite lib ji st frame w h facing c)
       = fst (build_player_asset_sprite lib ji st frame w h facing new_caches)
     \<and> caches_ok lib (snd (build_player_asset_sprite lib ji st frame w h facing c))"
  using assms by (simp add: build_player_asset_sprite_def get_asset_sprite_ok split: prod.split)

lemma get_cached_player_sprite_ok:
  assumes "caches_ok lib c" "well_named pid ji"
  shows "fst (get_cached_player_sprite lib pid ji st frame w h facing c)
       = plain_player lib (body_colour pid) ji st frame w h facing
     \<and> caches_ok lib (snd (get_cached_player_sprite lib pid ji st frame w h facing c))"
proof -
  note ji = assms(2) [unfolded well_named_def]
  define b where "b = fst (build_player_asset_sprite lib ji st frame w h facing new_caches)"
  obtain c1 where run: "build_player_asset_sprite lib ji st frame w h facing c = (b, c1)" and c1: "caches_ok lib c1"
    using build_player_asset_ok [OF assms(1)] unfolding b_def by (metis prod.collapse)
  let ?k = "(body_colour pid, st, frame, w, h, facing)"
  let ?p = "plain_player lib (body_colour pid) ji st frame w h facing"
  have p: "(case b of Some p \<Rightarrow> p | None \<Rightarrow> build_sprite (body_colour pid) st frame w h facing) = ?p"
    by (simp add: plain_player_def b_def)
  show ?thesis
  proof (cases "map_of (body_cache c) ?k")
    case None
    have "caches_ok lib (c1\<lparr>body_cache := AList.update ?k ?p (body_cache c1)\<rparr>)"
      using c1 ji unfolding caches_ok_def
      by (auto simp: update_conv' dest: body_colour_inj split: if_splits)
    then show ?thesis using None by (simp add: get_cached_player_sprite_def run Let_def p)
  next
    case (Some q)
    then show ?thesis
      using assms(1) ji caches_okD(4) [OF assms(1), of ji] by (simp add: get_cached_player_sprite_def Let_def)
  qed
qed

fun request_ok :: "sprite \<Rightarrow> bool" where
  "request_ok (Player_Sprite pid ji st frame w h facing) = well_named pid ji"
| "request_ok _ = True"

interpretation screen: memo "fetch lib" "plain lib" "caches_ok lib" request_ok for lib
proof unfold_locales
  fix c k
  assume ok: "caches_ok lib c" "request_ok k"
  have "fst (fetch lib k c) = plain lib k \<and> caches_ok lib (snd (fetch lib k c))"
    using ok by (cases k)
      (simp_all add: get_platform_tile_def get_decoration_sprite_def get_asset_sprite_ok
        get_cached_player_sprite_ok environment.answer environment.stays split: option.split)
  then show "fst (fetch lib k c) = plain lib k" "caches_ok lib (snd (fetch lib k c))" by simp_all
qed

end
