(* ===== verification/Sprites_Props.thy ===== *)
theory Sprites_Props
  imports Sprites
begin

text \<open>
  The renderer together with its caches: however many frames were drawn before, every command of a
  frame shows the picture that would be built from scratch, as long as the players carry the names
  the lobby gives them.  And what happens when a player is spawned with another join index.
\<close>

subsection \<open>Players keep their names through the renderer\<close>

definition frame_named :: "render_frame \<Rightarrow> bool" where
  "frame_named f \<longleftrightarrow> (\<forall>c \<in> snd ` set (fr_characters f). well_named (rc_player_id c) (rc_join_index c))"

definition renderer_named :: "renderer \<Rightarrow> bool" where
  "renderer_named r \<longleftrightarrow>
     (\<forall>c \<in> snd ` set (rn_last r). well_named (rc_player_id c) (rc_join_index c)) \<and>
     (\<forall>e \<in> snd ` set (rn_deaths r).
        well_named (rc_player_id (de_character e)) (rc_join_index (de_character e)))"

definition drawing_named :: "draw list \<times> renderer \<Rightarrow> bool" where
  "drawing_named s \<longleftrightarrow> list_all request_ok (map dr_sprite (fst s)) \<and> renderer_named (snd s)"

lemma drawing_namedI:
  "list_all request_ok (map dr_sprite ds) \<Longrightarrow> renderer_named r \<Longrightarrow> drawing_named (ds, r)"
  by (simp add: drawing_named_def)

lemma update_values: "snd ` set (AList.update k v xs) \<subseteq> insert v (snd ` set xs)"
  by (induction xs) auto

lemma new_renderer_named [simp]: "renderer_named (new_renderer w h)"
  by (simp add: renderer_named_def new_renderer_def)

lemma new_death_named:
  assumes "renderer_named r" "map_of (rn_last r) pid = Some c"
  shows "renderer_named (r\<lparr>rn_deaths := AList.update pid \<lparr>de_character = c, de_started_at = now\<rparr> (rn_deaths r)\<rparr>)"
  using assms update_values [of pid "\<lparr>de_character = c, de_started_at = now\<rparr>" "rn_deaths r"]
    map_of_SomeD [OF assms(2)] unfolding renderer_named_def by fastforce

lemma filtered_deaths_named:
  "renderer_named r \<Longrightarrow> renderer_named (r\<lparr>rn_deaths := filter P (rn_deaths r)\<rparr>)"
  by (auto simp: renderer_named_def)

lemma sync_deaths_named: "renderer_named r \<Longrightarrow> renderer_named (sync_player_death_effects f now r)"
  unfolding sync_player_death_effects_def Let_def
  by (intro filtered_deaths_named fold_invariant [where Q = "\<lambda>_. True" and P = renderer_named])
    (simp_all add: new_death_named split: option.split)

lemma get_player_sprite_named:
  assumes "get_player_sprite now c r = (sp, r')" "well_named (rc_player_id c) (rc_join_index c)" "renderer_named r"
  shows "request_ok sp \<and> renderer_named r'"
  using assms by (auto simp: get_player_sprite_def resolve_facing_def Let_def renderer_named_def split: prod.splits)

lemma render_player_named:
  assumes "well_named (rc_player_id c) (rc_join_index c)" "drawing_named s"
  shows "drawing_named (render_player now off c s)"
proof -
  obtain ds r where s: "s = (ds, r)" by force
  obtain sp r1 where "get_player_sprite now c r = (sp, r1)" by force
  then show ?thesis
    using get_player_sprite_named assms by (simp add: s render_player_def drawing_named_def)
qed

lemma render_death_named:
  assumes "well_named (rc_player_id (de_character e)) (rc_join_index (de_character e))" "drawing_named s"
  shows "drawing_named (render_death now off (pid, e) s)"
proof -
  obtain ds r where s: "s = (ds, r)" by force
  let ?c = "(de_character e)\<lparr>rc_vx := 0, rc_vy := 0, rc_on_ground := False\<rparr>"
  obtain sp r1 where sp: "get_player_sprite now ?c r = (sp, r1)" by force
  have "renderer_named r" using assms(2) by (simp add: s drawing_named_def)
  then have "renderer_named (r\<lparr>rn_deaths := AList.delete pid (rn_deaths r)\<rparr>)"
    by (simp add: AList.delete_eq filtered_deaths_named)
  then show ?thesis
    using assms sp get_player_sprite_named [OF sp]
    by (simp add: s render_death_def drawing_named_def Let_def)
qed

lemma render_deaths_named:
  assumes "drawing_named s"
  shows "drawing_named (render_player_death_effects now off s)"
  unfolding render_player_death_effects_def
proof (rule fold_invariant [where Q = "\<lambda>(pid, e).
      well_named (rc_player_id (de_character e)) (rc_join_index (de_character e))"])
  show "case x of (pid, e) \<Rightarrow> well_named (rc_player_id (de_character e)) (rc_join_index (de_character e))"
    if "x \<in> set (rn_deaths (snd s))" for x
    using assms that by (cases x) (force simp: drawing_named_def renderer_named_def)
  show "drawing_named (render_death now off x s)"
    if "case x of (pid, e) \<Rightarrow> well_named (rc_player_id (de_character e)) (rc_join_index (de_character e))"
      "drawing_named s" for x s
    using that by (cases x) (simp add: render_death_named)
qed (rule assms)

lemma render_collection_named: "drawing_named s \<Longrightarrow> drawing_named (render_collection f now off x s)"
  by (cases s; cases x)
    (simp add: render_collection_def drawing_named_def renderer_named_def Let_def split: option.split)

lemma render_collections_named:
  "drawing_named s \<Longrightarrow> drawing_named (render_powerup_collection_effects f now off s)"
  unfolding render_powerup_collection_effects_def
  by (rule fold_invariant [where Q = "\<lambda>_. True"]) (simp_all add: render_collection_named)

lemma render_power_up_named: "drawing_named s \<Longrightarrow> drawing_named (render_power_up now off u s)"
  by (cases s) (simp add: render_power_up_def drawing_named_def renderer_named_def body_draw_def Let_def)

lemma render_environment_named:
  assumes "drawing_named s"
  shows "drawing_named (render_environment f now off s)"
proof -
  define blocks where "blocks = map (body_draw ''block'' ''intact'' off) (filter (\<lambda>b. \<not> rb_destroyed b) (fr_blocks f))"
  obtain ds r where run: "fold (render_power_up now off) (map snd (fr_power_ups f)) (fst s @ blocks, snd s) = (ds, r)"
    by force
  have "drawing_named (fold (render_power_up now off) (map snd (fr_power_ups f)) (fst s @ blocks, snd s))"
    by (rule fold_invariant [where Q = "\<lambda>_. True"])
      (use assms in \<open>simp_all add: render_power_up_named\<close>, auto simp: drawing_named_def blocks_def body_draw_def list_all_iff)
  then show ?thesis
    by (auto simp: render_environment_def run drawing_named_def renderer_named_def body_draw_def list_all_iff
        simp flip: blocks_def)
qed

lemma sync_toasts_named: "renderer_named r \<Longrightarrow> renderer_named (sync_checkpoint_toasts f now r)"
  unfolding sync_checkpoint_toasts_def
  by (rule fold_invariant [where Q = "\<lambda>_. True"])
    (auto simp: sync_checkpoint_toast_def renderer_named_def)

lemma render_toast_named: "drawing_named s \<Longrightarrow> drawing_named (render_toast now x s)"
  by (cases s; cases x) (simp add: render_toast_def drawing_named_def renderer_named_def Let_def)

lemma render_toasts_named: "drawing_named s \<Longrightarrow> drawing_named (render_checkpoint_toasts now s)"
  unfolding render_checkpoint_toasts_def
  by (rule fold_invariant [where Q = "\<lambda>_. True"]) (simp_all add: render_toast_named)

lemma backgrounds_named:
  "list_all request_ok (map dr_sprite (render_decoration_layer meets has_sheet r f off kinds))"
  "list_all request_ok (map dr_sprite (render_platforms meets has_sheet r rects off))"
  by (auto simp: render_decoration_layer_def render_platforms_def list_all_iff split: if_splits)

lemma render_named:
  assumes "frame_named f" "renderer_named r"
  shows "drawing_named (render meets has_sheet now f r)"
proof -
  define r1 where "r1 = sync_player_death_effects f now r"
  define rects where "rects = map rect_of (fr_platforms f)"
  define off where "off = camera_offset (rn_width r1) (rn_height r1) (rn_offset r1) f rects"
  define r2 where "r2 = r1\<lparr>rn_offset := off\<rparr>"
  define bg where "bg = render_decoration_layer meets has_sheet r2 f off BACKGROUND_DECORATION_KINDS
    @ render_platforms meets has_sheet r2 rects off
    @ render_decoration_layer meets has_sheet r2 f off FOREGROUND_DECORATION_KINDS"
  define s5 where "s5 = render_player_death_effects now off (render_powerup_collection_effects f now off
    (render_environment f now off (bg, r2)))"
  define s6 where "s6 = fold (render_player now off) (draw_order (map snd (fr_characters f))) s5"
  have "renderer_named r2"
    using sync_deaths_named [OF assms(2), of f now] by (simp add: r2_def r1_def renderer_named_def)
  then have "drawing_named s5"
    unfolding s5_def by (intro render_deaths_named render_collections_named render_environment_named drawing_namedI)
      (simp_all add: bg_def backgrounds_named)
  then have "drawing_named s6"
    unfolding s6_def
    by (rule fold_invariant [where Q = "\<lambda>c. well_named (rc_player_id c) (rc_join_index c)", rotated])
      (use assms(1) in \<open>auto simp: frame_named_def draw_order_def intro: render_player_named\<close>)
  then have "drawing_named (render_checkpoint_toasts now
      (fst s6 @ [\<lparr>dr_sprite = Counter_Panel (counter_lines f),
                  dr_pos = (rn_width (remember_rendered_characters f (snd s6)), 16), dr_alpha = 160\<rparr>],
       sync_checkpoint_toasts f now (remember_rendered_characters f (snd s6))))"
    using assms(1)
    by (intro render_toasts_named drawing_namedI sync_toasts_named)
      (auto simp: drawing_named_def renderer_named_def frame_named_def remember_rendered_characters_def)
  then show ?thesis
    by (simp add: render_def Let_def drawing_named_def flip: r1_def rects_def off_def r2_def bg_def s5_def s6_def)
qed

lemma built_frame_named:
  assumes "\<forall>p \<in> snd ` set (characters w). well_named (player_id p) (join_index p)"
  shows "frame_named (build_render_frame now w ps ds focus ww wh)"
  using assms by (auto simp: frame_named_def build_render_frame_def render_character_of_def map_vals_def)

subsection \<open>What the screen shows\<close>

text \<open>The commands of a frame in their order, each with its picture, position and opacity: with the
  caches carried from frame to frame, and built from scratch.\<close>

type_synonym 's shown = "'s picture option result \<times> (int \<times> int) \<times> int"

definition placed :: "'s picture option result list \<Rightarrow> draw list \<Rightarrow> 's shown list" where
  "placed ps ds = zip ps (map (\<lambda>d. (dr_pos d, dr_alpha d)) ds)"

fun show_frames ::
    "'s image_lib \<Rightarrow> (rect \<Rightarrow> rect \<Rightarrow> bool) \<Rightarrow> (int \<times> render_frame) list \<Rightarrow> renderer \<Rightarrow> 's caches \<Rightarrow>
     's shown list list" where
  "show_frames lib meets [] r c = []"
| "show_frames lib meets ((now, f) # fs) r c =
     (let (ds, r1) = render meets (read_sheet lib ''OverWorld.png'' \<noteq> None) now f r;
          (ps, c1) = serve (fetch lib) (map dr_sprite ds) c
      in placed ps ds # show_frames lib meets fs r1 c1)"

fun plain_frames ::
    "'s image_lib \<Rightarrow> (rect \<Rightarrow> rect \<Rightarrow> bool) \<Rightarrow> (int \<times> render_frame) list \<Rightarrow> renderer \<Rightarrow> 's shown list list" where
  "plain_frames lib meets [] r = []"
| "plain_frames lib meets ((now, f) # fs) r =
     (let (ds, r1) = render meets (read_sheet lib ''OverWorld.png'' \<noteq> None) now f r
      in placed (map (plain lib) (map dr_sprite ds)) ds # plain_frames lib meets fs r1)"

lemma show_frames_plain:
  assumes "\<forall>(now, f) \<in> set fs. frame_named f" "renderer_named r" "caches_ok lib c"
  shows "show_frames lib meets fs r c = plain_frames lib meets fs r"
  using assms
proof (induction fs arbitrary: r c)
  case (Cons x fs)
  obtain now f where x: "x = (now, f)" by force
  obtain ds r1 where draws: "render meets (read_sheet lib ''OverWorld.png'' \<noteq> None) now f r = (ds, r1)" by force
  have named: "list_all request_ok (map dr_sprite ds)" "renderer_named r1"
    using render_named [of f r meets "read_sheet lib ''OverWorld.png'' \<noteq> None" now] Cons.prems(1,2)
    unfolding draws drawing_named_def by (auto simp: x)
  obtain ps c1 where run: "serve (fetch lib) (map dr_sprite ds) c = (ps, c1)" by force
  have "ps = map (plain lib) (map dr_sprite ds)" "caches_ok lib c1"
    using screen.serve_exact [OF Cons.prems(3) named(1)] run by simp_all
  then show ?case
    using Cons.IH [OF _ named(2), of c1] Cons.prems(1) draws run by (simp add: x)
qed simp

text \<open>C32: the four image caches are transparent: for every sequence of frames drawn by a new renderer,
  in which every player carries the name of its join index, each drawing command shows exactly the
  picture that would be built from scratch (a sheet region, a fallback figure, or the error of an
  unknown kind of enemy), at the same place and opacity.\<close>

theorem caches_never_show:
  assumes "\<forall>(now, f) \<in> set fs. frame_named f"
  shows "show_frames lib meets fs (new_renderer w h) new_caches = plain_frames lib meets fs (new_renderer w h)"
  using show_frames_plain [OF assms new_renderer_named new_caches_ok] .

definition example_lib :: "string image_lib" where
  "example_lib = \<lparr>lib_exists = (\<lambda>f. f \<noteq> ''Castle.png''), lib_load = Some, lib_opaque = (\<lambda>_. True),
     lib_key_black = Some, lib_convert = (\<lambda>_. None), lib_copy = id\<rparr>"

definition example_character :: render_character where
  "example_character = \<lparr>pos_x = 100, pos_y = 200, width = 75, height = 75, rc_player_id = ''player2'',
     rc_vx = 3, rc_vy = 0, rc_on_ground = True, rc_is_crouching = False, rc_join_index = 1,
     rc_powerup_effect_active = False\<rparr>"

definition example_shot :: render_frame where
  "example_shot = \<lparr>fr_sequence_number = 1, fr_characters = [(''player2'', example_character)],
     fr_respawning = {}, fr_platforms = [], fr_decorations = [], fr_blocks = [], fr_power_ups = [],
     fr_gates = [], fr_enemies = [], fr_coins_collected = 0, fr_coins_to_win = 3, fr_blocks_destroyed = 0,
     fr_blocks_to_win = 0, fr_enemies_defeated = 0, fr_enemies_to_win = 1, fr_victory = False,
     fr_focus_player_id = Some ''player2'', fr_world_width = 960, fr_world_height = 720\<rparr>"

lemma example_shot_named: "frame_named example_shot"
  by (simp add: frame_named_def example_shot_def example_character_def well_named_def player_ids)

lemma caches_never_show_witness:
  "show_frames example_lib (\<lambda>_ _. True) [(0, example_shot), (140, example_shot), (280, example_shot)]
       (new_renderer 960 720) new_caches
     = plain_frames example_lib (\<lambda>_ _. True) [(0, example_shot), (140, example_shot), (280, example_shot)]
         (new_renderer 960 720)"
  by (rule caches_never_show) (simp add: example_shot_named)

subsection \<open>A player with another join index\<close>

text \<open>The key of a player sprite holds the colour of the player and not its join index, while the
  sheet is chosen by the join index.\<close>

lemma player_sheets:
  "nat (0 mod 4) = 0" "nat (1 mod 4) = 1" "PLAYER_SPRITE_SHEETS ! 0 = (''Mario.png'', 32, 8)"
  "PLAYER_SPRITE_SHEETS ! Suc 0 = (''luigi.png'', 32, 8)"
  by (simp_all add: PLAYER_SPRITE_SHEETS_def MARIO_FRAME_SIZE_def)

text \<open>The player sprites are looked up by colour, not by join index: when a player of index 1 is
  spawned again with index 0 (which a promoted host does), it is still shown from its own sheet in the
  poses drawn before and from the first player's sheet in every other pose, so it changes its
  appearance with its movements; from scratch it would be shown from the first sheet always.\<close>

theorem respawned_player_changes_appearance:
  assumes "read_sheet lib ''Mario.png'' = Some mario" "read_sheet lib ''luigi.png'' = Some luigi" "mario \<noteq> luigi"
    and "(st', frame') \<noteq> (st, frame)"
  shows "let old = Player_Sprite ''player2'' 1 st frame w h facing;
             back = Player_Sprite ''player2'' 0 st frame w h facing;
             other = Player_Sprite ''player2'' 0 st' frame' w h facing
         in fst (serve (fetch lib) [old, back, other] new_caches) = [plain lib old, plain lib old, plain lib other] \<and>
            plain lib old \<noteq> plain lib back"
  using assms
  by (auto simp: Let_def get_cached_player_sprite_def new_caches_def build_player_asset_sprite_def
      player_sheets get_asset_sprite_def load_asset_sheet_def plain_player_def faced_def split: if_splits)

lemma respawned_player_changes_appearance_witness:
  "let old = Player_Sprite ''player2'' 1 ''idle'' 0 75 75 1;
       back = Player_Sprite ''player2'' 0 ''idle'' 0 75 75 1;
       other = Player_Sprite ''player2'' 0 ''jump'' 0 75 75 1
   in fst (serve (fetch example_lib) [old, back, other] new_caches)
        = [plain example_lib old, plain example_lib old, plain example_lib other] \<and>
      plain example_lib old \<noteq> plain example_lib back"
  using respawned_player_changes_appearance
    [of example_lib "''Mario.png''" "''luigi.png''" "''jump''" 0 "''idle''" 0 75 75 1]
  by (simp add: example_lib_def read_sheet_def)

text \<open>Without its sheet an enemy is drawn as a surface with nothing on it.\<close>

lemma missing_sheet_hides_enemies:
  assumes "read_sheet lib ''Enemies.png'' = None"
  shows "plain lib (Env_Sprite ''enemy'' ''goomba'' w h) = Inr (Some (Blank w h))"
  using assms
  by (simp add: plain_environment_def build_environment_asset_sprite_def get_asset_sprite_def new_caches_def
      load_asset_sheet_def environment_fallback_def)

end
