(* ===== verification/Game_Window.thy ===== *)
theory Game_Window
  imports Renderer Node_Limits
begin

text \<open>
  The window of a running game: the frame a node hands to it (\<^verbatim>\<open>NodeController.process_frame\<close>), the
  caption and the quit test of \<^verbatim>\<open>presentation/app.py\<close>, and the geometry of the panels that
  \<^verbatim>\<open>presentation/renderer/ui.py\<close> lays over the picture.  The size of a rendered text is the font's: an
  argument \<open>extent\<close>.
\<close>

subsection \<open>The frame of a node\<close>

text \<open>\<open>now\<close> is the clock reading of \<^verbatim>\<open>build_render_frame\<close>.\<close>

definition node_frame ::
  "host_io \<Rightarrow> client_io \<Rightarrow> flt \<Rightarrow> input_state \<Rightarrow> node \<Rightarrow> (render_frame \<times> node) result" where
  "node_frame hio cio now inp n =
     rbind (process_frame hio cio inp n) (\<lambda>(w, n').
       Inr (build_render_frame now w (platforms (node_engine n')) (decorations (node_engine n'))
              (Some (n_local_player_id n')) (world_width (node_engine n')) (world_height (node_engine n')), n'))"

subsection \<open>The window\<close>

text \<open>\<^verbatim>\<open>_should_quit\<close>: the events since the last frame, up to the first request to quit; the rest of the
  queue was taken with it.\<close>

datatype window_event = Quit_Requested | Other_Window_Event

fun should_quit :: "window_event list \<Rightarrow> bool" where
  "should_quit [] = False"
| "should_quit (Quit_Requested # evs) = True"
| "should_quit (Other_Window_Event # evs) = should_quit evs"

definition coordinates :: "render_character \<Rightarrow> string" where
  "coordinates c = ''('' @ str_int (py_int (pos_x c)) @ '','' @ str_int (py_int (pos_y c)) @ '')''"

fun join_with :: "string \<Rightarrow> string list \<Rightarrow> string" where
  "join_with sep [] = []"
| "join_with sep [s] = s"
| "join_with sep (s # ss) = s @ sep @ join_with sep ss"

definition window_caption :: "ident \<Rightarrow> render_frame \<Rightarrow> string option" where
  "window_caption local f =
     (case map_of (fr_characters f) local of
        None \<Rightarrow> None
      | Some c \<Rightarrow>
          Some (''Distributed SMB ['' @ local @ ''] '' @ ''| local='' @ coordinates c @ '' | '' @
            join_with '' | '' (map (\<lambda>c. ''p'' @ str_int (rc_join_index c + 1) @ ''='' @ coordinates c)
              (sort_key rc_join_index (map snd (fr_characters f)))) @
            '' seq='' @ str_int (fr_sequence_number f)))"

subsection \<open>Panels\<close>

text \<open>\<^verbatim>\<open>surface.get_rect(center=...)\<close>\<close>

definition centred :: "int \<times> int \<Rightarrow> int \<times> int \<Rightarrow> rect" where
  "centred wh c = \<lparr>rect_x = fst c - fst wh div 2, rect_y = snd c - snd wh div 2, rect_w = fst wh, rect_h = snd wh\<rparr>"

text \<open>The counter panel, and each line of text in it.\<close>

definition counter_layout :: "(string \<Rightarrow> int \<times> int) \<Rightarrow> int \<Rightarrow> render_frame \<Rightarrow> rect \<times> rect list" where
  "counter_layout extent window_width f =
     (let ls = counter_lines f;
          panel_width = Max (set (map (fst \<circ> extent) ls)) + 24;
          line_height = snd (extent (hd ls)) + 4;
          panel_height = line_height * int (length ls) + 8;
          x = window_width - panel_width - 16;
          y = 16
      in (\<lparr>rect_x = x, rect_y = y, rect_w = panel_width, rect_h = panel_height\<rparr>,
          map (\<lambda>(i, l). \<lparr>rect_x = x + 12, rect_y = y + 6 + int i * line_height,
                         rect_w = fst (extent l), rect_h = snd (extent l)\<rparr>) (List.enumerate 0 ls)))"

definition toast_layout :: "(string \<Rightarrow> int \<times> int) \<Rightarrow> int \<Rightarrow> rect \<times> rect" where
  "toast_layout extent window_width =
     (let t = extent ''CHECKPOINT'';
          panel = centred (fst t + 40, snd t + 20) (window_width div 2, 60)
      in (panel, \<lparr>rect_x = rect_x panel + 20, rect_y = rect_y panel + 10, rect_w = fst t, rect_h = snd t\<rparr>))"

definition victory_layout :: "(string \<Rightarrow> int \<times> int) \<Rightarrow> int \<Rightarrow> int \<Rightarrow> rect list" where
  "victory_layout extent w h =
     [centred (extent ''Victory!'') (w div 2, h div 2 - 20),
      centred (extent ''You reached the castle gate'') (w div 2, h div 2 + 20)]"

definition inside :: "rect \<Rightarrow> rect \<Rightarrow> bool" where
  "inside a b \<longleftrightarrow> rect_x b \<le> rect_x a \<and> rect_right a \<le> rect_right b \<and> rect_y b \<le> rect_y a \<and> rect_bottom a \<le> rect_bottom b"

text \<open>The panels fit: with a font whose lines have one height and are no wider than the window less the
  margins, the counters lie within their panel and the panel within the window, and the toast's text
  within its panel.\<close>

lemma panels_fit:
  assumes "\<forall>s. 0 \<le> fst (extent s) \<and> fst (extent s) + 40 \<le> w" "\<forall>s. snd (extent s) = line" "0 \<le> line"
    and "3 * line + 36 \<le> h"
  shows "(case counter_layout extent w f of (panel, texts) \<Rightarrow>
            inside panel \<lparr>rect_x = 0, rect_y = 0, rect_w = w, rect_h = h\<rparr> \<and> (\<forall>t \<in> set texts. inside t panel)) \<and>
         (case toast_layout extent w of (panel, t) \<Rightarrow> inside t panel)"
proof -
  obtain a b c where ls: "counter_lines f = [a, b, c]"
    by (simp add: counter_lines_def)
  define M where "M = Max (set (map (fst \<circ> extent) [a, b, c]))"
  have max: "fst (extent a) \<le> M" "fst (extent b) \<le> M" "fst (extent c) \<le> M" by (simp_all add: M_def)
  have "M \<in> set (map (fst \<circ> extent) [a, b, c])" unfolding M_def by (rule Max_in) simp_all
  moreover have widest: "max (fst (extent a)) (max (fst (extent b)) (fst (extent c))) = M" by (simp add: M_def)
  ultimately have "0 \<le> M" "M + 40 \<le> w" using assms(1) by auto
  then show ?thesis
    using max assms(2-4)
    by (simp add: counter_layout_def ls Let_def inside_def toast_layout_def centred_def widest)
qed

text \<open>The caption names the local player; there is none while that player is not in the world.\<close>

lemma window_caption_iff:
  "window_caption local f = None \<longleftrightarrow> local \<notin> fst ` set (fr_characters f)"
  by (auto simp: window_caption_def map_of_eq_None_iff [symmetric] split: option.split)

end
