(* ===== verification/Command_Line.thy ===== *)
theory Command_Line
  imports Runner
begin

text \<open>
  The command line of a node (\<^verbatim>\<open>parse_args\<close> in \<^verbatim>\<open>main.py\<close>): the options as they are declared, read the
  way the standard library's argument parser reads them, with abbreviated and \<^verbatim>\<open>--option=value\<close> forms.
  An ambiguous abbreviation is reported when it is reached; reading a float from a string is the
  argument \<open>to_float\<close>.
\<close>

datatype cli_option =
    Opt_Help | Opt_Host | Opt_Client | Opt_Drop_Rate | Opt_Host_Ip | Opt_Session_Id | Opt_Local_Ip | Opt_Latency

definition option_strings :: "(string \<times> cli_option) list" where
  "option_strings =
     [(''--help'', Opt_Help), (''--host'', Opt_Host), (''--client'', Opt_Client),
      (''--drop-rate'', Opt_Drop_Rate), (''--host-ip'', Opt_Host_Ip), (''--session-id'', Opt_Session_Id),
      (''--local-ip'', Opt_Local_Ip), (''--latency'', Opt_Latency)]"

record namespace =
  ns_host :: bool
  ns_client :: bool
  ns_drop_rate :: flt
  ns_host_ip :: "string option"
  ns_session_id :: string
  ns_local_ip :: "string option"
  ns_latency :: int

definition default_namespace :: namespace where
  "default_namespace = \<lparr>ns_host = False, ns_client = False, ns_drop_rate = DEFAULT_PACKET_DROP_RATE,
     ns_host_ip = None, ns_session_id = [], ns_local_ip = None, ns_latency = 0\<rparr>"

datatype cli_result = Parsed namespace | Usage_Error | Help_Shown

subsection \<open>Reading one argument\<close>

datatype cli_token = Positional | Option_Token cli_option "string option" | Unknown_Option | Ambiguous_Option

definition is_prefix :: "string \<Rightarrow> string \<Rightarrow> bool" where
  "is_prefix p s \<longleftrightarrow> take (length p) s = p"

definition ascii_digit :: "char \<Rightarrow> bool" where
  "ascii_digit c \<longleftrightarrow> c \<in> set ''0123456789''"

text \<open>An argument that looks like a negative number is a value.\<close>

definition negative_number :: "string \<Rightarrow> bool" where
  "negative_number s \<longleftrightarrow>
     (case s of
        [] \<Rightarrow> False
      | c # ds \<Rightarrow> c = CHR ''-'' \<and>
          ((ds \<noteq> [] \<and> list_all ascii_digit ds) \<or>
           (case dropWhile ascii_digit ds of
              [] \<Rightarrow> False
            | d # fs \<Rightarrow> d = CHR ''.'' \<and> fs \<noteq> [] \<and> list_all ascii_digit fs)))"

text \<open>The name and the explicit value of \<^verbatim>\<open>--name=value\<close>.\<close>

definition split_equals :: "string \<Rightarrow> string \<times> string option" where
  "split_equals s =
     (case dropWhile (\<lambda>c. c \<noteq> CHR ''='') s of
        [] \<Rightarrow> (s, None)
      | _ # v \<Rightarrow> (takeWhile (\<lambda>c. c \<noteq> CHR ''='') s, Some v))"

definition classify :: "string \<Rightarrow> cli_token" where
  "classify a =
     (if \<not> is_prefix ''-'' a \<or> a = ''-'' then Positional
      else if a = ''-h'' then Option_Token Opt_Help None
      else if is_prefix ''--'' a then
        (case map_of option_strings a of
           Some opt \<Rightarrow> Option_Token opt None
         | None \<Rightarrow>
             (let (name, value) = split_equals a in
              case map_of option_strings name of
                Some opt \<Rightarrow> Option_Token opt value
              | None \<Rightarrow>
                  (case filter (\<lambda>(s, opt). is_prefix name s) option_strings of
                     [(s, opt)] \<Rightarrow> Option_Token opt value
                   | _ # _ # _ \<Rightarrow> Ambiguous_Option
                   | [] \<Rightarrow> if CHR '' '' \<in> set a then Positional else Unknown_Option)))
      else if negative_number a \<or> CHR '' '' \<in> set a then Positional
      else Unknown_Option)"

subsection \<open>Reading the line\<close>

definition set_role :: "cli_option \<Rightarrow> namespace \<Rightarrow> namespace option" where
  "set_role opt ns =
     (case opt of
        Opt_Host \<Rightarrow> if ns_client ns then None else Some (ns\<lparr>ns_host := True\<rparr>)
      | Opt_Client \<Rightarrow> if ns_host ns then None else Some (ns\<lparr>ns_client := True\<rparr>)
      | _ \<Rightarrow> None)"

definition set_value :: "(string \<Rightarrow> flt option) \<Rightarrow> cli_option \<Rightarrow> string \<Rightarrow> namespace \<Rightarrow> namespace option" where
  "set_value to_float opt v ns =
     (case opt of
        Opt_Drop_Rate \<Rightarrow> map_option (\<lambda>r. ns\<lparr>ns_drop_rate := r\<rparr>) (drop_rate (to_float v))
      | Opt_Host_Ip \<Rightarrow> Some (ns\<lparr>ns_host_ip := Some v\<rparr>)
      | Opt_Session_Id \<Rightarrow> Some (ns\<lparr>ns_session_id := v\<rparr>)
      | Opt_Local_Ip \<Rightarrow> Some (ns\<lparr>ns_local_ip := Some v\<rparr>)
      | Opt_Latency \<Rightarrow> (case int_of_string v of Inl _ \<Rightarrow> None | Inr i \<Rightarrow> Some (ns\<lparr>ns_latency := i\<rparr>))
      | _ \<Rightarrow> None)"

text \<open>\<open>extras\<close> says whether an argument was left over: it is an error, but only at the end of the line.\<close>

fun parse_from :: "(string \<Rightarrow> flt option) \<Rightarrow> string list \<Rightarrow> bool \<Rightarrow> namespace \<Rightarrow> cli_result" where
  "parse_from to_float [] extras ns = (if extras then Usage_Error else Parsed ns)"
| "parse_from to_float (a # as) extras ns =
     (if a = ''--'' then Usage_Error
      else case classify a of
        Positional \<Rightarrow> parse_from to_float as True ns
      | Unknown_Option \<Rightarrow> parse_from to_float as True ns
      | Ambiguous_Option \<Rightarrow> Usage_Error
      | Option_Token opt explicit \<Rightarrow>
          (if opt = Opt_Help then (if explicit = None then Help_Shown else Usage_Error)
           else if opt \<in> {Opt_Host, Opt_Client} then
             (case (if explicit = None then set_role opt ns else None) of
                None \<Rightarrow> Usage_Error
              | Some ns' \<Rightarrow> parse_from to_float as extras ns')
           else
             (case explicit of
                Some v \<Rightarrow>
                  (case set_value to_float opt v ns of
                     None \<Rightarrow> Usage_Error
                   | Some ns' \<Rightarrow> parse_from to_float as extras ns')
              | None \<Rightarrow>
                  (case as of
                     [] \<Rightarrow> Usage_Error
                   | v # rest \<Rightarrow>
                       if v = ''--'' \<or> classify v \<noteq> Positional then Usage_Error
                       else (case set_value to_float opt v ns of
                               None \<Rightarrow> Usage_Error
                             | Some ns' \<Rightarrow> parse_from to_float rest extras ns')))))"

definition parse_args :: "(string \<Rightarrow> flt option) \<Rightarrow> string list \<Rightarrow> cli_result" where
  "parse_args to_float argv = parse_from to_float argv False default_namespace"

subsection \<open>What a program is started with\<close>

definition settings_ok :: "namespace \<Rightarrow> bool" where
  "settings_ok ns \<longleftrightarrow> \<not> (ns_host ns \<and> ns_client ns) \<and> 0 \<le> ns_drop_rate ns \<and> ns_drop_rate ns \<le> 1"

lemma set_role_ok: "settings_ok ns \<Longrightarrow> set_role opt ns = Some ns' \<Longrightarrow> settings_ok ns'"
  by (cases opt) (auto simp: set_role_def settings_ok_def split: if_splits)

lemma set_value_ok: "settings_ok ns \<Longrightarrow> set_value to_float opt v ns = Some ns' \<Longrightarrow> settings_ok ns'"
  by (cases opt) (auto simp: set_value_def settings_ok_def drop_rate_def split: sum.splits option.splits if_splits)

lemma parse_from_ok:
  "parse_from to_float as extras ns = Parsed ns' \<Longrightarrow> settings_ok ns \<Longrightarrow> settings_ok ns' \<and> \<not> extras"
proof (induction to_float as extras ns rule: parse_from.induct)
  case (1 to_float extras ns)
  then show ?case by (simp split: if_splits)
next
  case (2 to_float a as extras ns)
  then show ?case
    by (auto split: if_splits cli_token.splits option.splits list.splits intro: set_role_ok set_value_ok
        dest: set_role_ok set_value_ok) (metis set_value_ok)
qed

text \<open>Whatever the command line, a program that is not refused runs with a role that is not both, and with
  a loss rate that is a probability.\<close>

theorem parsed_settings_are_valid:
  assumes "parse_args to_float argv = Parsed ns"
  shows "settings_ok ns"
proof -
  have "settings_ok default_namespace"
    by (simp add: settings_ok_def default_namespace_def DEFAULT_PACKET_DROP_RATE_def)
  with parse_from_ok [OF assms [unfolded parse_args_def]] show ?thesis by simp
qed

lemma parsed_settings_are_valid_witness:
  "settings_ok \<lparr>ns_host = False, ns_client = True, ns_drop_rate = 0, ns_host_ip = Some ''10.0.0.7'',
     ns_session_id = ''s1'', ns_local_ip = None, ns_latency = - 5\<rparr>"
  by (rule parsed_settings_are_valid [of "\<lambda>_. None"
        "[''--client'', ''--session=s1'', ''--host-ip'', ''10.0.0.7'', ''--lat'', ''-5'']"]) code_simp

lemma an_abbreviation_can_be_ambiguous:
  "parse_args to_float [''--h''] = Usage_Error" "parse_args to_float [''--host''] = Parsed (default_namespace\<lparr>ns_host := True\<rparr>)"
  by code_simp+

end
