(* ===== verification/Diagnostics.thy ===== *)
theory Diagnostics
  imports Prediction Render_Frame
begin

text \<open>
  What a client reports about its corrections (\<^verbatim>\<open>_log_correction\<close> of the prediction engine): how far
  a reconciliation moved the local player, and how severe that is.  The log line is its data; the
  distance is kept as its square, as a rational number has no square root in general.
\<close>

definition RECONCILE_LOG_THRESHOLD :: flt where "RECONCILE_LOG_THRESHOLD = 1"
definition RECONCILE_LARGE_CORRECTION_THRESHOLD :: flt where "RECONCILE_LARGE_CORRECTION_THRESHOLD = 25"

text \<open>\<^verbatim>\<open>f"{x:.1f}"\<close>: one decimal, ties to even, with the sign in front.\<close>

definition one_decimal :: "flt \<Rightarrow> string" where
  "one_decimal x =
     (let tenths = py_round (\<bar>x\<bar> * 10)
      in (if x < 0 then ''-'' else []) @ str_int (tenths div 10) @ ''.'' @ str_int (tenths mod 10))"

definition fmt_rtt :: "flt option \<Rightarrow> string" where
  "fmt_rtt rtt_ms = (case rtt_ms of None \<Rightarrow> ''n/a'' | Some r \<Rightarrow> one_decimal r)"

record correction =
  co_dx :: flt
  co_dy :: flt
  co_client_seq :: int
  co_host_seq :: int
  co_replayed :: int
  co_rtt :: string

datatype correction_report =
    Small_Correction correction
  | Large_Correction correction "flt option" "flt option" bool

definition log_correction ::
    "int \<Rightarrow> int \<Rightarrow> history_entry list \<Rightarrow> (flt \<times> flt) option \<Rightarrow> flt option \<Rightarrow> flt option \<Rightarrow> flt option \<Rightarrow>
     player option \<Rightarrow> correction_report option" where
  "log_correction client_seq host_seq pending predicted predicted_vy authoritative_vy rtt reconciled =
     (case (predicted, reconciled) of
        (Some (px, py), Some q) \<Rightarrow>
          (let dx = pos_x q - px; dy = pos_y q - py; square = dx * dx + dy * dy;
               c = \<lparr>co_dx = dx, co_dy = dy, co_client_seq = client_seq, co_host_seq = host_seq,
                    co_replayed = int (length pending), co_rtt = fmt_rtt rtt\<rparr>
           in if square < RECONCILE_LOG_THRESHOLD * RECONCILE_LOG_THRESHOLD then None
              else if square \<ge> RECONCILE_LARGE_CORRECTION_THRESHOLD * RECONCILE_LARGE_CORRECTION_THRESHOLD
              then Some (Large_Correction c predicted_vy authoritative_vy
                          (\<exists>h \<in> set pending. jump (he_input_state h)))
              else Some (Small_Correction c))
      | _ \<Rightarrow> None)"

text \<open>\<^verbatim>\<open>reconcile\<close> with its report; \<open>now\<close> is the clock when the round trip is computed.  A history entry
  stamped with the time zero counts as not stamped.\<close>

definition round_trip :: "flt \<Rightarrow> history_entry option \<Rightarrow> flt option" where
  "round_trip now acknowledged =
     (case acknowledged of
        None \<Rightarrow> None
      | Some h \<Rightarrow> if he_sent_at h = 0 then None else Some ((now - he_sent_at h) * 1000))"

definition reconcile_reported ::
    "flt \<Rightarrow> (nat \<Rightarrow> tick_clock) \<Rightarrow> snapshot \<Rightarrow> game_engine \<Rightarrow> prediction \<Rightarrow>
     ((game_engine \<times> prediction) \<times> correction_report option) result" where
  "reconcile_reported now clks snap e p =
     (let w = snapshot_world snap; pid = pe_local_player_id p;
          before = get_player pid (world_state e)
      in rbind (reconcile clks snap e p) (\<lambda>(e', p').
           Inr ((e', p'), log_correction (engine_seq e) (sequence_number w) (pe_entries p')
             (map_option (\<lambda>q. (pos_x q, pos_y q)) before) (map_option vy before)
             (map_option vy (get_player pid w))
             (round_trip now (fst (acknowledge (sequence_number w) None (pe_entries p))))
             (get_player pid (world_state e')))))"

text \<open>Reporting changes nothing, says nothing of a player it cannot compare, and grades a correction by
  its length: nothing below one pixel, large from twenty-five on.\<close>

lemma reconcile_reported_same:
  "map_sum id fst (reconcile_reported now clks snap e p) = reconcile clks snap e p"
  by (cases "reconcile clks snap e p") (auto simp: reconcile_reported_def Let_def split_beta)

lemma corrections_are_graded:
  "(\<exists>c. log_correction cs hs pending (Some (px, py)) pv av rtt (Some q) = Some (Small_Correction c))
     \<longleftrightarrow> 1 \<le> (pos_x q - px)\<^sup>2 + (pos_y q - py)\<^sup>2 \<and> (pos_x q - px)\<^sup>2 + (pos_y q - py)\<^sup>2 < 625"
  "(\<exists>c a b j. log_correction cs hs pending (Some (px, py)) pv av rtt (Some q) = Some (Large_Correction c a b j))
     \<longleftrightarrow> 625 \<le> (pos_x q - px)\<^sup>2 + (pos_y q - py)\<^sup>2"
  by (auto simp: log_correction_def Let_def power2_eq_square RECONCILE_LOG_THRESHOLD_def
      RECONCILE_LARGE_CORRECTION_THRESHOLD_def)

lemma absent_players_are_not_reported:
  "log_correction cs hs pending None pv av rtt q = None"
  "log_correction cs hs pending predicted pv av rtt None = None"
  by (simp_all add: log_correction_def split: option.split)

end
