(* ===== verification/Screens.thy ===== *)
theory Screens
  imports Connections Render_Frame
begin

text \<open>
  The screens before the game (\<^verbatim>\<open>presentation/screens\<close>): the forms that ask what to join, the lobby
  view with its buttons, the transition into the game and the menu.  The events of pygame, the mouse,
  the clipboard, the clock and the width of a rendered text are arguments; what a screen draws is the
  list of its drawing commands, in order.
\<close>

subsection \<open>Events\<close>

datatype ui_key = K_ESCAPE | K_TAB | K_RETURN | K_BACKSPACE | K_v | K_other

datatype ui_event =
  Quit
| Key_Down ui_key bool
| Mouse_Down int "int \<times> int"
| Text_Input string
| Other_Event

text \<open>\<^verbatim>\<open>str.isprintable\<close>, for the ASCII strings of the model.\<close>

definition isprintable :: "string \<Rightarrow> bool" where
  "isprintable s \<longleftrightarrow> (\<forall>c \<in> set s. CHR '' '' \<le> c \<and> c \<le> CHR ''~'')"

text \<open>A rectangle of the screen: left, top, width and height; the right and lower edges do not belong to it.\<close>

type_synonym box = "int \<times> int \<times> int \<times> int"

fun collidepoint :: "box \<Rightarrow> int \<times> int \<Rightarrow> bool" where
  "collidepoint (x, y, w, h) (px, py) \<longleftrightarrow> x \<le> px \<and> px < x + w \<and> y \<le> py \<and> py < y + h"

subsection \<open>Asking for host and session\<close>

record join_form =
  jf_host_ip :: string
  jf_session_id :: string
  jf_host_active :: bool
  jf_error :: string

datatype 'a prompt = Editing 'a | Cancelled | Answered string string

definition HOST_IP_LIMIT :: nat where "HOST_IP_LIMIT = 64"
definition SESSION_ID_LIMIT :: nat where "SESSION_ID_LIMIT = 96"

definition paste :: "string \<Rightarrow> join_form \<Rightarrow> join_form" where
  "paste text f =
     (if jf_host_active f then f\<lparr>jf_host_ip := take HOST_IP_LIMIT (jf_host_ip f @ text)\<rparr>
      else f\<lparr>jf_session_id := take SESSION_ID_LIMIT (jf_session_id f @ text)\<rparr>)"

definition type_text :: "string \<Rightarrow> join_form \<Rightarrow> join_form" where
  "type_text text f =
     (if jf_host_active f \<and> length (jf_host_ip f) < HOST_IP_LIMIT
      then f\<lparr>jf_host_ip := jf_host_ip f @ text\<rparr>
      else if \<not> jf_host_active f \<and> length (jf_session_id f) < SESSION_ID_LIMIT
      then f\<lparr>jf_session_id := jf_session_id f @ text\<rparr> else f)"

definition erase :: "join_form \<Rightarrow> join_form" where
  "erase f =
     (if jf_host_active f then f\<lparr>jf_host_ip := butlast (jf_host_ip f)\<rparr>
      else f\<lparr>jf_session_id := butlast (jf_session_id f)\<rparr>)"

fun join_event :: "string \<Rightarrow> ui_event \<Rightarrow> join_form \<Rightarrow> join_form prompt" where
  "join_event clipboard Quit f = Cancelled"
| "join_event clipboard (Key_Down K_ESCAPE ctrl) f = Cancelled"
| "join_event clipboard (Key_Down K_TAB ctrl) f = Editing (f\<lparr>jf_host_active := \<not> jf_host_active f\<rparr>)"
| "join_event clipboard (Key_Down K_RETURN ctrl) f =
     (if strip (jf_host_ip f) \<noteq> [] \<and> strip (jf_session_id f) \<noteq> []
      then Answered (strip (jf_host_ip f)) (strip (jf_session_id f))
      else Editing (f\<lparr>jf_error := ''Host IP and Session ID are required''\<rparr>))"
| "join_event clipboard (Key_Down K_BACKSPACE ctrl) f = Editing (erase f)"
| "join_event clipboard (Key_Down K_v ctrl) f = Editing (if ctrl then paste clipboard f else f)"
| "join_event clipboard (Key_Down K_other ctrl) f = Editing f"
| "join_event clipboard (Mouse_Down b p) f = Editing f"
| "join_event clipboard (Text_Input text) f = Editing (if isprintable text then type_text text f else f)"
| "join_event clipboard Other_Event f = Editing f"

text \<open>The events of all frames in turn; \<open>Editing\<close> while the form is still open.\<close>

fun join_events :: "(string \<times> ui_event) list \<Rightarrow> join_form \<Rightarrow> join_form prompt" where
  "join_events [] f = Editing f"
| "join_events ((clipboard, e) # es) f =
     (case join_event clipboard e f of Editing f1 \<Rightarrow> join_events es f1 | r \<Rightarrow> r)"

definition prompt_join_details :: "string \<Rightarrow> string \<Rightarrow> (string \<times> ui_event) list \<Rightarrow> join_form prompt" where
  "prompt_join_details initial_host_ip initial_session_id es =
     join_events es \<lparr>jf_host_ip = initial_host_ip, jf_session_id = initial_session_id,
       jf_host_active = False, jf_error = []\<rparr>"

text \<open>\<^verbatim>\<open>prompt_session_id\<close>: one field, so the tabulator does nothing.\<close>

fun session_event :: "string \<Rightarrow> ui_event \<Rightarrow> string \<times> string \<Rightarrow> (string \<times> string) prompt" where
  "session_event clipboard Quit (sid, err) = Cancelled"
| "session_event clipboard (Key_Down K_ESCAPE ctrl) (sid, err) = Cancelled"
| "session_event clipboard (Key_Down K_RETURN ctrl) (sid, err) =
     (if strip sid \<noteq> [] then Answered [] (strip sid) else Editing (sid, ''Session ID is required''))"
| "session_event clipboard (Key_Down K_BACKSPACE ctrl) (sid, err) = Editing (butlast sid, err)"
| "session_event clipboard (Key_Down K_v ctrl) (sid, err) =
     Editing (if ctrl then take SESSION_ID_LIMIT (sid @ clipboard) else sid, err)"
| "session_event clipboard (Text_Input text) (sid, err) =
     Editing (if isprintable text \<and> length sid < SESSION_ID_LIMIT then sid @ text else sid, err)"
| "session_event clipboard e (sid, err) = Editing (sid, err)"

fun session_events :: "(string \<times> ui_event) list \<Rightarrow> string \<times> string \<Rightarrow> (string \<times> string) prompt" where
  "session_events [] f = Editing f"
| "session_events ((clipboard, e) # es) f =
     (case session_event clipboard e f of Editing f1 \<Rightarrow> session_events es f1 | r \<Rightarrow> r)"

definition prompt_session_id :: "string \<Rightarrow> (string \<times> ui_event) list \<Rightarrow> (string \<times> string) prompt" where
  "prompt_session_id initial_session_id es = session_events es (initial_session_id, [])"

text \<open>\<^verbatim>\<open>_get_clipboard_text\<close>: the type looked for, and what the clipboard holds of it.\<close>

definition clipboard_type :: "string list \<Rightarrow> string \<Rightarrow> string" where
  "clipboard_type types scrap_text =
     (case find (\<lambda>t. take 10 t = ''text/plain'') types of Some t \<Rightarrow> t | None \<Rightarrow> scrap_text)"

definition get_clipboard_text :: "string option \<Rightarrow> string" where
  "get_clipboard_text clipboard =
     (case clipboard of None \<Rightarrow> [] | Some s \<Rightarrow> strip (filter (\<lambda>c. c \<noteq> CHR 0x00) s))"

text \<open>\<^verbatim>\<open>_copy_to_clipboard\<close>: the tool that is started, what is written to it, and whether the code waits
  for it to end; nothing when the tool is not installed.\<close>

definition copy_to_clipboard :: "bool \<Rightarrow> (string list \<Rightarrow> bool) \<Rightarrow> string \<Rightarrow> (string list \<times> string \<times> bool) option" where
  "copy_to_clipboard windows installed content =
     (let tool = (if windows then [''clip''] else [''xclip'', ''-selection'', ''clipboard''])
      in if installed tool then Some (tool, content, windows) else None)"

subsection \<open>Drawing\<close>

datatype font = Title_Font | Body_Font | Small_Font

type_synonym colour = "int \<times> int \<times> int"

datatype shape =
  Fill_Screen colour
| Text_At string font colour int int
| Text_Centered string font colour int int
| Panel box
| Filled colour box int
| Outline colour box int int
| Ring colour int int int int
| Overlay int

definition BACKGROUND :: colour where "BACKGROUND = (24, 28, 36)"
definition TEXT_COLOR :: colour where "TEXT_COLOR = (235, 239, 245)"
definition MUTED_TEXT_COLOR :: colour where "MUTED_TEXT_COLOR = (160, 170, 185)"
definition ACCENT_COLOR :: colour where "ACCENT_COLOR = (96, 180, 140)"
definition ERROR_COLOR :: colour where "ERROR_COLOR = (235, 105, 105)"
definition PANEL_COLOR :: colour where "PANEL_COLOR = (38, 45, 58)"

definition draw_join_field :: "int \<Rightarrow> string \<Rightarrow> string \<Rightarrow> int \<Rightarrow> int \<Rightarrow> bool \<Rightarrow> shape list" where
  "draw_join_field w label text x y focused =
     (let rect = (x, y + 30, w - 104, 58);
          shown = (if text \<noteq> [] then text else ''type here'')
      in [Text_At label Small_Font MUTED_TEXT_COLOR (x + 4) y,
          Filled PANEL_COLOR rect 8,
          Outline (if focused then ACCENT_COLOR else MUTED_TEXT_COLOR) rect 2 8,
          Text_At (if focused then shown @ ''|'' else shown) Body_Font
            (if text \<noteq> [] then TEXT_COLOR else MUTED_TEXT_COLOR) (x + 20) (y + 46)])"

definition render_join_form :: "int \<Rightarrow> join_form \<Rightarrow> shape list" where
  "render_join_form w f =
     [Fill_Screen BACKGROUND,
      Text_At ''Join Session'' Title_Font TEXT_COLOR 48 54,
      Text_At ''Enter the host IP and Session ID'' Body_Font MUTED_TEXT_COLOR 52 112]
     @ draw_join_field w ''Host IP'' (jf_host_ip f) 52 180 (jf_host_active f)
     @ draw_join_field w ''Session ID'' (jf_session_id f) 52 300 (\<not> jf_host_active f)
     @ (if jf_error f \<noteq> [] then [Text_At (jf_error f) Small_Font ERROR_COLOR 58 430] else [])
     @ [Text_At ''TAB changes field  |  ENTER joins  |  ESC cancels'' Small_Font MUTED_TEXT_COLOR 58 472]"

definition render_session_id_form :: "int \<Rightarrow> string \<Rightarrow> string \<Rightarrow> shape list" where
  "render_session_id_form w sid err =
     [Fill_Screen BACKGROUND,
      Text_At ''Join Session'' Title_Font TEXT_COLOR 48 54,
      Text_At ''Enter the Session ID - the host is found automatically on the LAN''
        Body_Font MUTED_TEXT_COLOR 52 112]
     @ draw_join_field w ''Session ID'' sid 52 220 True
     @ (if err \<noteq> [] then [Text_At err Small_Font ERROR_COLOR 58 320] else [])
     @ [Text_At ''ENTER joins  |  ESC cancels'' Small_Font MUTED_TEXT_COLOR 58 472]"

text \<open>\<^verbatim>\<open>str.split()\<close>, and the lines into which \<^verbatim>\<open>_draw_wrapped_text\<close> packs the words.\<close>

fun split_words :: "string \<Rightarrow> string \<Rightarrow> string list" where
  "split_words word [] = (if word = [] then [] else [word])"
| "split_words word (c # cs) =
     (if is_blank c then (if word = [] then [] else [word]) @ split_words [] cs
      else split_words (word @ [c]) cs)"

fun pack_words :: "(string \<Rightarrow> int) \<Rightarrow> int \<Rightarrow> string \<Rightarrow> string list \<Rightarrow> string list" where
  "pack_words text_width max_width line [] = (if line = [] then [] else [line])"
| "pack_words text_width max_width line (word # ws) =
     (let candidate = (if line = [] then word else line @ '' '' @ word)
      in if text_width candidate \<le> max_width then pack_words text_width max_width candidate ws
         else (if line = [] then [] else [line]) @ pack_words text_width max_width word ws)"

definition draw_wrapped_text ::
    "(string \<Rightarrow> int) \<Rightarrow> string \<Rightarrow> font \<Rightarrow> colour \<Rightarrow> int \<Rightarrow> int \<Rightarrow> int \<Rightarrow> int \<Rightarrow> shape list" where
  "draw_wrapped_text text_width text fnt col x y max_width line_height =
     map (\<lambda>(i, line). Text_At line fnt col x (y + int i * line_height))
       (List.enumerate 0 (pack_words text_width max_width [] (split_words [] text)))"

text \<open>\<^verbatim>\<open>show_error\<close>: what each frame draws; only closing the window ends it.\<close>

definition error_view :: "int \<Rightarrow> (string \<Rightarrow> int) \<Rightarrow> string \<Rightarrow> string \<Rightarrow> shape list" where
  "error_view w text_width title message =
     [Fill_Screen BACKGROUND, Text_At title Title_Font ERROR_COLOR 48 72, Panel (52, 150, w - 104, 220)]
     @ draw_wrapped_text text_width message Body_Font TEXT_COLOR 78 182 (w - 156) 34
     @ [Text_At ''Close this window to exit'' Small_Font MUTED_TEXT_COLOR 78 410]"

definition error_closed :: "ui_event list \<Rightarrow> bool" where
  "error_closed es \<longleftrightarrow> Quit \<in> set es"

subsection \<open>The lobby\<close>

record lobby_screen =
  ls_width :: int
  ls_closed :: bool
  ls_start_requested :: bool
  ls_leave_requested :: bool
  ls_copy_flash_until :: flt
  ls_copied :: "string option"

definition new_lobby_screen :: "int \<Rightarrow> lobby_screen" where
  "new_lobby_screen w = \<lparr>ls_width = w, ls_closed = False, ls_start_requested = False,
     ls_leave_requested = False, ls_copy_flash_until = 0, ls_copied = None\<rparr>"

definition copy_button :: "lobby_screen \<Rightarrow> box" where
  "copy_button s = (ls_width s - 52 - 16 - 90, 238, 90, 36)"

definition start_button :: "lobby_screen \<Rightarrow> box" where
  "start_button s = (ls_width s - 52 - 16 - 90 - 166, 238, 150, 36)"

definition leave_button :: "lobby_screen \<Rightarrow> box" where
  "leave_button s = (ls_width s - 52 - 130, 640, 130, 40)"

definition request_start :: "player_role \<Rightarrow> ident \<Rightarrow> lobby_screen \<Rightarrow> lobby_screen" where
  "request_start role sid s =
     (if role = HOST \<and> sid \<noteq> [] then s\<lparr>ls_start_requested := True\<rparr> else s)"

definition lobby_click :: "player_role \<Rightarrow> ident \<Rightarrow> flt \<Rightarrow> int \<times> int \<Rightarrow> lobby_screen \<Rightarrow> bool \<times> lobby_screen" where
  "lobby_click role sid now pos s =
     (if collidepoint (leave_button s) pos then (False, s\<lparr>ls_leave_requested := True\<rparr>)
      else if collidepoint (copy_button s) pos \<and> sid \<noteq> []
      then (True, s\<lparr>ls_copied := Some sid, ls_copy_flash_until := now + 2\<rparr>)
      else if collidepoint (start_button s) pos then (True, request_start role sid s)
      else (True, s))"

fun lobby_event :: "player_role \<Rightarrow> ident \<Rightarrow> flt \<Rightarrow> ui_event \<Rightarrow> lobby_screen \<Rightarrow> bool \<times> lobby_screen" where
  "lobby_event role sid now Quit s = (False, s\<lparr>ls_closed := True\<rparr>)"
| "lobby_event role sid now (Key_Down K_RETURN ctrl) s = (True, request_start role sid s)"
| "lobby_event role sid now (Key_Down K_ESCAPE ctrl) s = (False, s\<lparr>ls_leave_requested := True\<rparr>)"
| "lobby_event role sid now (Mouse_Down b pos) s =
     (if b = 1 then lobby_click role sid now pos s else (True, s))"
| "lobby_event role sid now e s = (True, s)"

fun lobby_events :: "player_role \<Rightarrow> ident \<Rightarrow> flt \<Rightarrow> ui_event list \<Rightarrow> lobby_screen \<Rightarrow> bool \<times> lobby_screen" where
  "lobby_events role sid now [] s = (True, s)"
| "lobby_events role sid now (e # es) s =
     (case lobby_event role sid now e s of
        (True, s1) \<Rightarrow> lobby_events role sid now es s1
      | (False, s1) \<Rightarrow> (False, s1))"

definition role_name :: "player_role \<Rightarrow> string" where
  "role_name r = (case r of HOST \<Rightarrow> ''HOST'' | CLIENT \<Rightarrow> ''CLIENT'')"

definition roster_line :: "roster_entry \<Rightarrow> string" where
  "roster_line e =
     str_int (entry_join_index e) @ ''. '' @ entry_player_id e @ ''  '' @
     (if entry_is_host e then ''HOST'' else ''CLIENT'') @ ''  '' @ entry_host e @ '':'' @ str_int (entry_udp_port e)"

definition draw_roster :: "roster \<Rightarrow> shape list" where
  "draw_roster r =
     (if roster_all r = []
      then [Text_At ''No players connected yet'' Small_Font MUTED_TEXT_COLOR 78 418]
      else map (\<lambda>(i, e). Text_At (roster_line e) Small_Font TEXT_COLOR 78 (418 + int i * 34))
             (List.enumerate 0 (roster_all r)))"

text \<open>\<open>small_width\<close> is the width of a text in the small font, \<open>mouse\<close> the position of the mouse.\<close>

definition lobby_view ::
    "(string \<Rightarrow> int) \<Rightarrow> int \<times> int \<Rightarrow> flt \<Rightarrow> player_role \<Rightarrow> string \<Rightarrow> ident \<Rightarrow> roster \<Rightarrow> lobby_screen \<Rightarrow> shape list" where
  "lobby_view small_width mouse now role status sid r s =
     (let w = ls_width s; copy = copy_button s; start = start_button s; leave = leave_button s;
          hovered = (sid \<noteq> [] \<and> collidepoint copy mouse);
          start_hovered = (role = HOST \<and> sid \<noteq> [] \<and> collidepoint start mouse)
      in [Fill_Screen BACKGROUND,
          Text_At ''Distributed SMB Lobby'' Title_Font TEXT_COLOR 48 44,
          Text_At (''Role: '' @ role_name role) Body_Font ACCENT_COLOR 52 104,
          Text_At status Body_Font TEXT_COLOR 52 144,
          Panel (52, 200, w - 104, 112),
          Text_At ''Session ID'' Small_Font MUTED_TEXT_COLOR 78 222,
          Text_At (if sid \<noteq> [] then sid else ''waiting for session id'') Body_Font TEXT_COLOR 78 256]
         @ (if sid \<noteq> [] then
              [Filled (if hovered then (85, 175, 125) else (60, 140, 100)) copy 6,
               Text_At ''Copy'' Small_Font TEXT_COLOR (fst copy + 24) (238 + 10)] else [])
         @ (if now < ls_copy_flash_until s then
              [Text_At ''Session ID copied!'' Small_Font ACCENT_COLOR
                 (w - 78 - small_width ''Session ID copied!'') 322] else [])
         @ (if role = HOST \<and> sid \<noteq> [] then
              [Filled (if start_hovered then (108, 200, 150) else ACCENT_COLOR) start 8,
               Text_At ''Start Game'' Small_Font BACKGROUND (fst start + 26) (238 + 10),
               Text_At ''ENTER also starts'' Small_Font MUTED_TEXT_COLOR 78 322] else [])
         @ [Panel (52, 344, w - 104, 270), Text_At ''Roster'' Body_Font TEXT_COLOR 78 370]
         @ draw_roster r
         @ [Filled (if collidepoint leave mouse then (198, 88, 88) else (150, 66, 66)) leave 8,
            Text_At ''Leave  (ESC)'' Small_Font TEXT_COLOR (fst leave + 22) (640 + 12)])"

record lobby_frame =
  lf_role :: player_role
  lf_status :: string
  lf_session_id :: ident
  lf_roster :: roster
  lf_events :: "ui_event list"
  lf_mouse :: "int \<times> int"
  lf_now :: flt

definition render_lobby ::
    "(string \<Rightarrow> int) \<Rightarrow> lobby_frame \<Rightarrow> lobby_screen \<Rightarrow> bool \<times> shape list \<times> lobby_screen" where
  "render_lobby small_width f s =
     (if ls_closed s then (False, [], s)
      else case lobby_events (lf_role f) (lf_session_id f) (lf_now f) (lf_events f) s of
        (False, s1) \<Rightarrow> (False, [], s1)
      | (True, s1) \<Rightarrow>
          (True, lobby_view small_width (lf_mouse f) (lf_now f) (lf_role f) (lf_status f)
             (lf_session_id f) (lf_roster f) s1, s1))"

text \<open>The frames of a lobby phase, until the screen says to stop.\<close>

fun render_frames :: "(string \<Rightarrow> int) \<Rightarrow> lobby_frame list \<Rightarrow> lobby_screen \<Rightarrow> bool \<times> lobby_screen" where
  "render_frames small_width [] s = (True, s)"
| "render_frames small_width (f # fs) s =
     (case render_lobby small_width f s of
        (True, _, s1) \<Rightarrow> render_frames small_width fs s1
      | (False, _, s1) \<Rightarrow> (False, s1))"

subsection \<open>The transition into the game\<close>

definition transition_progress :: "flt \<Rightarrow> flt \<Rightarrow> flt" where
  "transition_progress elapsed duration_seconds = min 1 (elapsed / max duration_seconds (1 / 100))"

definition transition_view :: "int \<Rightarrow> int \<Rightarrow> flt \<Rightarrow> player_role \<Rightarrow> nat \<Rightarrow> shape list" where
  "transition_view w h progress role player_count =
     (let cx = w div 2; cy = h div 2;
          pulse = py_int (32 * min progress 1);
          bar_width = min 420 (w - 160);
          bar_x = cx - bar_width div 2;
          fade = py_int (255 * max 0 ((progress - 82 / 100) / (18 / 100)))
      in [Fill_Screen (12, 18, 26),
          Ring (40, 82, 98) cx cy (120 + pulse) 3,
          Ring (82, 174, 132) cx cy (max 16 (py_int (88 * progress))) 5,
          Text_Centered (if progress < 72 / 100 then ''GET READY'' else ''GO!'') Title_Font TEXT_COLOR cx (cy - 68),
          Text_Centered (role_name role @ '' | '' @ str_int (int player_count) @ '' player'' @
            (if player_count \<noteq> 1 then ''s'' else [])) Body_Font ACCENT_COLOR cx (cy - 18),
          Filled (38, 45, 58) (bar_x, cy + 42, bar_width, 14) 7,
          Filled ACCENT_COLOR (bar_x, cy + 42, py_int (of_int bar_width * progress), 14) 7]
         @ (if fade > 0 then [Overlay fade] else []))"

text \<open>The frames of the transition: whether the window is closed, and the time since its start.  A frame
  that draws is paired with its drawing.\<close>

fun transition_frames :: "(bool \<times> flt) list \<Rightarrow> flt \<Rightarrow> bool option" where
  "transition_frames [] duration_seconds = None"
| "transition_frames ((quit, elapsed) # frames) duration_seconds =
     (if quit then Some False
      else if transition_progress elapsed duration_seconds \<ge> 1 then Some True
      else transition_frames frames duration_seconds)"

definition play_game_start_transition :: "bool \<Rightarrow> (bool \<times> flt) list \<Rightarrow> flt \<Rightarrow> bool option" where
  "play_game_start_transition shut frames duration_seconds =
     (if shut then Some False else transition_frames frames duration_seconds)"

subsection \<open>The menu\<close>

definition host_button :: "int \<Rightarrow> box" where
  "host_button w = (w div 2 - 280 div 2, 230, 280, 64)"

definition join_button :: "int \<Rightarrow> box" where
  "join_button w = (w div 2 - 280 div 2, 320, 280, 64)"

datatype menu_choice = No_Choice | Window_Closed | Chosen player_role

fun menu_event :: "int \<Rightarrow> ui_event \<Rightarrow> menu_choice" where
  "menu_event w Quit = Window_Closed"
| "menu_event w (Key_Down K_ESCAPE ctrl) = Window_Closed"
| "menu_event w (Mouse_Down b pos) =
     (if b = 1 then
        if collidepoint (host_button w) pos then Chosen HOST
        else if collidepoint (join_button w) pos then Chosen CLIENT
        else No_Choice
      else No_Choice)"
| "menu_event w e = No_Choice"

fun prompt_role_selection :: "int \<Rightarrow> ui_event list \<Rightarrow> menu_choice" where
  "prompt_role_selection w [] = No_Choice"
| "prompt_role_selection w (e # es) =
     (case menu_event w e of No_Choice \<Rightarrow> prompt_role_selection w es | c \<Rightarrow> c)"

definition draw_button :: "box \<Rightarrow> string \<Rightarrow> bool \<Rightarrow> shape list" where
  "draw_button b label hovered =
     (case b of (x, y, w, h) \<Rightarrow>
        [Filled (if hovered then (108, 200, 150) else ACCENT_COLOR) b 8,
         Text_Centered label Body_Font BACKGROUND (x + w div 2) (y + h div 2)])"

definition menu_view :: "int \<Rightarrow> int \<times> int \<Rightarrow> shape list" where
  "menu_view w mouse =
     [Fill_Screen BACKGROUND,
      Text_Centered ''Distributed SMB'' Title_Font TEXT_COLOR (w div 2) 96,
      Text_Centered ''What do you want to do?'' Body_Font MUTED_TEXT_COLOR (w div 2) 160]
     @ draw_button (host_button w) ''Create Room'' (collidepoint (host_button w) mouse)
     @ draw_button (join_button w) ''Join Room'' (collidepoint (join_button w) mouse)"

subsection \<open>What a form answers\<close>

lemma dropWhile_hd: "dropWhile p s = [] \<or> \<not> p (hd (dropWhile p s))"
  by (induction s) auto

lemma dropWhile_keep: "s = [] \<or> \<not> p (hd s) \<Longrightarrow> dropWhile p s = s"
  by (cases s) auto

lemma hd_rev_dropWhile: "rev (dropWhile p (rev t)) \<noteq> [] \<Longrightarrow> hd (rev (dropWhile p (rev t))) = hd t"
proof -
  assume nonempty: "rev (dropWhile p (rev t)) \<noteq> []"
  have "t = rev (dropWhile p (rev t)) @ rev (takeWhile p (rev t))"
    by (metis rev_append rev_rev_ident takeWhile_dropWhile_id)
  with nonempty show ?thesis by (metis hd_append2)
qed

lemma strip_strip [simp]: "strip (strip s) = strip s"
proof -
  let ?t = "dropWhile is_blank s"
  let ?u = "rev (dropWhile is_blank (rev ?t))"
  have "dropWhile is_blank ?u = ?u"
    using dropWhile_hd [of is_blank s] hd_rev_dropWhile [of is_blank ?t]
    by (intro dropWhile_keep) fastforce
  moreover have "dropWhile is_blank (rev ?u) = rev ?u"
    using dropWhile_hd [of is_blank "rev ?t"] by (intro dropWhile_keep) simp
  ultimately show ?thesis by (simp add: strip_def)
qed

lemma strip_length: "length (strip s) \<le> length s"
proof -
  have "length (dropWhile is_blank (rev (dropWhile is_blank s))) \<le> length (dropWhile is_blank s)"
    by (metis length_dropWhile_le length_rev)
  also have "\<dots> \<le> length s" by (rule length_dropWhile_le)
  finally show ?thesis by (simp add: strip_def)
qed

definition form_fits :: "nat \<Rightarrow> join_form \<Rightarrow> bool" where
  "form_fits k f \<longleftrightarrow> length (jf_host_ip f) < HOST_IP_LIMIT + k \<and> length (jf_session_id f) < SESSION_ID_LIMIT + k"

definition short_input :: "nat \<Rightarrow> ui_event \<Rightarrow> bool" where
  "short_input k e \<longleftrightarrow> (case e of Text_Input t \<Rightarrow> length t \<le> k | _ \<Rightarrow> True)"

lemma join_event_fits:
  assumes "form_fits k f" "short_input k e" "0 < k"
  shows "case join_event clipboard e f of
      Editing f1 \<Rightarrow> form_fits k f1
    | Cancelled \<Rightarrow> True
    | Answered h s \<Rightarrow> h = strip (jf_host_ip f) \<and> s = strip (jf_session_id f) \<and> h \<noteq> [] \<and> s \<noteq> []"
  using assms
  by (cases "(clipboard, e, f)" rule: join_event.cases)
    (auto simp: form_fits_def short_input_def paste_def type_text_def erase_def HOST_IP_LIMIT_def SESSION_ID_LIMIT_def)

lemma join_events_answer:
  assumes "join_events es f = Answered h s" "form_fits k f" "\<forall>(c, e) \<in> set es. short_input k e" "0 < k"
  shows "h \<noteq> [] \<and> s \<noteq> [] \<and> strip h = h \<and> strip s = s \<and>
    length h < HOST_IP_LIMIT + k \<and> length s < SESSION_ID_LIMIT + k"
  using assms
proof (induction es arbitrary: f)
  case (Cons ce es)
  obtain c e where ce: "ce = (c, e)" by (cases ce)
  have short: "short_input k e" using Cons.prems(3) by (simp add: ce)
  note step = join_event_fits [OF Cons.prems(2) short Cons.prems(4), of c]
  show ?case
  proof (cases "join_event c e f")
    case (Editing f1)
    then show ?thesis using Cons.IH [of f1] Cons.prems step by (simp add: ce)
  next
    case Cancelled
    then show ?thesis using Cons.prems(1) by (simp add: ce)
  next
    case (Answered h' s')
    then have "h' = h" "s' = s" using Cons.prems(1) by (simp_all add: ce)
    with step Answered have "h = strip (jf_host_ip f) \<and> s = strip (jf_session_id f) \<and> h \<noteq> [] \<and> s \<noteq> []"
      by auto
    then show ?thesis
      using Cons.prems(2) strip_length [of "jf_host_ip f"] strip_length [of "jf_session_id f"]
      by (auto simp: form_fits_def)
  qed
qed simp

text \<open>What the join form answers can be used as it is: both fields are there, neither begins nor
  ends with blanks, and neither is longer than its limit, whatever was typed, erased and pasted, as
  long as a text event brings one character; a longer text event can overshoot by its length less one.\<close>

theorem join_form_answers_are_usable:
  assumes "prompt_join_details host_ip sid es = Answered h s" and "0 < k"
    and "\<forall>(c, e) \<in> set es. short_input k e"
    and "length host_ip < HOST_IP_LIMIT + k" and "length sid < SESSION_ID_LIMIT + k"
  shows "h \<noteq> [] \<and> s \<noteq> [] \<and> strip h = h \<and> strip s = s \<and>
    length h < HOST_IP_LIMIT + k \<and> length s < SESSION_ID_LIMIT + k"
  by (rule join_events_answer [OF assms(1) [unfolded prompt_join_details_def] _ assms(3,2)])
    (simp add: form_fits_def assms(4,5))

lemma join_form_answers_are_usable_witness:
  "prompt_join_details ''10.0.0.1'' [] [([], Text_Input ''a''), ('' b1 '', Key_Down K_v True), ([], Key_Down K_RETURN False)]
     = Answered ''10.0.0.1'' ''a b1'' \<and> strip ''a b1'' = ''a b1'' \<and> length ''a b1'' < SESSION_ID_LIMIT + 1"
proof -
  have answer: "prompt_join_details ''10.0.0.1'' []
      [([], Text_Input ''a''), ('' b1 '', Key_Down K_v True), ([], Key_Down K_RETURN False)]
     = Answered ''10.0.0.1'' ''a b1''"
    by code_simp
  from join_form_answers_are_usable [OF this, of 1] answer show ?thesis
    by (simp add: short_input_def HOST_IP_LIMIT_def SESSION_ID_LIMIT_def)
qed

subsection \<open>Wrapped text\<close>

definition is_word :: "string \<Rightarrow> bool" where
  "is_word w \<longleftrightarrow> w \<noteq> [] \<and> (\<forall>c \<in> set w. \<not> is_blank c)"

lemma split_words_word: "\<forall>c \<in> set w. \<not> is_blank c \<Longrightarrow> split_words v w = (if v @ w = [] then [] else [v @ w])"
  by (induction w arbitrary: v) auto

lemma split_at_space: "split_words v (xs @ '' '' @ ys) = split_words v xs @ split_words [] ys"
  by (induction xs arbitrary: v) (auto simp: is_blank_def)

lemma split_words_are_words:
  "\<forall>c \<in> set v. \<not> is_blank c \<Longrightarrow> w \<in> set (split_words v s) \<Longrightarrow> is_word w"
proof (induction s arbitrary: v)
  case (Cons a s)
  show ?case
  proof (cases "is_blank a")
    case True
    then have "w = v \<and> v \<noteq> [] \<or> w \<in> set (split_words [] s)"
      using Cons.prems(2) by (auto split: if_splits)
    then show ?thesis using Cons.IH [of "[]"] Cons.prems(1) by (auto simp: is_word_def)
  next
    case False
    then show ?thesis using Cons.IH [of "v @ [a]"] Cons.prems by auto
  qed
qed (auto simp: is_word_def split: if_splits)

lemma pack_words_complete:
  "\<forall>w \<in> set ws. is_word w \<Longrightarrow>
     concat (map (split_words []) (pack_words tw m line ws)) = split_words [] line @ ws"
proof (induction ws arbitrary: line)
  case (Cons w ws)
  have w: "split_words [] w = [w]"
    using Cons.prems by (simp add: is_word_def split_words_word)
  have "split_words [] (line @ '' '' @ w) = split_words [] line @ [w]"
    by (simp only: split_at_space w)
  then show ?case
    using Cons w by (auto simp: Let_def)
qed simp

lemma pack_words_fit:
  "line = [] \<or> tw line \<le> m \<or> line \<in> W \<Longrightarrow> set ws \<subseteq> W \<Longrightarrow>
     l \<in> set (pack_words tw m line ws) \<Longrightarrow> tw l \<le> m \<or> l \<in> W"
proof (induction ws arbitrary: line)
  case (Cons w ws)
  show ?case
    using Cons.prems Cons.IH [of "if line = [] then w else line @ '' '' @ w"] Cons.IH [of w]
    by (auto simp: Let_def split: if_splits)
qed (auto split: if_splits)

text \<open>An error message is shown completely: the lines drawn hold every word of the message, once and
  in order, a line is wider than the panel only when it is a single word, and every line stands below
  the one before it.\<close>

theorem wrapped_text_is_complete:
  assumes "draw_wrapped_text tw text fnt col x y m h = shapes"
  shows "\<exists>lines. shapes = map (\<lambda>(i, l). Text_At l fnt col x (y + int i * h)) (List.enumerate 0 lines)
    \<and> concat (map (split_words []) lines) = split_words [] text
    \<and> (\<forall>l \<in> set lines. tw l \<le> m \<or> l \<in> set (split_words [] text))"
proof -
  let ?ws = "split_words [] text"
  have words: "\<forall>w \<in> set ?ws. is_word w" using split_words_are_words [of "[]"] by simp
  show ?thesis
    using pack_words_complete [OF words, of tw m "[]"] pack_words_fit [of "[]" tw m "set ?ws" ?ws]
    by (intro exI [of _ "pack_words tw m [] ?ws"] conjI ballI)
      (use assms in \<open>auto simp: draw_wrapped_text_def\<close>)
qed

lemma wrapped_text_is_complete_witness:
  "\<exists>lines. concat (map (split_words []) lines) = [''Could'', ''not'', ''connect'']
    \<and> (\<forall>l \<in> set lines. int (length l) \<le> 9 \<or> l \<in> {''Could'', ''not'', ''connect''})"
proof -
  have "split_words [] ''Could not connect'' = [''Could'', ''not'', ''connect'']" by code_simp
  then show ?thesis
    using wrapped_text_is_complete [OF refl, of "\<lambda>l. int (length l)" "''Could not connect''" Body_Font TEXT_COLOR 78 182 9 34]
    by auto
qed

subsection \<open>Who starts the game\<close>

definition screen_step :: "player_role \<Rightarrow> ident \<Rightarrow> lobby_screen \<Rightarrow> bool \<times> lobby_screen \<Rightarrow> bool" where
  "screen_step role sid s r \<longleftrightarrow>
     (ls_start_requested (snd r) \<longrightarrow> ls_start_requested s \<or> role = HOST \<and> sid \<noteq> []) \<and>
     (fst r \<longrightarrow> ls_closed (snd r) = ls_closed s \<and> ls_leave_requested (snd r) = ls_leave_requested s) \<and>
     (\<not> fst r \<longrightarrow> ls_closed (snd r) \<or> ls_leave_requested (snd r)) \<and>
     (ls_copied (snd r) = ls_copied s \<or> ls_copied (snd r) = Some sid \<and> sid \<noteq> [])"

lemma screen_step_event: "screen_step role sid s (lobby_event role sid now e s)"
proof (cases e)
  case (Key_Down k ctrl)
  then show ?thesis by (cases k) (simp_all add: screen_step_def request_start_def)
next
  case (Mouse_Down b pos)
  then show ?thesis by (simp add: screen_step_def lobby_click_def request_start_def)
qed (simp_all add: screen_step_def)

lemma screen_step_events: "screen_step role sid s (lobby_events role sid now es s)"
proof (induction es arbitrary: s)
  case (Cons e es)
  obtain c s1 where e: "lobby_event role sid now e s = (c, s1)" by fastforce
  show ?case
    using screen_step_event [of role sid s now e] Cons [of s1]
    by (cases c) (auto simp: e screen_step_def)
qed (simp add: screen_step_def)

text \<open>Only a host can start the game, and the lobby view stops only when its user wants it to: after
  any frames, a start was requested only if some frame showed the host a session, the view asks to go on
  until the window is closed or the session is left, and then it draws nothing more.\<close>

theorem lobby_screen_obeys_its_user:
  assumes "render_frames sw fs (new_lobby_screen w) = (go_on, s)"
  shows "(ls_start_requested s \<longrightarrow> (\<exists>f \<in> set fs. lf_role f = HOST \<and> lf_session_id f \<noteq> [])) \<and>
    (go_on \<longleftrightarrow> \<not> ls_closed s \<and> \<not> ls_leave_requested s) \<and>
    (\<forall>sid. ls_copied s = Some sid \<longrightarrow> (\<exists>f \<in> set fs. lf_session_id f = sid))"
proof -
  have "(ls_start_requested s \<longrightarrow> ls_start_requested s0 \<or> (\<exists>f \<in> set fs. lf_role f = HOST \<and> lf_session_id f \<noteq> [])) \<and>
      (go_on \<longleftrightarrow> \<not> ls_closed s \<and> \<not> ls_leave_requested s) \<and>
      (\<forall>sid. ls_copied s = Some sid \<longrightarrow> ls_copied s0 = Some sid \<or> (\<exists>f \<in> set fs. lf_session_id f = sid))"
    if "render_frames sw fs s0 = (go_on, s)" "\<not> ls_closed s0" "\<not> ls_leave_requested s0" for s0
    using that
  proof (induction fs arbitrary: s0)
    case (Cons f fs)
    obtain c s1 where e: "lobby_events (lf_role f) (lf_session_id f) (lf_now f) (lf_events f) s0 = (c, s1)" by fastforce
    have step: "screen_step (lf_role f) (lf_session_id f) s0 (c, s1)"
      using screen_step_events [of "lf_role f" "lf_session_id f" s0 "lf_now f" "lf_events f"] by (simp add: e)
    show ?case
    proof (cases c)
      case True
      have "render_frames sw fs s1 = (go_on, s)"
        using Cons.prems True by (simp add: render_lobby_def e)
      then show ?thesis
        using Cons.IH [of s1] step Cons.prems(2,3) True by (auto simp: screen_step_def)
    next
      case False
      then have "go_on = False" "s = s1"
        using Cons.prems by (simp_all add: render_lobby_def e)
      then show ?thesis using step False by (auto simp: screen_step_def)
    qed
  qed simp
  from this [of "new_lobby_screen w"] show ?thesis
    using assms by (simp add: new_lobby_screen_def)
qed

definition example_frame_of :: "ui_event list \<Rightarrow> lobby_frame" where
  "example_frame_of es = \<lparr>lf_role = HOST, lf_status = ''Waiting for players'', lf_session_id = ''s1'',
     lf_roster = [], lf_events = es, lf_mouse = (0, 0), lf_now = 0\<rparr>"

lemma lobby_screen_obeys_its_user_witness:
  "\<exists>s. render_frames (\<lambda>t. int (length t)) [example_frame_of [Key_Down K_RETURN False],
      example_frame_of [Mouse_Down 1 (800, 650)]] (new_lobby_screen 960) = (False, s)
    \<and> ls_start_requested s \<and> (ls_closed s \<or> ls_leave_requested s)"
proof -
  obtain s where s: "render_frames (\<lambda>t. int (length t)) [example_frame_of [Key_Down K_RETURN False],
      example_frame_of [Mouse_Down 1 (800, 650)]] (new_lobby_screen 960) = (False, s)" "ls_start_requested s"
    by (simp add: render_lobby_def example_frame_of_def new_lobby_screen_def lobby_click_def leave_button_def
        request_start_def)
  from lobby_screen_obeys_its_user [OF s(1)] s show ?thesis by simp
qed

subsection \<open>The transition\<close>

lemma transition_progress_bounds:
  "0 \<le> elapsed \<Longrightarrow> 0 \<le> transition_progress elapsed d \<and> transition_progress elapsed d \<le> 1"
  by (simp add: transition_progress_def)

lemma py_int_scaled:
  fixes p :: flt
  assumes "0 \<le> p" "p \<le> 1" "0 \<le> n"
  shows "0 \<le> py_int (of_int n * p) \<and> py_int (of_int n * p) \<le> n"
proof -
  have "of_int n * p \<le> of_int n" using assms by (simp add: mult_left_le)
  then have "\<lfloor>of_int n * p\<rfloor> \<le> n" by (metis floor_mono floor_of_int)
  moreover have "0 \<le> of_int n * p" using assms by simp
  ultimately show ?thesis by (simp add: py_int_def)
qed

text \<open>The transition lasts: it hands over to the game only in a frame that is drawn after the whole
  duration, nothing having closed the window before, and it does so in the first such frame; until then
  its bar fills within its frame.\<close>

theorem transition_lasts_its_duration:
  assumes "1 / 100 \<le> duration" and "\<forall>(quit, elapsed) \<in> set frames. 0 \<le> elapsed"
  shows "(transition_frames frames duration = Some True \<longleftrightarrow>
      (\<exists>before_it elapsed after_it. frames = before_it @ (False, elapsed) # after_it \<and> duration \<le> elapsed \<and>
        (\<forall>(quit, t) \<in> set before_it. \<not> quit \<and> t < duration))) \<and>
    (\<forall>(quit, elapsed) \<in> set frames. \<forall>bar_width \<ge> 0.
      py_int (of_int bar_width * transition_progress elapsed duration) \<in> {0..bar_width})"
proof
  have full: "1 \<le> transition_progress e duration \<longleftrightarrow> duration \<le> e" for e
  proof -
    have "max duration (1 / 100) = duration" "0 < duration" using assms(1) by simp_all
    then show ?thesis by (simp add: transition_progress_def le_divide_eq)
  qed
  show "transition_frames frames duration = Some True \<longleftrightarrow>
      (\<exists>before_it elapsed after_it. frames = before_it @ (False, elapsed) # after_it \<and> duration \<le> elapsed \<and>
        (\<forall>(quit, t) \<in> set before_it. \<not> quit \<and> t < duration))" (is "?l = ?r")
  proof
    show "?r" if "?l"
      using that
    proof (induction frames)
      case (Cons qe frames)
      obtain q e where qe: "qe = (q, e)" by (cases qe)
      show ?case
      proof (cases "duration \<le> e")
        case True
        then have "qe # frames = [] @ (False, e) # frames" using Cons.prems by (simp add: qe split: if_splits)
        with True show ?thesis by fastforce
      next
        case False
        then have q: "\<not> q" "transition_frames frames duration = Some True"
          using Cons.prems full [of e] by (simp_all add: qe split: if_splits)
        with Cons.IH obtain pre el post where d: "frames = pre @ (False, el) # post" "duration \<le> el"
          "\<forall>(quit, t) \<in> set pre. \<not> quit \<and> t < duration" by blast
        show ?thesis
          by (intro exI [of _ "qe # pre"] exI [of _ el] exI [of _ post]) (use d q False in \<open>simp add: qe\<close>)
      qed
    qed simp
  next
    assume ?r
    then obtain pre el post where d: "frames = pre @ (False, el) # post" "duration \<le> el"
      "\<forall>(quit, t) \<in> set pre. \<not> quit \<and> t < duration" by blast
    have "transition_frames (pre @ (False, el) # post) duration = Some True"
      using d(3) by (induction pre) (auto simp: full d(2) not_le)
    then show ?l by (simp add: d(1))
  qed
  show "\<forall>(quit, elapsed) \<in> set frames. \<forall>bar_width \<ge> 0.
      py_int (of_int bar_width * transition_progress elapsed duration) \<in> {0..bar_width}"
    using assms(2) py_int_scaled transition_progress_bounds by fastforce
qed

lemma transition_lasts_its_duration_witness:
  "transition_frames [(False, 0), (False, 1), (False, 2)] (18 / 10) = Some True"
proof -
  have "\<exists>before_it elapsed after_it. [(False, 0 :: flt), (False, 1), (False, 2)] = before_it @ (False, elapsed) # after_it \<and>
      18 / 10 \<le> elapsed \<and> (\<forall>(quit, t) \<in> set before_it. \<not> quit \<and> t < 18 / 10)"
    by (rule exI [of _ "[(False, 0), (False, 1)]"], rule exI [of _ 2], rule exI [of _ "[]"]) simp
  then show ?thesis
    using transition_lasts_its_duration [of "18 / 10" "[(False, 0), (False, 1), (False, 2)]"] by simp
qed

end
