(* ===== verification/Level_Builder.thy ===== *)
theory Level_Builder
  imports Node_Props Connections
begin

text \<open>
  The level builder (\<^verbatim>\<open>domain/level.py\<close>).  The third-party loader turns the file into objects with a
  type, a name, a position and properties: they are the argument.  An absent name is the empty string.
  The reading of a floating-point number from a string, which no level uses, is a parameter.
\<close>

datatype tmx_value = T_Int int | T_Float flt | T_Bool bool | T_Str string

record tmx_object =
  o_type :: string
  o_name :: string
  o_x :: flt
  o_y :: flt
  o_width :: flt
  o_height :: flt
  o_enemy_type :: "tmx_value option"
  o_properties :: "(string \<times> tmx_value) list"

record tmx_map =
  m_width :: int
  m_height :: int
  m_tilewidth :: int
  m_tileheight :: int
  m_objects :: "tmx_object list"
  m_properties :: "(string \<times> tmx_value) list"

subsection \<open>Values\<close>

fun value_int :: "tmx_value \<Rightarrow> int result" where
  "value_int (T_Int i) = Inr i"
| "value_int (T_Float x) = Inr (py_int x)"
| "value_int (T_Bool b) = Inr (if b then 1 else 0)"
| "value_int (T_Str s) = int_of_string s"

fun value_float :: "(string \<Rightarrow> flt result) \<Rightarrow> tmx_value \<Rightarrow> flt result" where
  "value_float read_float (T_Int i) = Inr (of_int i)"
| "value_float read_float (T_Float x) = Inr x"
| "value_float read_float (T_Bool b) = Inr (if b then 1 else 0)"
| "value_float read_float (T_Str s) = read_float s"

fun value_bool :: "tmx_value \<Rightarrow> bool" where
  "value_bool (T_Int i) = (i \<noteq> 0)"
| "value_bool (T_Float x) = (x \<noteq> 0)"
| "value_bool (T_Bool b) = b"
| "value_bool (T_Str s) = (s \<noteq> [])"

text \<open>\<^verbatim>\<open>str.casefold\<close> of an ASCII string; a value that is not a string is no enemy type.\<close>

definition lower_char :: "char \<Rightarrow> char" where
  "lower_char c = (if CHR ''A'' \<le> c \<and> c \<le> CHR ''Z'' then char_of ((of_char c :: nat) + 32) else c)"

fun value_kind :: "tmx_value \<Rightarrow> string" where
  "value_kind (T_Str s) = map lower_char s"
| "value_kind _ = ''not a string''"

definition property_or :: "string \<Rightarrow> tmx_value \<Rightarrow> tmx_object \<Rightarrow> tmx_value" where
  "property_or k v obj = (case map_of (o_properties obj) k of Some x \<Rightarrow> x | None \<Rightarrow> v)"

definition required_property :: "string \<Rightarrow> tmx_object \<Rightarrow> tmx_value result" where
  "required_property k obj = (case map_of (o_properties obj) k of Some x \<Rightarrow> Inr x | None \<Rightarrow> Inl (KeyError k))"

subsection \<open>Objects\<close>

definition whole :: "flt \<Rightarrow> flt" where "whole x = of_int (py_int x)"

definition object_platform :: "tmx_object \<Rightarrow> platform" where
  "object_platform obj = \<lparr>pos_x = whole (o_x obj), pos_y = whole (o_y obj),
     width = whole (o_width obj), height = whole (o_height obj)\<rparr>"

definition object_block :: "tmx_object \<Rightarrow> block" where
  "object_block obj = \<lparr>pos_x = whole (o_x obj), pos_y = whole (o_y obj),
     width = whole (o_width obj), height = whole (o_height obj), destroyed = False\<rparr>"

definition object_powerup :: "tmx_object \<Rightarrow> powerup" where
  "object_powerup obj = \<lparr>pos_x = whole (o_x obj), pos_y = whole (o_y obj),
     width = whole (o_width obj), height = whole (o_height obj),
     powerup_id = o_name obj, collected = False, owner = None\<rparr>"

definition object_gate :: "tmx_object \<Rightarrow> gate result" where
  "object_gate obj =
     rbind (value_int (property_or ''coins_required'' (T_Int 0) obj)) (\<lambda>coins.
     rbind (value_int (property_or ''blocks_required'' (T_Int 0) obj)) (\<lambda>blocks.
     rbind (value_int (property_or ''enemies_required'' (T_Int 0) obj)) (\<lambda>foes.
       Inr \<lparr>pos_x = whole (o_x obj), pos_y = whole (o_y obj),
            width = whole (o_width obj), height = whole (o_height obj),
            gate_id = o_name obj, gate_state = ''closed'', contributions = {||},
            coins_required = coins, blocks_required = blocks, enemies_required = foes,
            is_final = value_bool (property_or ''is_final'' (T_Bool True) obj)\<rparr>)))"

definition object_enemy_type :: "tmx_object \<Rightarrow> string" where
  "object_enemy_type obj =
     (case map_of (o_properties obj) ''enemy_type'' of
        Some v \<Rightarrow> value_kind v
      | None \<Rightarrow> (case o_enemy_type obj of Some v \<Rightarrow> value_kind v | None \<Rightarrow> enemy_type_value KOOPA))"

definition object_enemy :: "(string \<Rightarrow> flt result) \<Rightarrow> tmx_object \<Rightarrow> enemy result" where
  "object_enemy read_float obj =
     rbind (value_float read_float (property_or ''vx'' (T_Float 50) obj)) (\<lambda>v.
     rbind (rbind (required_property ''left_bound'' obj) (value_float read_float)) (\<lambda>lb.
     rbind (rbind (required_property ''right_bound'' obj) (value_float read_float)) (\<lambda>rb.
       mk_enemy (o_name obj) (whole (o_x obj)) (whole (o_y obj)) ENEMY_WIDTH ENEMY_HEIGHT
         v lb rb None (object_enemy_type obj))))"

definition object_spawn_point :: "tmx_object \<Rightarrow> spawn_point" where
  "object_spawn_point obj = \<lparr>spawn_x = py_int (o_x obj), spawn_y = py_int (o_y obj)\<rparr>"

definition object_decoration :: "tmx_object \<Rightarrow> decoration" where
  "object_decoration obj = \<lparr>pos_x = whole (o_x obj), pos_y = whole (o_y obj),
     width = whole (o_width obj), height = whole (o_height obj),
     decoration_kind = (if o_name obj \<noteq> [] then takeWhile (\<lambda>c. c \<noteq> CHR ''-'') (o_name obj) else ''cloud'')\<rparr>"

text \<open>One turn of the loop over the objects; an object of another type is skipped.\<close>

definition add_object :: "(string \<Rightarrow> flt result) \<Rightarrow> tmx_object \<Rightarrow> level \<Rightarrow> level result" where
  "add_object read_float obj l =
     (if o_type obj = ''Platforms'' then
        Inr (l\<lparr>level_platforms := level_platforms l @ [object_platform obj]\<rparr>)
      else if o_type obj = ''Blocks'' then
        Inr (l\<lparr>level_blocks := level_blocks l @ [object_block obj]\<rparr>)
      else if o_type obj = ''PowerUps'' then
        Inr (l\<lparr>level_powerups := level_powerups l @ [object_powerup obj]\<rparr>)
      else if o_type obj = ''Gates'' then
        rbind (object_gate obj) (\<lambda>g. Inr (l\<lparr>level_gates := level_gates l @ [g]\<rparr>))
      else if o_type obj = ''Enemies'' then
        rbind (object_enemy read_float obj) (\<lambda>en. Inr (l\<lparr>level_enemies := level_enemies l @ [en]\<rparr>))
      else if o_type obj = ''SpawnPoints'' then
        Inr (l\<lparr>level_spawn_points := level_spawn_points l @ [object_spawn_point obj]\<rparr>)
      else if o_type obj = ''Decorations'' then
        Inr (l\<lparr>level_decorations := level_decorations l @ [object_decoration obj]\<rparr>)
      else Inr l)"

definition empty_level :: "tmx_map \<Rightarrow> level" where
  "empty_level tmx = \<lparr>level_platforms = [], level_blocks = [], level_powerups = [], level_enemies = [],
     level_gates = [], level_spawn_points = [], level_decorations = [], level_coins_to_win = 5,
     level_blocks_to_win = 0, level_enemies_to_win = 0,
     level_width = m_width tmx * m_tilewidth tmx, level_height = m_height tmx * m_tileheight tmx\<rparr>"

definition goal_or :: "string \<Rightarrow> int \<Rightarrow> tmx_map \<Rightarrow> int result" where
  "goal_or k d tmx = (case map_of (m_properties tmx) k of Some v \<Rightarrow> value_int v | None \<Rightarrow> Inr d)"

definition build_level :: "(string \<Rightarrow> flt result) \<Rightarrow> tmx_map \<Rightarrow> level result" where
  "build_level read_float tmx =
     rbind (fold_res (add_object read_float) (m_objects tmx) (empty_level tmx)) (\<lambda>l.
     rbind (goal_or ''coins_to_win'' (level_coins_to_win l) tmx) (\<lambda>coins.
     rbind (goal_or ''blocks_to_win'' (level_blocks_to_win l) tmx) (\<lambda>blocks.
     rbind (goal_or ''enemies_to_win'' (level_enemies_to_win l) tmx) (\<lambda>foes.
       Inr (l\<lparr>level_coins_to_win := coins, level_blocks_to_win := blocks, level_enemies_to_win := foes\<rparr>)))))"

subsection \<open>The layers of a built level\<close>

definition layer :: "string \<Rightarrow> tmx_object list \<Rightarrow> tmx_object list" where
  "layer t objs = filter (\<lambda>obj. o_type obj = t) objs"

definition layers_added :: "(string \<Rightarrow> flt result) \<Rightarrow> tmx_object list \<Rightarrow> level \<Rightarrow> level \<Rightarrow> bool" where
  "layers_added read_float objs l l' \<longleftrightarrow>
     level_platforms l' = level_platforms l @ map object_platform (layer ''Platforms'' objs) \<and>
     level_blocks l' = level_blocks l @ map object_block (layer ''Blocks'' objs) \<and>
     level_powerups l' = level_powerups l @ map object_powerup (layer ''PowerUps'' objs) \<and>
     level_spawn_points l' = level_spawn_points l @ map object_spawn_point (layer ''SpawnPoints'' objs) \<and>
     level_decorations l' = level_decorations l @ map object_decoration (layer ''Decorations'' objs) \<and>
     (\<exists>gs. level_gates l' = level_gates l @ gs \<and> map Inr gs = map object_gate (layer ''Gates'' objs)) \<and>
     (\<exists>es. level_enemies l' = level_enemies l @ es \<and> map Inr es = map (object_enemy read_float) (layer ''Enemies'' objs)) \<and>
     level_width l' = level_width l \<and> level_height l' = level_height l"

lemma layers_added_objects:
  "fold_res (add_object read_float) objs l = Inr l' \<Longrightarrow> layers_added read_float objs l l'"
proof (induction objs arbitrary: l)
  case (Cons obj objs)
  then obtain l1 where l1: "add_object read_float obj l = Inr l1" "layers_added read_float objs l1 l'"
    by (auto simp: rbind_Inr_iff)
  show ?case
    using l1 unfolding layers_added_def layer_def
    by (auto simp: add_object_def rbind_Inr_iff split: if_splits)
qed (simp add: layers_added_def layer_def)

lemma built_layers:
  assumes "build_level read_float tmx = Inr l"
  shows "layers_added read_float (m_objects tmx) (empty_level tmx) l"
proof -
  obtain l0 where l0: "fold_res (add_object read_float) (m_objects tmx) (empty_level tmx) = Inr l0"
    using assms by (auto simp: build_level_def rbind_Inr_iff)
  have "layers_added read_float (m_objects tmx) (empty_level tmx) l \<longleftrightarrow>
      layers_added read_float (m_objects tmx) (empty_level tmx) l0"
    using assms l0 by (auto simp: build_level_def rbind_Inr_iff layers_added_def)
  then show ?thesis using layers_added_objects [OF l0] by simp
qed

lemma object_gate_name: "object_gate obj = Inr g \<Longrightarrow> gate_id g = o_name obj \<and> gate_state g = ''closed''"
  by (auto simp: object_gate_def rbind_Inr_iff)

lemma object_enemy_name:
  "object_enemy read_float obj = Inr en \<Longrightarrow> enemy_id en = o_name obj \<and> movement_speed en = Some \<bar>enemy_vx en\<bar>"
  by (auto simp: object_enemy_def mk_enemy_def rbind_Inr_iff)

lemma map_Inr_in: "map Inr ys = map f xs \<Longrightarrow> y \<in> set ys \<Longrightarrow> \<exists>x \<in> set xs. f x = Inr y"
  by (induction ys arbitrary: xs) (auto simp: Cons_eq_map_conv)

lemma integral_whole [simp]: "is_integral (whole x)"
  by (simp add: whole_def is_integral_def)

lemma built_level_named:
  assumes "build_level read_float tmx = Inr l"
    and "\<forall>obj \<in> set (m_objects tmx). o_type obj \<in> {''PowerUps'', ''Gates'', ''Enemies''} \<longrightarrow> o_name obj \<noteq> []"
  shows "level_named l"
proof -
  note parts = built_layers [OF assms(1), unfolded layers_added_def empty_level_def layer_def, simplified]
  have gates: "gate_id g \<noteq> []" if "g \<in> set (level_gates l)" for g
    using map_Inr_in [OF _ that] parts assms(2) object_gate_name by fastforce
  have foes: "enemy_id en \<noteq> [] \<and> movement_speed en \<noteq> None" if "en \<in> set (level_enemies l)" for en
    using map_Inr_in [OF _ that] parts assms(2) object_enemy_name by fastforce
  have "[] \<notin> gate_id ` set (level_gates l)" "[] \<notin> enemy_id ` set (level_enemies l)"
    using gates foes by (metis imageE)+
  moreover have "\<forall>en \<in> set (level_enemies l). movement_speed en \<noteq> None" using foes by blast
  moreover have "[] \<notin> powerup_id ` set (level_powerups l)" "\<forall>b \<in> set (level_blocks l). integral_block b"
    using parts assms(2) by (auto simp: object_powerup_def object_block_def integral_block_def)
  ultimately show ?thesis unfolding level_named_def by blast
qed


definition example_tmx :: tmx_map where
  "example_tmx = \<lparr>m_width = 216, m_height = 30, m_tilewidth = 32, m_tileheight = 32,
     m_objects =
       [\<lparr>o_type = ''Platforms'', o_name = [], o_x = 0, o_y = 800, o_width = 64, o_height = 32,
          o_enemy_type = None, o_properties = []\<rparr>,
        \<lparr>o_type = ''Enemies'', o_name = ''enemy-1'', o_x = 520, o_y = 877, o_width = 64, o_height = 96,
          o_enemy_type = Some (T_Str ''Goomba''),
          o_properties = [(''left_bound'', T_Int 460), (''right_bound'', T_Int 620), (''vx'', T_Float 50)]\<rparr>],
     m_properties = [(''coins_to_win'', T_Int 5)]\<rparr>"


end
