(* ===== verification/Spade.thy ===== *)
theory Spade
  imports Config
begin

text \<open>
  The runtime of the external agents (\<^verbatim>\<open>agents/spade_runtime.py\<close>), the thread that carries it
  (\<^verbatim>\<open>agents/spade_thread.py\<close>) and the use the node makes of both in \<^verbatim>\<open>NodeController.run\<close>.  The agent
  framework is outside the repository: what is modelled is when the runtime lives, what it reads from
  its queues and writes to them, and how its failures come out.  Whether a wait ends in time, and what
  a worker fails with, are arguments.
\<close>

subsection \<open>Queues\<close>

text \<open>\<^verbatim>\<open>get_perception\<close> waits for no time at all: an empty queue raises \<^verbatim>\<open>Empty\<close>, here a \<^verbatim>\<open>RuntimeError\<close>.\<close>

record ('p, 'a) spade_queues =
  perceptions :: "string \<Rightarrow> 'p list"
  actions :: "string \<Rightarrow> 'a list"

definition get_perception :: "string \<Rightarrow> ('p, 'a) spade_queues \<Rightarrow> ('p \<times> ('p, 'a) spade_queues) result" where
  "get_perception agent q =
     (case perceptions q agent of
        [] \<Rightarrow> Inl (RuntimeError ''Empty'')
      | p # ps \<Rightarrow> Inr (p, q\<lparr>perceptions := (perceptions q)(agent := ps)\<rparr>))"

definition put_action :: "string \<Rightarrow> 'a \<Rightarrow> ('p, 'a) spade_queues \<Rightarrow> ('p, 'a) spade_queues" where
  "put_action agent a q = q\<lparr>actions := (actions q)(agent := actions q agent @ [a])\<rparr>"

subsection \<open>The thread\<close>

datatype worker = No_Worker | Running | Ended

record spade_thread =
  st_worker :: worker
  st_error :: "py_error option"

definition spade_is_running :: "spade_thread \<Rightarrow> bool" where
  "spade_is_running t \<longleftrightarrow> st_worker t = Running"

definition spade_failure :: "spade_thread \<Rightarrow> unit result" where
  "spade_failure t = (case st_error t of None \<Rightarrow> Inr () | Some e \<Rightarrow> Inl (RuntimeError ''The SPADE runtime failed''))"

text \<open>\<^verbatim>\<open>start\<close>: \<open>early\<close> is a failure of the worker that is already there when \<^verbatim>\<open>start\<close> looks.\<close>

definition spade_start :: "bool \<Rightarrow> py_error option \<Rightarrow> spade_thread \<Rightarrow> unit result \<times> spade_thread" where
  "spade_start in_time early t =
     (if spade_is_running t then (Inr (), t)
      else
        let t1 = \<lparr>st_worker = (if early = None then Running else Ended), st_error = early\<rparr>
        in (if \<not> in_time then Inl (TimeoutError ''Timed out while starting the SPADE thread'')
            else spade_failure t1, t1))"

text \<open>\<^verbatim>\<open>stop\<close>: \<open>joined\<close> says whether the worker has ended within the timeout, \<open>late\<close> what it failed with.\<close>

definition spade_stop :: "bool \<Rightarrow> py_error option \<Rightarrow> spade_thread \<Rightarrow> unit result \<times> spade_thread" where
  "spade_stop joined late t =
     (case st_worker t of
        No_Worker \<Rightarrow> (Inr (), t)
      | Ended \<Rightarrow> (spade_failure t, t)
      | Running \<Rightarrow>
          if \<not> joined then (Inl (TimeoutError ''Timed out while stopping the SPADE thread''), t)
          else let t1 = \<lparr>st_worker = Ended, st_error = late\<rparr> in (spade_failure t1, t1))"

subsection \<open>The runtime\<close>

text \<open>The loop of \<^verbatim>\<open>SpadeRuntime.run\<close>: the stop flag as each check sees it; the result counts the turns in
  which the agent was left running.\<close>

fun runtime_loop :: "bool list \<Rightarrow> nat" where
  "runtime_loop [] = 0"
| "runtime_loop (stop # checks) = (if stop then 0 else Suc (runtime_loop checks))"

subsection \<open>The node\<close>

record spade_host =
  sh_stop_requested :: bool
  sh_thread :: spade_thread
  sh_socket_open :: bool

definition new_spade_host :: spade_host where
  "new_spade_host = \<lparr>sh_stop_requested = False, sh_thread = \<lparr>st_worker = No_Worker, st_error = None\<rparr>,
     sh_socket_open = True\<rparr>"

text \<open>One call of \<^verbatim>\<open>NodeController.run\<close>: the role, the checks of the stop flag that fall into the game,
  what the waits and the worker do, and the outcome of the game.\<close>

record run_input =
  cr_role :: player_role
  cr_checks :: nat
  cr_in_time :: bool
  cr_early :: "py_error option"
  cr_joined :: bool
  cr_late :: "py_error option"
  cr_outcome :: string

definition start_spade :: "run_input \<Rightarrow> spade_host \<Rightarrow> unit result \<times> spade_host" where
  "start_spade r h =
     (if cr_role r = HOST
      then (case spade_start (cr_in_time r) (cr_early r) (sh_thread h) of (res, t) \<Rightarrow> (res, h\<lparr>sh_thread := t\<rparr>))
      else (Inr (), h))"

text \<open>The result is the outcome or the exception, the turns of the agent, and the state after.\<close>

definition controller_run :: "run_input \<Rightarrow> spade_host \<Rightarrow> string result \<times> nat \<times> spade_host" where
  "controller_run r h =
     (case start_spade r h of
        (started, h1) \<Rightarrow>
          let turns = (if spade_is_running (sh_thread h1)
                then runtime_loop (replicate (cr_checks r) (sh_stop_requested h1)) else 0);
              h2 = h1\<lparr>sh_stop_requested := True\<rparr>
          in case spade_stop (cr_joined r) (cr_late r) (sh_thread h2) of
               (stopped, t) \<Rightarrow>
                 let h3 = h2\<lparr>sh_thread := t\<rparr>
                 in case rbind stopped (\<lambda>_. started) of
                      Inl e \<Rightarrow> (Inl e, turns, h3)
                    | Inr _ \<Rightarrow>
                        (Inr (cr_outcome r), turns,
                         if cr_outcome r \<noteq> ''victory'' then h3\<lparr>sh_socket_open := False\<rparr> else h3))"

fun controller_runs :: "run_input list \<Rightarrow> spade_host \<Rightarrow> nat list \<times> spade_host" where
  "controller_runs [] h = ([], h)"
| "controller_runs (r # rs) h =
     (case controller_run r h of
        (_, turns, h1) \<Rightarrow> (case controller_runs rs h1 of (ts, h2) \<Rightarrow> (turns # ts, h2)))"

subsection \<open>The life of the agents\<close>

lemma runtime_loop_replicate: "runtime_loop (replicate n b) = (if b then 0 else n)"
  by (induction n) auto

lemma controller_run_stops: "controller_run r h = (res, turns, h') \<Longrightarrow> sh_stop_requested h'"
  by (auto simp: controller_run_def start_spade_def Let_def split: prod.splits sum.splits if_splits)

lemma stopped_runs:
  "sh_stop_requested h \<Longrightarrow> set (fst (controller_runs rs h)) \<subseteq> {0}"
proof (induction rs arbitrary: h)
  case (Cons r rs)
  obtain res turns h1 where r: "controller_run r h = (res, turns, h1)" by (metis prod_cases3)
  have "turns = 0"
    using r Cons.prems
    by (auto simp: controller_run_def start_spade_def Let_def runtime_loop_replicate
        split: prod.splits sum.splits if_splits)
  then show ?case
    using Cons.IH [OF controller_run_stops [OF r]] by (auto simp: r split: prod.splits)
qed simp

text \<open>In a replay the external agents are dead: the stop flag that ends the first run of a controller
  is never cleared, so whatever the roles and the outcomes, the agents live through no turn of any later
  run of the same node, while in the first run of a host they live through all of them.\<close>

theorem replays_have_no_agents:
  assumes "cr_role r = HOST" and "cr_early r = None"
  shows "\<exists>later h. controller_runs (r # rs) new_spade_host = (cr_checks r # later, h) \<and>
    length later = length rs \<and> (\<forall>turns \<in> set later. turns = 0)"
proof -
  obtain res turns h1 where run: "controller_run r new_spade_host = (res, turns, h1)" by (metis prod_cases3)
  have "turns = cr_checks r"
    using run assms
    by (auto simp: controller_run_def start_spade_def spade_start_def spade_is_running_def new_spade_host_def
        Let_def runtime_loop_replicate split: prod.splits sum.splits if_splits)
  moreover have "set (fst (controller_runs rs h1)) \<subseteq> {0}"
    by (rule stopped_runs [OF controller_run_stops [OF run]])
  moreover have "length (fst (controller_runs rs h)) = length rs" for h
    by (induction rs arbitrary: h) (auto split: prod.splits, metis fst_conv)
  ultimately show ?thesis
    using run by (cases "controller_runs rs h1") (auto, metis fst_conv)
qed

definition example_run :: run_input where
  "example_run = \<lparr>cr_role = HOST, cr_checks = 600, cr_in_time = True, cr_early = None, cr_joined = True,
     cr_late = None, cr_outcome = ''victory''\<rparr>"

lemma replays_have_no_agents_witness:
  "\<exists>h. controller_runs [example_run, example_run] new_spade_host = ([600, 0], h)"
  using replays_have_no_agents [of example_run "[example_run]"]
  by (auto simp: example_run_def length_Suc_conv)

end
